(* ===== verification/Prelude.thy ===== *)
theory Prelude
  imports "HOL-Library.Multiset" "HOL-Library.Word"
begin

text \<open>
  What every component shares: the collections of rewrite rules that carry the component
  proofs, the Go string functions the source calls (\<open>strings\<close>, \<open>strconv\<close>), and generic lemmas
  on lists and association lists.  A Go string is a byte sequence; \<^typ>\<open>string\<close> (a list of
  8-bit characters) is that type.
\<close>

named_theorems fw_simps \<open>equations of the firewall backends and their contracts\<close>
named_theorems db_simps \<open>equations of the SQL statements of the database layer\<close>
named_theorems srv_simps \<open>equations of the HTTP layer\<close>

section \<open>Bytes and digits\<close>

abbreviation byte :: "char \<Rightarrow> nat" where
  "byte c \<equiv> of_char c"

definition is_digit :: "char \<Rightarrow> bool" where
  "is_digit c \<longleftrightarrow> 48 \<le> byte c \<and> byte c \<le> 57"

definition is_upper :: "char \<Rightarrow> bool" where
  "is_upper c \<longleftrightarrow> 65 \<le> byte c \<and> byte c \<le> 90"

definition is_lower :: "char \<Rightarrow> bool" where
  "is_lower c \<longleftrightarrow> 97 \<le> byte c \<and> byte c \<le> 122"

definition is_hex :: "char \<Rightarrow> bool" where
  "is_hex c \<longleftrightarrow> is_digit c \<or> (97 \<le> byte c \<and> byte c \<le> 102) \<or> (65 \<le> byte c \<and> byte c \<le> 70)"

definition digit_val :: "char \<Rightarrow> nat" where
  "digit_val c = byte c - 48"

definition hex_val :: "char \<Rightarrow> nat" where
  "hex_val c = (if is_digit c then byte c - 48
                else if 97 \<le> byte c then byte c - 87 else byte c - 55)"

definition digit_char :: "nat \<Rightarrow> char" where
  "digit_char n = char_of (48 + n)"

definition hex_char :: "nat \<Rightarrow> char" where
  "hex_char n = (if n < 10 then char_of (48 + n) else char_of (87 + n))"

lemma byte_digit_char [simp]: "n < 10 \<Longrightarrow> byte (digit_char n) = 48 + n"
  by (simp add: digit_char_def)

lemma byte_hex_char: "n < 16 \<Longrightarrow> byte (hex_char n) = (if n < 10 then 48 + n else 87 + n)"
  by (simp add: hex_char_def)

lemma is_digit_digit_char [simp]: "n < 10 \<Longrightarrow> is_digit (digit_char n)"
  by (simp add: is_digit_def)

lemma digit_val_digit_char [simp]: "n < 10 \<Longrightarrow> digit_val (digit_char n) = n"
  by (simp add: digit_val_def)

lemma is_hex_hex_char [simp]: "n < 16 \<Longrightarrow> is_hex (hex_char n)"
  by (auto simp: is_hex_def is_digit_def byte_hex_char)

lemma hex_val_hex_char [simp]: "n < 16 \<Longrightarrow> hex_val (hex_char n) = n"
  by (auto simp: hex_val_def is_digit_def byte_hex_char)

lemma byte_lt_256: "byte c < 256"
  using nat_of_char_less_256 [of c] by simp

section \<open>Decimal and hexadecimal numerals\<close>

definition val_of :: "nat \<Rightarrow> (char \<Rightarrow> nat) \<Rightarrow> string \<Rightarrow> nat" where
  "val_of b v s = foldl (\<lambda>acc c. acc * b + v c) 0 s"

fun digits_of :: "nat \<Rightarrow> (nat \<Rightarrow> char) \<Rightarrow> nat \<Rightarrow> string" where
  "digits_of b f n = (if b \<le> 1 \<or> n < b then [f n] else digits_of b f (n div b) @ [f (n mod b)])"

declare digits_of.simps [simp del]

definition dec_val :: "string \<Rightarrow> nat" where
  "dec_val s = val_of 10 digit_val s"

definition dec_str :: "nat \<Rightarrow> string" where
  "dec_str n = digits_of 10 digit_char n"

definition hexnum_val :: "string \<Rightarrow> nat" where
  "hexnum_val s = val_of 16 hex_val s"

definition hexnum_str :: "nat \<Rightarrow> string" where
  "hexnum_str n = digits_of 16 hex_char n"

lemma val_of_snoc: "val_of b v (s @ [c]) = val_of b v s * b + v c"
  by (simp add: val_of_def)

lemma val_of_single: "val_of b v [c] = v c"
  by (simp add: val_of_def)

lemma val_of_digits_of:
  assumes "1 < b" and "\<And>k. k < b \<Longrightarrow> v (f k) = k"
  shows "val_of b v (digits_of b f n) = n"
proof (induction n rule: less_induct)
  case (less n)
  show ?case
  proof (cases "n < b")
    case True
    then show ?thesis using assms by (simp add: digits_of.simps [of b f n] val_of_single)
  next
    case False
    with assms(1) have "n div b < n" by (simp add: div_less_dividend)
    then have "val_of b v (digits_of b f (n div b)) = n div b" by (rule less.IH)
    with False assms show ?thesis
      by (simp add: digits_of.simps [of b f n] val_of_snoc)
  qed
qed

lemma set_digits_of:
  assumes "1 < b" shows "set (digits_of b f n) \<subseteq> f ` {..<b}"
proof (induction n rule: less_induct)
  case (less n)
  show ?case
  proof (cases "n < b")
    case True
    then show ?thesis using assms by (simp add: digits_of.simps [of b f n])
  next
    case False
    with assms have "n div b < n" by (simp add: div_less_dividend)
    with less.IH False assms show ?thesis
      by (simp add: digits_of.simps [of b f n])
  qed
qed

lemma digits_of_nonempty [simp]: "digits_of b f n \<noteq> []"
  by (subst digits_of.simps) simp

lemma hd_digits_of_nonzero:
  assumes "1 < b" and "0 < n"
  shows "\<exists>k. 0 < k \<and> k < b \<and> hd (digits_of b f n) = f k"
  using assms(2)
proof (induction n rule: less_induct)
  case (less n)
  show ?case
  proof (cases "n < b")
    case True
    with less.prems assms(1) show ?thesis by (auto simp: digits_of.simps [of b f n])
  next
    case False
    with assms(1) have "n div b < n" and "0 < n div b"
      by (simp_all add: div_less_dividend div_greater_zero_iff)
    with less.IH have "\<exists>k. 0 < k \<and> k < b \<and> hd (digits_of b f (n div b)) = f k" by blast
    with False assms(1) show ?thesis by (simp add: digits_of.simps [of b f n])
  qed
qed

lemma length_digits_of:
  assumes "1 < b" and "n < b ^ k" and "0 < k"
  shows "length (digits_of b f n) \<le> k"
  using assms(2,3)
proof (induction k arbitrary: n)
  case 0
  then show ?case by simp
next
  case (Suc k)
  show ?case
  proof (cases "n < b")
    case True
    then show ?thesis using assms(1) by (simp add: digits_of.simps [of b f n])
  next
    case False
    with Suc.prems have "k \<noteq> 0" by (cases k) auto
    have "n div b < b ^ k"
      using Suc.prems assms(1) by (simp add: less_mult_imp_div_less mult.commute)
    with Suc.IH \<open>k \<noteq> 0\<close> have "length (digits_of b f (n div b)) \<le> k" by simp
    with False assms(1) show ?thesis by (simp add: digits_of.simps [of b f n])
  qed
qed

lemma dec_val_dec_str [simp]: "dec_val (dec_str n) = n"
  by (simp add: dec_val_def dec_str_def val_of_digits_of)

lemma hexnum_val_str [simp]: "hexnum_val (hexnum_str n) = n"
  by (simp add: hexnum_val_def hexnum_str_def val_of_digits_of)

lemma dec_str_digits: "list_all is_digit (dec_str n)"
proof -
  have "set (dec_str n) \<subseteq> digit_char ` {..<10}"
    unfolding dec_str_def by (rule set_digits_of) simp
  then show ?thesis by (auto simp: list_all_iff)
qed

lemma hexnum_str_hex: "list_all is_hex (hexnum_str n)"
proof -
  have "set (hexnum_str n) \<subseteq> hex_char ` {..<16}"
    unfolding hexnum_str_def by (rule set_digits_of) simp
  then show ?thesis by (auto simp: list_all_iff)
qed

lemma dec_str_nonempty [simp]: "dec_str n \<noteq> []"
  by (simp add: dec_str_def)

lemma hexnum_str_nonempty [simp]: "hexnum_str n \<noteq> []"
  by (simp add: hexnum_str_def)

lemma dec_str_inj: "dec_str m = dec_str n \<longleftrightarrow> m = n"
  by (metis dec_val_dec_str)

text \<open>\<open>strconv.Itoa\<close> / \<open>%d\<close>.\<close>

definition itoa :: "int \<Rightarrow> string" where
  "itoa i = (if i < 0 then CHR ''-'' # dec_str (nat (- i)) else dec_str (nat i))"

lemma digit_not_minus: "is_digit c \<Longrightarrow> c \<noteq> CHR ''-''"
  by (auto simp: is_digit_def)

lemma itoa_inj: "itoa i = itoa j \<longleftrightarrow> i = j"
proof
  have nm: "dec_str n \<noteq> CHR ''-'' # s" for n s
    using dec_str_digits [of n] by (auto dest: digit_not_minus)
  assume eq: "itoa i = itoa j"
  then show "i = j"
    using nm nm [symmetric] by (auto simp: itoa_def dec_str_inj split: if_splits)
qed simp

text \<open>
  \<open>strconv.ParseInt (s, 10, 64)\<close> and, on 64-bit hosts, \<open>strconv.Atoi\<close>: an optional sign, then at
  least one decimal digit and nothing else, in the range of a 64-bit integer.
\<close>

definition parse_int64 :: "string \<Rightarrow> int option" where
  "parse_int64 s =
     (let neg = (s \<noteq> [] \<and> hd s = CHR ''-'');
          body = (if s \<noteq> [] \<and> (hd s = CHR ''-'' \<or> hd s = CHR ''+'') then tl s else s)
      in if body = [] \<or> \<not> list_all is_digit body then None
         else let v = (if neg then - int (dec_val body) else int (dec_val body))
              in if - (2 ^ 63) \<le> v \<and> v < 2 ^ 63 then Some v else None)"

lemma parse_int64_range: "parse_int64 s = Some v \<Longrightarrow> - (2 ^ 63) \<le> v \<and> v < 2 ^ 63"
  by (auto simp: parse_int64_def Let_def split: if_splits)

lemma parse_int64_itoa:
  assumes "- (2 ^ 63) \<le> i" and "i < 2 ^ 63"
  shows "parse_int64 (itoa i) = Some i"
proof (cases "i < 0")
  case True
  then show ?thesis
    using assms dec_str_digits [of "nat (- i)"]
    by (simp add: parse_int64_def itoa_def)
next
  case False
  have "hd (dec_str (nat i)) \<noteq> CHR ''-''" "hd (dec_str (nat i)) \<noteq> CHR ''+''"
    using dec_str_digits [of "nat i"] dec_str_nonempty [of "nat i"]
    by (cases "dec_str (nat i)"; auto simp: is_digit_def)+
  with False show ?thesis
    using assms dec_str_digits [of "nat i"]
    by (simp add: parse_int64_def itoa_def)
qed

section \<open>Go's string functions\<close>

definition has_prefix :: "string \<Rightarrow> string \<Rightarrow> bool" where
  "has_prefix p s \<longleftrightarrow> take (length p) s = p"

lemma has_prefix_append [simp]: "has_prefix p (p @ s)"
  by (simp add: has_prefix_def)

lemma has_prefix_iff: "has_prefix p s \<longleftrightarrow> (\<exists>t. s = p @ t)"
  by (metis append_take_drop_id has_prefix_append has_prefix_def)

lemma has_prefix_append_same [simp]: "has_prefix (p @ q) (p @ s) \<longleftrightarrow> has_prefix q s"
  by (auto simp: has_prefix_iff)

lemma has_prefix_Nil [simp]: "has_prefix [] s"
  by (simp add: has_prefix_def)

lemma has_prefix_Cons [simp]: "has_prefix (c # p) (d # s) \<longleftrightarrow> c = d \<and> has_prefix p s"
  by (auto simp: has_prefix_def)

lemma has_prefix_Cons_Nil [simp]: "\<not> has_prefix (c # p) []"
  by (simp add: has_prefix_def)

text \<open>Splitting at the first occurrence of a byte (\<open>strings.IndexByte\<close> and the two slices around
  it): \<open>None\<close> when the byte does not occur.\<close>

definition cut_at :: "char \<Rightarrow> string \<Rightarrow> (string \<times> string) option" where
  "cut_at c s = (if c \<in> set s
                 then Some (takeWhile (\<lambda>x. x \<noteq> c) s, tl (dropWhile (\<lambda>x. x \<noteq> c) s)) else None)"

lemma cut_at_append:
  assumes "c \<notin> set p"
  shows "cut_at c (p @ c # q) = Some (p, q)"
  using assms by (induction p) (auto simp: cut_at_def)

lemma cut_at_None: "c \<notin> set s \<Longrightarrow> cut_at c s = None"
  by (simp add: cut_at_def)

lemma cut_at_Some: "cut_at c s = Some (p, q) \<Longrightarrow> s = p @ c # q \<and> c \<notin> set p"
proof -
  assume a: "cut_at c s = Some (p, q)"
  then have c: "c \<in> set s" and p: "p = takeWhile (\<lambda>x. x \<noteq> c) s"
    and q: "q = tl (dropWhile (\<lambda>x. x \<noteq> c) s)"
    by (auto simp: cut_at_def split: if_splits)
  from c have "dropWhile (\<lambda>x. x \<noteq> c) s = c # q"
    using q by (induction s) auto
  moreover have "c \<notin> set p" using p by (auto dest: set_takeWhileD)
  ultimately show ?thesis using p by (metis takeWhile_dropWhile_id)
qed

text \<open>\<open>strings.Split\<close> with a one-byte separator.\<close>

fun split_on :: "char \<Rightarrow> string \<Rightarrow> string list" where
  "split_on c [] = [[]]"
| "split_on c (x # xs) =
     (if x = c then [] # split_on c xs
      else (case split_on c xs of [] \<Rightarrow> [[x]] | y # ys \<Rightarrow> (x # y) # ys))"

lemma split_on_nonempty [simp]: "split_on c s \<noteq> []"
  by (induction s) (auto split: list.splits)

lemma split_on_no_sep: "c \<notin> set s \<Longrightarrow> split_on c s = [s]"
  by (induction s) auto

lemma split_on_append: "c \<notin> set p \<Longrightarrow> split_on c (p @ c # q) = p # split_on c q"
  by (induction p) auto

text \<open>\<open>strings.Join\<close>.\<close>

fun join :: "string \<Rightarrow> string list \<Rightarrow> string" where
  "join sep [] = []"
| "join sep [x] = x"
| "join sep (x # y # ys) = x @ sep @ join sep (y # ys)"

lemma split_on_join:
  assumes "xs \<noteq> []" and "\<forall>x \<in> set xs. c \<notin> set x"
  shows "split_on c (join [c] xs) = xs"
  using assms
  by (induction "[c]" xs rule: join.induct) (auto simp: split_on_no_sep split_on_append)

text \<open>
  \<open>strings.TrimSpace\<close> drops leading and trailing Unicode white space; the ASCII characters and the
  UTF-8 encodings of the others are listed.
\<close>

definition space_codes :: "string list" where
  "space_codes = map (map (char_of :: nat \<Rightarrow> char))
     ([[9], [10], [11], [12], [13], [32], [194, 133], [194, 160], [225, 154, 128],
       [226, 128, 168], [226, 128, 169], [226, 128, 175], [226, 129, 159], [227, 128, 128]]
      @ map (\<lambda>k. [226, 128, k]) [128, 129, 130, 131, 132, 133, 134, 135, 136, 137, 138])"

definition lead_space :: "string \<Rightarrow> nat" where
  "lead_space s = (case find (\<lambda>e. has_prefix e s) space_codes of None \<Rightarrow> 0 | Some e \<Rightarrow> length e)"

definition trail_space :: "string \<Rightarrow> nat" where
  "trail_space s = (case find (\<lambda>e. has_prefix (rev e) (rev s)) space_codes of
                      None \<Rightarrow> 0 | Some e \<Rightarrow> length e)"

function trim_left :: "string \<Rightarrow> string" where
  "trim_left s = (if lead_space s = 0 \<or> s = [] then s else trim_left (drop (lead_space s) s))"
  by pat_completeness auto
termination by (relation "measure length") auto

function trim_right :: "string \<Rightarrow> string" where
  "trim_right s = (if trail_space s = 0 \<or> s = [] then s
                   else trim_right (take (length s - trail_space s) s))"
  by pat_completeness auto
termination by (relation "measure length") auto

declare trim_left.simps [simp del] trim_right.simps [simp del]

definition trim_space :: "string \<Rightarrow> string" where
  "trim_space s = trim_right (trim_left s)"

lemma space_codes_ends:
  "\<forall>e \<in> set space_codes. e \<noteq> [] \<and> \<not> is_digit (hd e) \<and> \<not> is_digit (last e)"
  by (simp add: space_codes_def is_digit_def)

text \<open>A string whose characters begin or end no white space has none to trim.\<close>

lemma trim_space_id:
  assumes "\<forall>e \<in> set space_codes. e \<noteq> [] \<and> \<not> P (hd e) \<and> \<not> P (last e)" and "list_all P s"
  shows "trim_space s = s"
proof -
  have "\<not> has_prefix e s" if "e \<in> set space_codes" for e
    using assms that by (cases e; cases s) auto
  then have "find (\<lambda>e. has_prefix e s) space_codes = None" by (simp add: find_None_iff)
  then have l: "trim_left s = s" by (subst trim_left.simps) (simp add: lead_space_def)
  have "\<not> has_prefix (rev e) (rev s)" if e: "e \<in> set space_codes" for e
  proof
    assume p: "has_prefix (rev e) (rev s)"
    have ne: "e \<noteq> []" using assms(1) e by blast
    with p obtain t where "rev s = rev e @ t" by (auto simp: has_prefix_iff)
    then have "last e \<in> set s" using ne by (metis Un_iff last_in_set set_append set_rev)
    then have "P (last e)" using assms(2) by (simp add: list_all_iff)
    with assms(1) e show False by blast
  qed
  then have "find (\<lambda>e. has_prefix (rev e) (rev s)) space_codes = None" by (simp add: find_None_iff)
  then have "trim_right s = s" by (subst trim_right.simps) (simp add: trail_space_def)
  with l show ?thesis by (simp add: trim_space_def)
qed

lemma trim_space_digits: "list_all is_digit s \<Longrightarrow> trim_space s = s"
  by (rule trim_space_id [OF space_codes_ends])

section \<open>Lists and association lists\<close>

lemma find_Some_iff': "find P xs = Some x \<Longrightarrow> x \<in> set xs \<and> P x"
  by (induction xs) (auto split: if_splits)

lemma find_None_filter: "find P xs = None \<longleftrightarrow> filter P xs = []"
  by (auto simp: find_None_iff filter_empty_conv)

lemma map_of_filter_key: "map_of (filter (\<lambda>p. P (fst p)) xs) k = (if P k then map_of xs k else None)"
  by (induction xs) auto

lemma mset_filter_split: "mset (filter P xs) + mset (filter (\<lambda>x. \<not> P x) xs) = mset xs"
  by simp

lemma in_set_map_filter: "x \<in> set (map f (filter P xs)) \<longleftrightarrow> (\<exists>y \<in> set xs. P y \<and> x = f y)"
  by auto

text \<open>Multisets of distinct keys.\<close>

lemma mset_set_split:
  assumes "finite W"
  shows "mset_set (W \<inter> S) + mset_set {k \<in> W. k \<notin> S \<and> P k} = mset_set {k \<in> W. k \<in> S \<or> P k}"
proof -
  have "{k \<in> W. k \<in> S \<or> P k} = W \<inter> S \<union> {k \<in> W. k \<notin> S \<and> P k}" by blast
  moreover have "(W \<inter> S) \<inter> {k \<in> W. k \<notin> S \<and> P k} = {}" by blast
  ultimately show ?thesis using assms by (simp add: mset_set_Union)
qed

lemma mset_eq_mset_set:
  assumes "mset xs = mset_set X" and "finite X"
  shows "set xs = X" and "distinct xs"
proof -
  show "set xs = X" using assms by (metis finite_set_mset_mset_set set_mset_mset)
  then show "distinct xs"
    using assms by (simp add: distinct_count_atmost_1)
qed

lemma list_all2_left: "list_all2 P xs ys \<Longrightarrow> x \<in> set xs \<Longrightarrow> \<exists>y \<in> set ys. P x y"
  by (induction rule: list_all2_induct) auto

lemma list_all2_right: "list_all2 P xs ys \<Longrightarrow> y \<in> set ys \<Longrightarrow> \<exists>x \<in> set xs. P x y"
  by (induction rule: list_all2_induct) auto

lemma find_key_iff:
  "distinct (map f xs) \<Longrightarrow> find (\<lambda>x. f x = k) xs = Some x \<longleftrightarrow> x \<in> set xs \<and> f x = k"
  by (induction xs) (auto simp: rev_image_eqI)

end
