(* ===== verification/IPAddr.thy ===== *)
theory IPAddr
  imports Prelude
begin

text \<open>
  The part of Go's \<open>net\<close> package the source uses on addresses: \<open>net.ParseIP\<close>, \<open>IP.String\<close>,
  \<open>IP.To4\<close>, \<open>IP.Equal\<close>, \<open>IP.IsLoopback\<close> and \<open>IP.IsUnspecified\<close>.  A 16-byte \<open>net.IP\<close> is the list
  of its eight 16-bit groups; an IPv4 address is the IPv4-mapped IPv6 address, as \<open>ParseIP\<close>
  returns it.  The main result is that printing a parsed address and parsing it again gives the
  same address (\<open>parse_ip_string\<close>), so the printed form is canonical.
\<close>

type_synonym ip = "nat list"

definition wf_ip :: "ip \<Rightarrow> bool" where
  "wf_ip g \<longleftrightarrow> length g = 8 \<and> (\<forall>x \<in> set g. x < 65536)"

definition v4_mapped :: "nat list \<Rightarrow> ip" where
  "v4_mapped f = [0, 0, 0, 0, 0, 65535, f ! 0 * 256 + f ! 1, f ! 2 * 256 + f ! 3]"

definition to4 :: "ip \<Rightarrow> nat list option" where
  "to4 g = (if take 6 g = [0, 0, 0, 0, 0, 65535]
            then Some [g ! 6 div 256, g ! 6 mod 256, g ! 7 div 256, g ! 7 mod 256] else None)"

definition is_loopback :: "ip \<Rightarrow> bool" where
  "is_loopback g = (case to4 g of Some f \<Rightarrow> f ! 0 = 127 | None \<Rightarrow> g = [0, 0, 0, 0, 0, 0, 0, 1])"

definition is_unspecified :: "ip \<Rightarrow> bool" where
  "is_unspecified g \<longleftrightarrow> g = [0, 0, 0, 0, 0, 65535, 0, 0] \<or> g = [0, 0, 0, 0, 0, 0, 0, 0]"

section \<open>Parsing\<close>

text \<open>Four decimal fields of at most 255, without leading zeros.\<close>

definition v4_field :: "string \<Rightarrow> bool" where
  "v4_field s \<longleftrightarrow> s \<noteq> [] \<and> list_all is_digit s \<and> (hd s = CHR ''0'' \<longrightarrow> length s = 1) \<and> dec_val s \<le> 255"

definition parse_v4 :: "string \<Rightarrow> nat list option" where
  "parse_v4 s = (let fs = split_on CHR ''.'' s in
                 if length fs = 4 \<and> list_all v4_field fs then Some (map dec_val fs) else None)"

text \<open>
  The group loop of the IPv6 parser: \<open>gs\<close> are the groups read, \<open>el\<close> the position of the
  ellipsis.  Each round reads 1 to 4 hexadecimal digits; a dot after them makes the rest of the
  text (from the digits on) a trailing IPv4 address.
\<close>

function v6_loop :: "string \<Rightarrow> nat list \<Rightarrow> nat option \<Rightarrow> (nat list \<times> nat option) option" where
  "v6_loop s gs el =
     (if 8 \<le> length gs then (if s = [] then Some (gs, el) else None)
      else (let h = takeWhile is_hex s; r = dropWhile is_hex s in
        if h = [] \<or> 4 < length h then None
        else if r \<noteq> [] \<and> hd r = CHR ''.'' then
          (if (el = None \<and> length gs \<noteq> 6) \<or> 6 < length gs then None
           else (case parse_v4 s of
                   None \<Rightarrow> None
                 | Some f \<Rightarrow> Some (gs @ [f ! 0 * 256 + f ! 1, f ! 2 * 256 + f ! 3], el)))
        else (let gs' = gs @ [hexnum_val h] in
          case r of
            [] \<Rightarrow> Some (gs', el)
          | c # r1 \<Rightarrow>
              if c \<noteq> CHR '':'' then None
              else (case r1 of
                      [] \<Rightarrow> None
                    | c2 # r2 \<Rightarrow>
                        if c2 = CHR '':'' then
                          (if el \<noteq> None then None
                           else if r2 = [] then Some (gs', Some (length gs'))
                           else v6_loop r2 gs' (Some (length gs')))
                        else v6_loop r1 gs' el))))"
  by pat_completeness auto
termination
proof (relation "measure (\<lambda>(s, gs, el). length s)", goal_cases)
  case 1
  show ?case by simp
next
  case (2 s gs el h r gs' c r1 c2 r2)
  then have "Suc (Suc (length r2)) \<le> length s"
    using length_dropWhile_le [of is_hex s] by (metis length_Cons)
  then show ?case by simp
next
  case (3 s gs el h r gs' c r1 c2 r2)
  then have "Suc (length r1) \<le> length s"
    using length_dropWhile_le [of is_hex s] by (metis length_Cons)
  then show ?case by simp
qed

declare v6_loop.simps [simp del]

definition v6_expand :: "nat list \<times> nat option \<Rightarrow> ip option" where
  "v6_expand p = (case p of (gs, el) \<Rightarrow>
     if length gs < 8
     then (case el of None \<Rightarrow> None
                    | Some k \<Rightarrow> Some (take k gs @ replicate (8 - length gs) 0 @ drop k gs))
     else if el = None then Some gs else None)"

definition parse_v6 :: "string \<Rightarrow> ip option" where
  "parse_v6 s =
     (if has_prefix ''::'' s
      then (let t = drop 2 s in
            if t = [] then Some (replicate 8 0)
            else Option.bind (v6_loop t [] (Some 0)) v6_expand)
      else Option.bind (v6_loop s [] None) v6_expand)"

text \<open>\<open>net.ParseIP\<close>: the first of \<open>.\<close> and \<open>:\<close> decides the family; a zone (\<open>%\<close>) is refused.\<close>

definition parse_ip :: "string \<Rightarrow> ip option" where
  "parse_ip s =
     (if CHR ''%'' \<in> set s then None
      else (case find (\<lambda>c. c = CHR ''.'' \<or> c = CHR '':'') s of
              None \<Rightarrow> None
            | Some c \<Rightarrow> if c = CHR ''.'' then map_option v4_mapped (parse_v4 s) else parse_v6 s))"

section \<open>Printing\<close>

definition zero_run :: "nat list \<Rightarrow> nat \<Rightarrow> nat" where
  "zero_run g i = length (takeWhile (\<lambda>x. x = 0) (drop i g))"

definition best_run :: "nat list \<Rightarrow> nat \<times> nat" where
  "best_run g = foldl (\<lambda>(s, l) i. if 2 \<le> zero_run g i \<and> l < zero_run g i then (i, zero_run g i)
                                   else (s, l)) (0, 0) [0..<8]"

definition v6_string :: "ip \<Rightarrow> string" where
  "v6_string g = (case best_run g of (s, l) \<Rightarrow>
     if l = 0 then join '':'' (map hexnum_str g)
     else join '':'' (map hexnum_str (take s g)) @ ''::'' @ join '':'' (map hexnum_str (drop (s + l) g)))"

text \<open>\<open>IP.String\<close>.\<close>

definition ip_string :: "ip \<Rightarrow> string" where
  "ip_string g = (case to4 g of
     Some f \<Rightarrow> join ''.'' (map dec_str f)
   | None \<Rightarrow> v6_string g)"

section \<open>Printing and parsing again\<close>

lemma dec_str_no_char: "\<not> is_digit c \<Longrightarrow> c \<notin> set (dec_str n)"
  using dec_str_digits [of n] by (auto simp: list_all_iff)

lemma hexnum_str_no_char: "\<not> is_hex c \<Longrightarrow> c \<notin> set (hexnum_str n)"
  using hexnum_str_hex [of n] by (auto simp: list_all_iff)

lemma not_digit_chars [simp]:
  "\<not> is_digit CHR ''.''" "\<not> is_digit CHR '':''" "\<not> is_digit CHR ''%''"
  by (simp_all add: is_digit_def)

lemma not_hex_chars [simp]:
  "\<not> is_hex CHR ''.''" "\<not> is_hex CHR '':''" "\<not> is_hex CHR ''%''"
  by (simp_all add: is_hex_def)

lemma hd_dec_str_zero: "hd (dec_str n) = CHR ''0'' \<Longrightarrow> n = 0"
proof (rule ccontr)
  assume h: "hd (dec_str n) = CHR ''0''" and "n \<noteq> 0"
  then obtain k where k: "0 < k" "k < 10" "hd (dec_str n) = digit_char k"
    using hd_digits_of_nonzero [of 10 n digit_char] by (auto simp: dec_str_def)
  then have "byte (hd (dec_str n)) = 48 + k" by simp
  with h k show False by simp
qed

lemma dec_str_0: "dec_str 0 = ''0''"
  by code_simp

lemma v4_field_dec_str: "n \<le> 255 \<Longrightarrow> v4_field (dec_str n)"
  using hd_dec_str_zero [of n] dec_str_digits [of n] by (auto simp: v4_field_def dec_str_0)

lemma parse_v4_join:
  assumes "length f = 4" and "\<forall>x \<in> set f. x \<le> 255"
  shows "parse_v4 (join ''.'' (map dec_str f)) = Some f"
proof -
  have ne: "map dec_str f \<noteq> []" using assms(1) by auto
  have "\<forall>x \<in> set (map dec_str f). CHR ''.'' \<notin> set x" by (auto simp: dec_str_no_char)
  then have "split_on CHR ''.'' (join ''.'' (map dec_str f)) = map dec_str f"
    by (rule split_on_join [OF ne])
  moreover have "list_all v4_field (map dec_str f)"
    using assms(2) by (auto simp: list_all_iff v4_field_dec_str)
  ultimately show ?thesis using assms(1) by (simp add: parse_v4_def comp_def)
qed

lemma length_hexnum_str: "n < 65536 \<Longrightarrow> length (hexnum_str n) \<le> 4"
  using length_digits_of [of 16 n 4 hex_char] by (simp add: hexnum_str_def)

lemma takeWhile_hexnum: "takeWhile is_hex (hexnum_str n @ r) = hexnum_str n @ takeWhile is_hex r"
  and dropWhile_hexnum: "dropWhile is_hex (hexnum_str n @ r) = dropWhile is_hex r"
  using hexnum_str_hex [of n]
  by (auto simp: list_all_iff takeWhile_append2 dropWhile_append2)

lemma takeWhile_hexnum_end [simp]: "takeWhile is_hex (hexnum_str n) = hexnum_str n"
  and dropWhile_hexnum_end [simp]: "dropWhile is_hex (hexnum_str n) = []"
  using takeWhile_hexnum [of n "[]"] dropWhile_hexnum [of n "[]"] by simp_all

lemma not_long_hexnum: "n < 65536 \<Longrightarrow> \<not> 4 < length (hexnum_str n)"
  using length_hexnum_str by (simp add: not_less)

lemma v6_loop_end:
  assumes "length gs < 8" and "n < 65536"
  shows "v6_loop (hexnum_str n) gs el = Some (gs @ [n], el)"
  using assms by (subst v6_loop.simps) (simp add: not_long_hexnum Let_def)

lemma v6_loop_step:
  assumes "length gs < 8" and "n < 65536" and "r \<noteq> []" and "hd r \<noteq> CHR '':''"
  shows "v6_loop (hexnum_str n @ CHR '':'' # r) gs el = v6_loop r (gs @ [n]) el"
  using assms
  by (subst v6_loop.simps, cases r)
    (simp_all add: takeWhile_hexnum dropWhile_hexnum not_long_hexnum Let_def)

lemma v6_loop_ellipsis:
  assumes "length gs < 8" and "n < 65536"
  shows "v6_loop (hexnum_str n @ CHR '':'' # CHR '':'' # r) gs None =
     (if r = [] then Some (gs @ [n], Some (Suc (length gs)))
      else v6_loop r (gs @ [n]) (Some (Suc (length gs))))"
  using assms
  by (subst v6_loop.simps)
    (simp add: takeWhile_hexnum dropWhile_hexnum not_long_hexnum Let_def)

lemma hd_hexnum_not_colon [simp]: "hd (hexnum_str n @ r) \<noteq> CHR '':''"
  using hexnum_str_hex [of n] by (cases "hexnum_str n") auto

lemma join_cons_hex: "hs \<noteq> [] \<Longrightarrow>
    join sep (map hexnum_str (h # hs)) = hexnum_str h @ sep @ join sep (map hexnum_str hs)"
  by (cases hs) auto

lemma hd_join_hex [simp]: "hs \<noteq> [] \<Longrightarrow> hd (join '':'' (map hexnum_str hs) @ r) \<noteq> CHR '':''"
  using hd_hexnum_not_colon by (cases hs rule: list.exhaust; cases "tl hs") (auto simp: hd_append)

lemma join_hex_nonempty [simp]: "join '':'' (map hexnum_str hs) = [] \<longleftrightarrow> hs = []"
  by (cases hs rule: list.exhaust; cases "tl hs") auto

lemma v6_loop_join:
  assumes "hs \<noteq> []" and "length gs + length hs \<le> 8" and "\<forall>x \<in> set hs. x < 65536"
  shows "v6_loop (join '':'' (map hexnum_str hs)) gs el = Some (gs @ hs, el)"
  using assms
proof (induction hs arbitrary: gs)
  case Nil
  then show ?case by simp
next
  case (Cons h hs)
  show ?case
  proof (cases "hs = []")
    case True
    with Cons.prems show ?thesis by (simp add: v6_loop_end)
  next
    case False
    then have "hd (join '':'' (map hexnum_str hs)) \<noteq> CHR '':''"
      using hd_join_hex [of hs "[]"] by simp
    with Cons False show ?thesis
      by (simp add: join_cons_hex v6_loop_step del: join.simps list.map)
  qed
qed

lemma v6_loop_join_ellipsis:
  assumes "hs \<noteq> []" and "length gs + length hs < 8" and "\<forall>x \<in> set hs. x < 65536"
  shows "v6_loop (join '':'' (map hexnum_str hs) @ ''::'' @ r) gs None =
     (if r = [] then Some (gs @ hs, Some (length gs + length hs))
      else v6_loop r (gs @ hs) (Some (length gs + length hs)))"
  using assms
proof (induction hs arbitrary: gs)
  case Nil
  then show ?case by simp
next
  case (Cons h hs)
  show ?case
  proof (cases "hs = []")
    case True
    with Cons.prems show ?thesis by (simp add: v6_loop_ellipsis)
  next
    case False
    then have "hd (join '':'' (map hexnum_str hs) @ ''::'' @ r) \<noteq> CHR '':''"
      by (rule hd_join_hex)
    with Cons False show ?thesis
      by (simp add: join_cons_hex v6_loop_step del: join.simps list.map)
  qed
qed

lemma zero_run_replicate:
  "take (zero_run g i) (drop i g) = replicate (zero_run g i) 0" "i \<le> length g \<Longrightarrow> i + zero_run g i \<le> length g"
proof -
  have "takeWhile (\<lambda>x. x = 0) (drop i g) = replicate (zero_run g i) 0"
    unfolding zero_run_def by (rule replicate_eqI) (auto dest: set_takeWhileD)
  then show "take (zero_run g i) (drop i g) = replicate (zero_run g i) 0"
    by (metis takeWhile_eq_take zero_run_def)
  show "i \<le> length g \<Longrightarrow> i + zero_run g i \<le> length g"
    using length_takeWhile_le [of "\<lambda>x. x = 0" "drop i g"] by (simp add: zero_run_def)
qed

lemma best_run_cases:
  assumes "length g = 8" and "best_run g = (s, l)"
  shows "l = 0 \<or> (2 \<le> l \<and> s + l \<le> 8 \<and> take l (drop s g) = replicate l 0)"
proof -
  let ?f = "\<lambda>(s, l) i. if 2 \<le> zero_run g i \<and> l < zero_run g i then (i, zero_run g i) else (s, l)"
  let ?P = "\<lambda>p. snd p = 0 \<or> (2 \<le> snd p \<and> fst p + snd p \<le> 8 \<and>
              take (snd p) (drop (fst p) g) = replicate (snd p) 0)"
  have "?P p \<Longrightarrow> (\<forall>i \<in> set is. i \<le> 8) \<Longrightarrow> ?P (foldl ?f p is)" for p "is"
  proof (induction "is" arbitrary: p)
    case Nil
    then show ?case by simp
  next
    case (Cons i "is")
    have "?P (?f p i)"
      using Cons.prems zero_run_replicate [where g = g and i = i] assms(1) by (cases p) auto
    moreover have "\<forall>i \<in> set is. i \<le> 8" using Cons.prems by simp
    ultimately have "?P (foldl ?f (?f p i) is)" by (rule Cons.IH)
    then show ?case by simp
  qed
  from this [of "(0, 0)" "[0..<8]"] have "?P (best_run g)" by (simp add: best_run_def)
  with assms(2) show ?thesis by simp
qed

lemma parse_v6_string:
  assumes "wf_ip g"
  shows "parse_v6 (v6_string g) = Some g"
proof -
  obtain s l where b: "best_run g = (s, l)" by fastforce
  have len: "length g = 8" and bd: "\<forall>x \<in> set g. x < 65536" using assms by (auto simp: wf_ip_def)
  consider (none) "l = 0" | (run) "2 \<le> l" "s + l \<le> 8" "take l (drop s g) = replicate l 0"
    using best_run_cases [OF len b] by blast
  then show ?thesis
  proof cases
    case none
    have ne: "g \<noteq> []" using len by auto
    have np: "\<not> has_prefix ''::'' (join '':'' (map hexnum_str g))"
      using hd_join_hex [OF ne, of "[]"] by (cases "join '':'' (map hexnum_str g)") auto
    have "v6_loop (join '':'' (map hexnum_str g)) [] None = Some (g, None)"
      using v6_loop_join [OF ne, of "[]" None] len bd by simp
    with none np show ?thesis by (simp add: v6_string_def b parse_v6_def v6_expand_def len)
  next
    case run
    let ?a = "take s g" and ?b = "drop (s + l) g"
    have ab: "?a @ replicate l 0 @ ?b = g"
      using run(3) by (metis append_take_drop_id drop_drop add.commute)
    have la: "length ?a = s" and lb: "length ?b = 8 - (s + l)" using run(2) len by auto
    have bda: "\<forall>x \<in> set ?a. x < 65536" and bdb: "\<forall>x \<in> set ?b. x < 65536"
      using bd by (auto dest: in_set_takeD in_set_dropD)
    have str: "v6_string g = join '':'' (map hexnum_str ?a) @ ''::'' @ join '':'' (map hexnum_str ?b)"
      using run(1) by (simp add: v6_string_def b)
    have exp: "v6_expand (?a @ ?b, Some s) = Some g"
      using run(1,2) la lb ab by (simp add: v6_expand_def)
    show ?thesis
    proof (cases "?a = []")
      case True
      then have s0: "s = 0" using la by (metis list.size(3))
      have "parse_v6 (v6_string g) = Some g" if b0: "?b = []"
      proof -
        have "8 - (s + l) = 0" using lb b0 by (metis list.size(3))
        then have "l = 8" using run(2) s0 by simp
        then have "g = replicate 8 0" using ab True b0 by simp
        moreover have "parse_v6 ''::'' = Some (replicate 8 0)" by (simp add: parse_v6_def)
        moreover have "v6_string g = ''::''" by (simp add: str True b0 del: append_take_drop_id)
        ultimately show ?thesis by metis
      qed
      moreover have "parse_v6 (v6_string g) = Some g" if "?b \<noteq> []"
      proof -
        have "v6_loop (join '':'' (map hexnum_str ?b)) [] (Some 0) = Some (?b, Some 0)"
          using v6_loop_join [OF that, of "[]" "Some 0"] lb bdb by simp
        then show ?thesis using that exp True s0 by (simp add: str parse_v6_def)
      qed
      ultimately show ?thesis by blast
    next
      case False
      have np: "\<not> has_prefix ''::'' (join '':'' (map hexnum_str ?a) @ ''::'' @ r)" for r
        using hd_join_hex [OF False, of "''::'' @ r"]
        by (cases "join '':'' (map hexnum_str ?a) @ ''::'' @ r") auto
      have "v6_loop (join '':'' (map hexnum_str ?a) @ ''::'' @ join '':'' (map hexnum_str ?b)) [] None
            = Some (?a @ ?b, Some s)"
      proof (cases "?b = []")
        case True
        then show ?thesis
          using v6_loop_join_ellipsis [OF False, of "[]" "[]"] la lb run bda by simp
      next
        case nb: False
        have "v6_loop (join '':'' (map hexnum_str ?b)) ?a (Some s) = Some (?a @ ?b, Some s)"
          using v6_loop_join [OF nb, of ?a "Some s"] la lb run bdb by simp
        then show ?thesis
          using v6_loop_join_ellipsis [OF False, of "[]" "join '':'' (map hexnum_str ?b)"]
            la lb run bda nb by simp
      qed
      then show ?thesis using np [of "join '':'' (map hexnum_str ?b)"] exp
        by (simp add: str parse_v6_def)
    qed
  qed
qed

lemma set_join_hex: "c \<in> set (join '':'' (map hexnum_str hs)) \<Longrightarrow> is_hex c \<or> c = CHR '':''"
proof (induction hs)
  case Nil
  then show ?case by simp
next
  case (Cons h hs)
  then show ?case
    using hexnum_str_hex [of h]
    by (cases "hs = []") (auto simp: join_cons_hex list_all_iff simp del: join.simps(3) list.map(2),
        auto simp: list_all_iff)
qed

lemma colon_in_join: "2 \<le> length hs \<Longrightarrow> CHR '':'' \<in> set (join '':'' (map hexnum_str hs))"
  by (cases hs rule: list.exhaust; cases "tl hs") auto

lemma set_v6_string:
  assumes "length g = 8"
  shows "CHR '':'' \<in> set (v6_string g)" "c \<in> set (v6_string g) \<Longrightarrow> is_hex c \<or> c = CHR '':''"
  using assms by (cases "best_run g";
      auto simp: v6_string_def colon_in_join split: if_splits dest: set_join_hex)+

lemma parse_ip_hex_colon:
  assumes "CHR '':'' \<in> set s" and "\<And>c. c \<in> set s \<Longrightarrow> is_hex c \<or> c = CHR '':''"
  shows "parse_ip s = parse_v6 s"
proof -
  have dot: "CHR ''.'' \<notin> set s" and pct: "CHR ''%'' \<notin> set s"
    using assms(2) not_hex_chars by fastforce+
  have "find (\<lambda>c. c = CHR ''.'' \<or> c = CHR '':'') s = Some CHR '':''"
    using assms(1) dot by (induction s) auto
  with pct show ?thesis by (simp add: parse_ip_def)
qed

lemma parse_ip_dotted:
  assumes "length f = 4" and "\<forall>x \<in> set f. x \<le> 255"
  shows "parse_ip (join ''.'' (map dec_str f)) = Some (v4_mapped f)"
proof -
  obtain a b c d where f: "f = [a, b, c, d]"
    using assms(1) by (auto simp: length_Suc_conv numeral_eq_Suc)
  have dig: "find (\<lambda>c. c = CHR ''.'' \<or> c = CHR '':'') (xs @ CHR ''.'' # r) = Some CHR ''.''"
    if "list_all is_digit xs" for xs r
    using that by (induction xs) auto
  have "find (\<lambda>c. c = CHR ''.'' \<or> c = CHR '':'') (join ''.'' (map dec_str f)) = Some CHR ''.''"
    using dig [OF dec_str_digits [of a]] by (simp add: f)
  moreover have "CHR ''%'' \<notin> set (join ''.'' (map dec_str f))"
    by (simp add: f dec_str_no_char)
  ultimately show ?thesis using parse_v4_join [OF assms] by (simp add: parse_ip_def)
qed

text \<open>Printing a well-formed address gives text that parses to that address.\<close>

lemma parse_ip_string:
  assumes "wf_ip g"
  shows "parse_ip (ip_string g) = Some g"
proof (cases "to4 g")
  case None
  have "length g = 8" using assms by (simp add: wf_ip_def)
  then show ?thesis
    using None set_v6_string [of g] parse_ip_hex_colon [of "v6_string g"] parse_v6_string [OF assms]
    by (simp add: ip_string_def)
next
  case (Some f)
  then have t: "take 6 g = [0, 0, 0, 0, 0, 65535]"
    and f: "f = [g ! 6 div 256, g ! 6 mod 256, g ! 7 div 256, g ! 7 mod 256]"
    by (auto simp: to4_def split: if_splits)
  have len: "length g = 8" and bd: "g ! 6 < 65536" "g ! 7 < 65536"
    using assms by (auto simp: wf_ip_def)
  have "drop 6 g = [g ! 6, g ! 7]"
    using len by (simp add: Cons_nth_drop_Suc [symmetric])
  then have "g = [0, 0, 0, 0, 0, 65535, g ! 6, g ! 7]"
    using t append_take_drop_id [of 6 g] by simp
  moreover have "v4_mapped f = [0, 0, 0, 0, 0, 65535, g ! 6, g ! 7]"
    by (simp add: v4_mapped_def f)
  moreover have "parse_ip (join ''.'' (map dec_str f)) = Some (v4_mapped f)"
    using bd by (intro parse_ip_dotted) (auto simp: f)
  ultimately show ?thesis using Some by (simp add: ip_string_def)
qed

section \<open>Parsed addresses are well-formed\<close>

lemma hex_val_lt: "is_hex c \<Longrightarrow> hex_val c < 16"
  by (auto simp: is_hex_def hex_val_def is_digit_def)

lemma val_of_bound:
  assumes "\<forall>c \<in> set s. v c < b" and "0 < b"
  shows "val_of b v s < b ^ length s"
  using assms(1)
proof (induction s rule: rev_induct)
  case Nil
  then show ?case by (simp add: val_of_def)
next
  case (snoc c s)
  then have "val_of b v s + 1 \<le> b ^ length s" and "v c < b" by simp_all
  then have "val_of b v s * b + v c < (val_of b v s + 1) * b" by simp
  also have "\<dots> \<le> b ^ length s * b"
    using \<open>val_of b v s + 1 \<le> b ^ length s\<close> by (rule mult_le_mono1)
  finally show ?case by (simp add: val_of_snoc mult.commute)
qed

lemma hexnum_val_lt: "list_all is_hex h \<Longrightarrow> length h \<le> 4 \<Longrightarrow> hexnum_val h < 65536"
proof -
  assume h: "list_all is_hex h" and l: "length h \<le> 4"
  have "hexnum_val h < 16 ^ length h"
    unfolding hexnum_val_def using h by (intro val_of_bound) (auto simp: list_all_iff hex_val_lt)
  also have "\<dots> \<le> (16::nat) ^ 4" using l by (intro power_increasing) auto
  finally show ?thesis by simp
qed

lemma parse_v4_Some:
  "parse_v4 s = Some f \<Longrightarrow> length f = 4 \<and> (\<forall>x \<in> set f. x \<le> 255)"
  by (auto simp: parse_v4_def Let_def list_all_iff v4_field_def split: if_splits)

lemma parse_v4_groups:
  assumes "parse_v4 s = Some f"
  shows "f ! 0 * 256 + f ! 1 < 65536" and "f ! 2 * 256 + f ! 3 < 65536"
proof -
  have "\<forall>i < 4. f ! i \<le> 255" using parse_v4_Some [OF assms] by auto
  then have "f ! 0 \<le> 255" "f ! 1 \<le> 255" "f ! 2 \<le> 255" "f ! 3 \<le> 255" by simp_all
  then show "f ! 0 * 256 + f ! 1 < 65536" "f ! 2 * 256 + f ! 3 < 65536" by linarith+
qed

definition part_ip :: "nat list \<times> nat option \<Rightarrow> bool" where
  "part_ip p \<longleftrightarrow> length (fst p) \<le> 8 \<and> (\<forall>x \<in> set (fst p). x < 65536) \<and>
     (\<forall>k. snd p = Some k \<longrightarrow> k \<le> length (fst p))"

lemma takeWhile_list_all: "list_all P (takeWhile P s)"
  by (auto simp: list_all_iff dest: set_takeWhileD)

lemma v6_loop_cases:
  assumes "v6_loop s gs el = Some p"
  obtains (full) "8 \<le> length gs" "p = (gs, el)"
  | (v4) f where "length gs \<le> 6" "parse_v4 s = Some f"
      "p = (gs @ [f ! 0 * 256 + f ! 1, f ! 2 * 256 + f ! 3], el)"
  | (last) n e where "length gs < 8" "n < 65536" "e = el \<or> e = Some (Suc (length gs))"
      "p = (gs @ [n], e)"
  | (more) n e r where "length gs < 8" "n < 65536" "e = el \<or> e = Some (Suc (length gs))"
      "length r < length s" "v6_loop r (gs @ [n]) e = Some p"
proof (cases "8 \<le> length gs")
  case True
  with assms full show ?thesis by (simp add: v6_loop.simps [of s] split: if_splits)
next
  case False
  define h r where hr: "h = takeWhile is_hex s" "r = dropWhile is_hex s"
  have eq: "v6_loop s gs el = Some p" by (fact assms)
  from eq False have nh: "h \<noteq> []" "length h \<le> 4"
    by (subst (asm) v6_loop.simps, simp add: hr [symmetric] split: if_splits)+
  have n: "hexnum_val h < 65536"
    using nh(2) unfolding hr by (intro hexnum_val_lt takeWhile_list_all)
  have lr: "length r \<le> length s" by (simp add: hr length_dropWhile_le)
  show ?thesis
  proof (cases "r \<noteq> [] \<and> hd r = CHR ''.''")
    case True
    with eq False nh v4 show ?thesis
      by (subst (asm) v6_loop.simps)
        (simp add: hr [symmetric] Let_def split: if_splits option.splits)
  next
    case nd: False
    show ?thesis
    proof (cases "r = []")
      case True
      with eq False nh have "p = (gs @ [hexnum_val h], el)"
        by (subst (asm) v6_loop.simps) (simp add: hr [symmetric] Let_def)
      with last n False show ?thesis by simp
    next
      case nr: False
      with eq False nh nd obtain c2 r2 where r: "r = CHR '':'' # c2 # r2"
        by (subst (asm) v6_loop.simps) (auto simp: hr [symmetric] Let_def split: if_splits list.splits)
      then have l2: "length (c2 # r2) < length s" "length r2 < length s" using lr by simp_all
      show ?thesis
      proof (cases "c2 = CHR '':''")
        case True
        with eq False nh nd r have
          "p = (gs @ [hexnum_val h], Some (Suc (length gs))) \<or>
           v6_loop r2 (gs @ [hexnum_val h]) (Some (Suc (length gs))) = Some p"
          by (subst (asm) v6_loop.simps) (simp add: hr [symmetric] Let_def split: if_splits)
        then show ?thesis using last more n False l2(2) by (elim disjE) force+
      next
        case c2: False
        with eq False nh nd r have "v6_loop (c2 # r2) (gs @ [hexnum_val h]) el = Some p"
          by (subst (asm) v6_loop.simps) (simp add: hr [symmetric] Let_def)
        then show ?thesis using more [of "hexnum_val h" el "c2 # r2"] n False l2(1) by simp
      qed
    qed
  qed
qed

lemma part_ip_snoc:
  assumes "part_ip (gs, el)" and "length gs < 8" and "n < 65536"
    and "e = el \<or> e = Some (Suc (length gs))"
  shows "part_ip (gs @ [n], e)"
  using assms by (auto simp: part_ip_def)

lemma v6_loop_wf: "v6_loop s gs el = Some p \<Longrightarrow> part_ip (gs, el) \<Longrightarrow> part_ip p"
proof (induction "length s" arbitrary: s gs el rule: less_induct)
  case less
  from less.prems(1) show ?case
  proof (cases rule: v6_loop_cases)
    case full
    with less.prems(2) show ?thesis by simp
  next
    case (v4 f)
    with less.prems(2) parse_v4_groups [OF v4(2)] show ?thesis by (auto simp: part_ip_def)
  next
    case (last n e)
    with less.prems(2) show ?thesis by (simp add: part_ip_snoc)
  next
    case (more n e r)
    then have "part_ip (gs @ [n], e)" using less.prems(2) by (simp add: part_ip_snoc)
    with more less.hyps show ?thesis by blast
  qed
qed

lemma v6_expand_wf: "part_ip p \<Longrightarrow> v6_expand p = Some g \<Longrightarrow> wf_ip g"
  by (cases p) (auto simp: part_ip_def v6_expand_def wf_ip_def split: if_splits option.splits
      dest!: in_set_takeD in_set_dropD)

lemma parse_ip_wf: "parse_ip s = Some g \<Longrightarrow> wf_ip g"
proof -
  assume "parse_ip s = Some g"
  then consider (v4) f where "parse_v4 s = Some f" "g = v4_mapped f" | (v6) "parse_v6 s = Some g"
    by (auto simp: parse_ip_def split: if_splits option.splits)
  then show "wf_ip g"
  proof cases
    case v4
    then show ?thesis using parse_v4_groups [of s] by (simp add: wf_ip_def v4_mapped_def)
  next
    case v6
    have nil: "part_ip ([], None)" "part_ip ([], Some 0)" by (simp_all add: part_ip_def)
    from v6 show ?thesis
      by (auto simp: parse_v6_def Let_def bind_eq_Some_conv wf_ip_def [of "replicate 8 0"]
          intro: v6_expand_wf v6_loop_wf [OF _ nil(1)] v6_loop_wf [OF _ nil(2)] split: if_splits)
  qed
qed

text \<open>The printed form of a parsed address is a fixed point of parsing and printing.\<close>

lemma ip_string_canonical: "parse_ip s = Some g \<Longrightarrow> parse_ip (ip_string g) = Some g"
  by (simp add: parse_ip_string parse_ip_wf)

lemma parse_ip_Nil [simp]: "parse_ip [] = None"
  by (simp add: parse_ip_def)

end
