(* ===== verification/Backend.thy ===== *)
theory Backend
  imports IPAddr
begin

text \<open>
  \<open>internal/firewall/backend.go\<close>: the backend-neutral rule, the checks every rule passes, the
  comment that identifies a managed rule, and the \<open>FirewallBackend\<close> interface as a record of
  functions over a backend state \<open>'s\<close>.  The locales \<open>rule_store\<close> and \<open>keyed_store\<close> state what the
  policy code (\<open>reconcile.go\<close>, \<open>manager.go\<close>, the server and the agent) relies on; every backend of
  the repository is an interpretation.
\<close>

section \<open>Errors\<close>

datatype refusal = NotSingleIP string | PortOutOfRange int | BadProtocol string

text \<open>
  \<open>Opaque\<close> is an error of the world below (a failed command), \<open>Wrapped\<close> is \<open>fmt.Errorf\<close> with
  \<open>%w\<close> behind a prefix, \<open>Joined\<close> is \<open>errors.Join\<close>.
\<close>

datatype fwerr =
    ErrInactive
  | HostRuleError string
  | Refused refusal
  | Opaque string
  | Wrapped string fwerr
  | Joined "fwerr list"

primrec is_inactive :: "fwerr \<Rightarrow> bool" and is_inactive_list :: "fwerr list \<Rightarrow> bool" where
  "is_inactive ErrInactive = True"
| "is_inactive (HostRuleError a) = False"
| "is_inactive (Refused r) = False"
| "is_inactive (Opaque m) = False"
| "is_inactive (Wrapped m e) = is_inactive e"
| "is_inactive (Joined es) = is_inactive_list es"
| "is_inactive_list [] = False"
| "is_inactive_list (e # es) = (is_inactive e \<or> is_inactive_list es)"

text \<open>\<open>errors.As\<close> with a \<open>*HostRuleError\<close> target (the first one of the tree); \<open>errors.Is\<close> with
  \<open>ErrHostRule\<close> holds when there is one.\<close>

primrec host_rule :: "fwerr \<Rightarrow> string option" and host_rule_list :: "fwerr list \<Rightarrow> string option" where
  "host_rule ErrInactive = None"
| "host_rule (HostRuleError a) = Some a"
| "host_rule (Refused r) = None"
| "host_rule (Opaque m) = None"
| "host_rule (Wrapped m e) = host_rule e"
| "host_rule (Joined es) = host_rule_list es"
| "host_rule_list [] = None"
| "host_rule_list (e # es) = (case host_rule e of Some a \<Rightarrow> Some a | None \<Rightarrow> host_rule_list es)"

definition is_host_rule :: "fwerr \<Rightarrow> bool" where
  "is_host_rule e \<longleftrightarrow> host_rule e \<noteq> None"

text \<open>\<open>errors.Join\<close> of the collected errors: no error when there is none.\<close>

definition join_errs :: "fwerr list \<Rightarrow> fwerr option" where
  "join_errs es = (if es = [] then None else Some (Joined es))"

lemma join_errs_None [simp]: "join_errs es = None \<longleftrightarrow> es = []"
  by (simp add: join_errs_def)

section \<open>Rules\<close>

record rule =
  r_handle :: int
  r_ip :: string
  r_port :: int
  r_proto :: string
  r_user :: string
  r_group :: string
  r_comment :: string

record portproto =
  p_port :: int
  p_proto :: string

abbreviation PP :: "int \<Rightarrow> string \<Rightarrow> portproto" where
  "PP n pr \<equiv> \<lparr>p_port = n, p_proto = pr\<rparr>"

text \<open>The name allowlist: \<open>^[A-Za-z0-9][A-Za-z0-9_-]{0,63}$\<close>.\<close>

definition name_start :: "char \<Rightarrow> bool" where
  "name_start c \<longleftrightarrow> is_upper c \<or> is_lower c \<or> is_digit c"

definition name_char :: "char \<Rightarrow> bool" where
  "name_char c \<longleftrightarrow> name_start c \<or> c = CHR ''_'' \<or> c = CHR ''-''"

definition ValidName :: "string \<Rightarrow> bool" where
  "ValidName s = (case s of [] \<Rightarrow> False
                  | c # cs \<Rightarrow> name_start c \<and> list_all name_char cs \<and> length cs \<le> 63)"

definition CanonicalIP :: "string \<Rightarrow> string" where
  "CanonicalIP s = (case parse_ip (trim_space s) of None \<Rightarrow> [] | Some g \<Rightarrow> ip_string g)"

definition checkRule :: "string \<Rightarrow> int \<Rightarrow> string \<Rightarrow> fwerr option" where
  "checkRule ip port proto =
     (if parse_ip ip = None then Some (Refused (NotSingleIP ip))
      else if port < 1 \<or> port > 65535 then Some (Refused (PortOutOfRange port))
      else if proto \<noteq> ''tcp'' \<and> proto \<noteq> ''udp'' then Some (Refused (BadProtocol proto))
      else None)"

definition commentFor :: "string \<Rightarrow> string \<Rightarrow> string \<Rightarrow> string" where
  "commentFor prefix user grp =
     (if grp = [] then prefix @ '':'' @ user else prefix @ '':'' @ user @ '':'' @ grp)"

text \<open>\<open>splitComment\<close> of \<open>nft.go\<close>, which every backend uses to read a comment back.\<close>

definition splitComment :: "string \<Rightarrow> string \<Rightarrow> string \<times> string" where
  "splitComment prefix comment =
     (if \<not> has_prefix (prefix @ '':'') comment then ([], [])
      else (let rest = drop (length (prefix @ '':'')) comment in
            case cut_at CHR '':'' rest of Some (u, g) \<Rightarrow> (u, g) | None \<Rightarrow> (rest, [])))"

section \<open>Names and comments\<close>

lemma ValidName_nonempty: "ValidName s \<Longrightarrow> s \<noteq> []"
  by (auto simp: ValidName_def)

lemma ValidName_length: "ValidName s \<Longrightarrow> length s \<le> 64"
  by (auto simp: ValidName_def split: list.splits)

lemma ValidName_chars: "ValidName s \<Longrightarrow> c \<in> set s \<Longrightarrow> name_char c"
  by (auto simp: ValidName_def name_char_def list_all_iff split: list.splits)

lemma ValidName_no_colon: "ValidName s \<Longrightarrow> CHR '':'' \<notin> set s"
  using ValidName_chars [of s "CHR '':''"]
  by (auto simp: name_char_def name_start_def is_upper_def is_lower_def is_digit_def)

lemma has_prefix_commentFor [simp]: "has_prefix (prefix @ '':'') (commentFor prefix u g)"
  by (simp add: commentFor_def has_prefix_iff)

lemma splitComment_commentFor:
  "CHR '':'' \<notin> set u \<Longrightarrow> splitComment prefix (commentFor prefix u g) = (u, g)"
  using has_prefix_commentFor [of prefix u g]
  by (auto simp: splitComment_def Let_def commentFor_def cut_at_append cut_at_None)

lemma commentFor_inj:
  assumes "CHR '':'' \<notin> set u" and "CHR '':'' \<notin> set u'"
  shows "commentFor prefix u g = commentFor prefix u' g' \<longleftrightarrow> u = u' \<and> g = g'"
  using splitComment_commentFor [OF assms(1)] splitComment_commentFor [OF assms(2)]
  by (metis prod.inject)

text \<open>A canonical address is its own canonical form.\<close>

definition addr_char :: "char \<Rightarrow> bool" where
  "addr_char c \<longleftrightarrow> is_hex c \<or> byte c = 58 \<or> byte c = 46"

lemma addr_char_simps [simp]: "is_hex c \<Longrightarrow> addr_char c" "addr_char CHR '':''" "addr_char CHR ''.''"
  by (simp_all add: addr_char_def)

lemma addr_char_codes: "\<forall>e \<in> set space_codes. e \<noteq> [] \<and> \<not> addr_char (hd e) \<and> \<not> addr_char (last e)"
  by (simp add: space_codes_def addr_char_def is_hex_def is_digit_def)

lemma set_join: "c \<in> set (join sep xs) \<Longrightarrow> c \<in> set sep \<or> (\<exists>x \<in> set xs. c \<in> set x)"
  by (induction sep xs rule: join.induct) auto

lemma ip_string_chars:
  assumes "length g = 8"
  shows "list_all addr_char (ip_string g)"
proof (cases "to4 g")
  case None
  have "addr_char c" if "c \<in> set (v6_string g)" for c using set_v6_string(2) [OF assms that] by auto
  with None show ?thesis by (simp add: ip_string_def list_all_iff)
next
  case (Some f)
  have "addr_char c" if "c \<in> set (join ''.'' (map dec_str f))" for c
    using set_join [OF that] dec_str_no_char [of c] by (cases "is_digit c") (auto simp: is_hex_def)
  with Some show ?thesis by (simp add: ip_string_def list_all_iff)
qed

lemma CanonicalIP_fixed:
  assumes "CanonicalIP ip \<noteq> []"
  shows "parse_ip (CanonicalIP ip) \<noteq> None" "CanonicalIP (CanonicalIP ip) = CanonicalIP ip"
proof -
  obtain g where g: "parse_ip (trim_space ip) = Some g" "CanonicalIP ip = ip_string g"
    using assms by (auto simp: CanonicalIP_def split: option.splits)
  then show "parse_ip (CanonicalIP ip) \<noteq> None" using ip_string_canonical [OF g(1)] by simp
  have "length g = 8" using parse_ip_wf [OF g(1)] by (simp add: wf_ip_def)
  then have "trim_space (ip_string g) = ip_string g" by (intro trim_space_id [OF addr_char_codes] ip_string_chars)
  then show "CanonicalIP (CanonicalIP ip) = CanonicalIP ip"
    using ip_string_canonical [OF g(1)] g(2) by (simp add: CanonicalIP_def)
qed

lemma checkRule_None:
  "checkRule ip port proto = None \<longleftrightarrow>
     parse_ip ip \<noteq> None \<and> 1 \<le> port \<and> port \<le> 65535 \<and> (proto = ''tcp'' \<or> proto = ''udp'')"
  by (auto simp: checkRule_def)

section \<open>The backend interface\<close>

record 's backend =
  be_EnsureBase :: "'s \<Rightarrow> fwerr option \<times> 's"
  be_AddRule :: "string \<Rightarrow> int \<Rightarrow> string \<Rightarrow> string \<Rightarrow> string \<Rightarrow> 's \<Rightarrow> fwerr option \<times> 's"
  be_RemoveRule :: "string \<Rightarrow> int \<Rightarrow> string \<Rightarrow> string \<Rightarrow> string \<Rightarrow> 's \<Rightarrow> fwerr option \<times> 's"
  be_ListUserRules :: "string \<Rightarrow> 's \<Rightarrow> (fwerr + rule list) \<times> 's"
  be_DeleteByHandle :: "int \<Rightarrow> 's \<Rightarrow> fwerr option \<times> 's"
  be_ListManaged :: "'s \<Rightarrow> (fwerr + rule list) \<times> 's"
  be_SyncGuard :: "(portproto list \<Rightarrow> 's \<Rightarrow> fwerr option \<times> 's) option"
  be_MergesSameMatch :: "bool option"

text \<open>
  The identity of a rule in \<open>ReconcileAll\<close> (ip, port, protocol, user, group) and its match (ip,
  port, protocol).
\<close>

type_synonym rkey = "string \<times> int \<times> string \<times> string \<times> string"
type_synonym rmatch = "string \<times> int \<times> string"

definition rule_key :: "rule \<Rightarrow> rkey" where
  "rule_key r = (r_ip r, r_port r, r_proto r, r_user r, r_group r)"

definition rule_match :: "rule \<Rightarrow> rmatch" where
  "rule_match r = (r_ip r, r_port r, r_proto r)"

definition mk_rule :: "string \<Rightarrow> int \<Rightarrow> string \<Rightarrow> int \<Rightarrow> string \<Rightarrow> string \<Rightarrow> string \<Rightarrow> rule" where
  "mk_rule prefix h ip port user proto grp =
     \<lparr>r_handle = h, r_ip = ip, r_port = port, r_proto = proto, r_user = user, r_group = grp,
      r_comment = commentFor prefix user grp\<rparr>"

definition user_prefix :: "string \<Rightarrow> string \<Rightarrow> string" where
  "user_prefix prefix user = prefix @ '':'' @ user @ '':''"

text \<open>The first rule \<open>RemoveRule\<close> deletes: same ip, port, protocol and exact comment.\<close>

definition remove_matches :: "string \<Rightarrow> string \<Rightarrow> int \<Rightarrow> string \<Rightarrow> string \<Rightarrow> string \<Rightarrow> rule \<Rightarrow> bool" where
  "remove_matches prefix ip port user proto grp r \<longleftrightarrow>
     r_ip r = ip \<and> r_port r = port \<and> r_proto r = proto \<and> r_comment r = commentFor prefix user grp"

fun drop_first :: "('a \<Rightarrow> bool) \<Rightarrow> 'a list \<Rightarrow> 'a list" where
  "drop_first P [] = []"
| "drop_first P (x # xs) = (if P x then xs else x # drop_first P xs)"

lemma drop_first_none [simp]: "\<forall>x \<in> set xs. \<not> P x \<Longrightarrow> drop_first P xs = xs"
  by (induction xs) auto

lemma set_drop_first: "set (drop_first P xs) \<subseteq> set xs"
  by (induction xs) auto

lemma drop_first_keeps: "x \<in> set xs \<Longrightarrow> \<not> P x \<Longrightarrow> x \<in> set (drop_first P xs)"
  by (induction xs) auto

lemma drop_first_unique:
  "distinct (map f xs) \<Longrightarrow> (\<And>x y. x \<in> set xs \<Longrightarrow> y \<in> set xs \<Longrightarrow> P x \<Longrightarrow> P y \<Longrightarrow> f x = f y) \<Longrightarrow>
   drop_first P xs = filter (\<lambda>x. \<not> P x) xs"
proof (induction xs)
  case Nil
  then show ?case by simp
next
  case (Cons x xs)
  show ?case
  proof (cases "P x")
    case True
    then have "\<forall>y \<in> set xs. \<not> P y" using Cons.prems by (auto simp: image_iff)
    with True show ?thesis by (simp add: filter_id_conv)
  next
    case False
    with Cons show ?thesis by simp
  qed
qed

lemma drop_first_by_handle:
  "distinct (map f xs) \<Longrightarrow> drop_first (\<lambda>x. f x = h) xs = filter (\<lambda>x. f x \<noteq> h) xs"
  by (rule drop_first_unique [where f = f]) auto

lemma distinct_map_drop_first: "distinct (map f xs) \<Longrightarrow> distinct (map f (drop_first P xs))"
proof (induction xs)
  case (Cons x xs)
  then show ?case using set_drop_first [of P xs] by auto
qed simp

lemma mset_drop_first: "mset (drop_first P xs) \<subseteq># mset xs"
  by (induction xs) auto

section \<open>What the policy code relies on\<close>

text \<open>
  A well-formed store: handles identify rules, every comment carries the prefix, and user and
  group are the ones written in the comment.
\<close>

definition wf_rule :: "string \<Rightarrow> rule \<Rightarrow> bool" where
  "wf_rule prefix r \<longleftrightarrow> has_prefix (prefix @ '':'') (r_comment r) \<and>
     (r_user r, r_group r) = splitComment prefix (r_comment r)"

lemma wf_rule_comment:
  assumes "wf_rule prefix r" and "r_group r \<noteq> []"
  shows "r_comment r = commentFor prefix (r_user r) (r_group r)"
proof -
  have "has_prefix (prefix @ '':'') (r_comment r)" and
    w: "(r_user r, r_group r) = splitComment prefix (r_comment r)"
    using assms(1) unfolding wf_rule_def by blast+
  then obtain rest where c: "r_comment r = (prefix @ '':'') @ rest"
    unfolding has_prefix_iff by blast
  show ?thesis
  proof (cases "cut_at CHR '':'' rest")
    case None
    then have "splitComment prefix (r_comment r) = (rest, [])"
      unfolding c splitComment_def by (simp del: append_assoc)
    with w assms(2) show ?thesis by simp
  next
    case (Some x)
    obtain u g where x: "x = (u, g)" by (cases x)
    with Some have "splitComment prefix (r_comment r) = (u, g)"
      unfolding c splitComment_def by (simp del: append_assoc)
    moreover have "rest = u @ CHR '':'' # g" using cut_at_Some Some x by blast
    ultimately show ?thesis using w assms(2) c by (simp add: commentFor_def)
  qed
qed

text \<open>In a well-formed store the exact-comment match of \<open>RemoveRule\<close> is a match on the key.\<close>

lemma remove_matches_key:
  assumes "wf_rule prefix r" and "CHR '':'' \<notin> set u" and "g \<noteq> []"
  shows "remove_matches prefix ip port u pr g r \<longleftrightarrow> rule_key r = (ip, port, pr, u, g)"
proof -
  have "r_comment r = commentFor prefix u g \<longleftrightarrow> r_user r = u \<and> r_group r = g"
    using assms(1,3) wf_rule_comment [OF assms(1)] splitComment_commentFor [OF assms(2)]
    unfolding wf_rule_def by (metis prod.inject)
  then show ?thesis by (auto simp: remove_matches_def rule_key_def)
qed

definition wf_store :: "string \<Rightarrow> rule list \<Rightarrow> bool" where
  "wf_store prefix rs \<longleftrightarrow> distinct (map r_handle rs) \<and> (\<forall>r \<in> set rs. wf_rule prefix r)"

text \<open>
  \<open>store s\<close> are the managed rules the backend lists in state \<open>s\<close>, \<open>host s\<close> the matches a rule of
  the host's own decides, \<open>inv\<close> what every operation keeps.  A failing operation changes nothing.
\<close>

locale rule_store =
  fixes be :: "'s backend" and prefix :: string and store :: "'s \<Rightarrow> rule list"
    and host :: "'s \<Rightarrow> rmatch \<Rightarrow> string option" and inv :: "'s \<Rightarrow> bool"
  assumes wf: "inv s \<Longrightarrow> wf_store prefix (store s)"
    and ensure: "inv s \<Longrightarrow> be_EnsureBase be s = (eo, s') \<Longrightarrow>
      inv s' \<and> host s' = host s \<and> store s' = store s"
    and list_managed: "inv s \<Longrightarrow> be_ListManaged be s = (r, s') \<Longrightarrow>
      inv s' \<and> host s' = host s \<and> store s' = store s \<and> (\<forall>rs. r = Inr rs \<longrightarrow> rs = store s)"
    and list_user: "inv s \<Longrightarrow> be_ListUserRules be u s = (r, s') \<Longrightarrow>
      inv s' \<and> host s' = host s \<and> store s' = store s \<and>
      (\<forall>rs. r = Inr rs \<longrightarrow> rs = filter (\<lambda>x. has_prefix (user_prefix prefix u) (r_comment x)) (store s))"
    and delete_ok: "inv s \<Longrightarrow> be_DeleteByHandle be h s = (None, s') \<Longrightarrow>
      inv s' \<and> host s' = host s \<and> store s' = filter (\<lambda>r. r_handle r \<noteq> h) (store s)"
    and delete_err: "inv s \<Longrightarrow> be_DeleteByHandle be h s = (Some e, s') \<Longrightarrow>
      inv s' \<and> host s' = host s \<and> store s' = store s"
    and remove_ok: "inv s \<Longrightarrow> be_RemoveRule be ip port u pr g s = (None, s') \<Longrightarrow> CHR '':'' \<notin> set u \<Longrightarrow>
      g \<noteq> [] \<Longrightarrow> inv s' \<and> host s' = host s \<and>
      store s' = drop_first (remove_matches prefix ip port u pr g) (store s)"
    and remove_err: "inv s \<Longrightarrow> be_RemoveRule be ip port u pr g s = (Some e, s') \<Longrightarrow> CHR '':'' \<notin> set u \<Longrightarrow>
      g \<noteq> [] \<Longrightarrow> inv s' \<and> host s' = host s \<and> store s' = store s"
    and guard: "inv s \<Longrightarrow> be_SyncGuard be = Some f \<Longrightarrow> f ports s = (eo, s') \<Longrightarrow>
      inv s' \<and> host s' = host s \<and> store s' = store s"
begin

lemma handles_distinct: "inv s \<Longrightarrow> distinct (map r_handle (store s))"
  using wf by (simp add: wf_store_def)

lemma delete_cases:
  assumes "inv s" and "be_DeleteByHandle be h s = (e, s')"
  shows "inv s'" and "host s' = host s"
    and "store s' = (if e = None then filter (\<lambda>r. r_handle r \<noteq> h) (store s) else store s)"
  using assms delete_ok [of s h s'] delete_err [of s h _ s'] by (cases e; simp)+

lemma remove_cases:
  assumes "inv s" and "be_RemoveRule be ip port u pr g s = (e, s')" and "CHR '':'' \<notin> set u" and "g \<noteq> []"
  shows "inv s'" and "host s' = host s"
    and "store s' = (if e = None then drop_first (remove_matches prefix ip port u pr g) (store s)
                     else store s)"
  using assms remove_ok [of s ip port u pr g s'] remove_err [of s ip port u pr g _ s']
  by (cases e; simp)+

end

text \<open>
  A store that keeps one rule per added key (nftables, the mock): an add that succeeds inserts one
  rule with a fresh handle somewhere in the list; a match the host decides is never added.
\<close>

locale keyed_store = rule_store +
  assumes add_ok: "inv s \<Longrightarrow> be_AddRule be ip port u pr g s = (None, s') \<Longrightarrow> CHR '':'' \<notin> set u \<Longrightarrow>
      inv s' \<and> host s' = host s \<and> host s (ip, port, pr) = None \<and>
      (\<exists>h xs ys. store s = xs @ ys \<and> store s' = xs @ mk_rule prefix h ip port u pr g # ys)"
    and add_err: "inv s \<Longrightarrow> be_AddRule be ip port u pr g s = (Some e, s') \<Longrightarrow> CHR '':'' \<notin> set u \<Longrightarrow>
      inv s' \<and> host s' = host s \<and> store s' = store s \<and>
      (\<forall>a. host_rule e = Some a \<longrightarrow> host s (ip, port, pr) = Some a)"
    and no_merge: "be_MergesSameMatch be \<noteq> Some True"
begin

lemma add_cases:
  assumes "inv s" and "be_AddRule be ip port u pr g s = (e, s')" and "CHR '':'' \<notin> set u"
  shows "inv s'" and "host s' = host s"
    and "mset (map rule_key (store s')) =
         (if e = None then add_mset (ip, port, pr, u, g) (mset (map rule_key (store s)))
          else mset (map rule_key (store s)))"
    and "set (store s) \<subseteq> set (store s')"
    and "r_handle ` set (store s) \<subseteq> r_handle ` set (store s')"
proof -
  show "inv s'" "host s' = host s"
    using assms add_ok [of s ip port u pr g s'] add_err [of s ip port u pr g _ s'] by (cases e; simp)+
  have "mset (map rule_key (store s')) =
         (if e = None then add_mset (ip, port, pr, u, g) (mset (map rule_key (store s)))
          else mset (map rule_key (store s))) \<and> set (store s) \<subseteq> set (store s')"
  proof (cases e)
    case None
    then obtain h xs ys where "store s = xs @ ys"
      "store s' = xs @ mk_rule prefix h ip port u pr g # ys"
      using assms add_ok [of s ip port u pr g s'] by blast
    with None show ?thesis by (auto simp: rule_key_def mk_rule_def)
  next
    case (Some x)
    then show ?thesis using assms add_err [of s ip port u pr g x s'] by simp
  qed
  then show "mset (map rule_key (store s')) =
         (if e = None then add_mset (ip, port, pr, u, g) (mset (map rule_key (store s)))
          else mset (map rule_key (store s)))" "set (store s) \<subseteq> set (store s')"
    by blast+
  then show "r_handle ` set (store s) \<subseteq> r_handle ` set (store s')" by blast
qed

end

text \<open>The guard is the only operation of the interface that a backend without one lacks.\<close>

lemma no_guard [simp]:
  "be_EnsureBase (be\<lparr>be_SyncGuard := g\<rparr>) = be_EnsureBase be" "be_AddRule (be\<lparr>be_SyncGuard := g\<rparr>) = be_AddRule be"
  "be_RemoveRule (be\<lparr>be_SyncGuard := g\<rparr>) = be_RemoveRule be" "be_ListUserRules (be\<lparr>be_SyncGuard := g\<rparr>) = be_ListUserRules be"
  "be_DeleteByHandle (be\<lparr>be_SyncGuard := g\<rparr>) = be_DeleteByHandle be" "be_ListManaged (be\<lparr>be_SyncGuard := g\<rparr>) = be_ListManaged be"
  "be_MergesSameMatch (be\<lparr>be_SyncGuard := g\<rparr>) = be_MergesSameMatch be"
  by simp_all

lemma keyed_store_guarded:
  assumes "keyed_store (be\<lparr>be_SyncGuard := None\<rparr>) prefix store host I"
    and "\<And>s f ports eo s'. I s \<Longrightarrow> be_SyncGuard be = Some f \<Longrightarrow> f ports s = (eo, s') \<Longrightarrow>
      I s' \<and> host s' = host s \<and> store s' = store s"
  shows "keyed_store be prefix store host I"
  using assms(1) unfolding keyed_store_def rule_store_def keyed_store_axioms_def no_guard
  by - (elim conjE, intro conjI, assumption+, intro allI impI, rule assms(2), assumption+)

end
