(* ===== verification/Mock.thy ===== *)
theory Mock
  imports Backend
begin

text \<open>
  \<open>internal/firewall/mock.go\<close> and \<open>none.go\<close>: the in-memory backend (the backend of every non-Linux
  build) and the no-op backend of a control-plane-only hub.  The mock satisfies the contract
  \<open>keyed_store\<close>, the no-op backend \<open>rule_store\<close> only: its adds succeed and store nothing.
\<close>

section \<open>The mock backend\<close>

record mock =
  mk_prefix :: string
  mk_next :: int
  mk_rules :: "rule list"
  mk_calls :: "string list"
  mk_guarded :: "portproto list"
  mk_inactive :: bool
  mk_host :: "string \<rightharpoonup> string"

definition NewMockBackend :: "string \<Rightarrow> mock" where
  "NewMockBackend prefix = \<lparr>mk_prefix = prefix, mk_next = 1, mk_rules = [], mk_calls = [],
     mk_guarded = [], mk_inactive = False, mk_host = Map.empty\<rparr>"

definition endpoint :: "string \<Rightarrow> int \<Rightarrow> string \<Rightarrow> string" where
  "endpoint ip port proto = ip @ '':'' @ itoa port @ ''/'' @ proto"

definition mk_log :: "string \<Rightarrow> mock \<Rightarrow> mock" where
  "mk_log c m = m\<lparr>mk_calls := mk_calls m @ [c]\<rparr>"

definition mock_SyncGuard :: "portproto list \<Rightarrow> mock \<Rightarrow> fwerr option \<times> mock" where
  "mock_SyncGuard ports m = (None, mk_log ''SyncGuard'' (m\<lparr>mk_guarded := ports\<rparr>))"

definition mock_EnsureBase :: "mock \<Rightarrow> fwerr option \<times> mock" where
  "mock_EnsureBase m = (None, mk_log ''EnsureBase'' m)"

definition mock_AddRule :: "string \<Rightarrow> int \<Rightarrow> string \<Rightarrow> string \<Rightarrow> string \<Rightarrow> mock \<Rightarrow> fwerr option \<times> mock" where
  "mock_AddRule ip port user proto grp m =
     (if mk_inactive m then (Some ErrInactive, m)
      else (case mk_host m (endpoint ip port proto) of
        Some action \<Rightarrow> (Some (HostRuleError action), m)
      | None \<Rightarrow> (None, mk_log (''AddRule '' @ grp @ '' '' @ endpoint ip port proto)
          (m\<lparr>mk_next := mk_next m + 1,
             mk_rules := mk_rules m @ [mk_rule (mk_prefix m) (mk_next m) ip port user proto grp]\<rparr>))))"

definition mock_RemoveRule :: "string \<Rightarrow> int \<Rightarrow> string \<Rightarrow> string \<Rightarrow> string \<Rightarrow> mock \<Rightarrow> fwerr option \<times> mock" where
  "mock_RemoveRule ip port user proto grp m =
     (if mk_inactive m then (Some ErrInactive, m)
      else if \<exists>r \<in> set (mk_rules m). remove_matches (mk_prefix m) ip port user proto grp r
      then (None, mk_log (''RemoveRule '' @ grp @ '' '' @ endpoint ip port proto)
              (m\<lparr>mk_rules := drop_first (remove_matches (mk_prefix m) ip port user proto grp) (mk_rules m)\<rparr>))
      else (None, mk_log (''RemoveRule(miss) '' @ grp @ '' '' @ endpoint ip port proto) m))"

definition mock_ListUserRules :: "string \<Rightarrow> mock \<Rightarrow> (fwerr + rule list) \<times> mock" where
  "mock_ListUserRules user m =
     (if mk_inactive m then (Inl ErrInactive, m)
      else (Inr (filter (\<lambda>r. has_prefix (user_prefix (mk_prefix m) user) (r_comment r)) (mk_rules m)),
            mk_log (''ListUserRules '' @ user) m))"

definition mock_DeleteByHandle :: "int \<Rightarrow> mock \<Rightarrow> fwerr option \<times> mock" where
  "mock_DeleteByHandle handle m =
     (if mk_inactive m then (Some ErrInactive, m)
      else if \<exists>r \<in> set (mk_rules m). r_handle r = handle
      then (None, mk_log (''DeleteByHandle '' @ itoa handle)
              (m\<lparr>mk_rules := drop_first (\<lambda>r. r_handle r = handle) (mk_rules m)\<rparr>))
      else (None, mk_log (''DeleteByHandle(miss) '' @ itoa handle) m))"

definition mock_ListManaged :: "mock \<Rightarrow> (fwerr + rule list) \<times> mock" where
  "mock_ListManaged m =
     (if mk_inactive m then (Inl ErrInactive, m)
      else (Inr (filter (\<lambda>r. has_prefix (mk_prefix m @ '':'') (r_comment r)) (mk_rules m)), m))"

definition mock_backend :: "mock backend" where
  "mock_backend = \<lparr>be_EnsureBase = mock_EnsureBase, be_AddRule = mock_AddRule,
     be_RemoveRule = mock_RemoveRule, be_ListUserRules = mock_ListUserRules,
     be_DeleteByHandle = mock_DeleteByHandle, be_ListManaged = mock_ListManaged,
     be_SyncGuard = Some mock_SyncGuard, be_MergesSameMatch = None\<rparr>"

lemma mock_backend_simps [simp]:
  "be_EnsureBase mock_backend = mock_EnsureBase" "be_AddRule mock_backend = mock_AddRule"
  "be_RemoveRule mock_backend = mock_RemoveRule" "be_ListUserRules mock_backend = mock_ListUserRules"
  "be_DeleteByHandle mock_backend = mock_DeleteByHandle"
  "be_ListManaged mock_backend = mock_ListManaged"
  "be_SyncGuard mock_backend = Some mock_SyncGuard" "be_MergesSameMatch mock_backend = None"
  by (simp_all add: mock_backend_def)

lemma mk_log_simps [simp]:
  "mk_prefix (mk_log c m) = mk_prefix m" "mk_next (mk_log c m) = mk_next m"
  "mk_rules (mk_log c m) = mk_rules m" "mk_host (mk_log c m) = mk_host m"
  "mk_inactive (mk_log c m) = mk_inactive m" "mk_guarded (mk_log c m) = mk_guarded m"
  by (simp_all add: mk_log_def)

lemmas mock_defs = mock_EnsureBase_def mock_AddRule_def mock_RemoveRule_def mock_ListUserRules_def
  mock_DeleteByHandle_def mock_ListManaged_def mock_SyncGuard_def

text \<open>The invariant: the prefix is the configured one, handles are below the counter, and the rules
  form a well-formed store.\<close>

definition mock_inv :: "string \<Rightarrow> mock \<Rightarrow> bool" where
  "mock_inv prefix m \<longleftrightarrow> mk_prefix m = prefix \<and> (\<forall>r \<in> set (mk_rules m). r_handle r < mk_next m) \<and>
     wf_store prefix (mk_rules m)"

definition mock_host :: "mock \<Rightarrow> rmatch \<Rightarrow> string option" where
  "mock_host m = (\<lambda>(ip, port, pr). mk_host m (endpoint ip port pr))"

lemma mock_inv_new [simp]: "mock_inv prefix (NewMockBackend prefix)"
  by (simp add: mock_inv_def NewMockBackend_def wf_store_def)

lemma wf_store_snoc:
  assumes "wf_store prefix (xs @ ys)" and "h \<notin> r_handle ` set (xs @ ys)" and "CHR '':'' \<notin> set u"
  shows "wf_store prefix (xs @ mk_rule prefix h ip port u pr g # ys)"
  using assms splitComment_commentFor [OF assms(3), of prefix g]
  by (auto simp: wf_store_def wf_rule_def mk_rule_def)

lemma wf_store_subset:
  assumes "wf_store prefix rs" and "distinct (map r_handle qs)" and "set qs \<subseteq> set rs"
  shows "wf_store prefix qs"
  using assms unfolding wf_store_def by blast

lemma wf_store_drop_first: "wf_store prefix rs \<Longrightarrow> wf_store prefix (drop_first P rs)"
  using wf_store_subset [of prefix rs "drop_first P rs"]
  by (simp add: set_drop_first distinct_map_drop_first wf_store_def)

lemma wf_store_filter: "wf_store prefix rs \<Longrightarrow> wf_store prefix (filter P rs)"
  using wf_store_subset [of prefix rs "filter P rs"]
  by (simp add: distinct_map_filter wf_store_def)

lemma wf_store_all_managed:
  "wf_store prefix rs \<Longrightarrow> filter (\<lambda>r. has_prefix (prefix @ '':'') (r_comment r)) rs = rs"
  by (auto simp: wf_store_def wf_rule_def filter_id_conv)

lemma mock_inv_drop: "mock_inv prefix m \<Longrightarrow> mock_inv prefix (m\<lparr>mk_rules := drop_first P (mk_rules m)\<rparr>)"
  using set_drop_first [of P "mk_rules m"] by (auto simp: mock_inv_def wf_store_drop_first)

lemma mock_inv_log [simp]: "mock_inv prefix (mk_log c m) = mock_inv prefix m"
  by (simp add: mock_inv_def)

lemma mock_host_log [simp]: "mock_host (mk_log c m) = mock_host m"
  by (simp add: mock_host_def)

lemma mock_host_rules [simp]: "mock_host (m\<lparr>mk_rules := rs\<rparr>) = mock_host m"
  "mock_host (m\<lparr>mk_next := n, mk_rules := rs\<rparr>) = mock_host m"
  by (simp_all add: mock_host_def)

lemma mock_add_effect:
  assumes "mock_inv prefix m" and "mock_AddRule ip port u pr g m = (e, m')" and "CHR '':'' \<notin> set u"
  shows "mock_inv prefix m' \<and> mock_host m' = mock_host m \<and>
    (case e of
       None \<Rightarrow> mock_host m (ip, port, pr) = None \<and>
         mk_rules m' = mk_rules m @ [mk_rule prefix (mk_next m) ip port u pr g]
     | Some x \<Rightarrow> mk_rules m' = mk_rules m \<and>
         (\<forall>a. host_rule x = Some a \<longrightarrow> mock_host m (ip, port, pr) = Some a))"
proof -
  have "mock_inv prefix (m\<lparr>mk_next := mk_next m + 1,
     mk_rules := mk_rules m @ [mk_rule (mk_prefix m) (mk_next m) ip port u pr g]\<rparr>)"
    using assms(1,3) wf_store_snoc [of prefix "mk_rules m" "[]" "mk_next m" u ip port pr g]
    by (force simp: mock_inv_def mk_rule_def)
  then show ?thesis
    using assms by (auto simp: mock_AddRule_def mock_inv_def mock_host_def split: if_splits option.splits)
qed

interpretation mock: keyed_store mock_backend prefix mk_rules mock_host "mock_inv prefix"
  for prefix
proof (unfold_locales, goal_cases)
  case (1 s)
  then show ?case by (simp add: mock_inv_def)
next
  case (2 s eo s')
  then show ?case by (auto simp: mock_EnsureBase_def)
next
  case (3 s r s')
  then show ?case
    by (auto simp: mock_ListManaged_def mock_inv_def wf_store_all_managed split: if_splits)
next
  case (4 s u r s')
  then show ?case by (auto simp: mock_ListUserRules_def mock_inv_def split: if_splits)
next
  case (5 s h s')
  then have "distinct (map r_handle (mk_rules s))" by (simp add: mock_inv_def wf_store_def)
  then have "drop_first (\<lambda>r. r_handle r = h) (mk_rules s) = filter (\<lambda>r. r_handle r \<noteq> h) (mk_rules s)"
    by (rule drop_first_by_handle)
  moreover have "mock_inv prefix (s\<lparr>mk_rules := drop_first (\<lambda>r. r_handle r = h) (mk_rules s)\<rparr>)"
    using 5(1) by (rule mock_inv_drop)
  ultimately show ?case
    using 5 by (auto simp: mock_DeleteByHandle_def filter_id_conv split: if_splits)
next
  case (6 s h e s')
  then show ?case by (auto simp: mock_DeleteByHandle_def split: if_splits)
next
  case (7 s ip port u pr g s')
  then have "mk_prefix s = prefix" by (simp add: mock_inv_def)
  with 7 mock_inv_drop [of prefix s] show ?case
    by (auto simp: mock_RemoveRule_def split: if_splits)
next
  case (8 s ip port u pr g e s')
  then show ?case by (auto simp: mock_RemoveRule_def split: if_splits)
next
  case (9 s f ports eo s')
  then show ?case by (auto simp: mock_SyncGuard_def mock_inv_def mock_host_def)
next
  case (10 s ip port u pr g s')
  then have "mock_inv prefix s' \<and> mock_host s' = mock_host s \<and> mock_host s (ip, port, pr) = None \<and>
      mk_rules s' = mk_rules s @ [mk_rule prefix (mk_next s) ip port u pr g]"
    using mock_add_effect [of prefix s ip port u pr g None s'] by simp
  then show ?case
    by (intro conjI exI [of _ "mk_next s"] exI [of _ "mk_rules s"] exI [of _ "[]"]) simp_all
next
  case (11 s ip port u pr g e s')
  then show ?case using mock_add_effect [of prefix s ip port u pr g "Some e" s'] by simp
next
  case 12
  show ?case by simp
qed

section \<open>The no-op backend\<close>

definition none_backend :: "unit backend" where
  "none_backend = \<lparr>be_EnsureBase = (\<lambda>s. (None, s)), be_AddRule = (\<lambda>_ _ _ _ _ s. (None, s)),
     be_RemoveRule = (\<lambda>_ _ _ _ _ s. (None, s)), be_ListUserRules = (\<lambda>_ s. (Inr [], s)),
     be_DeleteByHandle = (\<lambda>_ s. (None, s)), be_ListManaged = (\<lambda>s. (Inr [], s)),
     be_SyncGuard = None, be_MergesSameMatch = None\<rparr>"

interpretation noneb: rule_store none_backend prefix "\<lambda>_. []" "\<lambda>_ _. None" "\<lambda>_. True"
  for prefix
  by unfold_locales (auto simp: none_backend_def wf_store_def)

end
