(* ===== verification/Reconcile.thy ===== *)
theory Reconcile
  imports Mock
begin

text \<open>
  \<open>internal/firewall/reconcile.go\<close>: \<open>ReconcileAll\<close>, the pass that makes the managed rules of a host
  exactly the desired ones.  Its three loops are \<open>scan_managed\<close>, \<open>add_missing\<close> and \<open>delete_extra\<close>;
  \<open>have\<close>, \<open>covered\<close>, \<open>extra\<close>, \<open>added\<close>, \<open>removed\<close> and \<open>err\<close> are the locals of the Go function.  The
  lemmas are proved once in the context \<open>keyed_store\<close>, for every backend that keeps one rule per
  added key; the properties state them for an arbitrary such backend and are applied to the mock.
\<close>

section \<open>The code\<close>

definition merges_same_match :: "'s backend \<Rightarrow> bool" where
  "merges_same_match be = (case be_MergesSameMatch be of Some b \<Rightarrow> b | None \<Rightarrow> False)"

fun scan_managed :: "rkey set \<Rightarrow> rule list \<Rightarrow> rkey set \<times> rmatch set \<times> int list \<Rightarrow>
    rkey set \<times> rmatch set \<times> int list" where
  "scan_managed want [] acc = acc"
| "scan_managed want (m # ms) (have, covered, extra) =
     (if rule_key m \<in> want \<and> rule_key m \<notin> have
      then scan_managed want ms (insert (rule_key m) have, insert (rule_match m) covered, extra)
      else scan_managed want ms (have, covered, extra @ [r_handle m]))"

fun add_missing :: "'s backend \<Rightarrow> bool \<Rightarrow> rule list \<Rightarrow> rkey set \<Rightarrow> rmatch set \<Rightarrow> int \<Rightarrow> fwerr option \<Rightarrow> 's \<Rightarrow>
    int \<times> fwerr option \<times> 's" where
  "add_missing be merges [] have covered added err s = (added, err, s)"
| "add_missing be merges (d # ds) have covered added err s =
     (if rule_key d \<in> have \<or> (merges \<and> rule_match d \<in> covered)
      then add_missing be merges ds have covered added err s
      else (case be_AddRule be (r_ip d) (r_port d) (r_user d) (r_proto d) (r_group d) s of
        (Some e, s') \<Rightarrow>
          if is_host_rule e
          then add_missing be merges ds (insert (rule_key d) have) (insert (rule_match d) covered) added err s'
          else add_missing be merges ds (insert (rule_key d) have) covered added (Some e) s'
      | (None, s') \<Rightarrow>
          add_missing be merges ds (insert (rule_key d) have) (insert (rule_match d) covered) (added + 1) err s'))"

fun delete_extra :: "'s backend \<Rightarrow> int list \<Rightarrow> int \<Rightarrow> fwerr option \<Rightarrow> 's \<Rightarrow> int \<times> fwerr option \<times> 's" where
  "delete_extra be [] removed err s = (removed, err, s)"
| "delete_extra be (h # hs) removed err s =
     (case be_DeleteByHandle be h s of
        (Some e, s') \<Rightarrow> delete_extra be hs removed (Some e) s'
      | (None, s') \<Rightarrow> delete_extra be hs (removed + 1) err s')"

definition ReconcileAll :: "'s backend \<Rightarrow> rule list \<Rightarrow> 's \<Rightarrow> int \<times> int \<times> fwerr option \<times> 's" where
  "ReconcileAll be desired s =
     (case be_ListManaged be s of
        (Inl e, s1) \<Rightarrow> (0, 0, Some e, s1)
      | (Inr managed, s1) \<Rightarrow>
          (let want = rule_key ` set desired;
               (have, covered, extra) = scan_managed want managed ({}, {}, []);
               (added, err, s2) = add_missing be (merges_same_match be) desired have covered 0 None s1;
               (removed, err', s3) = delete_extra be extra 0 err s2
           in (added, removed, err', s3)))"

section \<open>The scan\<close>

text \<open>The rules the scan keeps: the first one of every wanted key that is not yet in \<open>have\<close>.\<close>

fun kept :: "rkey set \<Rightarrow> rkey set \<Rightarrow> rule list \<Rightarrow> rule list" where
  "kept want hv [] = []"
| "kept want hv (m # ms) =
     (if rule_key m \<in> want \<and> rule_key m \<notin> hv then m # kept want (insert (rule_key m) hv) ms
      else kept want hv ms)"

lemma set_kept: "set (kept want hv ms) \<subseteq> set ms"
  by (induction want hv ms rule: kept.induct) auto

lemma kept_keys: "rule_key ` set (kept want hv ms) = want \<inter> rule_key ` set ms - hv"
  by (induction want hv ms rule: kept.induct) auto

lemma distinct_kept: "distinct (map rule_key (kept want hv ms))"
proof (induction want hv ms rule: kept.induct)
  case (2 want hv m ms)
  have "rule_key m \<notin> rule_key ` set (kept want (insert (rule_key m) hv) ms)"
    by (auto simp: kept_keys)
  with 2 show ?case by simp
qed simp

lemma kept_all:
  "distinct (map rule_key ms) \<Longrightarrow> rule_key ` set ms \<subseteq> want \<Longrightarrow> rule_key ` set ms \<inter> hv = {} \<Longrightarrow>
   kept want hv ms = ms"
  by (induction want hv ms rule: kept.induct) auto

lemma scan_managed_spec:
  assumes "distinct (map r_handle ms)"
  shows "scan_managed want ms (hv, cov, ex) =
    (hv \<union> (want \<inter> rule_key ` set ms), cov \<union> rule_match ` set (kept want hv ms),
     ex @ map r_handle (filter (\<lambda>m. m \<notin> set (kept want hv ms)) ms))"
  using assms
proof (induction ms arbitrary: hv cov ex)
  case (Cons m ms)
  have new: "m \<notin> set (kept want h ms)" for h
    using Cons.prems set_kept [of want h ms] by auto
  have "filter (\<lambda>x. x \<noteq> m \<and> x \<notin> set (kept want h ms)) ms = filter (\<lambda>x. x \<notin> set (kept want h ms)) ms" for h
    using Cons.prems by (intro filter_cong) auto
  with Cons new show ?case by auto
qed simp

text \<open>Deleting the handles of the extra rules leaves the kept ones.\<close>

lemma kept_filter: "distinct (map r_handle ms) \<Longrightarrow> filter (\<lambda>r. r \<in> set (kept want hv ms)) ms = kept want hv ms"
proof (induction ms arbitrary: hv)
  case (Cons m ms)
  have new: "m \<notin> set (kept want h ms)" for h
    using Cons.prems set_kept [of want h ms] by auto
  have "filter (\<lambda>r. r = m \<or> r \<in> set (kept want h ms)) ms = filter (\<lambda>r. r \<in> set (kept want h ms)) ms" for h
    using Cons.prems by (intro filter_cong) auto
  with Cons new show ?case by auto
qed simp

lemma filter_extra_kept:
  assumes "distinct (map r_handle ms)"
    and "ex = map r_handle (filter (\<lambda>m. m \<notin> set (kept want hv ms)) ms)"
  shows "filter (\<lambda>r. r_handle r \<notin> set ex) ms = kept want hv ms"
proof -
  have inj: "inj_on r_handle (set ms)" using assms(1) by (simp add: distinct_map)
  have "r_handle r \<notin> set ex \<longleftrightarrow> r \<in> set (kept want hv ms)" if "r \<in> set ms" for r
    using that inj set_kept [of want hv ms] unfolding assms(2) by (auto simp: inj_on_def)
  then have "filter (\<lambda>r. r_handle r \<notin> set ex) ms = filter (\<lambda>r. r \<in> set (kept want hv ms)) ms"
    by (intro filter_cong) auto
  then show ?thesis using kept_filter [OF assms(1)] by simp
qed

section \<open>The three loops over a backend\<close>

definition key_match :: "rkey \<Rightarrow> rmatch" where
  "key_match = (\<lambda>(ip, port, pr, u, g). (ip, port, pr))"

lemma key_match_rule [simp]: "key_match (rule_key r) = rule_match r"
  by (simp add: key_match_def rule_key_def rule_match_def)

lemma rule_match_cong: "rule_key r = rule_key q \<Longrightarrow> rule_match r = rule_match q"
  by (metis key_match_rule)

text \<open>The users of the desired rules are names (no colon).\<close>

definition named :: "rule list \<Rightarrow> bool" where
  "named ds \<longleftrightarrow> (\<forall>d \<in> set ds. CHR '':'' \<notin> set (r_user d))"

lemma named_simps [simp]: "named []" "named (d # ds) \<longleftrightarrow> CHR '':'' \<notin> set (r_user d) \<and> named ds"
  by (auto simp: named_def)

context rule_store begin

lemma fresh_handles:
  assumes "inv u" and "mset (store u) = mset rs + N" and "x \<in># N"
  shows "r_handle x \<notin> r_handle ` set rs"
proof -
  obtain ns where ns: "mset ns = N" using ex_mset by blast
  have "distinct (map r_handle (store u))" by (rule handles_distinct [OF assms(1)])
  then have "distinct (map r_handle (rs @ ns))"
    using assms(2) ns by (metis mset_append mset_eq_imp_distinct_iff mset_map)
  with ns assms(3) show ?thesis by auto blast
qed

lemma delete_extra_spec:
  assumes "inv s" and "delete_extra be hs removed err s = (removed', err', s')"
  shows "\<exists>D \<subseteq> set hs. inv s' \<and> host s' = host s \<and>
    store s' = filter (\<lambda>r. r_handle r \<notin> D) (store s) \<and>
    (err' = None \<longrightarrow> err = None \<and> D = set hs \<and> removed' = removed + int (length hs)) \<and>
    removed \<le> removed' \<and> removed' \<le> removed + int (length hs)"
  using assms
proof (induction hs arbitrary: removed err s)
  case Nil
  then show ?case by auto
next
  case (Cons h hs)
  obtain e t where d: "be_DeleteByHandle be h s = (e, t)" by force
  note t = delete_cases [OF Cons.prems(1) d]
  show ?case
  proof (cases e)
    case None
    with Cons.prems d have "delete_extra be hs (removed + 1) err t = (removed', err', s')" by simp
    from Cons.IH [OF t(1) this] obtain D where D: "D \<subseteq> set hs" "inv s'" "host s' = host t"
      "store s' = filter (\<lambda>r. r_handle r \<notin> D) (store t)"
      "err' = None \<longrightarrow> err = None \<and> D = set hs \<and> removed' = removed + 1 + int (length hs)"
      "removed + 1 \<le> removed'" "removed' \<le> removed + 1 + int (length hs)" by blast
    have "store s' = filter (\<lambda>r. r_handle r \<notin> insert h D) (store s)"
      using D(4) t(3) None by (simp add: conj_commute)
    with D t show ?thesis by (intro exI [of _ "insert h D"]) auto
  next
    case (Some x)
    with Cons.prems d have "delete_extra be hs removed (Some x) t = (removed', err', s')" by simp
    from Cons.IH [OF t(1) this] obtain D where D: "D \<subseteq> set hs" "inv s'" "host s' = host t"
      "store s' = filter (\<lambda>r. r_handle r \<notin> D) (store t)" "err' \<noteq> None"
      "removed \<le> removed'" "removed' \<le> removed + int (length hs)" by blast
    with t Some show ?thesis by (intro exI [of _ D]) auto
  qed
qed

end

text \<open>
  The add loop.  \<open>A\<close> are the keys it adds: only keys of \<open>ds\<close> that are missing and that the host does
  not decide; all of them when no error is reported.  \<open>N\<close> are the new rules.
\<close>

definition missing :: "rule list \<Rightarrow> rkey set \<Rightarrow> (rmatch \<Rightarrow> string option) \<Rightarrow> rkey set" where
  "missing ds hv hs = {k \<in> rule_key ` set ds. k \<notin> hv \<and> hs (key_match k) = None}"

lemma missing_simps:
  "missing [] hv hs = {}"
  "rule_key d \<in> hv \<Longrightarrow> missing (d # ds) hv hs = missing ds hv hs"
  "rule_key d \<notin> hv \<Longrightarrow> hs (rule_match d) = None \<Longrightarrow>
     missing (d # ds) hv hs = insert (rule_key d) (missing ds (insert (rule_key d) hv) hs)"
  "rule_key d \<notin> hv \<Longrightarrow> hs (rule_match d) \<noteq> None \<Longrightarrow>
     missing (d # ds) hv hs = missing ds (insert (rule_key d) hv) hs"
  "missing ds (insert (rule_key d) hv) hs \<subseteq> missing (d # ds) hv hs"
  by (auto simp: missing_def) (metis option.distinct(1) rule_match_cong)

lemma finite_missing [simp]: "finite (missing ds hv hs)"
  by (simp add: missing_def)

lemma missing_fresh: "rule_key d \<notin> missing ds (insert (rule_key d) hv) hs"
  by (simp add: missing_def)

context keyed_store begin

lemma add_one:
  assumes "inv s" and "be_AddRule be (r_ip d) (r_port d) (r_user d) (r_proto d) (r_group d) s = (e, s')"
    and "CHR '':'' \<notin> set (r_user d)"
  shows "inv s'" and "host s' = host s"
    and "e = None \<Longrightarrow> host s (rule_match d) = None \<and>
          (\<exists>r. rule_key r = rule_key d \<and> mset (store s') = add_mset r (mset (store s)))"
    and "e \<noteq> None \<Longrightarrow> store s' = store s"
    and "e = Some x \<Longrightarrow> is_host_rule x \<Longrightarrow> host s (rule_match d) \<noteq> None"
proof -
  show "inv s'" "host s' = host s"
    by (rule add_cases [OF assms])+
  show "host s (rule_match d) = None \<and>
          (\<exists>r. rule_key r = rule_key d \<and> mset (store s') = add_mset r (mset (store s)))" if "e = None"
  proof -
    from that assms obtain h xs ys where "host s (rule_match d) = None" "store s = xs @ ys"
      "store s' = xs @ mk_rule prefix h (r_ip d) (r_port d) (r_user d) (r_proto d) (r_group d) # ys"
      using add_ok [of s "r_ip d" "r_port d" "r_user d" "r_proto d" "r_group d" s']
      by (auto simp: rule_match_def)
    then show ?thesis
      by (intro conjI exI [of _ "mk_rule prefix h (r_ip d) (r_port d) (r_user d) (r_proto d) (r_group d)"])
        (simp_all add: rule_key_def mk_rule_def)
  qed
  show "store s' = store s" if "e \<noteq> None" using that assms add_err by (cases e) blast+
  show "host s (rule_match d) \<noteq> None" if "e = Some x" "is_host_rule x"
    using that assms add_err [of s "r_ip d" "r_port d" "r_user d" "r_proto d" "r_group d" x s']
    by (auto simp: is_host_rule_def rule_match_def)
qed

lemma add_missing_spec:
  assumes "inv s" and "named ds"
    and "add_missing be False ds hv cov added err s = (added', err', s')"
  shows "\<exists>A N. inv s' \<and> host s' = host s \<and> A \<subseteq> missing ds hv (host s) \<and>
    mset (store s') = mset (store s) + N \<and> image_mset rule_key N = mset_set A \<and>
    added' = added + int (card A) \<and>
    (err' = None \<longrightarrow> err = None \<and> A = missing ds hv (host s))"
  using assms
proof (induction ds arbitrary: hv cov added err s)
  case Nil
  then show ?case by (intro exI [of _ "{}"] exI [of _ "{#}"]) (auto simp: missing_simps)
next
  case (Cons d ds)
  show ?case
  proof (cases "rule_key d \<in> hv")
    case True
    with Cons show ?thesis by (simp add: missing_simps)
  next
    case new: False
    let ?hv = "insert (rule_key d) hv"
    obtain e t where a: "be_AddRule be (r_ip d) (r_port d) (r_user d) (r_proto d) (r_group d) s = (e, t)"
      by force
    from Cons.prems have d: "CHR '':'' \<notin> set (r_user d)" and ds: "named ds" by auto
    note t = add_one [OF Cons.prems(1) a d]
    define cov' added1 err1 where "cov' = (if e = None \<or> (\<exists>x. e = Some x \<and> is_host_rule x) then insert (rule_match d) cov else cov)"
      and "added1 = (if e = None then added + 1 else added)"
      and "err1 = (if \<exists>x. e = Some x \<and> \<not> is_host_rule x then e else err)"
    have "add_missing be False ds ?hv cov' added1 err1 t = (added', err', s')"
      using Cons.prems(3) a new by (auto simp: cov'_def added1_def err1_def split: option.splits if_splits)
    from Cons.IH [OF t(1) ds this] obtain A N where
      I: "inv s'" "host s' = host s" and A: "A \<subseteq> missing ds ?hv (host s)"
      and N: "mset (store s') = mset (store t) + N" "image_mset rule_key N = mset_set A"
      and ad: "added' = added1 + int (card A)"
      and er: "err' = None \<longrightarrow> err1 = None \<and> A = missing ds ?hv (host s)"
      using t(2) by auto
    have fin: "finite A" using A finite_missing finite_subset by blast
    show ?thesis
    proof (cases e)
      case None
      with t(3) obtain r where h: "host s (rule_match d) = None"
        and r: "rule_key r = rule_key d" "mset (store t) = add_mset r (mset (store s))" by blast
      have fresh: "rule_key d \<notin> A" using A missing_fresh by blast
      show ?thesis
        using I A N r ad er h new None fin fresh missing_simps(3) [of d hv "host s" ds, OF new h]
        by (intro exI [of _ "insert (rule_key d) A"] exI [of _ "add_mset r N"])
          (auto simp: added1_def err1_def)
    next
      case (Some x)
      have "missing ds ?hv (host s) = missing (d # ds) hv (host s)" if "is_host_rule x"
        using t(5) [OF Some that] missing_simps(4) [of d hv "host s" ds, OF new] by simp
      moreover have "err1 \<noteq> None" if "\<not> is_host_rule x" using that Some by (simp add: err1_def)
      ultimately show ?thesis
        using I A N ad er Some t(4) missing_simps(5) [of ds d hv "host s"]
        by (intro exI [of _ A] exI [of _ N]) (auto simp: added1_def err1_def split: if_splits)
    qed
  qed
qed


text \<open>
  One run of \<open>ReconcileAll\<close>: \<open>D\<close> are the handles it deleted, \<open>N\<close> the rules it added and \<open>A\<close> their
  keys.  Without an error \<open>D\<close> and \<open>A\<close> are everything the run had to do.
\<close>

lemma ReconcileAll_run:
  assumes "inv s" and "named desired" and "ReconcileAll be desired s = (added, removed, err, s')"
  defines "want \<equiv> rule_key ` set desired"
  defines "K \<equiv> kept want {} (store s)"
  shows "\<exists>D A N. inv s' \<and> host s' = host s \<and>
    D \<subseteq> r_handle ` (set (store s) - set K) \<and> A \<subseteq> missing desired (want \<inter> rule_key ` set (store s)) (host s) \<and>
    mset (store s') = mset (filter (\<lambda>r. r_handle r \<notin> D) (store s)) + N \<and>
    image_mset rule_key N = mset_set A \<and> added = int (card A) \<and>
    (err = None \<longrightarrow> A = missing desired (want \<inter> rule_key ` set (store s)) (host s) \<and>
       filter (\<lambda>r. r_handle r \<notin> D) (store s) = K \<and>
       removed = int (length (store s)) - int (length K))"
proof -
  obtain l t where l: "be_ListManaged be s = (l, t)" by force
  note t = list_managed [OF assms(1) l]
  show ?thesis
  proof (cases l)
    case (Inl e)
    with l assms(3) have "added = 0" "removed = 0" "err = Some e" "s' = t"
      by (simp_all add: ReconcileAll_def)
    with t show ?thesis by (intro exI [of _ "{}"] exI [of _ "{#}"]) auto
  next
    case (Inr ms)
    with t have ms: "ms = store s" and it: "inv t" and ht: "host t = host s" and st: "store t = store s" by auto
    note dh = handles_distinct [OF assms(1)]
    define hv cov where "hv = want \<inter> rule_key ` set (store s)" and "cov = rule_match ` set K"
    define ex where "ex = map r_handle (filter (\<lambda>m. m \<notin> set K) (store s))"
    have scan: "scan_managed want ms ({}, {}, []) = (hv, cov, ex)"
      using scan_managed_spec [OF dh, of want "{}" "{}" "[]"] by (simp add: ms hv_def cov_def ex_def K_def)
    have nm: "merges_same_match be = False"
      using no_merge by (auto simp: merges_same_match_def split: option.splits)
    obtain a1 e1 u where a: "add_missing be False desired hv cov 0 None t = (a1, e1, u)"
      using prod_cases3 by blast
    from add_missing_spec [OF it assms(2) a] obtain A N where
      A: "inv u" "host u = host s" "A \<subseteq> missing desired hv (host s)" and
      N: "mset (store u) = mset (store s) + N" "image_mset rule_key N = mset_set A" and
      a1: "a1 = int (card A)" "e1 = None \<longrightarrow> A = missing desired hv (host s)"
      by (auto simp: ht st)
    obtain r3 e3 v where d: "delete_extra be ex 0 e1 u = (r3, e3, v)"
      using prod_cases3 by blast
    from delete_extra_spec [OF A(1) d] obtain D where
      D: "D \<subseteq> set ex" "inv v" "host v = host s" "store v = filter (\<lambda>r. r_handle r \<notin> D) (store u)" and
      r3: "e3 = None \<longrightarrow> e1 = None \<and> D = set ex \<and> r3 = int (length ex)"
      using A(2) by auto
    have run: "a1 = added" "r3 = removed" "e3 = err" "v = s'"
      using assms(3) l Inr scan a d nm by (simp_all add: ReconcileAll_def Let_def want_def)
    have "r_handle x \<notin> D" if "x \<in># N" for x
      using fresh_handles [OF A(1) N(1) that] D(1) by (auto simp: ex_def)
    then have fN: "filter_mset (\<lambda>r. r_handle r \<notin> D) N = N" by (simp add: filter_mset_eq_conv)
    have "mset (store v) = mset (filter (\<lambda>r. r_handle r \<notin> D) (store s)) + N"
      using D(4) N(1) fN by (simp add: mset_filter)
    moreover have "filter (\<lambda>r. r_handle r \<notin> D) (store s) = K \<and> removed = int (length (store s)) - int (length K)"
      if "err = None"
    proof -
      have "filter (\<lambda>r. r_handle r \<notin> set ex) (store s) = K"
        using filter_extra_kept [OF dh] by (simp add: ex_def K_def)
      moreover have "length (filter (\<lambda>m. m \<in> set K) (store s)) = length K"
        using kept_filter [OF dh] by (simp add: K_def)
      ultimately show ?thesis
        using that r3 run sum_length_filter_compl [of "\<lambda>m. m \<in> set K" "store s"] by (simp add: ex_def)
    qed
    ultimately show ?thesis
      using A D N a1 r3 run by (intro exI [of _ D] exI [of _ A] exI [of _ N]) (auto simp: ex_def hv_def)
  qed
qed

end

section \<open>The properties\<close>

lemma reconcile_all_exact:
  assumes "keyed_store be prefix store host I" and "I s" and "named desired"
    and "ReconcileAll be desired s = (added, removed, None, s')"
  shows "mset (map rule_key (store s')) =
      mset_set {k \<in> rule_key ` set desired. k \<in> rule_key ` set (store s) \<or> host s (key_match k) = None}
    \<and> added = int (card {k \<in> rule_key ` set desired. k \<notin> rule_key ` set (store s) \<and> host s (key_match k) = None})
    \<and> removed = int (length (store s)) - int (card (rule_key ` set desired \<inter> rule_key ` set (store s)))"
proof -
  let ?W = "rule_key ` set desired" and ?S = "rule_key ` set (store s)"
  let ?K = "kept ?W {} (store s)" and ?M = "{k \<in> ?W. k \<notin> ?S \<and> host s (key_match k) = None}"
  have M: "missing desired (?W \<inter> ?S) (host s) = ?M" by (auto simp: missing_def)
  have K: "mset (map rule_key ?K) = mset_set (?W \<inter> ?S)" "length ?K = card (?W \<inter> ?S)"
    using distinct_kept [of ?W "{}" "store s"] kept_keys [of ?W "{}" "store s"]
      mset_set_set [of "map rule_key ?K"] distinct_card [of "map rule_key ?K"] by auto
  obtain D N where f: "filter (\<lambda>r. r_handle r \<notin> D) (store s) = ?K"
    and N: "mset (store s') = mset (filter (\<lambda>r. r_handle r \<notin> D) (store s)) + N"
      "image_mset rule_key N = mset_set ?M"
    and c: "added = int (card ?M)" "removed = int (length (store s)) - int (length ?K)"
    using keyed_store.ReconcileAll_run [OF assms] unfolding M by blast
  have "mset (map rule_key (store s')) = mset_set (?W \<inter> ?S) + mset_set ?M"
    using N f K(1) by simp
  also have "\<dots> = mset_set {k \<in> ?W. k \<in> ?S \<or> host s (key_match k) = None}"
    by (rule mset_set_split) simp
  finally show ?thesis using c K(2) by simp
qed

text \<open>C10. A run of ReconcileAll that reports no error leaves exactly the desired rules, each once: the
  keys of the managed rules are the desired keys, without repetition, apart from those whose match a
  rule of the host's own decides and that were not managed before.  The counters tell how many rules
  were added and how many were deleted.\<close>

theorem ReconcileAll_exact:
  assumes "keyed_store be prefix store host I" and "I s" and "named desired"
    and "ReconcileAll be desired s = (added, removed, None, s')"
  shows "mset (map rule_key (store s')) =
      mset_set {k \<in> rule_key ` set desired. k \<in> rule_key ` set (store s) \<or> host s (key_match k) = None}
    \<and> added = int (card {k \<in> rule_key ` set desired. k \<notin> rule_key ` set (store s) \<and> host s (key_match k) = None})
    \<and> removed = int (length (store s)) - int (card (rule_key ` set desired \<inter> rule_key ` set (store s)))"
  using assms by (rule reconcile_all_exact)

definition demo_rule :: "string \<Rightarrow> int \<Rightarrow> string \<Rightarrow> string \<Rightarrow> rule" where
  "demo_rule ip port u g = mk_rule ''nft-okboy'' 0 ip port u ''tcp'' g"

text \<open>A mock that holds one desired rule, one stale rule and decides one match itself.\<close>

definition demo_mock :: mock where
  "demo_mock = (NewMockBackend ''ok'')\<lparr>mk_next := 3,
     mk_rules := [mk_rule ''ok'' 1 ''10.0.0.1'' 22 ''ann'' ''tcp'' ''ssh'',
                  mk_rule ''ok'' 2 ''10.0.0.9'' 22 ''bob'' ''tcp'' ''ssh''],
     mk_host := [''10.0.0.2:80/tcp'' \<mapsto> ''ALLOW'']\<rparr>"

lemma demo_mock_inv: "mock_inv ''ok'' demo_mock"
  by code_simp

definition demo_desired :: "rule list" where
  "demo_desired = [demo_rule ''10.0.0.1'' 22 ''ann'' ''ssh'', demo_rule ''10.0.0.2'' 80 ''ann'' ''web'',
     demo_rule ''10.0.0.3'' 22 ''cat'' ''ssh'']"

lemma demo_named: "named demo_desired"
  by code_simp

theorem ReconcileAll_exact_witness:
  "\<exists>s'. ReconcileAll mock_backend demo_desired demo_mock = (1, 1, None, s') \<and>
     mset (map rule_key (mk_rules s')) = mset_set {k \<in> rule_key ` set demo_desired.
       k \<in> rule_key ` set (mk_rules demo_mock) \<or> mock_host demo_mock (key_match k) = None}"
proof -
  have "(\<lambda>(a, r, e, s'). a = 1 \<and> r = 1 \<and> e = None) (ReconcileAll mock_backend demo_desired demo_mock)"
    by code_simp
  then obtain s' where r: "ReconcileAll mock_backend demo_desired demo_mock = (1, 1, None, s')" by auto
  from ReconcileAll_exact [OF mock.keyed_store_axioms demo_mock_inv demo_named this] r show ?thesis by blast
qed

text \<open>C11. Whatever fails, no run of ReconcileAll takes access away from a desired rule or grants access
  nobody asked for: every rule it keeps per desired key stays in the store with its handle, a key
  that is in the store afterwards was there before or is desired and not decided by the host, and a
  desired key is never added a second time.\<close>

theorem ReconcileAll_safe:
  assumes "keyed_store be prefix store host I" and "I s" and "named desired"
    and "ReconcileAll be desired s = (added, removed, err, s')"
  shows "set (kept (rule_key ` set desired) {} (store s)) \<subseteq> set (store s')
    \<and> rule_key ` set desired \<inter> rule_key ` set (store s) \<subseteq> rule_key ` set (store s')
    \<and> rule_key ` set (store s') \<subseteq> rule_key ` set (store s) \<union>
        {k \<in> rule_key ` set desired. host s (key_match k) = None}
    \<and> (\<forall>k. count (mset (map rule_key (store s'))) k \<le> max 1 (count (mset (map rule_key (store s))) k))"
proof -
  let ?W = "rule_key ` set desired" and ?S = "rule_key ` set (store s)"
  let ?K = "kept ?W {} (store s)"
  obtain D A N where D: "D \<subseteq> r_handle ` (set (store s) - set ?K)"
    and A: "A \<subseteq> missing desired (?W \<inter> ?S) (host s)"
    and N: "mset (store s') = mset (filter (\<lambda>r. r_handle r \<notin> D) (store s)) + N"
      "image_mset rule_key N = mset_set A"
    using keyed_store.ReconcileAll_run [OF assms] by metis
  have dh: "distinct (map r_handle (store s))"
    using assms(1,2) by (metis keyed_store.axioms(1) rule_store.handles_distinct)
  have "r_handle r \<notin> D" if "r \<in> set ?K" for r
  proof
    assume "r_handle r \<in> D"
    then obtain q where q: "q \<in> set (store s)" "q \<notin> set ?K" "r_handle r = r_handle q" using D by blast
    moreover have "r \<in> set (store s)" using that set_kept by blast
    ultimately have "r = q" using dh by (metis distinct_map inj_onD)
    with q that show False by simp
  qed
  moreover have S': "set (store s') = set (filter (\<lambda>r. r_handle r \<notin> D) (store s)) \<union> set_mset N"
    using N(1) by (metis set_mset_mset set_mset_union)
  ultimately have K: "set ?K \<subseteq> set (store s')" using set_kept [of ?W "{}" "store s"] by auto
  then have W: "?W \<inter> ?S \<subseteq> rule_key ` set (store s')" using kept_keys [of ?W "{}" "store s"] by blast
  have finA: "finite A" using A finite_missing finite_subset by blast
  then have kN: "rule_key ` set_mset N = A" using N(2) by (metis finite_set_mset_mset_set set_image_mset)
  then have "rule_key ` set (store s') \<subseteq> ?S \<union> {k \<in> ?W. host s (key_match k) = None}"
    using S' A by (auto simp: missing_def)
  moreover have "count (mset (map rule_key (store s'))) k \<le> max 1 (count (mset (map rule_key (store s))) k)" for k
  proof -
    have "mset (map rule_key (store s')) = mset (map rule_key (filter (\<lambda>r. r_handle r \<notin> D) (store s))) + mset_set A"
      using N by simp
    moreover have "mset (map rule_key (filter (\<lambda>r. r_handle r \<notin> D) (store s))) \<subseteq># mset (map rule_key (store s))"
      by (simp add: image_mset_subseteq_mono mset_filter)
    then have "count (mset (map rule_key (filter (\<lambda>r. r_handle r \<notin> D) (store s)))) k \<le> count (mset (map rule_key (store s))) k"
      by (rule mset_subset_eq_count)
    moreover have "count (mset (map rule_key (store s))) k = 0" if "k \<in> A"
      using that A by (auto simp: missing_def not_in_iff [symmetric])
    ultimately show ?thesis using finA by (cases "k \<in> A") auto
  qed
  ultimately show ?thesis using K W by blast
qed

theorem ReconcileAll_safe_witness:
  "rule_key (demo_rule ''10.0.0.1'' 22 ''ann'' ''ssh'')
     \<in> rule_key ` set (mk_rules (snd (snd (snd (ReconcileAll mock_backend demo_desired demo_mock)))))"
proof -
  obtain a r e s' where r: "ReconcileAll mock_backend demo_desired demo_mock = (a, r, e, s')"
    using prod_cases4 by blast
  have "rule_key (demo_rule ''10.0.0.1'' 22 ''ann'' ''ssh'')
     \<in> rule_key ` set demo_desired \<inter> rule_key ` set (mk_rules demo_mock)" by code_simp
  with ReconcileAll_safe [OF mock.keyed_store_axioms demo_mock_inv demo_named r] r show ?thesis by auto
qed

text \<open>C12. ReconcileAll is idempotent: after a run without error, a second run with the same desired
  rules, with any outcome, changes no rule and counts no change.\<close>

theorem ReconcileAll_idempotent:
  assumes "keyed_store be prefix store host I" and "I s" and "named desired"
    and "ReconcileAll be desired s = (added, removed, None, s1)"
    and "ReconcileAll be desired s1 = (added2, removed2, err2, s2)"
  shows "mset (store s2) = mset (store s1) \<and> added2 = 0 \<and> (err2 = None \<longrightarrow> removed2 = 0)"
proof -
  let ?W = "rule_key ` set desired"
  have i1: "I s1" "host s1 = host s" using keyed_store.ReconcileAll_run [OF assms(1-4)] by blast+
  have ex: "mset (map rule_key (store s1)) =
      mset_set {k \<in> ?W. k \<in> rule_key ` set (store s) \<or> host s (key_match k) = None}" (is "_ = mset_set ?X")
    using reconcile_all_exact [OF assms(1-4)] by blast
  then have S1: "rule_key ` set (store s1) = ?X" and "distinct (map rule_key (store s1))"
    using mset_eq_mset_set [OF ex] by auto
  then have k: "kept ?W {} (store s1) = store s1"
    using S1 by (intro kept_all) auto
  have m: "missing desired (?W \<inter> rule_key ` set (store s1)) (host s1) = {}"
    using S1 i1(2) by (auto simp: missing_def)
  from keyed_store.ReconcileAll_run [OF assms(1) i1(1) assms(3,5)] k m show ?thesis by auto
qed

theorem ReconcileAll_idempotent_witness:
  "\<exists>s1 s2. ReconcileAll mock_backend demo_desired demo_mock = (1, 1, None, s1) \<and>
     ReconcileAll mock_backend demo_desired s1 = (0, 0, None, s2) \<and> mset (mk_rules s2) = mset (mk_rules s1)"
proof -
  have "(\<lambda>(a, r, e, s1). a = 1 \<and> r = 1 \<and> e = None \<and>
      (\<lambda>(a, r, e, s2). a = 0 \<and> r = 0 \<and> e = None) (ReconcileAll mock_backend demo_desired s1))
    (ReconcileAll mock_backend demo_desired demo_mock)" by code_simp
  then obtain s1 s2 where r1: "ReconcileAll mock_backend demo_desired demo_mock = (1, 1, None, s1)"
    and r2: "ReconcileAll mock_backend demo_desired s1 = (0, 0, None, s2)" by auto
  from ReconcileAll_idempotent [OF mock.keyed_store_axioms demo_mock_inv demo_named r1 r2] r1 r2
  show ?thesis by blast
qed

end
