(* ===== verification/Db.thy ===== *)
theory Db
  imports Prelude "HOL-Library.List_Lexorder" "HOL-Library.Char_ord" "HOL-Library.Product_Lexorder"
begin

text \<open>
  \<open>internal/db\<close>: the SQLite persistence layer.  A table is the list of its rows in id order, a
  \<open>db\<close> holds the tables, the \<open>AUTOINCREMENT\<close> counters, and whether the index on
  \<open>groups(port, proto)\<close> exists.  An operation runs on a database and a fault schedule: every SQL
  statement takes one entry of the schedule and fails without effect when it is \<open>True\<close>; no entry left
  means no fault.  Times are unix seconds; \<open>datetime('now')\<close>
  and \<open>time.Now()\<close> are the argument \<open>now\<close>.  A query without \<open>ORDER BY\<close> returns rows in table order;
  the properties that use one speak of the set of its rows.
\<close>

section \<open>Tables\<close>

record user =
  u_id :: int
  u_name :: string
  u_secret :: string
  u_admin :: bool
  u_ip :: "string option"
  u_knock :: "int option"
  u_totp :: "string option"
  u_totp_on :: bool
  u_totp_ctr :: int
  u_created :: int

record grp =
  g_id :: int
  g_name :: string
  g_port :: int
  g_proto :: string
  g_created :: int

record membership =
  m_user :: int
  m_group :: int
  m_enabled :: bool
  m_joined :: int

record audit_entry =
  a_id :: int
  a_actor :: string
  a_action :: string
  a_target :: "string option"
  a_detail :: "string option"
  a_created :: int

record op_entry =
  o_user :: string
  o_action :: string
  o_ip :: "string option"
  o_detail :: "string option"
  o_created :: int

record failed_attempt =
  f_user :: "string option"
  f_ip :: "string option"
  f_reason :: string
  f_created :: int

record node =
  n_id :: int
  n_name :: string
  n_hash :: string
  n_seen :: "int option"
  n_version :: "string option"
  n_backend :: "string option"
  n_created :: int

record group_target =
  t_id :: int
  t_group :: int
  t_node :: int
  t_port :: int
  t_proto :: string

record group_port =
  gp_group :: string
  gp_port :: int
  gp_proto :: string

record user_group_state =
  s_id :: int
  s_name :: string
  s_port :: int
  s_proto :: string
  s_member :: bool
  s_enabled :: bool

record group_target_view =
  v_group :: string
  v_node :: string
  v_port :: int
  v_proto :: string

record desired_rule =
  d_ip :: string
  d_port :: int
  d_proto :: string
  d_user :: string
  d_group :: string

record db =
  users :: "user list"
  users_seq :: int
  grps :: "grp list"
  grps_seq :: int
  members :: "membership list"
  audits :: "audit_entry list"
  audits_seq :: int
  oplog :: "op_entry list"
  failed :: "failed_attempt list"
  nodes :: "node list"
  nodes_seq :: int
  targets :: "group_target list"
  targets_seq :: int
  uniq_pp :: bool

text \<open>A fresh database after \<open>Init\<close>: empty tables; migration 4 finds no duplicates and creates the
  index.\<close>

definition empty_db :: db where
  "empty_db = \<lparr>users = [], users_seq = 0, grps = [], grps_seq = 0, members = [], audits = [],
     audits_seq = 0, oplog = [], failed = [], nodes = [], nodes_seq = 0, targets = [],
     targets_seq = 0, uniq_pp = True\<rparr>"

section \<open>Statements and transactions\<close>

datatype dberr = DbFault | DbUnique | DbForeignKey | DbNoRows

type_synonym 'a dbm = "db \<times> bool list \<Rightarrow> (dberr + 'a) \<times> db \<times> bool list"

definition ret :: "'a \<Rightarrow> 'a dbm" where
  "ret a s = (Inr a, s)"

definition bnd :: "'a dbm \<Rightarrow> ('a \<Rightarrow> 'b dbm) \<Rightarrow> 'b dbm" where
  "bnd m f s = (case m s of (Inl e, s') \<Rightarrow> (Inl e, s') | (Inr a, s') \<Rightarrow> f a s')"

definition stmt :: "(db \<Rightarrow> (dberr + 'a) \<times> db) \<Rightarrow> 'a dbm" where
  "stmt f s = (case s of (d, fs) \<Rightarrow>
     if fs \<noteq> [] \<and> hd fs then (Inl DbFault, d, tl fs) else (case f d of (r, d') \<Rightarrow> (r, d', tl fs)))"

definition query :: "(db \<Rightarrow> 'a) \<Rightarrow> 'a dbm" where
  "query f = stmt (\<lambda>d. (Inr (f d), d))"

definition exec :: "(db \<Rightarrow> db) \<Rightarrow> unit dbm" where
  "exec f = stmt (\<lambda>d. (Inr (), f d))"

text \<open>A transaction: \<open>Begin\<close>, the body, \<open>Commit\<close>; an error in any of them rolls the tables back.\<close>

definition txn :: "'a dbm \<Rightarrow> 'a dbm" where
  "txn m s = (case bnd (query (\<lambda>_. ())) (\<lambda>_. bnd m (\<lambda>a. bnd (query (\<lambda>_. ())) (\<lambda>_. ret a))) s of
      (Inl e, _, fs) \<Rightarrow> (Inl e, fst s, fs)
    | (Inr a, s') \<Rightarrow> (Inr a, s'))"

definition upd_where :: "('a \<Rightarrow> bool) \<Rightarrow> ('a \<Rightarrow> 'a) \<Rightarrow> 'a list \<Rightarrow> 'a list" where
  "upd_where P f xs = map (\<lambda>x. if P x then f x else x) xs"

section \<open>Users\<close>

definition new_user :: "int \<Rightarrow> int \<Rightarrow> string \<Rightarrow> string \<Rightarrow> bool \<Rightarrow> user" where
  "new_user now i un sec adm = \<lparr>u_id = i, u_name = un, u_secret = sec, u_admin = adm, u_ip = None,
     u_knock = None, u_totp = None, u_totp_on = False, u_totp_ctr = 0, u_created = now\<rparr>"

definition CreateUser :: "int \<Rightarrow> string \<Rightarrow> string \<Rightarrow> bool \<Rightarrow> int dbm" where
  "CreateUser now un sec adm = stmt (\<lambda>d.
     if \<exists>u \<in> set (users d). u_name u = un then (Inl DbUnique, d)
     else (Inr (users_seq d + 1), d\<lparr>users := users d @ [new_user now (users_seq d + 1) un sec adm],
            users_seq := users_seq d + 1\<rparr>))"

definition GetUserByUsername :: "string \<Rightarrow> user option dbm" where
  "GetUserByUsername un = query (\<lambda>d. find (\<lambda>u. u_name u = un) (users d))"

definition GetUser :: "int \<Rightarrow> user option dbm" where
  "GetUser i = query (\<lambda>d. find (\<lambda>u. u_id u = i) (users d))"

definition ListUsers :: "user list dbm" where
  "ListUsers = query users"

definition DeleteUser :: "int \<Rightarrow> unit dbm" where
  "DeleteUser i = exec (\<lambda>d. d\<lparr>users := filter (\<lambda>u. u_id u \<noteq> i) (users d),
     members := filter (\<lambda>m. m_user m \<noteq> i) (members d)\<rparr>)"

definition upd_user :: "int \<Rightarrow> (user \<Rightarrow> user) \<Rightarrow> db \<Rightarrow> db" where
  "upd_user i f d = d\<lparr>users := upd_where (\<lambda>u. u_id u = i) f (users d)\<rparr>"

definition SetUserAdmin :: "int \<Rightarrow> bool \<Rightarrow> unit dbm" where
  "SetUserAdmin i adm = exec (upd_user i (\<lambda>u. u\<lparr>u_admin := adm\<rparr>))"

definition RotateSecret :: "int \<Rightarrow> string \<Rightarrow> unit dbm" where
  "RotateSecret i sec = exec (upd_user i (\<lambda>u. u\<lparr>u_secret := sec\<rparr>))"

definition SetUserIP :: "int \<Rightarrow> string \<Rightarrow> unit dbm" where
  "SetUserIP i ip = exec (upd_user i (\<lambda>u. u\<lparr>u_ip := Some ip\<rparr>))"

definition ClearUserState :: "int \<Rightarrow> unit dbm" where
  "ClearUserState i = exec (upd_user i (\<lambda>u. u\<lparr>u_ip := None, u_knock := None\<rparr>))"

definition UpdateKnockTime :: "int \<Rightarrow> int \<Rightarrow> string \<Rightarrow> unit dbm" where
  "UpdateKnockTime now i ip = exec (upd_user i (\<lambda>u. u\<lparr>u_ip := Some ip, u_knock := Some now\<rparr>))"

definition GetUserIP :: "string \<Rightarrow> string option dbm" where
  "GetUserIP un = query (\<lambda>d. case find (\<lambda>u. u_name u = un) (users d) of
     None \<Rightarrow> None | Some u \<Rightarrow> u_ip u)"

text \<open>\<open>QueryRow(...).Scan\<close> without a row is an error.\<close>

definition query_row :: "(db \<Rightarrow> 'a option) \<Rightarrow> 'a dbm" where
  "query_row f = stmt (\<lambda>d. case f d of None \<Rightarrow> (Inl DbNoRows, d) | Some a \<Rightarrow> (Inr a, d))"

definition log_op :: "op_entry \<Rightarrow> db \<Rightarrow> db" where
  "log_op e d = d\<lparr>oplog := oplog d @ [e]\<rparr>"

definition RecordIPChange :: "int \<Rightarrow> int \<Rightarrow> string \<Rightarrow> string \<Rightarrow> string option dbm" where
  "RecordIPChange now uid un ip = txn (
     bnd (query_row (\<lambda>d. map_option u_ip (find (\<lambda>u. u_id u = uid) (users d)))) (\<lambda>prior.
     bnd (exec (upd_user uid (\<lambda>u. u\<lparr>u_ip := Some ip, u_knock := Some now\<rparr>))) (\<lambda>_.
     bnd (if prior \<noteq> Some ip
          then exec (log_op \<lparr>o_user = un, o_action = ''ip_change'', o_ip = Some ip,
                  o_detail = Some (''old='' @ (case prior of Some p \<Rightarrow> p | None \<Rightarrow> ''None'')),
                  o_created = now\<rparr>)
          else ret ()) (\<lambda>_.
     ret prior))))"

section \<open>TOTP columns\<close>

definition SetTOTPSecret :: "int \<Rightarrow> string \<Rightarrow> unit dbm" where
  "SetTOTPSecret i sec = exec (upd_user i (\<lambda>u. u\<lparr>u_totp := Some sec, u_totp_on := False, u_totp_ctr := 0\<rparr>))"

definition EnableTOTP :: "int \<Rightarrow> unit dbm" where
  "EnableTOTP i = exec (upd_user i (\<lambda>u. u\<lparr>u_totp_on := True\<rparr>))"

definition DisableTOTP :: "int \<Rightarrow> unit dbm" where
  "DisableTOTP i = exec (upd_user i (\<lambda>u. u\<lparr>u_totp := None, u_totp_on := False\<rparr>))"

definition SetTOTPLastCounter :: "int \<Rightarrow> int \<Rightarrow> unit dbm" where
  "SetTOTPLastCounter i c = exec (upd_user i (\<lambda>u. u\<lparr>u_totp_ctr := c\<rparr>))"

definition ConsumeTOTPCounter :: "int \<Rightarrow> int \<Rightarrow> bool dbm" where
  "ConsumeTOTPCounter i c = stmt (\<lambda>d.
     (Inr (length (filter (\<lambda>u. u_id u = i \<and> u_totp_ctr u < c) (users d)) = 1),
      d\<lparr>users := upd_where (\<lambda>u. u_id u = i \<and> u_totp_ctr u < c) (\<lambda>u. u\<lparr>u_totp_ctr := c\<rparr>) (users d)\<rparr>))"

section \<open>Groups and memberships\<close>

definition CreateGroup :: "int \<Rightarrow> string \<Rightarrow> int \<Rightarrow> string \<Rightarrow> int dbm" where
  "CreateGroup now nm port proto = stmt (\<lambda>d.
     if (\<exists>g \<in> set (grps d). g_name g = nm) \<or>
        uniq_pp d \<and> (\<exists>g \<in> set (grps d). g_port g = port \<and> g_proto g = proto)
     then (Inl DbUnique, d)
     else (Inr (grps_seq d + 1), d\<lparr>grps := grps d @ [\<lparr>g_id = grps_seq d + 1, g_name = nm, g_port = port,
             g_proto = proto, g_created = now\<rparr>], grps_seq := grps_seq d + 1\<rparr>))"

definition GetGroup :: "int \<Rightarrow> grp option dbm" where
  "GetGroup i = query (\<lambda>d. find (\<lambda>g. g_id g = i) (grps d))"

definition GetGroupByName :: "string \<Rightarrow> grp option dbm" where
  "GetGroupByName nm = query (\<lambda>d. find (\<lambda>g. g_name g = nm) (grps d))"

definition GetGroupByPortProto :: "int \<Rightarrow> string \<Rightarrow> grp option dbm" where
  "GetGroupByPortProto port proto = query (\<lambda>d. find (\<lambda>g. g_port g = port \<and> g_proto g = proto) (grps d))"

definition ListGroups :: "grp list dbm" where
  "ListGroups = query grps"

definition DeleteGroup :: "int \<Rightarrow> unit dbm" where
  "DeleteGroup i = exec (\<lambda>d. d\<lparr>grps := filter (\<lambda>g. g_id g \<noteq> i) (grps d),
     members := filter (\<lambda>m. m_group m \<noteq> i) (members d),
     targets := filter (\<lambda>t. t_group t \<noteq> i) (targets d)\<rparr>)"

definition is_row :: "int \<Rightarrow> int \<Rightarrow> membership \<Rightarrow> bool" where
  "is_row uid gid m \<longleftrightarrow> m_user m = uid \<and> m_group m = gid"

definition AddMembership :: "int \<Rightarrow> int \<Rightarrow> int \<Rightarrow> bool \<Rightarrow> unit dbm" where
  "AddMembership now uid gid en = stmt (\<lambda>d.
     if \<exists>m \<in> set (members d). is_row uid gid m
     then (Inr (), d\<lparr>members := upd_where (is_row uid gid) (\<lambda>m. m\<lparr>m_enabled := en\<rparr>) (members d)\<rparr>)
     else if (\<exists>u \<in> set (users d). u_id u = uid) \<and> (\<exists>g \<in> set (grps d). g_id g = gid)
     then (Inr (), d\<lparr>members := members d @ [\<lparr>m_user = uid, m_group = gid, m_enabled = en, m_joined = now\<rparr>]\<rparr>)
     else (Inl DbForeignKey, d))"

definition RemoveMembership :: "int \<Rightarrow> int \<Rightarrow> unit dbm" where
  "RemoveMembership uid gid = exec (\<lambda>d. d\<lparr>members := filter (\<lambda>m. \<not> is_row uid gid m) (members d)\<rparr>)"

definition SetMembershipEnabled :: "int \<Rightarrow> int \<Rightarrow> bool \<Rightarrow> unit dbm" where
  "SetMembershipEnabled uid gid en = exec (\<lambda>d.
     d\<lparr>members := upd_where (is_row uid gid) (\<lambda>m. m\<lparr>m_enabled := en\<rparr>) (members d)\<rparr>)"

definition GetUserGroups :: "int \<Rightarrow> bool \<Rightarrow> grp list dbm" where
  "GetUserGroups uid onlyEnabled = query (\<lambda>d.
     filter (\<lambda>g. \<exists>m \<in> set (members d). is_row uid (g_id g) m \<and> (onlyEnabled \<longrightarrow> m_enabled m)) (grps d))"

definition UserHasGroupAccess :: "string \<Rightarrow> int \<Rightarrow> bool \<Rightarrow> bool dbm" where
  "UserHasGroupAccess un gid allowReenable = query (\<lambda>d.
     \<exists>m \<in> set (members d). \<exists>u \<in> set (users d).
       u_id u = m_user m \<and> u_name u = un \<and> m_group m = gid \<and> (\<not> allowReenable \<longrightarrow> m_enabled m))"

text \<open>The inner joins of the membership rows with their user and group.\<close>

definition joined :: "db \<Rightarrow> (membership \<times> user \<times> grp) list" where
  "joined d = concat (map (\<lambda>m. concat (map (\<lambda>u. map (\<lambda>g. (m, u, g))
     (filter (\<lambda>g. g_id g = m_group m) (grps d))) (filter (\<lambda>u. u_id u = m_user m) (users d)))) (members d))"

text \<open>\<open>map[string][]GroupPort\<close>: the tuples of one username, in row order.\<close>

definition GetAllUserGroupPorts :: "(string \<Rightarrow> group_port list) dbm" where
  "GetAllUserGroupPorts = query (\<lambda>d un.
     map (\<lambda>(m, u, g). \<lparr>gp_group = g_name g, gp_port = g_port g, gp_proto = g_proto g\<rparr>)
       (filter (\<lambda>(m, u, g). m_enabled m \<and> u_name u = un) (joined d)))"

definition UserGroupStates :: "int \<Rightarrow> user_group_state list dbm" where
  "UserGroupStates uid =
     bnd (query (\<lambda>d. filter (\<lambda>m. m_user m = uid) (members d))) (\<lambda>ms.
     bnd ListGroups (\<lambda>gs.
     ret (map (\<lambda>g. \<lparr>s_id = g_id g, s_name = g_name g, s_port = g_port g, s_proto = g_proto g,
        s_member = (\<exists>m \<in> set ms. m_group m = g_id g),
        s_enabled = (\<exists>m \<in> set ms. m_group m = g_id g \<and> m_enabled m)\<rparr>) gs)))"

section \<open>Logs and throttle counters\<close>

definition LogAudit :: "int \<Rightarrow> string \<Rightarrow> string \<Rightarrow> string option \<Rightarrow> string option \<Rightarrow> unit dbm" where
  "LogAudit now actor action target detail = exec (\<lambda>d.
     d\<lparr>audits := audits d @ [\<lparr>a_id = audits_seq d + 1, a_actor = actor, a_action = action,
          a_target = target, a_detail = detail, a_created = now\<rparr>],
       audits_seq := audits_seq d + 1\<rparr>)"

text \<open>A negative \<open>LIMIT\<close> is no limit in SQLite.\<close>

definition ListAudit :: "int \<Rightarrow> audit_entry list dbm" where
  "ListAudit limit = query (\<lambda>d. if limit < 0 then rev (audits d) else take (nat limit) (rev (audits d)))"

definition RecordFailedAttempt :: "int \<Rightarrow> string option \<Rightarrow> string option \<Rightarrow> string \<Rightarrow> unit dbm" where
  "RecordFailedAttempt now un ip reason = exec (\<lambda>d.
     d\<lparr>failed := failed d @ [\<lparr>f_user = un, f_ip = ip, f_reason = reason, f_created = now\<rparr>]\<rparr>)"

definition CountRecentFailedAttempts :: "int \<Rightarrow> string \<Rightarrow> int \<Rightarrow> int dbm" where
  "CountRecentFailedAttempts now ip windowSec = query (\<lambda>d.
     int (length (filter (\<lambda>f. f_ip f = Some ip \<and> now - windowSec \<le> f_created f) (failed d))))"

definition CountRecentUserFailures :: "int \<Rightarrow> string \<Rightarrow> string \<Rightarrow> int \<Rightarrow> int dbm" where
  "CountRecentUserFailures now un reason windowSec = query (\<lambda>d.
     int (length (filter (\<lambda>f. f_user f = Some un \<and> f_reason f = reason \<and> now - windowSec \<le> f_created f)
       (failed d))))"

definition recent_ip_changes :: "int \<Rightarrow> string \<Rightarrow> int \<Rightarrow> db \<Rightarrow> op_entry list" where
  "recent_ip_changes now un windowSec d =
     filter (\<lambda>e. o_user e = un \<and> o_action e = ''ip_change'' \<and> now - windowSec \<le> o_created e) (oplog d)"

definition CountRecentIPChanges :: "int \<Rightarrow> string \<Rightarrow> int \<Rightarrow> int dbm" where
  "CountRecentIPChanges now un windowSec = query (\<lambda>d. int (length (recent_ip_changes now un windowSec d)))"

definition GetRecentIPChangeIPs :: "int \<Rightarrow> string \<Rightarrow> int \<Rightarrow> string list dbm" where
  "GetRecentIPChangeIPs now un windowSec = query (\<lambda>d. List.map_filter o_ip (recent_ip_changes now un windowSec d))"

section \<open>Nodes and targets\<close>

definition CreateNode :: "int \<Rightarrow> string \<Rightarrow> string \<Rightarrow> int dbm" where
  "CreateNode now nm hash = stmt (\<lambda>d.
     if \<exists>n \<in> set (nodes d). n_name n = nm \<or> n_hash n = hash then (Inl DbUnique, d)
     else (Inr (nodes_seq d + 1), d\<lparr>nodes := nodes d @ [\<lparr>n_id = nodes_seq d + 1, n_name = nm, n_hash = hash,
             n_seen = None, n_version = None, n_backend = None, n_created = now\<rparr>],
             nodes_seq := nodes_seq d + 1\<rparr>))"

definition GetNodeByName :: "string \<Rightarrow> node option dbm" where
  "GetNodeByName nm = query (\<lambda>d. find (\<lambda>n. n_name n = nm) (nodes d))"

definition GetNodeByTokenHash :: "string \<Rightarrow> node option dbm" where
  "GetNodeByTokenHash h = query (\<lambda>d. find (\<lambda>n. n_hash n = h) (nodes d))"

definition ListNodes :: "node list dbm" where
  "ListNodes = query nodes"

definition DeleteNode :: "int \<Rightarrow> unit dbm" where
  "DeleteNode i = exec (\<lambda>d. d\<lparr>nodes := filter (\<lambda>n. n_id n \<noteq> i) (nodes d),
     targets := filter (\<lambda>t. t_node t \<noteq> i) (targets d)\<rparr>)"

definition TouchNode :: "int \<Rightarrow> int \<Rightarrow> unit dbm" where
  "TouchNode now i = exec (\<lambda>d. d\<lparr>nodes := upd_where (\<lambda>n. n_id n = i) (\<lambda>n. n\<lparr>n_seen := Some now\<rparr>) (nodes d)\<rparr>)"

definition nullStr :: "string \<Rightarrow> string option" where
  "nullStr s = (if s = [] then None else Some s)"

definition UpdateNodeReport :: "int \<Rightarrow> int \<Rightarrow> string \<Rightarrow> string \<Rightarrow> unit dbm" where
  "UpdateNodeReport now i version backend = exec (\<lambda>d. d\<lparr>nodes := upd_where (\<lambda>n. n_id n = i)
     (\<lambda>n. n\<lparr>n_seen := Some now, n_version := nullStr version, n_backend := nullStr backend\<rparr>) (nodes d)\<rparr>)"

definition is_target :: "int \<Rightarrow> int \<Rightarrow> group_target \<Rightarrow> bool" where
  "is_target gid nid t \<longleftrightarrow> t_group t = gid \<and> t_node t = nid"

definition AddGroupTarget :: "int \<Rightarrow> int \<Rightarrow> int \<Rightarrow> string \<Rightarrow> unit dbm" where
  "AddGroupTarget gid nid port proto = stmt (\<lambda>d.
     if \<exists>t \<in> set (targets d). is_target gid nid t
     then (Inr (), d\<lparr>targets := upd_where (is_target gid nid) (\<lambda>t. t\<lparr>t_port := port, t_proto := proto\<rparr>) (targets d)\<rparr>)
     else if (\<exists>g \<in> set (grps d). g_id g = gid) \<and> (\<exists>n \<in> set (nodes d). n_id n = nid)
     then (Inr (), d\<lparr>targets := targets d @ [\<lparr>t_id = targets_seq d + 1, t_group = gid, t_node = nid,
             t_port = port, t_proto = proto\<rparr>], targets_seq := targets_seq d + 1\<rparr>)
     else (Inl DbForeignKey, d))"

definition RemoveGroupTarget :: "int \<Rightarrow> int \<Rightarrow> unit dbm" where
  "RemoveGroupTarget gid nid = exec (\<lambda>d. d\<lparr>targets := filter (\<lambda>t. \<not> is_target gid nid t) (targets d)\<rparr>)"

text \<open>\<open>ORDER BY\<close> on text compares bytes (the binary collation), as \<open>List_Lexorder\<close> over \<open>Char_ord\<close>
  does.\<close>

definition ListGroupTargets :: "group_target_view list dbm" where
  "ListGroupTargets = query (\<lambda>d. sort_key (\<lambda>v. (v_node v, v_group v)) (concat (map (\<lambda>t. concat (map (\<lambda>g. map (\<lambda>n.
       \<lparr>v_group = g_name g, v_node = n_name n, v_port = t_port t, v_proto = t_proto t\<rparr>)
     (filter (\<lambda>n. n_id n = t_node t) (nodes d))) (filter (\<lambda>g. g_id g = t_group t) (grps d)))) (targets d))))"

definition NodeTargetPorts :: "int \<Rightarrow> group_port list dbm" where
  "NodeTargetPorts nid = query (\<lambda>d. sort_key (\<lambda>p. (gp_port p, gp_proto p)) (concat (map (\<lambda>t. map (\<lambda>g.
       \<lparr>gp_group = g_name g, gp_port = t_port t, gp_proto = t_proto t\<rparr>)
     (filter (\<lambda>g. g_id g = t_group t) (grps d))) (filter (\<lambda>t. t_node t = nid) (targets d)))))"

text \<open>A rule needs a recorded, non-empty address: \<open>current_ip IS NOT NULL AND current_ip != ''\<close>.\<close>

definition with_ip :: "user \<Rightarrow> (string \<Rightarrow> 'a) \<Rightarrow> 'a list" where
  "with_ip u f = (case u_ip u of None \<Rightarrow> [] | Some ip \<Rightarrow> if ip = [] then [] else [f ip])"

definition desired_local :: "db \<Rightarrow> desired_rule list" where
  "desired_local d = concat (map (\<lambda>(m, u, g). if m_enabled m
     then with_ip u (\<lambda>ip. \<lparr>d_ip = ip, d_port = g_port g, d_proto = g_proto g, d_user = u_name u, d_group = g_name g\<rparr>)
     else []) (joined d))"

definition DesiredStateLocal :: "desired_rule list dbm" where
  "DesiredStateLocal = query desired_local"

definition desired_node :: "int \<Rightarrow> db \<Rightarrow> desired_rule list" where
  "desired_node nid d = concat (map (\<lambda>t. concat (map (\<lambda>(m, u, g). if m_enabled m \<and> m_group m = t_group t
     then with_ip u (\<lambda>ip. \<lparr>d_ip = ip, d_port = t_port t, d_proto = t_proto t, d_user = u_name u, d_group = g_name g\<rparr>)
     else []) (joined d))) (filter (\<lambda>t. t_node t = nid) (targets d)))"

definition DesiredStateForNode :: "int \<Rightarrow> desired_rule list dbm" where
  "DesiredStateForNode nid = query (desired_node nid)"

end
