(* ===== verification/DbInv.thy ===== *)
theory DbInv
  imports Db
begin

text \<open>
  What holds of every database the operations of \<open>Db\<close> can reach: ids are the unique, ascending
  keys of their tables, names and tokens are unique, a membership and a target refer to rows that
  exist, and no pair of keys occurs twice.  \<open>db_step\<close> is one call of an operation that writes.
\<close>

section \<open>The invariant\<close>

definition ids_ok :: "('a \<Rightarrow> int) \<Rightarrow> int \<Rightarrow> 'a list \<Rightarrow> bool" where
  "ids_ok f n xs \<longleftrightarrow> sorted_wrt (<) (map f xs) \<and> (\<forall>x \<in> set xs. f x \<le> n)"

definition wf_users :: "db \<Rightarrow> bool" where
  "wf_users d \<longleftrightarrow> ids_ok u_id (users_seq d) (users d) \<and> distinct (map u_name (users d))"

definition wf_grps :: "db \<Rightarrow> bool" where
  "wf_grps d \<longleftrightarrow> ids_ok g_id (grps_seq d) (grps d) \<and> distinct (map g_name (grps d)) \<and>
     (uniq_pp d \<longrightarrow> distinct (map (\<lambda>g. (g_port g, g_proto g)) (grps d)))"

definition wf_members :: "db \<Rightarrow> bool" where
  "wf_members d \<longleftrightarrow> distinct (map (\<lambda>m. (m_user m, m_group m)) (members d)) \<and>
     (\<forall>m \<in> set (members d). m_user m \<in> u_id ` set (users d) \<and> m_group m \<in> g_id ` set (grps d))"

definition wf_nodes :: "db \<Rightarrow> bool" where
  "wf_nodes d \<longleftrightarrow> ids_ok n_id (nodes_seq d) (nodes d) \<and> distinct (map n_name (nodes d)) \<and>
     distinct (map n_hash (nodes d))"

definition wf_targets :: "db \<Rightarrow> bool" where
  "wf_targets d \<longleftrightarrow> distinct (map (\<lambda>t. (t_group t, t_node t)) (targets d)) \<and>
     (\<forall>t \<in> set (targets d). t_group t \<in> g_id ` set (grps d) \<and> t_node t \<in> n_id ` set (nodes d))"

definition wf_db :: "db \<Rightarrow> bool" where
  "wf_db d \<longleftrightarrow> wf_users d \<and> wf_grps d \<and> wf_members d \<and> wf_nodes d \<and> wf_targets d"

lemmas wf_defs = wf_users_def wf_grps_def wf_members_def wf_nodes_def wf_targets_def

lemma ids_ok_Nil [simp]: "ids_ok f n []"
  by (simp add: ids_ok_def)

lemma ids_ok_snoc: "ids_ok f n xs \<Longrightarrow> f x = n + 1 \<Longrightarrow> ids_ok f (n + 1) (xs @ [x])"
  by (force simp: ids_ok_def sorted_wrt_append)

lemma ids_ok_filter [simp]: "ids_ok f n xs \<Longrightarrow> ids_ok f n (filter P xs)"
  by (auto simp: ids_ok_def sorted_wrt_map sorted_wrt_filter)

lemma map_upd_where [simp]: "(\<And>x. f (h x) = f x) \<Longrightarrow> map f (upd_where P h xs) = map f xs"
  by (auto simp: upd_where_def)

lemma set_upd_where_image [simp]: "(\<And>x. f (h x) = f x) \<Longrightarrow> f ` set (upd_where P h xs) = f ` set xs"
  by (metis list.set_map map_upd_where)

lemma ball_upd_where [simp]:
  "(\<And>x. Q (h x) = Q x) \<Longrightarrow> (\<forall>x \<in> set (upd_where P h xs). Q x) = (\<forall>x \<in> set xs. Q x)"
  by (induction xs) (simp_all add: upd_where_def)

lemma ids_ok_alt: "ids_ok f n xs \<longleftrightarrow> sorted_wrt (<) (map f xs) \<and> (\<forall>i \<in> f ` set xs. i \<le> n)"
  by (auto simp: ids_ok_def)

lemma ids_ok_upd_where [simp]: "(\<And>x. f (h x) = f x) \<Longrightarrow> ids_ok f n (upd_where P h xs) = ids_ok f n xs"
  by (simp add: ids_ok_alt)

lemma ids_ok_distinct: "ids_ok f n xs \<Longrightarrow> distinct (map f xs)"
  by (auto simp: ids_ok_def strict_sorted_iff)

lemma ids_ok_inj: "ids_ok f n xs \<Longrightarrow> x \<in> set xs \<Longrightarrow> y \<in> set xs \<Longrightarrow> f x = f y \<longleftrightarrow> x = y"
  using ids_ok_distinct by (metis distinct_map inj_onD)

lemma wf_db_empty [simp]: "wf_db empty_db"
  by (simp add: wf_db_def wf_defs empty_db_def)

section \<open>Every write keeps it\<close>

definition preserves :: "(db \<Rightarrow> bool) \<Rightarrow> 'a dbm \<Rightarrow> bool" where
  "preserves I m \<longleftrightarrow> (\<forall>s. I (fst s) \<longrightarrow> I (fst (snd (m s))))"

lemma preservesI: "(\<And>s. I (fst s) \<Longrightarrow> I (fst (snd (m s)))) \<Longrightarrow> preserves I m"
  by (simp add: preserves_def)

lemma preservesD: "preserves I m \<Longrightarrow> I (fst s) \<Longrightarrow> I (fst (snd (m s)))"
  unfolding preserves_def by blast

lemma preserves_ret [intro]: "preserves I (ret a)"
  by (simp add: preserves_def ret_def)

lemma preserves_bnd [intro]:
  assumes "preserves I m" and "\<And>a. preserves I (f a)"
  shows "preserves I (bnd m f)"
proof (rule preservesI)
  fix s :: "db \<times> bool list" assume s: "I (fst s)"
  obtain r s' where m: "m s = (r, s')" by (cases "m s")
  with preservesD [OF assms(1) s] have "I (fst s')" by simp
  with m preservesD [OF assms(2)] show "I (fst (snd (bnd m f s)))"
    by (cases r) (auto simp: bnd_def)
qed

lemma preserves_stmt: "(\<And>d. I d \<Longrightarrow> I (snd (f d))) \<Longrightarrow> preserves I (stmt f)"
  by (fastforce simp: preserves_def stmt_def split: prod.splits)

lemma preserves_query [intro]: "preserves I (query f)"
  unfolding query_def by (rule preserves_stmt) simp

lemma preserves_query_row [intro]: "preserves I (query_row f)"
  unfolding query_row_def by (rule preserves_stmt) (simp split: option.splits)

lemma preserves_exec: "(\<And>d. I d \<Longrightarrow> I (f d)) \<Longrightarrow> preserves I (exec f)"
  unfolding exec_def by (rule preserves_stmt) simp

lemma preserves_txn [intro]:
  assumes "preserves I m"
  shows "preserves I (txn m)"
proof (rule preservesI)
  fix s :: "db \<times> bool list" assume s: "I (fst s)"
  have "preserves I (bnd (query (\<lambda>_. ())) (\<lambda>_. bnd m (\<lambda>a. bnd (query (\<lambda>_. ())) (\<lambda>_. ret a))))"
    using assms by blast
  from preservesD [OF this s] s show "I (fst (snd (txn m s)))"
    by (auto simp: txn_def split: prod.splits sum.splits)
qed

lemma wf_upd_user:
  assumes "wf_db d" and "\<And>u. u_id (f u) = u_id u" and "\<And>u. u_name (f u) = u_name u"
  shows "wf_db (upd_user i f d)"
  using assms by (simp add: wf_db_def wf_defs upd_user_def)

lemma wf_users_tables: "wf_db (d\<lparr>oplog := ol\<rparr>) = wf_db d" "wf_db (d\<lparr>audits := al, audits_seq := n\<rparr>) = wf_db d"
  "wf_db (d\<lparr>failed := fl\<rparr>) = wf_db d"
  by (simp_all add: wf_db_def wf_defs)

lemma distinct_map_snoc: "distinct (map f (xs @ [x])) \<longleftrightarrow> distinct (map f xs) \<and> f x \<notin> f ` set xs"
  by simp

lemma wf_CreateUser: "preserves wf_db (CreateUser now un sec adm)"
  unfolding CreateUser_def
  by (intro preserves_stmt)
    (auto simp: wf_db_def wf_defs new_user_def intro!: ids_ok_snoc)

lemma wf_DeleteUser: "preserves wf_db (DeleteUser i)"
  unfolding DeleteUser_def
  by (intro preserves_exec) (auto simp: wf_db_def wf_defs distinct_map_filter)

lemma wf_CreateGroup: "preserves wf_db (CreateGroup now nm port proto)"
  unfolding CreateGroup_def
  by (intro preserves_stmt)
    (auto simp: wf_db_def wf_defs intro!: ids_ok_snoc)

lemma wf_DeleteGroup: "preserves wf_db (DeleteGroup i)"
  unfolding DeleteGroup_def
  by (intro preserves_exec) (auto simp: wf_db_def wf_defs distinct_map_filter)

lemma wf_members_upd: "(\<And>m. m_user (h m) = m_user m) \<Longrightarrow> (\<And>m. m_group (h m) = m_group m) \<Longrightarrow>
  wf_db d \<Longrightarrow> wf_db (d\<lparr>members := upd_where P h (members d)\<rparr>)"
  by (simp add: wf_db_def wf_defs)

lemma wf_targets_upd: "(\<And>t. t_group (h t) = t_group t) \<Longrightarrow> (\<And>t. t_node (h t) = t_node t) \<Longrightarrow>
  wf_db d \<Longrightarrow> wf_db (d\<lparr>targets := upd_where P h (targets d)\<rparr>)"
  by (simp add: wf_db_def wf_defs)

lemma wf_AddMembership: "preserves wf_db (AddMembership now uid gid en)"
  unfolding AddMembership_def
  by (intro preserves_stmt)
    (auto simp: wf_members_upd, auto simp: wf_db_def wf_defs is_row_def)

lemma wf_RemoveMembership: "preserves wf_db (RemoveMembership uid gid)"
  unfolding RemoveMembership_def
  by (intro preserves_exec) (auto simp: wf_db_def wf_defs distinct_map_filter)

lemma wf_SetMembershipEnabled: "preserves wf_db (SetMembershipEnabled uid gid en)"
  unfolding SetMembershipEnabled_def by (intro preserves_exec) (simp add: wf_members_upd)

lemma wf_CreateNode: "preserves wf_db (CreateNode now nm h)"
  unfolding CreateNode_def
  by (intro preserves_stmt)
    (auto simp: wf_db_def wf_defs intro!: ids_ok_snoc)

lemma wf_DeleteNode: "preserves wf_db (DeleteNode i)"
  unfolding DeleteNode_def
  by (intro preserves_exec) (auto simp: wf_db_def wf_defs distinct_map_filter)

lemma wf_UpdateNodeReport: "preserves wf_db (UpdateNodeReport now i v b)" "preserves wf_db (TouchNode now i)"
  unfolding UpdateNodeReport_def TouchNode_def
  by (intro preserves_exec; simp add: wf_db_def wf_defs)+

lemma wf_AddGroupTarget: "preserves wf_db (AddGroupTarget gid nid port proto)"
  unfolding AddGroupTarget_def
  by (intro preserves_stmt)
    (auto simp: wf_targets_upd, auto simp: wf_db_def wf_defs is_target_def)

lemma wf_RemoveGroupTarget: "preserves wf_db (RemoveGroupTarget gid nid)"
  unfolding RemoveGroupTarget_def
  by (intro preserves_exec) (auto simp: wf_db_def wf_defs distinct_map_filter)

lemma wf_user_updates:
  "preserves wf_db (SetUserAdmin i a)" "preserves wf_db (RotateSecret i s)" "preserves wf_db (SetUserIP i ip)"
  "preserves wf_db (ClearUserState i)" "preserves wf_db (UpdateKnockTime now i ip)"
  "preserves wf_db (SetTOTPSecret i s)" "preserves wf_db (EnableTOTP i)" "preserves wf_db (DisableTOTP i)"
  "preserves wf_db (SetTOTPLastCounter i c)"
  unfolding SetUserAdmin_def RotateSecret_def SetUserIP_def ClearUserState_def UpdateKnockTime_def
    SetTOTPSecret_def EnableTOTP_def DisableTOTP_def SetTOTPLastCounter_def
  by (intro preserves_exec wf_upd_user; simp)+

lemma wf_ConsumeTOTPCounter: "preserves wf_db (ConsumeTOTPCounter i c)"
  unfolding ConsumeTOTPCounter_def
  by (intro preserves_stmt) (simp add: wf_db_def wf_defs)

lemma wf_logs: "preserves wf_db (LogAudit now a b t e)" "preserves wf_db (RecordFailedAttempt now un ip r)"
  unfolding LogAudit_def RecordFailedAttempt_def
  by (intro preserves_exec; simp add: wf_users_tables)+

lemma wf_RecordIPChange: "preserves wf_db (RecordIPChange now i un ip)"
  unfolding RecordIPChange_def
  by (intro preserves_txn preserves_bnd preserves_query_row)
    (auto intro!: preserves_exec wf_upd_user simp: log_op_def wf_users_tables)

lemmas wf_writes = wf_CreateUser wf_DeleteUser wf_CreateGroup wf_DeleteGroup wf_AddMembership
  wf_RemoveMembership wf_SetMembershipEnabled wf_CreateNode wf_DeleteNode wf_UpdateNodeReport
  wf_AddGroupTarget wf_RemoveGroupTarget wf_user_updates wf_ConsumeTOTPCounter wf_logs wf_RecordIPChange

section \<open>Reachable databases\<close>

inductive db_step :: "db \<Rightarrow> db \<Rightarrow> bool" where
  create_user: "db_step d (fst (snd (CreateUser now un sec adm (d, fs))))"
| delete_user: "db_step d (fst (snd (DeleteUser i (d, fs))))"
| set_admin: "db_step d (fst (snd (SetUserAdmin i adm (d, fs))))"
| rotate: "db_step d (fst (snd (RotateSecret i sec (d, fs))))"
| set_ip: "db_step d (fst (snd (SetUserIP i ip (d, fs))))"
| clear_state: "db_step d (fst (snd (ClearUserState i (d, fs))))"
| knock_time: "db_step d (fst (snd (UpdateKnockTime now i ip (d, fs))))"
| ip_change: "db_step d (fst (snd (RecordIPChange now i un ip (d, fs))))"
| totp_secret: "db_step d (fst (snd (SetTOTPSecret i sec (d, fs))))"
| totp_enable: "db_step d (fst (snd (EnableTOTP i (d, fs))))"
| totp_disable: "db_step d (fst (snd (DisableTOTP i (d, fs))))"
| totp_counter: "db_step d (fst (snd (SetTOTPLastCounter i c (d, fs))))"
| totp_consume: "db_step d (fst (snd (ConsumeTOTPCounter i c (d, fs))))"
| create_group: "db_step d (fst (snd (CreateGroup now nm port proto (d, fs))))"
| delete_group: "db_step d (fst (snd (DeleteGroup i (d, fs))))"
| add_member: "db_step d (fst (snd (AddMembership now uid gid en (d, fs))))"
| remove_member: "db_step d (fst (snd (RemoveMembership uid gid (d, fs))))"
| enable_member: "db_step d (fst (snd (SetMembershipEnabled uid gid en (d, fs))))"
| audit: "db_step d (fst (snd (LogAudit now actor action target detail (d, fs))))"
| failed_attempt: "db_step d (fst (snd (RecordFailedAttempt now uo ipo reason (d, fs))))"
| create_node: "db_step d (fst (snd (CreateNode now nm h (d, fs))))"
| delete_node: "db_step d (fst (snd (DeleteNode i (d, fs))))"
| touch_node: "db_step d (fst (snd (TouchNode now i (d, fs))))"
| node_report: "db_step d (fst (snd (UpdateNodeReport now i version backend (d, fs))))"
| add_target: "db_step d (fst (snd (AddGroupTarget gid nid port proto (d, fs))))"
| remove_target: "db_step d (fst (snd (RemoveGroupTarget gid nid (d, fs))))"

lemma db_step_preserves:
  assumes "db_step d d'" and "I d"
    and "\<And>now un sec adm. preserves I (CreateUser now un sec adm)" "\<And>i. preserves I (DeleteUser i)"
    "\<And>i a. preserves I (SetUserAdmin i a)" "\<And>i x. preserves I (RotateSecret i x)"
    "\<And>i x. preserves I (SetUserIP i x)" "\<And>i. preserves I (ClearUserState i)"
    "\<And>now i ip. preserves I (UpdateKnockTime now i ip)" "\<And>now i un ip. preserves I (RecordIPChange now i un ip)"
    "\<And>i x. preserves I (SetTOTPSecret i x)" "\<And>i. preserves I (EnableTOTP i)" "\<And>i. preserves I (DisableTOTP i)"
    "\<And>i c. preserves I (SetTOTPLastCounter i c)" "\<And>i c. preserves I (ConsumeTOTPCounter i c)"
    "\<And>now nm p pr. preserves I (CreateGroup now nm p pr)" "\<And>i. preserves I (DeleteGroup i)"
    "\<And>now u g e. preserves I (AddMembership now u g e)" "\<And>u g. preserves I (RemoveMembership u g)"
    "\<And>u g e. preserves I (SetMembershipEnabled u g e)" "\<And>now a b t e. preserves I (LogAudit now a b t e)"
    "\<And>now u ip r. preserves I (RecordFailedAttempt now u ip r)" "\<And>now nm h. preserves I (CreateNode now nm h)"
    "\<And>i. preserves I (DeleteNode i)" "\<And>now i. preserves I (TouchNode now i)"
    "\<And>now i v b. preserves I (UpdateNodeReport now i v b)" "\<And>g n p pr. preserves I (AddGroupTarget g n p pr)"
    "\<And>g n. preserves I (RemoveGroupTarget g n)"
  shows "I d'"
  using assms(1,2) by (induction rule: db_step.induct) (simp_all add: preservesD assms(3-))

lemma db_step_wf: "db_step d d' \<Longrightarrow> wf_db d \<Longrightarrow> wf_db d'"
  by (rule db_step_preserves [where I = wf_db]) (assumption | rule wf_writes)+

lemma db_step_index: "db_step d d' \<Longrightarrow> uniq_pp d \<Longrightarrow> uniq_pp d'"
  by (rule db_step_preserves [where I = uniq_pp])
    (assumption | (unfold CreateUser_def DeleteUser_def SetUserAdmin_def RotateSecret_def SetUserIP_def
        ClearUserState_def UpdateKnockTime_def RecordIPChange_def SetTOTPSecret_def EnableTOTP_def
        DisableTOTP_def SetTOTPLastCounter_def ConsumeTOTPCounter_def CreateGroup_def DeleteGroup_def
        AddMembership_def RemoveMembership_def SetMembershipEnabled_def LogAudit_def
        RecordFailedAttempt_def CreateNode_def DeleteNode_def TouchNode_def UpdateNodeReport_def
        AddGroupTarget_def RemoveGroupTarget_def)?,
      (intro preserves_txn preserves_bnd preserves_query_row preserves_stmt preserves_exec preserves_ret)?;
      (simp add: upd_user_def log_op_def preserves_exec preserves_ret split: option.splits)?)+

text \<open>C13. Whatever sequence of writes runs on a fresh database, and whichever of its statements fail,
  the tables stay well formed: ids ascend and are unique, user names, group names, node names and
  tokens are unique, no two groups share (port, protocol), and every membership and target refers to
  existing rows and occurs once per pair.\<close>

theorem db_reachable_wf:
  assumes "db_step\<^sup>*\<^sup>* empty_db d"
  shows "wf_db d \<and> uniq_pp d"
  using assms
proof (induction rule: rtranclp_induct)
  case base
  then show ?case by simp (simp add: empty_db_def)
next
  case (step d1 d2)
  then show ?case using db_step_wf db_step_index by blast
qed

theorem db_reachable_wf_witness:
  "wf_db (fst (snd (CreateUser 0 ''ann'' ''s'' False (empty_db, []))))"
proof -
  have "db_step\<^sup>*\<^sup>* empty_db (fst (snd (CreateUser 0 ''ann'' ''s'' False (empty_db, []))))"
    by (rule r_into_rtranclp) (rule db_step.create_user)
  from db_reachable_wf [OF this] show ?thesis by blast
qed

end
