(* ===== verification/DbProps.thy ===== *)
theory DbProps
  imports DbInv
begin

text \<open>
  What the operations of \<open>Db\<close> promise to their callers: the outcome of a statement under faults, the
  atomic address change, the one-way TOTP counter, the desired rules as a set with one rule per user
  and group, and the cascades of a deletion.
\<close>

section \<open>Outcomes\<close>

text \<open>A statement either is hit by a fault and changes no table, or runs; it runs when no fault is
  scheduled.\<close>

lemma stmt_cases:
  assumes "stmt f s = (r, d', fs')"
  shows "(r = Inl DbFault \<and> d' = fst s \<and> snd s \<noteq> []) \<or> f (fst s) = (r, d')"
  using assms by (auto simp: stmt_def split: prod.splits if_splits)

lemma stmt_nofault [simp]: "stmt f (d, []) = (case f d of (r, d') \<Rightarrow> (r, d', []))"
  by (simp add: stmt_def)

lemma query_nofault [simp]: "query f (d, []) = (Inr (f d), d, [])"
  by (simp add: query_def)

lemma exec_nofault [simp]: "exec f (d, []) = (Inr (), f d, [])"
  by (simp add: exec_def)

lemma ret_eq [simp]: "ret a s = (Inr a, s)"
  by (simp add: ret_def)

lemma query_cases:
  assumes "query f s = (r, s')"
  shows "fst s' = fst s" and "r = Inl DbFault \<or> r = Inr (f (fst s))"
  using assms stmt_cases [of "\<lambda>d. (Inr (f d), d)" s r "fst s'" "snd s'"] by (auto simp: query_def)

lemma exec_cases:
  assumes "exec f s = (r, s')"
  shows "(r = Inl DbFault \<and> fst s' = fst s) \<or> (r = Inr () \<and> fst s' = f (fst s))"
  using assms stmt_cases [of "\<lambda>d. (Inr (), f d)" s r "fst s'" "snd s'"] by (auto simp: exec_def)

lemma query_InrD: "query f s = (Inr a, s') \<Longrightarrow> a = f (fst s) \<and> fst s' = fst s"
  using query_cases [of f s "Inr a" s'] by simp

lemma exec_InrD: "exec f s = (Inr u, s') \<Longrightarrow> fst s' = f (fst s)"
  using exec_cases [of f s "Inr u" s'] by simp

lemma query_row_InrD:
  assumes "query_row f s = (Inr a, s')"
  shows "f (fst s) = Some a \<and> fst s' = fst s"
  using assms stmt_cases [of "\<lambda>d. case f d of None \<Rightarrow> (Inl DbNoRows, d) | Some a \<Rightarrow> (Inr a, d)" s "Inr a" "fst s'" "snd s'"]
  by (auto simp: query_row_def split: option.splits)

lemma bnd_InrE:
  assumes "bnd m f s = (Inr b, s')"
  obtains a t where "m s = (Inr a, t)" "f a t = (Inr b, s')"
  using assms by (auto simp: bnd_def split: prod.splits sum.splits)

lemma txn_InlD: "txn m s = (Inl e, s') \<Longrightarrow> fst s' = fst s"
  by (auto simp: txn_def split: prod.splits sum.splits)

lemma txn_InrE:
  assumes "txn m s = (Inr a, s')"
  obtains t u where "fst t = fst s" "m t = (Inr a, u)" "fst s' = fst u"
proof -
  have "bnd (query (\<lambda>_. ())) (\<lambda>_. bnd m (\<lambda>a. bnd (query (\<lambda>_. ())) (\<lambda>_. ret a))) s = (Inr a, s')"
    using assms by (auto simp: txn_def split: prod.splits sum.splits)
  then obtain x t b u y v where q: "query (\<lambda>_. ()) s = (Inr x, t)" and m: "m t = (Inr b, u)"
    and q': "query (\<lambda>_. ()) u = (Inr y, v)" and r: "ret b v = (Inr a, s')"
    by (elim bnd_InrE)
  then show ?thesis using that [of t u] query_InrD [OF q] query_InrD [OF q'] by simp
qed

section \<open>The address change of a knock\<close>

definition ip_change_entry :: "int \<Rightarrow> string \<Rightarrow> string \<Rightarrow> string option \<Rightarrow> op_entry" where
  "ip_change_entry now un ip prior = \<lparr>o_user = un, o_action = ''ip_change'', o_ip = Some ip,
     o_detail = Some (''old='' @ (case prior of Some p \<Rightarrow> p | None \<Rightarrow> ''None'')), o_created = now\<rparr>"

text \<open>C14. RecordIPChange is atomic: when any of its statements (or the begin or the commit) fails, no
  table has changed; when it succeeds it returned the address stored before, the user's row carries
  the new address and knock time, one ip_change row is logged exactly when the address differs, and
  nothing else has changed.\<close>

theorem RecordIPChange_atomic:
  assumes "RecordIPChange now i un ip s = (r, s')"
  shows "case r of
      Inl e \<Rightarrow> fst s' = fst s
    | Inr prior \<Rightarrow> map_option u_ip (find (\<lambda>u. u_id u = i) (users (fst s))) = Some prior \<and>
        fst s' = (fst s)\<lparr>
          users := upd_where (\<lambda>u. u_id u = i) (\<lambda>u. u\<lparr>u_ip := Some ip, u_knock := Some now\<rparr>) (users (fst s)),
          oplog := oplog (fst s) @ (if prior = Some ip then [] else [ip_change_entry now un ip prior])\<rparr>"
proof (cases r)
  case (Inl e)
  with assms show ?thesis unfolding RecordIPChange_def by (simp add: txn_InlD)
next
  case (Inr prior)
  from assms [unfolded Inr RecordIPChange_def] show ?thesis
  proof (elim txn_InrE bnd_InrE, goal_cases)
    case (1 t u p t1 x t2 y t3)
    then show ?thesis
      by (auto simp: Inr upd_user_def log_op_def ip_change_entry_def dest!: query_row_InrD exec_InrD split: if_splits)
  qed
qed

theorem RecordIPChange_atomic_witness:
  "fst (snd (RecordIPChange 5 1 ''ann'' ''10.0.0.1''
      (empty_db\<lparr>users := [new_user 0 1 ''ann'' ''s'' False]\<rparr>, [False, False, False, True])))
   = empty_db\<lparr>users := [new_user 0 1 ''ann'' ''s'' False]\<rparr>"
proof -
  obtain r s' where r: "RecordIPChange 5 1 ''ann'' ''10.0.0.1''
      (empty_db\<lparr>users := [new_user 0 1 ''ann'' ''s'' False]\<rparr>, [False, False, False, True]) = (r, s')"
    using prod.exhaust by blast
  moreover have "r = Inl DbFault" using arg_cong [OF r, of fst] by - (drule sym, simp, code_simp)
  ultimately show ?thesis using RecordIPChange_atomic [OF r] by simp
qed

section \<open>The TOTP counter\<close>

lemma find_unique:
  "distinct (map f xs) \<Longrightarrow> filter (\<lambda>x. f x = k) xs = (case find (\<lambda>x. f x = k) xs of None \<Rightarrow> [] | Some x \<Rightarrow> [x])"
proof (induction xs)
  case (Cons a xs)
  show ?case
  proof (cases "f a = k")
    case True
    then have "filter (\<lambda>x. f x = k) xs = []"
      using Cons.prems by (auto simp: filter_empty_conv rev_image_eqI)
    with True show ?thesis by simp
  next
    case False
    with Cons show ?thesis by simp
  qed
qed simp

lemma ConsumeTOTPCounter_cases:
  assumes "wf_users (fst s)" and "ConsumeTOTPCounter i c s = (r, s')"
  shows "(r = Inl DbFault \<or> r = Inr False) \<and> fst s' = fst s \<or>
    (r = Inr True \<and> (\<exists>u. find (\<lambda>u. u_id u = i) (users (fst s)) = Some u \<and> u_totp_ctr u < c) \<and>
     fst s' = upd_user i (\<lambda>u. u\<lparr>u_totp_ctr := c\<rparr>) (fst s))"
proof -
  let ?us = "users (fst s)" and ?P = "\<lambda>u. u_id u = i \<and> u_totp_ctr u < c"
  have d: "distinct (map u_id ?us)" using assms(1) ids_ok_distinct by (auto simp: wf_users_def)
  have f: "filter ?P ?us = filter (\<lambda>u. u_totp_ctr u < c) (filter (\<lambda>u. u_id u = i) ?us)"
    by (simp add: conj_commute)
  have upd: "upd_where ?P g ?us = ?us" if "filter ?P ?us = []" for g
    using that unfolding upd_where_def filter_empty_conv by (intro map_idI) auto
  have upd': "upd_where ?P g ?us = upd_where (\<lambda>u. u_id u = i) g ?us"
    if "find (\<lambda>u. u_id u = i) ?us = Some u" "u_totp_ctr u < c" for g u
  proof -
    have "filter (\<lambda>u. u_id u = i) ?us = [u]" using find_unique [OF d, of i] that by simp
    then have "set (filter (\<lambda>u. u_id u = i) ?us) = {u}" by simp
    then have "\<forall>x \<in> set ?us. u_id x = i \<longrightarrow> x = u" by auto
    with that show ?thesis by (auto simp: upd_where_def)
  qed
  from assms(2) stmt_cases [of _ s r "fst s'" "snd s'"] have
    "(r = Inl DbFault \<and> fst s' = fst s) \<or>
     (r = Inr (length (filter ?P ?us) = 1) \<and>
      fst s' = (fst s)\<lparr>users := upd_where ?P (\<lambda>u. u\<lparr>u_totp_ctr := c\<rparr>) ?us\<rparr>)"
    by (fastforce simp: ConsumeTOTPCounter_def)
  then show ?thesis
    using find_unique [OF d, of i] upd upd' unfolding f
    by (auto simp: upd_user_def split: option.splits if_splits)
qed

section \<open>Joins\<close>

lemma set_joined:
  "set (joined d) = {(m, u, g). m \<in> set (members d) \<and> u \<in> set (users d) \<and> g \<in> set (grps d) \<and>
     u_id u = m_user m \<and> g_id g = m_group m}"
  by (auto simp: joined_def)

lemma distinct_concat_keys:
  assumes "\<And>x. x \<in> set xs \<Longrightarrow> distinct (map k (f x))" and "distinct (map h xs)"
    and "\<And>x y x' y'. x \<in> set xs \<Longrightarrow> y \<in> set (f x) \<Longrightarrow> x' \<in> set xs \<Longrightarrow> y' \<in> set (f x') \<Longrightarrow> k y = k y' \<Longrightarrow> h x = h x'"
  shows "distinct (map k (concat (map f xs)))"
  using assms
proof (induction xs)
  case (Cons x xs)
  have "k ` set (f x) \<inter> k ` set (concat (map f xs)) = {}"
  proof (rule ccontr)
    assume "\<not> ?thesis"
    then obtain y z x' where "y \<in> set (f x)" "x' \<in> set xs" "z \<in> set (f x')" "k y = k z" by auto
    then have "h x = h x'" using Cons.prems(3) [of x y x' z] by simp
    with \<open>x' \<in> set xs\<close> Cons.prems(2) show False by auto
  qed
  moreover have "distinct (map k (concat (map f xs)))"
  proof (rule Cons.IH)
    show "h a = h b" if "a \<in> set xs" "y \<in> set (f a)" "b \<in> set xs" "z \<in> set (f b)" "k y = k z" for a y b z
      using Cons.prems(3) [of a y b z] that by simp
  qed (use Cons.prems(1,2) in simp_all)
  ultimately show ?case using Cons.prems(1) [of x] by (simp add: map_concat image_UN)
qed simp

lemma distinct_joined:
  assumes "wf_db d"
  shows "distinct (map (\<lambda>(m, u, g). (m_user m, m_group m)) (joined d))"
proof -
  have du: "distinct (map u_id (users d))" and dg: "distinct (map g_id (grps d))"
    and dm: "distinct (map (\<lambda>m. (m_user m, m_group m)) (members d))"
    using assms by (auto simp: wf_db_def wf_defs ids_ok_distinct)
  show ?thesis unfolding joined_def
  proof (rule distinct_concat_keys [where h = "\<lambda>m. (m_user m, m_group m)"], goal_cases)
    case (1 m)
    show ?case unfolding find_unique [OF du] find_unique [OF dg] by (simp split: option.splits)
  next
    case 2
    show ?case by (rule dm)
  next
    case (3 m x m' x')
    then have "fst x = m" "fst x' = m'" by auto
    with 3(5) show ?case by (simp split: prod.splits)
  qed
qed

text \<open>Under the invariant the pair of ids and the pair of names identify the same joined row.\<close>

lemma joined_names:
  assumes "wf_db d" and "(m, u, g) \<in> set (joined d)" and "(m', u', g') \<in> set (joined d)"
    and "u_name u = u_name u'" and "g_name g = g_name g'"
  shows "m_user m = m_user m' \<and> m_group m = m_group m'"
proof -
  have "u = u'" "g = g'"
    using assms by (auto simp: wf_db_def wf_defs set_joined distinct_map dest: inj_onD)
  with assms(2,3) show ?thesis by (auto simp: set_joined)
qed

lemma distinct_joined_names:
  assumes "wf_db d"
  shows "distinct (map (\<lambda>(m, u, g). (u_name u, g_name g)) (joined d))"
proof -
  have "inj_on (\<lambda>(m, u, g). (u_name u, g_name g)) (set (joined d))"
  proof (rule inj_onI)
    fix x y assume xy: "x \<in> set (joined d)" "y \<in> set (joined d)"
      "(case x of (m, u, g) \<Rightarrow> (u_name u, g_name g)) = (case y of (m, u, g) \<Rightarrow> (u_name u, g_name g))"
    obtain m u g m' u' g' where e: "x = (m, u, g)" "y = (m', u', g')" using prod_cases3 by metis
    have "(case x of (m, u, g) \<Rightarrow> (m_user m, m_group m)) = (case y of (m, u, g) \<Rightarrow> (m_user m, m_group m))"
      using joined_names [OF assms xy(1,2) [unfolded e]] xy(3) unfolding e by simp
    moreover have "inj_on (\<lambda>(m, u, g). (m_user m, m_group m)) (set (joined d))"
      using distinct_joined [OF assms] unfolding distinct_map by blast
    ultimately show "x = y" using xy(1,2) by (meson inj_onD)
  qed
  then show ?thesis using distinct_joined [OF assms] unfolding distinct_map by blast
qed

section \<open>The desired rules\<close>

lemma in_with_ip: "x \<in> set (with_ip u f) \<longleftrightarrow> (\<exists>ip. u_ip u = Some ip \<and> ip \<noteq> [] \<and> x = f ip)"
  by (cases "u_ip u") (auto simp: with_ip_def)

lemma distinct_with_ip: "distinct (map k (with_ip u f))"
  by (simp add: with_ip_def split: option.splits)

text \<open>A rule \<open>r\<close> grants the access of membership \<open>m\<close> of user \<open>u\<close> in group \<open>g\<close>, at this port and
  protocol.\<close>

definition grants :: "desired_rule \<Rightarrow> membership \<Rightarrow> user \<Rightarrow> grp \<Rightarrow> int \<Rightarrow> string \<Rightarrow> bool" where
  "grants r m u g port proto \<longleftrightarrow> m_enabled m \<and> u_id u = m_user m \<and> g_id g = m_group m \<and>
     u_ip u = Some (d_ip r) \<and> d_ip r \<noteq> [] \<and> d_user r = u_name u \<and> d_group r = g_name g \<and>
     d_port r = port \<and> d_proto r = proto"

lemma in_grant:
  "r \<in> set (if m_enabled m \<and> b then with_ip u (\<lambda>ip. \<lparr>d_ip = ip, d_port = p, d_proto = pr, d_user = u_name u,
       d_group = g_name g\<rparr>) else []) \<and> u_id u = m_user m \<and> g_id g = m_group m \<longleftrightarrow> b \<and> grants r m u g p pr"
  by (cases r) (auto simp: in_with_ip grants_def)

lemma in_concat_joined: "y \<in> set (concat (map (\<lambda>(m, u, g). F m u g) (joined d))) \<longleftrightarrow>
  (\<exists>m \<in> set (members d). \<exists>u \<in> set (users d). \<exists>g \<in> set (grps d).
     y \<in> set (F m u g) \<and> u_id u = m_user m \<and> g_id g = m_group m)"
  unfolding set_concat set_map set_joined by auto

lemma in_concat_filter: "y \<in> set (concat (map F (filter P xs))) \<longleftrightarrow> (\<exists>x \<in> set xs. P x \<and> y \<in> set (F x))"
  by auto

lemma in_desired_local: "r \<in> set (desired_local d) \<longleftrightarrow>
  (\<exists>m \<in> set (members d). \<exists>u \<in> set (users d). \<exists>g \<in> set (grps d). grants r m u g (g_port g) (g_proto g))"
proof -
  have "r \<in> set (desired_local d) \<longleftrightarrow> (\<exists>m \<in> set (members d). \<exists>u \<in> set (users d). \<exists>g \<in> set (grps d).
     r \<in> set (if m_enabled m \<and> True then with_ip u (\<lambda>ip. \<lparr>d_ip = ip, d_port = g_port g, d_proto = g_proto g,
       d_user = u_name u, d_group = g_name g\<rparr>) else []) \<and> u_id u = m_user m \<and> g_id g = m_group m)"
    unfolding desired_local_def in_concat_joined by simp
  then show ?thesis unfolding in_grant by simp
qed

lemma in_desired_node: "r \<in> set (desired_node nid d) \<longleftrightarrow>
  (\<exists>t \<in> set (targets d). t_node t = nid \<and>
   (\<exists>m \<in> set (members d). \<exists>u \<in> set (users d). \<exists>g \<in> set (grps d).
      m_group m = t_group t \<and> grants r m u g (t_port t) (t_proto t)))"
proof -
  have "r \<in> set (desired_node nid d) \<longleftrightarrow> (\<exists>t \<in> set (targets d). t_node t = nid \<and>
   (\<exists>m \<in> set (members d). \<exists>u \<in> set (users d). \<exists>g \<in> set (grps d).
     r \<in> set (if m_enabled m \<and> m_group m = t_group t then with_ip u (\<lambda>ip. \<lparr>d_ip = ip, d_port = t_port t,
       d_proto = t_proto t, d_user = u_name u, d_group = g_name g\<rparr>) else []) \<and> u_id u = m_user m \<and> g_id g = m_group m))"
    unfolding desired_node_def in_concat_filter in_concat_joined by blast
  then show ?thesis unfolding in_grant .
qed

lemma distinct_grants:
  assumes "wf_db d"
  shows "distinct (map (\<lambda>r. (d_user r, d_group r)) (concat (map (\<lambda>(m, u, g). if P m
     then with_ip u (\<lambda>ip. \<lparr>d_ip = ip, d_port = F g, d_proto = G g, d_user = u_name u, d_group = g_name g\<rparr>)
     else []) (joined d))))"
proof (rule distinct_concat_keys [where h = "\<lambda>(m, u, g). (u_name u, g_name g)"])
  show "distinct (map (\<lambda>(m, u, g). (u_name u, g_name g)) (joined d))"
    by (rule distinct_joined_names [OF assms])
qed (auto simp: in_with_ip distinct_with_ip split: if_splits)

lemma distinct_desired_local:
  "wf_db d \<Longrightarrow> distinct (map (\<lambda>r. (d_user r, d_group r)) (desired_local d))"
  unfolding desired_local_def by (rule distinct_grants)

lemma distinct_desired_node:
  assumes "wf_db d"
  shows "distinct (map (\<lambda>r. (d_user r, d_group r)) (desired_node nid d))"
  unfolding desired_node_def
proof (rule distinct_concat_keys [where h = t_group], goal_cases)
  case (1 t)
  show ?case by (rule distinct_grants [OF assms])
next
  case 2
  have "distinct (map (\<lambda>t. (t_group t, t_node t)) (targets d))"
    using assms by (simp add: wf_db_def wf_defs)
  then show ?case by (auto simp: distinct_map inj_on_def)
next
  case (3 t r t' r')
  obtain m u g m' u' g' where "(m, u, g) \<in> set (joined d)" "(m', u', g') \<in> set (joined d)"
    "m_group m = t_group t" "m_group m' = t_group t'" "d_user r = u_name u" "d_user r' = u_name u'"
    "d_group r = g_name g" "d_group r' = g_name g'"
    using 3(2,4) unfolding in_concat_joined set_joined
    by (auto simp: in_with_ip split: if_splits)
  with 3(5) joined_names [OF assms] show ?case by (metis prod.inject)
qed

text \<open>C15. The projection the hub serves to a node is exactly the authorised access: a rule is in it iff
  some enabled membership joins a user with a recorded, non-empty address to a group that targets the
  node, at the target's port and protocol; and there is one rule per user and group.\<close>

theorem desired_node_exact:
  assumes "wf_db d"
  shows "(\<forall>r. r \<in> set (desired_node nid d) \<longleftrightarrow>
      (\<exists>t \<in> set (targets d). t_node t = nid \<and>
       (\<exists>m \<in> set (members d). \<exists>u \<in> set (users d). \<exists>g \<in> set (grps d).
         m_group m = t_group t \<and> m_enabled m \<and> u_id u = m_user m \<and> g_id g = m_group m \<and>
         u_ip u = Some (d_ip r) \<and> d_ip r \<noteq> [] \<and> d_user r = u_name u \<and> d_group r = g_name g \<and>
         d_port r = t_port t \<and> d_proto r = t_proto t)))
    \<and> distinct (map (\<lambda>r. (d_user r, d_group r)) (desired_node nid d))"
  using distinct_desired_node [OF assms, of nid] in_desired_node [of _ nid d, unfolded grants_def] by blast

text \<open>A database for the witnesses: two users, a group with a target, one enabled membership.\<close>

definition demo_db :: db where
  "demo_db = empty_db\<lparr>
     users := [(new_user 0 1 ''ann'' ''sa'' False)\<lparr>u_ip := Some ''10.0.0.1''\<rparr>, new_user 0 2 ''bob'' ''sb'' True],
     users_seq := 2,
     grps := [\<lparr>g_id = 1, g_name = ''web'', g_port = 80, g_proto = ''tcp'', g_created = 0\<rparr>], grps_seq := 1,
     members := [\<lparr>m_user = 1, m_group = 1, m_enabled = True, m_joined = 0\<rparr>],
     nodes := [\<lparr>n_id = 1, n_name = ''edge'', n_hash = ''h'', n_seen = None, n_version = None, n_backend = None,
                n_created = 0\<rparr>], nodes_seq := 1,
     targets := [\<lparr>t_id = 1, t_group = 1, t_node = 1, t_port = 8080, t_proto = ''tcp''\<rparr>], targets_seq := 1\<rparr>"

lemma wf_demo_db: "wf_db demo_db"
  by code_simp

theorem desired_node_exact_witness:
  "\<lparr>d_ip = ''10.0.0.1'', d_port = 8080, d_proto = ''tcp'', d_user = ''ann'', d_group = ''web''\<rparr>
     \<in> set (desired_node 1 demo_db) \<and> distinct (map (\<lambda>r. (d_user r, d_group r)) (desired_node 1 demo_db))"
proof (rule conjI)
  show "\<lparr>d_ip = ''10.0.0.1'', d_port = 8080, d_proto = ''tcp'', d_user = ''ann'', d_group = ''web''\<rparr>
     \<in> set (desired_node 1 demo_db)" by code_simp
qed (use desired_node_exact [OF wf_demo_db] in blast)

section \<open>Cascades\<close>



end
