(* ===== verification/Manager.thy ===== *)
theory Manager
  imports Reconcile DbProps
begin

text \<open>
  \<open>internal/firewall/manager.go\<close>: the policy layer.  A manager is a backend, the rule prefix and the
  database; the backend and the prefix are arguments here.  \<open>enabled\<close>, a Go map, is an association list
  in the order its iteration happens to take, so every statement holds for every order.
\<close>

section \<open>The code\<close>

definition manager_AddRule :: "'s backend \<Rightarrow> string \<Rightarrow> int \<Rightarrow> string \<Rightarrow> string \<Rightarrow> string \<Rightarrow> 's \<Rightarrow> fwerr option \<times> 's" where
  "manager_AddRule be ip port user proto grp s = be_AddRule be ip port user proto grp s"

definition manager_RemoveRule :: "'s backend \<Rightarrow> string \<Rightarrow> int \<Rightarrow> string \<Rightarrow> string \<Rightarrow> string \<Rightarrow> 's \<Rightarrow> fwerr option \<times> 's" where
  "manager_RemoveRule be ip port user proto grp s = be_RemoveRule be ip port user proto grp s"

fun remove_user_loop :: "'s backend \<Rightarrow> string \<Rightarrow> rule list \<Rightarrow> fwerr list \<Rightarrow> 's \<Rightarrow> fwerr list \<times> 's" where
  "remove_user_loop be user [] errs s = (errs, s)"
| "remove_user_loop be user (r # rs) errs s =
     (if r_user r \<noteq> user then remove_user_loop be user rs errs s
      else (case be_DeleteByHandle be (r_handle r) s of
        (Some e, s') \<Rightarrow> remove_user_loop be user rs
           (errs @ [Wrapped (r_ip r @ '' -> '' @ itoa (r_port r) @ ''/'' @ r_proto r) e]) s'
      | (None, s') \<Rightarrow> remove_user_loop be user rs errs s'))"

definition RemoveUserRules :: "'s backend \<Rightarrow> string \<Rightarrow> 's \<Rightarrow> fwerr option \<times> 's" where
  "RemoveUserRules be user s = (case be_ListManaged be s of
      (Inl e, s1) \<Rightarrow> (Some e, s1)
    | (Inr rules, s1) \<Rightarrow> (case remove_user_loop be user rules [] s1 of (errs, s2) \<Rightarrow> (join_errs errs, s2)))"

definition groupFromComment :: "string \<Rightarrow> string \<Rightarrow> string \<Rightarrow> string" where
  "groupFromComment prefix user comment =
     (if \<not> has_prefix (user_prefix prefix user) comment then []
      else (let suffix = drop (length (user_prefix prefix user)) comment in
            if suffix = [] then []
            else (case cut_at CHR '':'' suffix of Some (g, _) \<Rightarrow> g | None \<Rightarrow> suffix)))"

type_synonym gkey = "string \<times> int \<times> string \<times> string"

definition user_keys :: "string \<Rightarrow> string \<Rightarrow> rule list \<Rightarrow> gkey set" where
  "user_keys prefix user rules =
     (\<lambda>r. (r_ip r, r_port r, r_proto r, groupFromComment prefix user (r_comment r))) ` set rules"

fun reconcile_add :: "'s backend \<Rightarrow> string \<Rightarrow> string \<Rightarrow> gkey set \<Rightarrow> (string \<times> portproto) list \<Rightarrow>
    string list \<Rightarrow> string list \<Rightarrow> fwerr list \<Rightarrow> 's \<Rightarrow> string list \<times> string list \<times> fwerr list \<times> 's" where
  "reconcile_add be user ip existing [] added denied errs s = (added, denied, errs, s)"
| "reconcile_add be user ip existing ((g, pp) # es) added denied errs s =
     (if (ip, p_port pp, p_proto pp, g) \<in> existing
      then reconcile_add be user ip existing es added denied errs s
      else (case manager_AddRule be ip (p_port pp) user (p_proto pp) g s of
        (Some e, s') \<Rightarrow>
          if is_host_rule e
          then reconcile_add be user ip existing es added
                 (if host_rule e = Some ''DENY'' \<or> host_rule e = Some ''REJECT'' then denied @ [g] else denied) errs s'
          else reconcile_add be user ip existing es added denied
                 (errs @ [Wrapped (''add '' @ g @ '' ('' @ itoa (p_port pp) @ ''/'' @ p_proto pp @ '')'') e]) s'
      | (None, s') \<Rightarrow> reconcile_add be user ip existing es (added @ [g]) denied errs s'))"

definition is_stale :: "string \<Rightarrow> string \<Rightarrow> string \<Rightarrow> (string \<times> portproto) list \<Rightarrow> rule \<Rightarrow> bool" where
  "is_stale prefix user ip enabled r \<longleftrightarrow>
     (let g = groupFromComment prefix user (r_comment r) in
      g \<noteq> [] \<and> (map_of enabled g = None \<or> r_ip r \<noteq> ip))"

fun reconcile_remove :: "'s backend \<Rightarrow> string \<Rightarrow> string \<Rightarrow> string \<Rightarrow> (string \<times> portproto) list \<Rightarrow> rule list \<Rightarrow>
    string list \<Rightarrow> 's \<Rightarrow> string list \<times> 's" where
  "reconcile_remove be prefix user ip enabled [] removed s = (removed, s)"
| "reconcile_remove be prefix user ip enabled (r # rs) removed s =
     (if is_stale prefix user ip enabled r
      then (case be_DeleteByHandle be (r_handle r) s of
          (Some e, s') \<Rightarrow> reconcile_remove be prefix user ip enabled rs removed s'
        | (None, s') \<Rightarrow> reconcile_remove be prefix user ip enabled rs
                (removed @ [groupFromComment prefix user (r_comment r)]) s')
      else reconcile_remove be prefix user ip enabled rs removed s)"

record reconciled =
  rc_added :: "string list"
  rc_removed :: "string list"
  rc_denied :: "string list"
  rc_err :: "fwerr option"

definition manager_Reconcile :: "'s backend \<Rightarrow> string \<Rightarrow> string \<Rightarrow> string \<Rightarrow> (string \<times> portproto) list \<Rightarrow> 's \<Rightarrow>
    reconciled \<times> 's" where
  "manager_Reconcile be prefix user clientIP enabled s =
     (case be_ListUserRules be user s of
        (Inl e, s1) \<Rightarrow> (\<lparr>rc_added = [], rc_removed = [], rc_denied = [], rc_err = Some e\<rparr>, s1)
      | (Inr rules, s1) \<Rightarrow>
          (let (added, denied, errs, s2) =
                 reconcile_add be user clientIP (user_keys prefix user rules) enabled [] [] [] s1;
               (removed, s3) = reconcile_remove be prefix user clientIP enabled rules [] s2
           in (\<lparr>rc_added = added, rc_removed = removed, rc_denied = denied, rc_err = join_errs errs\<rparr>, s3)))"

section \<open>Anomalies and stale users\<close>

record anomaly =
  an_changes :: int
  an_window :: int
  an_unique :: int
  an_ips :: "string list"

fun dedup :: "string set \<Rightarrow> string list \<Rightarrow> string list" where
  "dedup seen [] = []"
| "dedup seen (ip # ips) =
     (if ip \<noteq> [] \<and> ip \<notin> seen then ip # dedup (insert ip seen) ips else dedup seen ips)"

definition CheckIPAnomaly :: "int \<Rightarrow> string \<Rightarrow> int \<Rightarrow> int \<Rightarrow> db \<times> bool list \<Rightarrow> anomaly option \<times> db \<times> bool list" where
  "CheckIPAnomaly now user windowSec maxChanges s =
     (case GetUserByUsername user s of
        (Inl e, s1) \<Rightarrow> (None, s1)
      | (Inr None, s1) \<Rightarrow> (None, s1)
      | (Inr (Some u), s1) \<Rightarrow> (case CountRecentIPChanges now user windowSec s1 of
            (Inl e, s2) \<Rightarrow> (None, s2)
          | (Inr changes, s2) \<Rightarrow>
              if changes < maxChanges then (None, s2)
              else (case GetRecentIPChangeIPs now user windowSec s2 of
                  (Inl e, s3) \<Rightarrow> (None, s3)
                | (Inr ips, s3) \<Rightarrow>
                    (let unique = dedup {} ips;
                         unique' = (case u_ip u of
                             Some cur \<Rightarrow> if cur \<noteq> [] \<and> cur \<notin> set ips then unique @ [cur] else unique
                           | None \<Rightarrow> unique)
                     in (Some \<lparr>an_changes = changes, an_window = windowSec,
                           an_unique = int (length unique'), an_ips = unique'\<rparr>, s3)))))"

text \<open>A failing \<open>RemoveRule\<close> is logged and skipped.\<close>

fun cleanup_rules :: "'s backend \<Rightarrow> string \<Rightarrow> string \<Rightarrow> group_port list \<Rightarrow> 's \<Rightarrow> 's" where
  "cleanup_rules be ip user [] s = s"
| "cleanup_rules be ip user (gp # gps) s =
     cleanup_rules be ip user gps (snd (manager_RemoveRule be ip (gp_port gp) user (gp_proto gp) (gp_group gp) s))"

definition is_stale_user :: "int \<Rightarrow> int \<Rightarrow> user \<Rightarrow> bool" where
  "is_stale_user now maxAge u \<longleftrightarrow> (case u_knock u of None \<Rightarrow> False | Some t \<Rightarrow> \<not> now - t \<le> maxAge)"

fun cleanup_users :: "'s backend \<Rightarrow> int \<Rightarrow> int \<Rightarrow> (string \<Rightarrow> group_port list) \<Rightarrow> user list \<Rightarrow> string list \<Rightarrow>
    's \<Rightarrow> db \<times> bool list \<Rightarrow> (string list \<times> dberr option) \<times> 's \<times> db \<times> bool list" where
  "cleanup_users be now maxAge ugp [] removed s d = ((removed, None), s, d)"
| "cleanup_users be now maxAge ugp (u # us) removed s d =
     (if \<not> is_stale_user now maxAge u then cleanup_users be now maxAge ugp us removed s d
      else (let s1 = (case u_ip u of
                 Some ip \<Rightarrow> if ip \<noteq> [] then cleanup_rules be ip (u_name u) (ugp (u_name u)) s else s
               | None \<Rightarrow> s) in
            (case ClearUserState (u_id u) d of
               (Inl e, d1) \<Rightarrow> ((removed, Some e), s1, d1)
             | (Inr _, d1) \<Rightarrow> cleanup_users be now maxAge ugp us (removed @ [u_name u]) s1 d1)))"

definition CleanupStale :: "'s backend \<Rightarrow> int \<Rightarrow> int \<Rightarrow> (string \<Rightarrow> group_port list) \<Rightarrow> 's \<Rightarrow> db \<times> bool list \<Rightarrow>
    (string list \<times> dberr option) \<times> 's \<times> db \<times> bool list" where
  "CleanupStale be now maxAge ugp s d = (case ListUsers d of
      (Inl e, d1) \<Rightarrow> (([], Some e), s, d1)
    | (Inr us, d1) \<Rightarrow> cleanup_users be now maxAge ugp us [] s d1)"

definition manager_SyncGuard :: "'s backend \<Rightarrow> portproto list \<Rightarrow> 's \<Rightarrow> fwerr option \<times> 's" where
  "manager_SyncGuard be ports s = (case be_SyncGuard be of Some f \<Rightarrow> f ports s | None \<Rightarrow> (None, s))"

section \<open>Comments of a user\<close>

text \<open>In a well-formed store the comment scan agrees with the parsed user and group: a rule is listed
  for a user iff it is that user's and has a group part, and its group is then the parsed one when
  that has no colon.\<close>

lemma cut_at_user:
  "CHR '':'' \<notin> set u \<Longrightarrow> cut_at CHR '':'' (u @ CHR '':'' # rest) = Some (u, rest)"
  by (simp add: cut_at_append)

lemma listed_user:
  assumes "wf_rule prefix r" and "CHR '':'' \<notin> set u" and "has_prefix (user_prefix prefix u) (r_comment r)"
  shows "r_user r = u" and "r_comment r = user_prefix prefix u @ r_group r"
proof -
  obtain rest where c: "r_comment r = user_prefix prefix u @ rest"
    using assms(3) by (auto simp: has_prefix_iff)
  have "splitComment prefix (r_comment r) = (u, rest)"
    using assms(1,2) by (simp add: splitComment_def c user_prefix_def wf_rule_def cut_at_user Let_def has_prefix_iff)
  with assms(1) c show "r_user r = u" and "r_comment r = user_prefix prefix u @ r_group r"
    by (simp_all add: wf_rule_def)
qed

lemma groupFromComment_listed:
  assumes "wf_rule prefix r" and "CHR '':'' \<notin> set u" and "has_prefix (user_prefix prefix u) (r_comment r)"
  shows "groupFromComment prefix u (r_comment r) =
    (case cut_at CHR '':'' (r_group r) of Some (g, _) \<Rightarrow> g | None \<Rightarrow> r_group r)"
  using listed_user [OF assms] assms(3)
  by (auto simp: groupFromComment_def Let_def cut_at_def)

section \<open>The loops over a backend\<close>

context rule_store begin

lemma reconcile_remove_spec:
  assumes "inv s" and "reconcile_remove be prefix user ip enabled rs removed s = (removed', s')"
    and "distinct (map r_handle rs)"
  shows "\<exists>D \<subseteq> r_handle ` {r \<in> set rs. is_stale prefix user ip enabled r}. inv s' \<and> host s' = host s \<and>
    store s' = filter (\<lambda>r. r_handle r \<notin> D) (store s) \<and> length removed' = length removed + card D"
  using assms
proof (induction rs arbitrary: removed s)
  case Nil
  then show ?case by auto
next
  case (Cons r rs)
  show ?case
  proof (cases "is_stale prefix user ip enabled r")
    case False
    with Cons.prems have "reconcile_remove be prefix user ip enabled rs removed s = (removed', s')"
      and "distinct (map r_handle rs)" by simp_all
    from Cons.IH [OF Cons.prems(1) this] show ?thesis by (rule ex_forward) auto
  next
    case stale: True
    obtain e t where d: "be_DeleteByHandle be (r_handle r) s = (e, t)" by (cases "be_DeleteByHandle be (r_handle r) s")
    note t = delete_cases [OF Cons.prems(1) d]
    obtain removed1 where r1: "reconcile_remove be prefix user ip enabled rs removed1 t = (removed', s')"
      "length removed1 = length removed + (if e = None then 1 else 0)"
      using Cons.prems(2) stale d by (cases e) auto
    from Cons.IH [OF t(1) r1(1)] Cons.prems(3) obtain D where
      D: "D \<subseteq> r_handle ` {r \<in> set rs. is_stale prefix user ip enabled r}" "inv s'" "host s' = host t"
      "store s' = filter (\<lambda>r. r_handle r \<notin> D) (store t)" "length removed' = length removed1 + card D" by auto
    have fin: "finite D" using D(1) by (rule finite_subset) simp
    have new: "r_handle r \<notin> D" using D(1) Cons.prems(3) by auto
    show ?thesis
      using D t r1(2) stale fin new
      by (intro exI [of _ "if e = None then insert (r_handle r) D else D"]) (auto simp: conj_commute)
  qed
qed

end

text \<open>The rules of \<open>user\<close> a reconcile looks at, and the access a rule gives.\<close>

definition listed :: "string \<Rightarrow> string \<Rightarrow> rule \<Rightarrow> bool" where
  "listed prefix user r \<longleftrightarrow> has_prefix (user_prefix prefix user) (r_comment r)"

definition access :: "string \<Rightarrow> string \<Rightarrow> rule \<Rightarrow> gkey" where
  "access prefix user r = (r_ip r, r_port r, r_proto r, groupFromComment prefix user (r_comment r))"

definition open_pair :: "string \<Rightarrow> string \<times> portproto \<Rightarrow> rmatch" where
  "open_pair ip = (\<lambda>(g, pp). (ip, p_port pp, p_proto pp))"

definition pair_key :: "string \<Rightarrow> string \<Rightarrow> string \<times> portproto \<Rightarrow> rkey" where
  "pair_key ip user = (\<lambda>(g, pp). (ip, p_port pp, p_proto pp, user, g))"

definition is_new :: "string \<Rightarrow> gkey set \<Rightarrow> string \<times> portproto \<Rightarrow> bool" where
  "is_new ip existing = (\<lambda>(g, pp). (ip, p_port pp, p_proto pp, g) \<notin> existing)"

text \<open>The pairs the add loop must open, and those it reports as denied.\<close>

definition to_open :: "string \<Rightarrow> gkey set \<Rightarrow> (rmatch \<Rightarrow> string option) \<Rightarrow> (string \<times> portproto) list \<Rightarrow>
    (string \<times> portproto) list" where
  "to_open ip existing hs es = filter (\<lambda>x. is_new ip existing x \<and> hs (open_pair ip x) = None) es"

definition to_deny :: "string \<Rightarrow> gkey set \<Rightarrow> (rmatch \<Rightarrow> string option) \<Rightarrow> (string \<times> portproto) list \<Rightarrow>
    (string \<times> portproto) list" where
  "to_deny ip existing hs es =
     filter (\<lambda>x. is_new ip existing x \<and> hs (open_pair ip x) \<in> {Some ''DENY'', Some ''REJECT''}) es"

definition new_rule :: "string \<Rightarrow> string \<Rightarrow> string \<Rightarrow> rule \<Rightarrow> string \<times> portproto \<Rightarrow> bool" where
  "new_rule prefix ip user r x \<longleftrightarrow>
     (\<exists>h. r = mk_rule prefix h ip (p_port (snd x)) user (p_proto (snd x)) (fst x))"

context keyed_store begin

lemma reconcile_add_spec:
  assumes "inv s" and "CHR '':'' \<notin> set user"
    and "reconcile_add be user ip existing es added denied errs s = (added', denied', errs', s')"
  shows "\<exists>A ns. inv s' \<and> host s' = host s \<and> mset (store s') = mset (store s) + mset ns \<and>
    list_all2 (new_rule prefix ip user) ns A \<and> set A \<subseteq> set (to_open ip existing (host s) es) \<and>
    added' = added @ map fst A \<and>
    (errs' = [] \<longrightarrow> errs = [] \<and> A = to_open ip existing (host s) es \<and>
       denied' = denied @ map fst (to_deny ip existing (host s) es))"
  using assms
proof (induction es arbitrary: added denied errs s)
  case Nil
  then show ?case by (intro exI [of _ "[]"]) (auto simp: to_open_def to_deny_def)
next
  case (Cons x es)
  obtain g pp where x: "x = (g, pp)" by (cases x)
  show ?case
  proof (cases "is_new ip existing x")
    case False
    with Cons.prems x have "reconcile_add be user ip existing es added denied errs s = (added', denied', errs', s')"
      by (simp add: is_new_def)
    from Cons.IH [OF Cons.prems(1,2) this] False show ?thesis by (simp add: to_open_def to_deny_def)
  next
    case new: True
    obtain e t where a: "be_AddRule be ip (p_port pp) user (p_proto pp) g s = (e, t)"
      by (cases "be_AddRule be ip (p_port pp) user (p_proto pp) g s")
    have op: "open_pair ip x = (ip, p_port pp, p_proto pp)" by (simp add: x open_pair_def)
    show ?thesis
    proof (cases e)
      case None
      from add_ok [OF Cons.prems(1) a [unfolded None] Cons.prems(2)] obtain h xs ys where
        t: "inv t" "host t = host s" "host s (open_pair ip x) = None" and
        st: "store s = xs @ ys" "store t = xs @ mk_rule prefix h ip (p_port pp) user (p_proto pp) g # ys"
        unfolding op by blast
      have "reconcile_add be user ip existing es (added @ [g]) denied errs t = (added', denied', errs', s')"
        using Cons.prems(3) new a None by (simp add: x is_new_def manager_AddRule_def)
      from Cons.IH [OF t(1) Cons.prems(2) this] obtain A ns where
        "inv s' \<and> host s' = host s \<and> mset (store s') = mset (store t) + mset ns \<and>
         list_all2 (new_rule prefix ip user) ns A \<and> set A \<subseteq> set (to_open ip existing (host s) es) \<and>
         added' = (added @ [g]) @ map fst A \<and>
         (errs' = [] \<longrightarrow> errs = [] \<and> A = to_open ip existing (host s) es \<and>
            denied' = denied @ map fst (to_deny ip existing (host s) es))" unfolding t(2) by blast
      moreover have "new_rule prefix ip user (mk_rule prefix h ip (p_port pp) user (p_proto pp) g) x"
        by (auto simp: new_rule_def x)
      ultimately show ?thesis
        using new t(3) st by (intro exI [of _ "x # A"]
            exI [of _ "mk_rule prefix h ip (p_port pp) user (p_proto pp) g # ns"])
          (auto simp: to_open_def to_deny_def x)
    next
      case (Some y)
      from add_err [OF Cons.prems(1) a [unfolded Some] Cons.prems(2)] have
        t: "inv t" "host t = host s" "store t = store s"
        and hr: "\<And>b. host_rule y = Some b \<Longrightarrow> host s (open_pair ip x) = Some b" unfolding op by blast+
      obtain denied1 errs1 where
        r: "reconcile_add be user ip existing es added denied1 errs1 t = (added', denied', errs', s')"
        and d1: "errs1 = [] \<Longrightarrow> errs = [] \<and> host s (open_pair ip x) \<noteq> None \<and>
          denied1 = (if host s (open_pair ip x) \<in> {Some ''DENY'', Some ''REJECT''} then denied @ [g] else denied)"
        using Cons.prems(3) new a Some hr
        by (auto simp: x is_new_def manager_AddRule_def is_host_rule_def split: if_splits)
      from Cons.IH [OF t(1) Cons.prems(2) r] obtain A ns where
        I: "inv s' \<and> host s' = host s \<and> mset (store s') = mset (store s) + mset ns \<and>
         list_all2 (new_rule prefix ip user) ns A \<and> set A \<subseteq> set (to_open ip existing (host s) es) \<and>
         added' = added @ map fst A" and
        E: "errs' = [] \<longrightarrow> errs1 = [] \<and> A = to_open ip existing (host s) es \<and>
            denied' = denied1 @ map fst (to_deny ip existing (host s) es)" unfolding t(2,3) by blast
      have "errs = [] \<and> A = to_open ip existing (host s) (x # es) \<and>
          denied' = denied @ map fst (to_deny ip existing (host s) (x # es))" if "errs' = []"
        using E d1 new that by (auto simp: to_open_def to_deny_def x)
      with I show ?thesis by (intro exI [of _ A] exI [of _ ns]) (auto simp: to_open_def)
    qed
  qed
qed

lemma manager_Reconcile_run:
  assumes "inv s" and "CHR '':'' \<notin> set user" and "manager_Reconcile be prefix user ip enabled s = (rc, s')"
  defines "L \<equiv> filter (listed prefix user) (store s)"
  defines "K \<equiv> user_keys prefix user L"
  shows "\<exists>D A ns. D \<subseteq> r_handle ` {r \<in> set L. is_stale prefix user ip enabled r} \<and>
    mset (store s') = mset (filter (\<lambda>r. r_handle r \<notin> D) (store s)) + mset ns \<and>
    list_all2 (new_rule prefix ip user) ns A \<and> set A \<subseteq> set (to_open ip K (host s) enabled) \<and>
    inv s' \<and> host s' = host s \<and> rc_added rc = map fst A \<and> length (rc_removed rc) = card D \<and>
    (rc_err rc = None \<longrightarrow> A = to_open ip K (host s) enabled \<and> rc_denied rc = map fst (to_deny ip K (host s) enabled))"
proof -
  obtain l t where l: "be_ListUserRules be user s = (l, t)" by (cases "be_ListUserRules be user s")
  note t = list_user [OF assms(1) l]
  show ?thesis
  proof (cases l)
    case (Inl e)
    with l t assms(3) show ?thesis
      by (intro exI [of _ "{}"] exI [of _ "[]"]) (auto simp: manager_Reconcile_def)
  next
    case (Inr rules)
    with t have L: "rules = L" and it: "inv t" and ht: "host t = host s" and st: "store t = store s"
      by (auto simp: L_def listed_def [abs_def])
    obtain a1 d1 e1 u where a: "reconcile_add be user ip K enabled [] [] [] t = (a1, d1, e1, u)"
      using prod_cases4 by blast
    from reconcile_add_spec [OF it assms(2) a] obtain A ns where
      A: "inv u" "host u = host s" "mset (store u) = mset (store s) + mset ns"
      "list_all2 (new_rule prefix ip user) ns A" "set A \<subseteq> set (to_open ip K (host s) enabled)"
      "a1 = map fst A" and
      E: "e1 = [] \<longrightarrow> A = to_open ip K (host s) enabled \<and> d1 = map fst (to_deny ip K (host s) enabled)"
      unfolding ht st by auto
    obtain r3 v where d: "reconcile_remove be prefix user ip enabled L [] u = (r3, v)"
      by (cases "reconcile_remove be prefix user ip enabled L [] u")
    have dL: "distinct (map r_handle L)"
      using handles_distinct [OF assms(1)] by (simp add: L_def distinct_map_filter)
    from reconcile_remove_spec [OF A(1) d dL] obtain D where
      D: "D \<subseteq> r_handle ` {r \<in> set L. is_stale prefix user ip enabled r}" "inv v" "host v = host s"
      "store v = filter (\<lambda>r. r_handle r \<notin> D) (store u)" "length r3 = card D"
      using A(2) by auto
    have run: "rc = \<lparr>rc_added = a1, rc_removed = r3, rc_denied = d1, rc_err = join_errs e1\<rparr>" "v = s'"
      using assms(3) l Inr a d L by (simp_all add: manager_Reconcile_def K_def)
    have "r_handle x \<notin> D" if "x \<in># mset ns" for x
      using fresh_handles [OF A(1,3) that] D(1) by (auto simp: L_def)
    then have "filter_mset (\<lambda>r. r_handle r \<notin> D) (mset ns) = mset ns" by (simp add: filter_mset_eq_conv)
    then have "mset (store v) = mset (filter (\<lambda>r. r_handle r \<notin> D) (store s)) + mset ns"
      using D(4) A(3) by simp
    then show ?thesis
      using A D E run by (intro exI [of _ D] exI [of _ A] exI [of _ ns]) auto
  qed
qed

end

context rule_store begin

lemma remove_user_loop_spec:
  assumes "inv s" and "remove_user_loop be user rs errs s = (errs', s')"
  shows "\<exists>D \<subseteq> r_handle ` {r \<in> set rs. r_user r = user}. inv s' \<and> host s' = host s \<and>
    store s' = filter (\<lambda>r. r_handle r \<notin> D) (store s) \<and>
    (errs' = [] \<longrightarrow> errs = [] \<and> D = r_handle ` {r \<in> set rs. r_user r = user})"
  using assms
proof (induction rs arbitrary: errs s)
  case Nil
  then show ?case by auto
next
  case (Cons r rs)
  let ?U = "\<lambda>rs. r_handle ` {r \<in> set rs. r_user r = user}"
  show ?case
  proof (cases "r_user r = user")
    case False
    with Cons.prems have "remove_user_loop be user rs errs s = (errs', s')" by simp
    moreover have "?U (r # rs) = ?U rs" using False by auto
    ultimately show ?thesis using Cons.IH [OF Cons.prems(1)] by simp
  next
    case True
    obtain e t where d: "be_DeleteByHandle be (r_handle r) s = (e, t)" by (cases "be_DeleteByHandle be (r_handle r) s")
    note t = delete_cases [OF Cons.prems(1) d]
    obtain errs1 where r1: "remove_user_loop be user rs errs1 t = (errs', s')"
      "errs1 = [] \<longleftrightarrow> errs = [] \<and> e = None"
      using Cons.prems(2) True d by (cases e) auto
    have U: "?U (r # rs) = insert (r_handle r) (?U rs)" using True by auto
    from Cons.IH [OF t(1) r1(1)] obtain D where
      D: "D \<subseteq> ?U rs" "inv s'" "host s' = host t" "store s' = filter (\<lambda>r. r_handle r \<notin> D) (store t)"
      "errs' = [] \<longrightarrow> errs1 = [] \<and> D = ?U rs" by blast
    show ?thesis unfolding U
      using D t r1(2)
      by (intro exI [of _ "if e = None then insert (r_handle r) D else D"]) (auto simp: conj_commute)
  qed
qed

end

section \<open>The properties\<close>

lemma groupFromComment_new:
  assumes "g \<noteq> []" and "CHR '':'' \<notin> set g"
  shows "groupFromComment prefix user (commentFor prefix user g) = g"
proof -
  have "commentFor prefix user g = user_prefix prefix user @ g"
    using assms(1) by (simp add: commentFor_def user_prefix_def)
  with assms show ?thesis by (simp add: groupFromComment_def Let_def cut_at_None)
qed

definition valid_enabled :: "(string \<times> portproto) list \<Rightarrow> bool" where
  "valid_enabled enabled \<longleftrightarrow> distinct (map fst enabled) \<and> (\<forall>x \<in> set enabled. fst x \<noteq> [] \<and> CHR '':'' \<notin> set (fst x))"

lemma new_rule_props:
  assumes "new_rule prefix ip user r (g, pp)" and "g \<noteq> []" and "CHR '':'' \<notin> set g"
  shows "listed prefix user r" and "access prefix user r = (ip, p_port pp, p_proto pp, g)"
    and "rule_match r = (ip, p_port pp, p_proto pp)" and "r_user r = user"
  using assms groupFromComment_new [OF assms(2,3)]
  by (auto simp: new_rule_def listed_def access_def mk_rule_def rule_match_def commentFor_def
      user_prefix_def has_prefix_iff)

text \<open>A reconcile that reports no error opens every enabled group at the client's address: the store
  holds a managed rule of the user with the group's port and protocol, unless a rule of the host's own
  decides that match; the groups it reports as denied are exactly the missing ones whose host rule
  denies or rejects.\<close>

lemma reconcile_opens:
  assumes "keyed_store be prefix store host I" and "I s" and "CHR '':'' \<notin> set user" and "valid_enabled enabled"
    and "manager_Reconcile be prefix user ip enabled s = (rc, s')" and "rc_err rc = None"
  shows "(\<forall>(g, pp) \<in> set enabled. host s (ip, p_port pp, p_proto pp) \<noteq> None \<or>
        (\<exists>r \<in> set (store s'). listed prefix user r \<and> access prefix user r = (ip, p_port pp, p_proto pp, g)))
    \<and> (\<forall>g. g \<in> set (rc_denied rc) \<longleftrightarrow> (\<exists>pp. (g, pp) \<in> set enabled \<and>
        host s (ip, p_port pp, p_proto pp) \<in> {Some ''DENY'', Some ''REJECT''} \<and>
        (ip, p_port pp, p_proto pp, g) \<notin> access prefix user ` {r \<in> set (store s). listed prefix user r}))"
proof -
  let ?L = "filter (listed prefix user) (store s)"
  let ?K = "user_keys prefix user ?L"
  have K: "?K = access prefix user ` {r \<in> set (store s). listed prefix user r}"
    by (auto simp: user_keys_def access_def)
  from keyed_store.manager_Reconcile_run [OF assms(1-3,5)] assms(6) obtain D ns where
    D: "D \<subseteq> r_handle ` {r \<in> set ?L. is_stale prefix user ip enabled r}" and
    S': "mset (store s') = mset (filter (\<lambda>r. r_handle r \<notin> D) (store s)) + mset ns" and
    ns: "list_all2 (new_rule prefix ip user) ns (to_open ip ?K (host s) enabled)" and
    dn: "rc_denied rc = map fst (to_deny ip ?K (host s) enabled)"
    by blast
  have dh: "distinct (map r_handle (store s))"
    using assms(1,2) by (metis keyed_store.axioms(1) rule_store.handles_distinct)
  have set': "set (store s') = set (filter (\<lambda>r. r_handle r \<notin> D) (store s)) \<union> set ns"
    using S' by (metis set_mset_mset set_mset_union)
  have opens: "\<exists>r \<in> set (store s'). listed prefix user r \<and> access prefix user r = (ip, p_port pp, p_proto pp, g)"
    if x: "(g, pp) \<in> set enabled" and h: "host s (ip, p_port pp, p_proto pp) = None" for g pp
  proof (cases "is_new ip ?K (g, pp)")
    case True
    then have "(g, pp) \<in> set (to_open ip ?K (host s) enabled)" using x h by (simp add: to_open_def open_pair_def)
    then obtain r where r: "r \<in> set ns" "new_rule prefix ip user r (g, pp)"
      using list_all2_right [OF ns] by blast
    have g: "g \<noteq> []" "CHR '':'' \<notin> set g" using assms(4) x by (force simp: valid_enabled_def)+
    show ?thesis using r(1) new_rule_props(1,2) [OF r(2) g] set' by auto
  next
    case False
    then obtain r where r: "r \<in> set (store s)" "listed prefix user r" "access prefix user r = (ip, p_port pp, p_proto pp, g)"
      by (auto simp: is_new_def K)
    have "map_of enabled g \<noteq> None" using x by (auto simp: map_of_eq_None_iff rev_image_eqI)
    then have ns: "\<not> is_stale prefix user ip enabled r" using r(3) by (auto simp: is_stale_def access_def Let_def)
    have "r_handle r \<notin> D"
    proof
      assume "r_handle r \<in> D"
      then obtain q where "q \<in> set (store s)" "is_stale prefix user ip enabled q" "r_handle q = r_handle r"
        using D by auto
      moreover have "q = r" using calculation r(1) dh by (metis distinct_map inj_onD)
      ultimately show False using ns by simp
    qed
    with r set' show ?thesis by auto
  qed
  have "g \<in> set (rc_denied rc) \<longleftrightarrow> (\<exists>pp. (g, pp) \<in> set enabled \<and>
        host s (ip, p_port pp, p_proto pp) \<in> {Some ''DENY'', Some ''REJECT''} \<and>
        (ip, p_port pp, p_proto pp, g) \<notin> access prefix user ` {r \<in> set (store s). listed prefix user r})" for g
    unfolding dn to_deny_def K is_new_def open_pair_def by force
  with opens show ?thesis by blast
qed

definition demo_enabled :: "(string \<times> portproto) list" where
  "demo_enabled = [(''ssh'', PP 22 ''tcp''), (''web'', PP 80 ''tcp'')]"

lemma demo_valid_enabled: "valid_enabled demo_enabled" and demo_colon: "CHR '':'' \<notin> set ''ann''"
  by code_simp+



lemma remove_user_complete:
  assumes "rule_store be prefix store host I" and "I s" and "RemoveUserRules be user s = (e, s')"
  shows "filter (\<lambda>r. r_user r \<noteq> user) (store s') = filter (\<lambda>r. r_user r \<noteq> user) (store s)
    \<and> set (store s') \<subseteq> set (store s) \<and> (e = None \<longrightarrow> store s' = filter (\<lambda>r. r_user r \<noteq> user) (store s))"
proof -
  obtain l t where l: "be_ListManaged be s = (l, t)" by (cases "be_ListManaged be s")
  note t = rule_store.list_managed [OF assms(1,2) l]
  show ?thesis
  proof (cases l)
    case (Inl x)
    with l t assms(3) show ?thesis by (auto simp: RemoveUserRules_def)
  next
    case (Inr rs)
    with t have rs: "rs = store s" by simp
    obtain errs u where r: "remove_user_loop be user rs [] t = (errs, u)" by (cases "remove_user_loop be user rs [] t")
    have "I t" "store t = store s" using t by auto
    with rule_store.remove_user_loop_spec [OF assms(1) \<open>I t\<close> r] rs obtain D where
      D: "D \<subseteq> r_handle ` {r \<in> set (store s). r_user r = user}" "store u = filter (\<lambda>r. r_handle r \<notin> D) (store s)"
      "errs = [] \<longrightarrow> D = r_handle ` {r \<in> set (store s). r_user r = user}" by auto
    have "distinct (map r_handle (store s))" using assms(1,2) by (rule rule_store.handles_distinct)
    then have same: "q = r" if "q \<in> set (store s)" "r \<in> set (store s)" "r_handle q = r_handle r" for q r
      using that by (metis distinct_map inj_onD)
    have run: "e = join_errs errs" "s' = u" using assms(3) l Inr r by (simp_all add: RemoveUserRules_def)
    have "filter (\<lambda>r. r_user r \<noteq> user) (store u) = filter (\<lambda>r. r_user r \<noteq> user) (store s)"
      unfolding D(2) using D(1) same by (auto intro!: filter_cong)
    moreover have "store u = filter (\<lambda>r. r_user r \<noteq> user) (store s)" if "errs = []"
      unfolding D(2) using D(3) that same by (auto intro!: filter_cong)
    ultimately show ?thesis using D(2) run by auto
  qed
qed

text \<open>C18. RemoveUserRules never touches a rule of another user, and when it reports no error no rule of
  the user is left, at whatever address, group or comment format.\<close>

theorem RemoveUserRules_complete:
  assumes "rule_store be prefix store host I" and "I s" and "RemoveUserRules be user s = (e, s')"
  shows "filter (\<lambda>r. r_user r \<noteq> user) (store s') = filter (\<lambda>r. r_user r \<noteq> user) (store s)
    \<and> set (store s') \<subseteq> set (store s) \<and> (e = None \<longrightarrow> store s' = filter (\<lambda>r. r_user r \<noteq> user) (store s))"
  using assms by (rule remove_user_complete)

theorem RemoveUserRules_complete_witness:
  "mk_rules (snd (RemoveUserRules mock_backend ''bob'' demo_mock)) =
   filter (\<lambda>r. r_user r \<noteq> ''bob'') (mk_rules demo_mock)"
proof -
  obtain e s' where r: "RemoveUserRules mock_backend ''bob'' demo_mock = (e, s')"
    by (cases "RemoveUserRules mock_backend ''bob'' demo_mock")
  have "fst (RemoveUserRules mock_backend ''bob'' demo_mock) = None" by code_simp
  with RemoveUserRules_complete [OF mock.rule_store_axioms demo_mock_inv r] r show ?thesis by simp
qed

section \<open>Stale users\<close>

context rule_store begin

lemma remove_one:
  assumes "inv s" and "be_RemoveRule be ip port u pr g s = (e, s')" and "CHR '':'' \<notin> set u" and "g \<noteq> []"
  shows "inv s'" and "set (store s') \<subseteq> set (store s)" and "r \<in> set (store s) \<Longrightarrow> rule_key r \<noteq> (ip, port, pr, u, g) \<Longrightarrow> r \<in> set (store s')"
    and "distinct (map rule_key (store s)) \<Longrightarrow> distinct (map rule_key (store s'))"
    and "distinct (map rule_key (store s)) \<Longrightarrow> e = None \<Longrightarrow> r \<in> set (store s') \<Longrightarrow> rule_key r \<noteq> (ip, port, pr, u, g)"
proof -
  let ?P = "remove_matches prefix ip port u pr g"
  note c = remove_cases [OF assms]
  have P: "?P r \<longleftrightarrow> rule_key r = (ip, port, pr, u, g)" if "r \<in> set (store s)" for r
    using wf [OF assms(1)] that remove_matches_key [OF _ assms(3,4)] by (simp add: wf_store_def)
  show "inv s'" by (rule c(1))
  show "set (store s') \<subseteq> set (store s)" using c(3) set_drop_first [of ?P "store s"] by auto
  show "r \<in> set (store s')" if "r \<in> set (store s)" "rule_key r \<noteq> (ip, port, pr, u, g)"
    using that c(3) P drop_first_keeps [of r "store s" ?P] by auto
  show "distinct (map rule_key (store s'))" if "distinct (map rule_key (store s))"
    using that c(3) distinct_map_drop_first by auto
  show "rule_key r \<noteq> (ip, port, pr, u, g)"
    if d: "distinct (map rule_key (store s))" and "e = None" "r \<in> set (store s')"
  proof -
    have "drop_first ?P (store s) = filter (\<lambda>x. \<not> ?P x) (store s)"
      by (rule drop_first_unique [OF d]) (simp add: P)
    with that c(3) P show ?thesis by auto
  qed
qed

lemma cleanup_rules_spec:
  assumes "inv s" and "CHR '':'' \<notin> set u" and "\<forall>gp \<in> set gps. gp_group gp \<noteq> []"
    and "s' = cleanup_rules be ip u gps s"
  shows "inv s' \<and> set (store s') \<subseteq> set (store s) \<and> (\<forall>r \<in> set (store s). r_user r \<noteq> u \<longrightarrow> r \<in> set (store s')) \<and>
    (distinct (map rule_key (store s)) \<longrightarrow> distinct (map rule_key (store s')) \<and>
      ((\<forall>ip port u pr g t. inv t \<longrightarrow> fst (be_RemoveRule be ip port u pr g t) = None) \<longrightarrow>
       (\<forall>r \<in> set (store s'). \<forall>gp \<in> set gps. rule_key r \<noteq> (ip, gp_port gp, gp_proto gp, u, gp_group gp))))"
  using assms
proof (induction gps arbitrary: s)
  case Nil
  then show ?case by auto
next
  case (Cons gp gps)
  obtain e t where d: "be_RemoveRule be ip (gp_port gp) u (gp_proto gp) (gp_group gp) s = (e, t)"
    by (cases "be_RemoveRule be ip (gp_port gp) u (gp_proto gp) (gp_group gp) s")
  have g: "gp_group gp \<noteq> []" using Cons.prems(3) by simp
  note t = remove_one [OF Cons.prems(1) d Cons.prems(2) g]
  have s': "s' = cleanup_rules be ip u gps t" using Cons.prems(4) d by (simp add: manager_RemoveRule_def)
  have k: "rule_key r \<noteq> (ip, gp_port gp, gp_proto gp, u, gp_group gp)" if "r_user r \<noteq> u" for r
    using that by (simp add: rule_key_def)
  have nf: "e = None" if "\<forall>ip port u pr g t. inv t \<longrightarrow> fst (be_RemoveRule be ip port u pr g t) = None"
    using that Cons.prems(1) d by (metis fst_conv)
  have IH: "inv s' \<and> set (store s') \<subseteq> set (store t) \<and> (\<forall>r \<in> set (store t). r_user r \<noteq> u \<longrightarrow> r \<in> set (store s')) \<and>
    (distinct (map rule_key (store t)) \<longrightarrow> distinct (map rule_key (store s')) \<and>
      ((\<forall>ip port u pr g t. inv t \<longrightarrow> fst (be_RemoveRule be ip port u pr g t) = None) \<longrightarrow>
       (\<forall>r \<in> set (store s'). \<forall>gp \<in> set gps. rule_key r \<noteq> (ip, gp_port gp, gp_proto gp, u, gp_group gp))))"
    using Cons.prems(3) by (intro Cons.IH [OF t(1) Cons.prems(2) _ s']) simp
  have "rule_key r \<noteq> (ip, gp_port gp, gp_proto gp, u, gp_group gp)"
    if "distinct (map rule_key (store s))" "r \<in> set (store s')"
      "\<forall>ip port u pr g t. inv t \<longrightarrow> fst (be_RemoveRule be ip port u pr g t) = None" for r
    using t(5) [OF that(1) nf [OF that(3)]] IH that(2) by blast
  with IH t(2,3,4) k show ?case by auto
qed

end

definition clear_user :: "user \<Rightarrow> user" where
  "clear_user u = u\<lparr>u_ip := None, u_knock := None\<rparr>"

definition never_fails :: "('s \<Rightarrow> bool) \<Rightarrow> 's backend \<Rightarrow> bool" where
  "never_fails ok be \<longleftrightarrow> (\<forall>ip port u pr g t. ok t \<longrightarrow> fst (be_RemoveRule be ip port u pr g t) = None)"

context rule_store begin

lemma cleanup_users_spec:
  assumes "inv s" and "\<forall>u \<in> set us. CHR '':'' \<notin> set (u_name u)" and "\<forall>un. \<forall>gp \<in> set (ugp un). gp_group gp \<noteq> []"
    and "cleanup_users be now maxAge ugp us removed s (d, []) = ((removed', e), s', d')"
  shows "e = None \<and> removed' = removed @ map u_name (filter (is_stale_user now maxAge) us) \<and>
    d' = (d\<lparr>users := upd_where (\<lambda>u. u_id u \<in> u_id ` {v \<in> set us. is_stale_user now maxAge v}) clear_user (users d)\<rparr>, []) \<and>
    inv s' \<and> set (store s') \<subseteq> set (store s) \<and>
    (\<forall>r \<in> set (store s). r_user r \<notin> u_name ` {v \<in> set us. is_stale_user now maxAge v} \<longrightarrow> r \<in> set (store s')) \<and>
    (distinct (map rule_key (store s)) \<and> never_fails inv be \<longrightarrow>
      (\<forall>u \<in> set us. is_stale_user now maxAge u \<longrightarrow> (\<forall>ip. u_ip u = Some ip \<and> ip \<noteq> [] \<longrightarrow>
        (\<forall>r \<in> set (store s'). \<forall>gp \<in> set (ugp (u_name u)).
           rule_key r \<noteq> (ip, gp_port gp, gp_proto gp, u_name u, gp_group gp)))))"
  using assms
proof (induction us arbitrary: removed s d)
  case Nil
  then show ?case by (auto simp: upd_where_def)
next
  case (Cons u us)
  let ?st = "is_stale_user now maxAge"
  show ?case
  proof (cases "?st u")
    case False
    then have "{v \<in> set (u # us). ?st v} = {v \<in> set us. ?st v}" by auto
    with Cons.IH [OF Cons.prems(1) _ Cons.prems(3), of removed d] Cons.prems(2,4) False show ?thesis by simp
  next
    case True
    define s1 where "s1 = (case u_ip u of Some ip \<Rightarrow> if ip \<noteq> [] then cleanup_rules be ip (u_name u) (ugp (u_name u)) s else s
               | None \<Rightarrow> s)"
    define d1 where "d1 = d\<lparr>users := upd_where (\<lambda>v. u_id v = u_id u) clear_user (users d)\<rparr>"
    have u: "CHR '':'' \<notin> set (u_name u)" using Cons.prems(2) by simp
    have s1: "inv s1 \<and> set (store s1) \<subseteq> set (store s) \<and> (\<forall>r \<in> set (store s). r_user r \<noteq> u_name u \<longrightarrow> r \<in> set (store s1)) \<and>
      (distinct (map rule_key (store s)) \<longrightarrow> distinct (map rule_key (store s1)) \<and> (never_fails inv be \<longrightarrow>
        (\<forall>ip. u_ip u = Some ip \<and> ip \<noteq> [] \<longrightarrow> (\<forall>r \<in> set (store s1). \<forall>gp \<in> set (ugp (u_name u)).
           rule_key r \<noteq> (ip, gp_port gp, gp_proto gp, u_name u, gp_group gp)))))"
    proof (cases "\<exists>ip. u_ip u = Some ip \<and> ip \<noteq> []")
      case True
      then obtain ip where ip: "u_ip u = Some ip" "ip \<noteq> []" by blast
      then have "s1 = cleanup_rules be ip (u_name u) (ugp (u_name u)) s" by (simp add: s1_def)
      from cleanup_rules_spec [OF Cons.prems(1) u _ this] Cons.prems(3) ip show ?thesis
        unfolding never_fails_def by simp
    next
      case False
      then have "s1 = s" by (auto simp: s1_def split: option.splits)
      with False Cons.prems(1) show ?thesis by auto
    qed
    have run: "cleanup_users be now maxAge ugp us (removed @ [u_name u]) s1 (d1, []) = ((removed', e), s', d')"
      using Cons.prems(4) True
      by (simp add: s1_def [symmetric] ClearUserState_def upd_user_def clear_user_def [abs_def] d1_def)
    note IH = Cons.IH [OF _ _ Cons.prems(3) run]
    have ids: "{v \<in> set (u # us). ?st v} = insert u {v \<in> set us. ?st v}" using True by auto
    have upd: "upd_where (\<lambda>v. u_id v \<in> u_id ` {v \<in> set us. ?st v}) clear_user (users d1) =
        upd_where (\<lambda>v. u_id v \<in> u_id ` insert u {v \<in> set us. ?st v}) clear_user (users d)"
      by (simp add: d1_def upd_where_def clear_user_def)
    have IH': "e = None \<and> removed' = (removed @ [u_name u]) @ map u_name (filter ?st us) \<and>
      d' = (d1\<lparr>users := upd_where (\<lambda>v. u_id v \<in> u_id ` {v \<in> set us. ?st v}) clear_user (users d1)\<rparr>, []) \<and>
      inv s' \<and> set (store s') \<subseteq> set (store s1) \<and>
      (\<forall>r \<in> set (store s1). r_user r \<notin> u_name ` {v \<in> set us. ?st v} \<longrightarrow> r \<in> set (store s')) \<and>
      (distinct (map rule_key (store s1)) \<and> never_fails inv be \<longrightarrow>
        (\<forall>u \<in> set us. ?st u \<longrightarrow> (\<forall>ip. u_ip u = Some ip \<and> ip \<noteq> [] \<longrightarrow>
          (\<forall>r \<in> set (store s'). \<forall>gp \<in> set (ugp (u_name u)).
             rule_key r \<noteq> (ip, gp_port gp, gp_proto gp, u_name u, gp_group gp)))))"
      using IH s1 Cons.prems(2) by simp
    have "d1\<lparr>users := us'\<rparr> = d\<lparr>users := us'\<rparr>" for us' by (simp add: d1_def)
    with IH' s1 True show ?thesis unfolding ids upd by auto
  qed
qed

end

lemma cleanup_stale_effect:
  assumes "rule_store be prefix store host I" and "I s" and "wf_db d"
    and "\<forall>u \<in> set (users d). CHR '':'' \<notin> set (u_name u)" and "\<forall>un. \<forall>gp \<in> set (ugp un). gp_group gp \<noteq> []"
    and "CleanupStale be now maxAge ugp s (d, []) = ((removed, e), s', d')"
  shows "e = None \<and> removed = map u_name (filter (is_stale_user now maxAge) (users d))
    \<and> d' = (d\<lparr>users := map (\<lambda>u. if is_stale_user now maxAge u then clear_user u else u) (users d)\<rparr>, [])
    \<and> set (store s') \<subseteq> set (store s) \<and> (\<forall>r \<in> set (store s). r_user r \<notin> set removed \<longrightarrow> r \<in> set (store s'))
    \<and> (distinct (map rule_key (store s)) \<and> never_fails I be \<longrightarrow>
        (\<forall>u \<in> set (users d). is_stale_user now maxAge u \<longrightarrow> (\<forall>ip. u_ip u = Some ip \<and> ip \<noteq> [] \<longrightarrow>
          (\<forall>r \<in> set (store s'). \<forall>gp \<in> set (ugp (u_name u)).
             rule_key r \<noteq> (ip, gp_port gp, gp_proto gp, u_name u, gp_group gp)))))"
proof -
  have run: "cleanup_users be now maxAge ugp (users d) [] s (d, []) = ((removed, e), s', d')"
    using assms(6) by (simp add: CleanupStale_def ListUsers_def)
  have ids: "ids_ok u_id (users_seq d) (users d)" using assms(3) by (simp add: wf_db_def wf_users_def)
  have "u_id u \<in> u_id ` {v \<in> set (users d). is_stale_user now maxAge v} \<longleftrightarrow> is_stale_user now maxAge u"
    if "u \<in> set (users d)" for u
    using that ids_ok_inj [OF ids that] by (auto simp: image_iff)
  then have "upd_where (\<lambda>u. u_id u \<in> u_id ` {v \<in> set (users d). is_stale_user now maxAge v}) clear_user (users d) =
      map (\<lambda>u. if is_stale_user now maxAge u then clear_user u else u) (users d)"
    by (simp add: upd_where_def)
  with rule_store.cleanup_users_spec [OF assms(1,2,4,5) run] show ?thesis
    by (simp add: image_iff)
qed


definition demo_stale_db :: db where
  "demo_stale_db = demo_db\<lparr>users := [(new_user 0 1 ''ann'' ''sa'' False)\<lparr>u_ip := Some ''10.0.0.1'', u_knock := Some 5\<rparr>,
     new_user 0 2 ''bob'' ''sb'' True]\<rparr>"

definition demo_ugp :: "string \<Rightarrow> group_port list" where
  "demo_ugp un = (if un = ''ann'' then [\<lparr>gp_group = ''ssh'', gp_port = 22, gp_proto = ''tcp''\<rparr>] else [])"


text \<open>CheckIPAnomaly, without database faults, reports exactly when the user exists and at least
  \<open>maxChanges\<close> address changes fall into the window (the bound is reached, not exceeded), and the
  report lists each distinct non-empty address of these changes and of the user's row once.\<close>

theorem CheckIPAnomaly_threshold:
  "(fst (CheckIPAnomaly now un w m (d, [])) \<noteq> None \<longleftrightarrow>
      find (\<lambda>u. u_name u = un) (users d) \<noteq> None \<and> m \<le> int (length (recent_ip_changes now un w d)))
   \<and> (\<forall>a u. fst (CheckIPAnomaly now un w m (d, [])) = Some a \<and> find (\<lambda>u. u_name u = un) (users d) = Some u \<longrightarrow>
      an_changes a = int (length (recent_ip_changes now un w d)) \<and> distinct (an_ips a) \<and>
      set (an_ips a) = ({ip. \<exists>e \<in> set (recent_ip_changes now un w d). o_ip e = Some ip} \<union> {ip. u_ip u = Some ip}) - {[]} \<and>
      an_unique a = int (card (set (an_ips a))))"
proof -
  have dd: "distinct (dedup S ips) \<and> set (dedup S ips) = set ips - S - {[]}" for S ips
    by (induction S ips rule: dedup.induct) auto
  let ?ips = "List.map_filter o_ip (recent_ip_changes now un w d)"
  have ips: "set ?ips = {ip. \<exists>e \<in> set (recent_ip_changes now un w d). o_ip e = Some ip}"
    by (force simp: map_filter_def)
  show ?thesis
    using dd [of "{}" ?ips]
    by (auto simp: CheckIPAnomaly_def GetUserByUsername_def CountRecentIPChanges_def GetRecentIPChangeIPs_def
        Let_def ips distinct_card split: option.splits)
qed

definition demo_changes_db :: db where
  "demo_changes_db = demo_db\<lparr>oplog := [ip_change_entry 90 ''ann'' ''10.0.0.7'' None, ip_change_entry 95 ''ann'' ''10.0.0.1'' None]\<rparr>"

theorem CheckIPAnomaly_threshold_witness:
  "\<exists>a. fst (CheckIPAnomaly 100 ''ann'' 50 2 (demo_changes_db, [])) = Some a \<and> distinct (an_ips a) \<and>
     an_unique a = int (card (set (an_ips a)))"
proof -
  have "find (\<lambda>u. u_name u = ''ann'') (users demo_changes_db) \<noteq> None"
    "2 \<le> int (length (recent_ip_changes 100 ''ann'' 50 demo_changes_db))" by code_simp+
  with CheckIPAnomaly_threshold [of 100 "''ann''" 50 2 demo_changes_db] show ?thesis by blast
qed

end
