(* ===== verification/Crypto.thy ===== *)
theory Crypto
  imports Prelude
begin

text \<open>
  What the program uses of Go's standard library for authentication: SHA-256 and SHA-1 (FIPS 180-4),
  HMAC (RFC 2104), hexadecimal and base32.  A byte string is a list of byte values below 256.
  The program's own code (\<open>internal/auth\<close>) is in \<open>Auth\<close> and \<open>Totp\<close>.
\<close>

unbundle bit_operations_syntax

section \<open>Bytes and words\<close>

definition bytes :: "string \<Rightarrow> nat list" where
  "bytes s = map byte s"

fun be_words :: "nat list \<Rightarrow> 32 word list" where
  "be_words (a # b # c # d # r) = word_of_nat (((a * 256 + b) * 256 + c) * 256 + d) # be_words r"
| "be_words _ = []"

definition word_bytes :: "32 word \<Rightarrow> nat list" where
  "word_bytes w = (let n = unat w in [n div 16777216 mod 256, n div 65536 mod 256, n div 256 mod 256, n mod 256])"

definition be_bytes64 :: "nat \<Rightarrow> nat list" where
  "be_bytes64 n = map (\<lambda>i. n div 2 ^ (8 * i) mod 256) [7, 6, 5, 4, 3, 2, 1, 0]"

text \<open>Merkle-Damgard padding to blocks of 64 bytes.\<close>

definition pad_message :: "nat list \<Rightarrow> nat list" where
  "pad_message m = m @ [128] @ replicate ((119 - length m mod 64) mod 64) 0 @ be_bytes64 (8 * length m)"

text \<open>The blocks of 16 words; the first argument counts them down.\<close>

fun word_blocks :: "nat \<Rightarrow> 32 word list \<Rightarrow> 32 word list list" where
  "word_blocks 0 ws = []"
| "word_blocks (Suc n) ws = (if ws = [] then [] else take 16 ws # word_blocks n (drop 16 ws))"

definition blocks_of :: "nat list \<Rightarrow> 32 word list list" where
  "blocks_of m = (let ws = be_words (pad_message m) in word_blocks (length ws) ws)"

section \<open>SHA-256\<close>

text \<open>The constants are the first 32 bits of the fractional parts of the cube roots of the first 64 primes,
  and of the square roots of the first 8: the low word of the integer root of \<open>p * 2 ^ (32 * k)\<close>,
  found bit by bit.\<close>

fun root_bits :: "nat \<Rightarrow> nat \<Rightarrow> nat \<Rightarrow> nat \<Rightarrow> nat" where
  "root_bits k n 0 r = r"
| "root_bits k n (Suc b) r = root_bits k n b (if (r + 2 ^ b) ^ k \<le> n then r + 2 ^ b else r)"

definition root_word :: "nat \<Rightarrow> nat \<Rightarrow> 32 word" where
  "root_word k p = word_of_nat (root_bits k (p * 2 ^ (32 * k)) 36 0)"

definition small_primes :: "nat list" where
  "small_primes = filter (\<lambda>p. \<forall>d \<in> set [2..<p]. p mod d \<noteq> 0) [2..<312]"

definition sha256_K :: "32 word list" where
  "sha256_K = map (root_word 3) small_primes"

definition sha256_H :: "32 word list" where
  "sha256_H = map (root_word 2) (take 8 small_primes)"

text \<open>The message schedule, newest word first.\<close>

fun sha256_extend :: "nat \<Rightarrow> 32 word list \<Rightarrow> 32 word list" where
  "sha256_extend 0 ws = ws"
| "sha256_extend (Suc n) ws = (let x = ws ! 14; y = ws ! 1;
     s0 = word_rotr 7 x XOR word_rotr 18 x XOR drop_bit 3 x;
     s1 = word_rotr 17 y XOR word_rotr 19 y XOR drop_bit 10 y
   in sha256_extend n ((ws ! 15 + s0 + ws ! 6 + s1) # ws))"

fun sha256_round :: "32 word list \<Rightarrow> 32 word \<times> 32 word \<Rightarrow> 32 word list" where
  "sha256_round [a, b, c, d, e, f, g, h] (k, w) =
     (let S1 = word_rotr 6 e XOR word_rotr 11 e XOR word_rotr 25 e;
          ch = (e AND f) XOR (NOT e AND g);
          t1 = h + S1 + ch + k + w;
          S0 = word_rotr 2 a XOR word_rotr 13 a XOR word_rotr 22 a;
          maj = (a AND b) XOR (a AND c) XOR (b AND c)
      in [t1 + (S0 + maj), a, b, c, d + t1, e, f, g])"
| "sha256_round st _ = st"

definition sha256_block :: "32 word list \<Rightarrow> 32 word list \<Rightarrow> 32 word list" where
  "sha256_block st blk = map2 (+) st (foldl sha256_round st (zip sha256_K (rev (sha256_extend 48 (rev blk)))))"

definition sha256 :: "nat list \<Rightarrow> nat list" where
  "sha256 m = concat (map word_bytes (foldl sha256_block sha256_H (blocks_of m)))"

section \<open>SHA-1\<close>

fun sha1_extend :: "nat \<Rightarrow> 32 word list \<Rightarrow> 32 word list" where
  "sha1_extend 0 ws = ws"
| "sha1_extend (Suc n) ws = sha1_extend n (word_rotl 1 (ws ! 2 XOR ws ! 7 XOR ws ! 13 XOR ws ! 15) # ws)"

definition sha1_f :: "nat \<Rightarrow> 32 word \<Rightarrow> 32 word \<Rightarrow> 32 word \<Rightarrow> 32 word" where
  "sha1_f t b c d = (if t < 20 then (b AND c) OR (NOT b AND d)
     else if t < 40 then b XOR c XOR d
     else if t < 60 then (b AND c) OR (b AND d) OR (c AND d)
     else b XOR c XOR d)"

definition sha1_k :: "nat \<Rightarrow> 32 word" where
  "sha1_k t = (if t < 20 then 0x5a827999 else if t < 40 then 0x6ed9eba1 else if t < 60 then 0x8f1bbcdc else 0xca62c1d6)"

fun sha1_round :: "32 word list \<Rightarrow> nat \<times> 32 word \<Rightarrow> 32 word list" where
  "sha1_round [a, b, c, d, e] (t, w) =
     [word_rotl 5 a + sha1_f t b c d + e + sha1_k t + w, a, word_rotl 30 b, c, d]"
| "sha1_round st _ = st"

definition sha1_block :: "32 word list \<Rightarrow> 32 word list \<Rightarrow> 32 word list" where
  "sha1_block st blk = map2 (+) st (foldl sha1_round st (zip [0..<80] (rev (sha1_extend 64 (rev blk)))))"

definition sha1 :: "nat list \<Rightarrow> nat list" where
  "sha1 m = concat (map word_bytes (foldl sha1_block
     [0x67452301, 0xefcdab89, 0x98badcfe, 0x10325476, 0xc3d2e1f0] (blocks_of m)))"

section \<open>HMAC and encodings\<close>

definition hmac :: "(nat list \<Rightarrow> nat list) \<Rightarrow> nat list \<Rightarrow> nat list \<Rightarrow> nat list" where
  "hmac H key msg = (let k = (if length key > 64 then H key else key); k64 = k @ replicate (64 - length k) 0
     in H (map (\<lambda>b. b XOR 0x5c) k64 @ H (map (\<lambda>b. b XOR 0x36) k64 @ msg)))"

definition hex_encode :: "nat list \<Rightarrow> string" where
  "hex_encode bs = concat (map (\<lambda>b. [hex_char (b div 16), hex_char (b mod 16)]) bs)"

definition hmac_sha256_hex :: "string \<Rightarrow> string \<Rightarrow> string" where
  "hmac_sha256_hex key msg = hex_encode (hmac sha256 (bytes key) (bytes msg))"

definition sha256_hex :: "string \<Rightarrow> string" where
  "sha256_hex s = hex_encode (sha256 (bytes s))"

lemma word_bytes_length [simp]: "length (word_bytes w) = 4"
  by (simp add: word_bytes_def Let_def)

lemma word_bytes_range: "b \<in> set (word_bytes w) \<Longrightarrow> b < 256"
  by (auto simp: word_bytes_def Let_def)

lemma sha1_length: "length (sha1 m) = 20"
proof -
  have r: "length st = 5 \<Longrightarrow> length (sha1_round st x) = 5" for st x
    by (cases "(st, x)" rule: sha1_round.cases) auto
  have rs: "length st = 5 \<Longrightarrow> length (foldl sha1_round st xs) = 5" for st xs
    by (induction xs arbitrary: st) (simp_all add: r)
  have "length st = 5 \<Longrightarrow> length (foldl sha1_block st bs) = 5" for st bs
    by (induction bs arbitrary: st) (simp_all add: sha1_block_def rs)
  then show ?thesis
    by (simp add: sha1_def length_concat comp_def sum_list_triv)
qed

lemma sha1_range: "b \<in> set (sha1 m) \<Longrightarrow> b < 256"
  using word_bytes_range by (auto simp: sha1_def)

lemma hmac_sha1_length: "length (hmac sha1 k m) = 20"
  by (simp add: hmac_def Let_def sha1_length)

end
