(* ===== verification/Auth.thy ===== *)
theory Auth
  imports Crypto DbProps
begin

text \<open>
  \<open>internal/auth/auth.go\<close>: the HMAC authentication of a request against the database, the per-IP
  throttle, and the admin check.  A Go pair (username, errMsg) is a pair of strings; an empty
  errMsg is success.  The timestamps are 64-bit words as in the code.
\<close>

section \<open>The code\<close>

definition hmacPrefix :: string where
  "hmacPrefix = ''HMAC-SHA256 ''"

definition abs64 :: "64 word \<Rightarrow> 64 word" where
  "abs64 v = (if sint v < 0 then - v else v)"

definition expired :: "int \<Rightarrow> int \<Rightarrow> int \<Rightarrow> bool" where
  "expired now ttl ts \<longleftrightarrow> sint (abs64 (word_of_int now - word_of_int ts)) > ttl"

text \<open>\<open>strings.SplitN(payload, ":", 3)\<close>, when it yields three fields.\<close>

definition split3 :: "string \<Rightarrow> (string \<times> string \<times> string) option" where
  "split3 payload = (case cut_at CHR '':'' payload of None \<Rightarrow> None
     | Some (a, rest) \<Rightarrow> (case cut_at CHR '':'' rest of None \<Rightarrow> None | Some (b, c) \<Rightarrow> Some (a, b, c)))"

definition auth_fail :: "int \<Rightarrow> string option \<Rightarrow> string \<Rightarrow> string \<Rightarrow> string \<Rightarrow> db \<times> bool list \<Rightarrow>
    (string \<times> string) \<times> db \<times> bool list" where
  "auth_fail now user ip reason msg s = (([], msg), snd (RecordFailedAttempt now user (Some ip) reason s))"

definition VerifyHMAC :: "int \<Rightarrow> string \<Rightarrow> int \<Rightarrow> string \<Rightarrow> db \<times> bool list \<Rightarrow>
    (string \<times> string) \<times> db \<times> bool list" where
  "VerifyHMAC now header ttl clientIP s =
     (if \<not> has_prefix hmacPrefix header
      then auth_fail now None clientIP ''Missing or invalid Authorization header''
             ''Missing or invalid Authorization header'' s
      else (case split3 (drop (length hmacPrefix) header) of
        None \<Rightarrow> auth_fail now None clientIP ''Malformed auth payload (expected username:timestamp:signature)''
                  ''Malformed auth payload (expected username:timestamp:signature)'' s
      | Some (user, tsStr, signature) \<Rightarrow> (case parse_int64 tsStr of
          None \<Rightarrow> auth_fail now (Some user) clientIP ''Invalid timestamp'' ''Invalid timestamp'' s
        | Some ts \<Rightarrow>
            if expired now ttl ts
            then auth_fail now (Some user) clientIP ''Signature expired'' ''Signature expired'' s
            else (case GetUserByUsername user s of
                (Inr (Some row), s1) \<Rightarrow>
                  if signature \<noteq> hmac_sha256_hex (u_secret row) (user @ '':'' @ tsStr)
                  then auth_fail now (Some user) clientIP ''Invalid signature'' ''Invalid credentials'' s1
                  else ((user, []), s1)
              | (_, s1) \<Rightarrow> auth_fail now (Some user) clientIP ''Unknown user'' ''Invalid credentials'' s1))))"

definition CheckIPThrottle :: "int \<Rightarrow> string \<Rightarrow> int \<Rightarrow> int \<Rightarrow> db \<times> bool list \<Rightarrow> string \<times> db \<times> bool list" where
  "CheckIPThrottle now ip maxFailures windowSec s =
     (if maxFailures \<le> 0 \<or> ip = [] then ([], s)
      else (case CountRecentFailedAttempts now ip windowSec s of
          (Inl e, s1) \<Rightarrow> ([], s1)
        | (Inr n, s1) \<Rightarrow> (if n \<ge> maxFailures then ''Too many failed attempts; try again later'' else [], s1)))"

definition IsAdmin :: "string \<Rightarrow> db \<times> bool list \<Rightarrow> bool \<times> db \<times> bool list" where
  "IsAdmin username s = (case GetUserByUsername username s of
      (Inr (Some row), s1) \<Rightarrow> (u_admin row, s1)
    | (_, s1) \<Rightarrow> (False, s1))"

text \<open>The user is \<open>None\<close> with an empty errMsg only when the row vanishes between the two reads, which a
  single database never shows.\<close>

definition RequireAdmin :: "int \<Rightarrow> string \<Rightarrow> int \<Rightarrow> string \<Rightarrow> db \<times> bool list \<Rightarrow>
    (user option \<times> string) \<times> db \<times> bool list" where
  "RequireAdmin now header ttl clientIP s =
     (case VerifyHMAC now header ttl clientIP s of ((username, errMsg), s1) \<Rightarrow>
        if errMsg \<noteq> [] then ((None, errMsg), s1)
        else (case IsAdmin username s1 of (adm, s2) \<Rightarrow>
          if \<not> adm
          then ((None, ''Admin privileges required''),
                snd (RecordFailedAttempt now (Some username) (Some clientIP) ''Admin privileges required'' s2))
          else (case GetUserByUsername username s2 of
              (Inl e, s3) \<Rightarrow> ((None, ''Admin privileges required''), s3)
            | (Inr u, s3) \<Rightarrow> ((u, []), s3))))"

section \<open>Freshness\<close>

text \<open>The signed value of a wrapped integer, and the case the absolute value does not repair.\<close>

lemma sint_wrap64: "sint (word_of_int x :: 64 word) = (x + 2 ^ 63) mod 2 ^ 64 - 2 ^ 63"
  by (simp add: int_word_sint)

lemma sint_abs64:
  "sint (abs64 (word_of_int x)) =
     (let k = (x + 2 ^ 63) mod 2 ^ 64 - 2 ^ 63 in if k = - (2 ^ 63) then - (2 ^ 63) else \<bar>k\<bar>)"
proof -
  define k where "k = (x + 2 ^ 63) mod 2 ^ 64 - (2 ^ 63 :: int)"
  have r: "- (2 ^ 63) \<le> k" "k < 2 ^ 63" by (simp_all add: k_def)
  have w: "word_of_int x = (word_of_int k :: 64 word)"
    unfolding word_of_int_eq_iff take_bit_eq_mod k_def by (simp add: mod_diff_left_eq)
  have s: "sint (word_of_int k :: 64 word) = k" using sint_wrap64 [of x] w k_def by simp
  have n: "sint (- word_of_int k :: 64 word) = (- k + 2 ^ 63) mod 2 ^ 64 - 2 ^ 63"
    using sint_wrap64 [of "- k"] by simp
  have "sint (abs64 (word_of_int k)) = (if k = - (2 ^ 63) then - (2 ^ 63) else \<bar>k\<bar>)"
    unfolding abs64_def using r s n by (auto simp: mod_pos_pos_trivial)
  then show ?thesis unfolding w by (simp add: k_def Let_def)
qed

text \<open>C22. The freshness test, computed in 64-bit arithmetic, accepts a timestamp within \<open>ttl\<close> seconds of
  the clock, and besides these exactly one other: the timestamp \<open>2^63\<close> seconds before the clock, where
  the difference wraps to the minimal integer, which is its own negation.\<close>

theorem expired_exact:
  assumes "0 \<le> now" and "now < 2 ^ 62" and "0 \<le> ttl" and "ttl < 2 ^ 62"
    and "- (2 ^ 63) \<le> ts" and "ts < 2 ^ 63"
  shows "\<not> expired now ttl ts \<longleftrightarrow> \<bar>now - ts\<bar> \<le> ttl \<or> ts = now - 2 ^ 63"
proof -
  let ?x = "now - ts"
  have e: "expired now ttl ts \<longleftrightarrow> sint (abs64 (word_of_int ?x)) > ttl"
    by (simp add: expired_def)
  consider "?x < 2 ^ 63" | "?x = 2 ^ 63" | "?x > 2 ^ 63" by linarith
  then show ?thesis
  proof cases
    case 1
    then have "(?x + 2 ^ 63) mod 2 ^ 64 = ?x + 2 ^ 63" using assms by (intro mod_pos_pos_trivial) auto
    then show ?thesis using 1 assms unfolding e sint_abs64 Let_def by auto
  next
    case 2
    then have "(?x + 2 ^ 63) mod 2 ^ 64 = 0" by simp
    then show ?thesis using 2 assms unfolding e sint_abs64 Let_def by auto
  next
    case 3
    have "(?x + 2 ^ 63) mod 2 ^ 64 = (?x + 2 ^ 63 - 2 ^ 64) mod 2 ^ 64"
      by (rule minus_mod_self2 [symmetric])
    also have "\<dots> = ?x + 2 ^ 63 - 2 ^ 64" using 3 assms by (intro mod_pos_pos_trivial) auto
    finally show ?thesis using 3 assms unfolding e sint_abs64 Let_def by auto
  qed
qed

theorem expired_exact_witness:
  "\<not> expired 1700000000 60 (1700000000 - 2 ^ 63) \<and> expired 1700000000 60 1699999000"
  using expired_exact [of 1700000000 60 "1700000000 - 2 ^ 63"] expired_exact [of 1700000000 60 1699999000] by simp

section \<open>Authentication\<close>

definition failed_row :: "int \<Rightarrow> string option \<Rightarrow> string \<Rightarrow> string \<Rightarrow> failed_attempt" where
  "failed_row now user ip reason = \<lparr>f_user = user, f_ip = Some ip, f_reason = reason, f_created = now\<rparr>"

definition add_failed :: "failed_attempt \<Rightarrow> db \<Rightarrow> db" where
  "add_failed f d = d\<lparr>failed := failed d @ [f]\<rparr>"

lemma RecordFailedAttempt_effect:
  "fst (snd (RecordFailedAttempt now user (Some ip) reason s)) \<in>
     {fst s, add_failed (failed_row now user ip reason) (fst s)}"
  "snd s = [] \<Longrightarrow> snd (RecordFailedAttempt now user (Some ip) reason s) =
     (add_failed (failed_row now user ip reason) (fst s), [])"
  by (auto simp: RecordFailedAttempt_def exec_def stmt_def add_failed_def failed_row_def split: prod.splits)

lemma GetUserByUsername_cases:
  obtains s' where "GetUserByUsername un s = (Inl DbFault, s')" "fst s' = fst s"
  | s' where "GetUserByUsername un s = (Inr (find (\<lambda>u. u_name u = un) (users (fst s))), s')" "fst s' = fst s"
  using query_cases [of "\<lambda>d. find (\<lambda>u. u_name u = un) (users d)" s]
  by (cases "GetUserByUsername un s") (auto simp: GetUserByUsername_def)

text \<open>What a header must be for a user row: the scheme, the name, a timestamp and the signature over
  both under the stored secret.\<close>

definition signed_header :: "user \<Rightarrow> string \<Rightarrow> string" where
  "signed_header row tsStr = hmacPrefix @ u_name row @ '':'' @ tsStr @ '':'' @
     hmac_sha256_hex (u_secret row) (u_name row @ '':'' @ tsStr)"

lemma split3_Some:
  "split3 p = Some (a, b, c) \<longleftrightarrow> p = a @ '':'' @ b @ '':'' @ c \<and> CHR '':'' \<notin> set a \<and> CHR '':'' \<notin> set b"
proof
  assume "split3 p = Some (a, b, c)"
  then show "p = a @ '':'' @ b @ '':'' @ c \<and> CHR '':'' \<notin> set a \<and> CHR '':'' \<notin> set b"
    by (auto simp: split3_def dest!: cut_at_Some split: option.splits)
next
  assume "p = a @ '':'' @ b @ '':'' @ c \<and> CHR '':'' \<notin> set a \<and> CHR '':'' \<notin> set b"
  then show "split3 p = Some (a, b, c)" by (simp add: split3_def cut_at_append)
qed

lemma auth_fail_result:
  "fst (auth_fail now user ip reason msg s) = ([], msg)"
  "fst (snd (auth_fail now user ip reason msg s)) \<in> {fst s, add_failed (failed_row now user ip reason) (fst s)}"
  "snd (snd (auth_fail now user ip reason msg (d, []))) = []"
  "fst (snd (auth_fail now user ip reason msg (d, []))) = add_failed (failed_row now user ip reason) d"
  using RecordFailedAttempt_effect(1) [of now user ip reason s] RecordFailedAttempt_effect(2) [of "(d, [])" now user ip reason]
  by (simp_all add: auth_fail_def)

lemma parse_int64_no_colon: "parse_int64 s = Some v \<Longrightarrow> CHR '':'' \<notin> set s"
  by (cases s) (auto simp: parse_int64_def is_digit_def list_all_iff Let_def split: if_splits)

text \<open>The accepting condition: the header is the one the user's secret signs for a fresh timestamp.\<close>

definition accepts :: "int \<Rightarrow> int \<Rightarrow> user list \<Rightarrow> string \<Rightarrow> user \<Rightarrow> bool" where
  "accepts now ttl us header row \<longleftrightarrow> find (\<lambda>u. u_name u = u_name row) us = Some row \<and> CHR '':'' \<notin> set (u_name row) \<and>
     (\<exists>tsStr ts. header = signed_header row tsStr \<and> parse_int64 tsStr = Some ts \<and> \<not> expired now ttl ts)"

lemma find_name: "find (\<lambda>u. u_name u = n) us = Some row \<Longrightarrow> u_name row = n"
  by (auto simp: find_Some_iff)

lemma VerifyHMAC_run:
  assumes "VerifyHMAC now header ttl ip s = ((u, err), s')"
  shows "(err = [] \<and> fst s' = fst s \<and> (\<exists>row. accepts now ttl (users (fst s)) header row \<and> u = u_name row)) \<or>
    (err \<noteq> [] \<and> u = [] \<and> (\<exists>usr reason. fst s' \<in> {fst s, add_failed (failed_row now usr ip reason) (fst s)} \<and>
       (snd s = [] \<longrightarrow> s' = (add_failed (failed_row now usr ip reason) (fst s), [])) ))"
proof -
  have fail: ?thesis if "auth_fail now usr ip reason msg t = ((u, err), s')" "msg \<noteq> []" "fst t = fst s" "snd s = [] \<longrightarrow> snd t = []"
    for usr reason msg t
    using that RecordFailedAttempt_effect(1) [of now usr ip reason t] RecordFailedAttempt_effect(2) [of t now usr ip reason]
    by (auto simp: auth_fail_def)
  show ?thesis
  proof (cases "has_prefix hmacPrefix header")
    case False
    with assms show ?thesis by (intro fail) (auto simp: VerifyHMAC_def)
  next
    case True
    then obtain p where h: "header = hmacPrefix @ p" by (auto simp: has_prefix_iff)
    show ?thesis
    proof (cases "split3 p")
      case None
      with assms h show ?thesis by (intro fail) (auto simp: VerifyHMAC_def)
    next
      case (Some x)
      obtain un tsStr sig where x: "x = (un, tsStr, sig)" by (cases x)
      note p = Some [unfolded x split3_Some]
      show ?thesis
      proof (cases "parse_int64 tsStr")
        case None
        with assms h Some x show ?thesis by (intro fail) (auto simp: VerifyHMAC_def)
      next
        case ts: (Some ts)
        show ?thesis
        proof (cases "expired now ttl ts")
          case True
          with assms h Some x ts show ?thesis by (intro fail) (auto simp: VerifyHMAC_def)
        next
          case False
          obtain r t where g: "GetUserByUsername un s = (r, t)" by (cases "GetUserByUsername un s")
          have t: "fst t = fst s" "snd s = [] \<longrightarrow> snd t = []"
            using g by (auto simp: GetUserByUsername_def query_def stmt_def split: prod.splits if_splits)
          have r: "r = Inl DbFault \<or> r = Inr (find (\<lambda>u. u_name u = un) (users (fst s)))"
            using g GetUserByUsername_cases [of un s] by auto
          show ?thesis
          proof (cases "\<exists>row. r = Inr (Some row) \<and> sig = hmac_sha256_hex (u_secret row) (un @ '':'' @ tsStr)")
            case True
            then obtain row where row: "r = Inr (Some row)" "sig = hmac_sha256_hex (u_secret row) (un @ '':'' @ tsStr)"
              by blast
            with r have f: "find (\<lambda>u. u_name u = un) (users (fst s)) = Some row" by auto
            then have n: "u_name row = un" by (rule find_name)
            have "accepts now ttl (users (fst s)) header row"
              using f n p ts False h row(2) by (auto simp: accepts_def signed_header_def)
            moreover have "u = un \<and> err = [] \<and> s' = t"
              using assms h Some x ts False g row by (simp add: VerifyHMAC_def)
            ultimately show ?thesis using t n by blast
          next
            case bad: False
            have "\<exists>reason. auth_fail now (Some un) ip reason ''Invalid credentials'' t = ((u, err), s')"
              using assms h Some x ts False g bad by (auto simp: VerifyHMAC_def split: sum.splits option.splits if_splits)
            then show ?thesis using t by (elim exE) (rule fail, assumption, simp_all)
          qed
        qed
      qed
    qed
  qed
qed

lemma VerifyHMAC_signed:
  assumes "find (\<lambda>u. u_name u = u_name row) (users d) = Some row" and "CHR '':'' \<notin> set (u_name row)"
    and "parse_int64 tsStr = Some ts" and "\<not> expired now ttl ts"
  shows "VerifyHMAC now (signed_header row tsStr) ttl ip (d, []) = ((u_name row, []), (d, []))"
proof -
  have "split3 (u_name row @ '':'' @ tsStr @ '':'' @ hmac_sha256_hex (u_secret row) (u_name row @ '':'' @ tsStr)) =
      Some (u_name row, tsStr, hmac_sha256_hex (u_secret row) (u_name row @ '':'' @ tsStr))"
    unfolding split3_Some using assms(2) parse_int64_no_colon [OF assms(3)] by simp
  then show ?thesis
    using assms unfolding signed_header_def VerifyHMAC_def by (simp add: GetUserByUsername_def)
qed

text \<open>C20. Authentication is sound under any statement failures: VerifyHMAC succeeds only for a user of the
  database whose secret signed exactly the presented name and timestamp, with a fresh timestamp, and a
  success changes nothing; a failure names no user and at most adds one failed_attempts row for the
  caller's address.\<close>

theorem VerifyHMAC_sound:
  assumes "VerifyHMAC now header ttl ip s = ((u, err), s')"
  shows "if err = [] then fst s' = fst s \<and> (\<exists>row \<in> set (users (fst s)). u_name row = u \<and>
        (\<exists>tsStr ts. header = hmacPrefix @ u @ '':'' @ tsStr @ '':'' @ hmac_sha256_hex (u_secret row) (u @ '':'' @ tsStr) \<and>
           parse_int64 tsStr = Some ts \<and> \<not> expired now ttl ts))
    else u = [] \<and> (\<exists>usr reason. fst s' \<in> {fst s, add_failed (failed_row now usr ip reason) (fst s)})"
proof (cases "err = []")
  case True
  with VerifyHMAC_run [OF assms] obtain row where
    a: "accepts now ttl (users (fst s)) header row" "u = u_name row" "fst s' = fst s" by blast
  then have "row \<in> set (users (fst s))" by (auto simp: accepts_def find_Some_iff)
  with a True show ?thesis by (auto simp: accepts_def signed_header_def)
next
  case False
  with VerifyHMAC_run [OF assms] show ?thesis by auto
qed

text \<open>C21. Authentication is complete and every failure leaves a trace: without database faults, a header
  some user's secret signed for a fresh timestamp is accepted as that user and changes nothing; every
  other header is rejected and recorded as exactly one failed attempt of the caller's address, the
  row the per-IP throttle counts.\<close>

theorem VerifyHMAC_complete:
  assumes "distinct (map u_name (users d))"
  shows "if \<exists>row \<in> set (users d). CHR '':'' \<notin> set (u_name row) \<and> (\<exists>tsStr ts. header = signed_header row tsStr \<and>
          parse_int64 tsStr = Some ts \<and> \<not> expired now ttl ts)
    then \<exists>row \<in> set (users d). VerifyHMAC now header ttl ip (d, []) = ((u_name row, []), (d, [])) \<and>
          (\<exists>tsStr. header = signed_header row tsStr)
    else \<exists>err usr reason. err \<noteq> [] \<and>
          VerifyHMAC now header ttl ip (d, []) = (([], err), (add_failed (failed_row now usr ip reason) d, []))"
proof -
  have acc: "(\<exists>row. accepts now ttl (users d) header row) \<longleftrightarrow> (\<exists>row \<in> set (users d). CHR '':'' \<notin> set (u_name row) \<and>
      (\<exists>tsStr ts. header = signed_header row tsStr \<and> parse_int64 tsStr = Some ts \<and> \<not> expired now ttl ts))"
    unfolding accepts_def find_key_iff [OF assms] by blast
  obtain u err s' where v: "VerifyHMAC now header ttl ip (d, []) = ((u, err), s')" by (metis surj_pair)
  show ?thesis
  proof (cases "\<exists>row. accepts now ttl (users d) header row")
    case True
    then obtain row where row: "accepts now ttl (users d) header row" by blast
    then obtain tsStr ts where h: "header = signed_header row tsStr" "parse_int64 tsStr = Some ts" "\<not> expired now ttl ts"
      and f: "find (\<lambda>u. u_name u = u_name row) (users d) = Some row" "CHR '':'' \<notin> set (u_name row)"
      by (auto simp: accepts_def)
    have "VerifyHMAC now header ttl ip (d, []) = ((u_name row, []), (d, []))"
      unfolding h(1) by (rule VerifyHMAC_signed [OF f h(2,3)])
    moreover have "row \<in> set (users d)" using f(1) by (auto simp: find_Some_iff)
    ultimately show ?thesis using True acc h(1) by auto
  next
    case False
    with VerifyHMAC_run [OF v] have "err \<noteq> [] \<and> u = [] \<and> (\<exists>usr reason. s' = (add_failed (failed_row now usr ip reason) d, []))"
      by auto
    with v False acc show ?thesis by auto
  qed
qed

definition demo_ann :: user where
  "demo_ann = hd (users demo_db)"

lemma demo_signed:
  "VerifyHMAC 1000 (signed_header demo_ann ''1000'') 60 ''10.0.0.1'' (demo_db, []) = ((''ann'', []), (demo_db, []))"
proof -
  have n: "u_name demo_ann = ''ann''" by code_simp
  have f: "find (\<lambda>u. u_name u = u_name demo_ann) (users demo_db) = Some demo_ann"
    by (simp add: demo_ann_def demo_db_def new_user_def)
  have t: "parse_int64 ''1000'' = Some 1000" "\<not> expired 1000 60 1000" by code_simp+
  have c: "CHR '':'' \<notin> set (u_name demo_ann)" by (simp add: n)
  from VerifyHMAC_signed [OF f c t] show ?thesis by (simp only: n)
qed

theorem VerifyHMAC_sound_witness:
  "\<exists>row \<in> set (users demo_db). u_name row = ''ann'' \<and> (\<exists>tsStr ts. signed_header demo_ann ''1000'' =
     hmacPrefix @ ''ann'' @ '':'' @ tsStr @ '':'' @ hmac_sha256_hex (u_secret row) (''ann'' @ '':'' @ tsStr) \<and>
     parse_int64 tsStr = Some ts \<and> \<not> expired 1000 60 ts)"
  using VerifyHMAC_sound [OF demo_signed] unfolding fst_conv by simp

theorem VerifyHMAC_complete_witness:
  "\<exists>err usr reason. err \<noteq> [] \<and>
     VerifyHMAC 5000 ''Bearer x'' 60 ''10.0.0.1'' (demo_db, []) =
       (([], err), (add_failed (failed_row 5000 usr ''10.0.0.1'' reason) demo_db, []))"
proof -
  have d: "distinct (map u_name (users demo_db))" by code_simp
  have n: "\<not> (\<exists>row \<in> set (users demo_db). CHR '':'' \<notin> set (u_name row) \<and> (\<exists>tsStr ts. ''Bearer x'' = signed_header row tsStr \<and>
     parse_int64 tsStr = Some ts \<and> \<not> expired 5000 60 ts))"
    by (simp add: signed_header_def hmacPrefix_def)
  show ?thesis
    using VerifyHMAC_complete [OF d, of "''Bearer x''" 5000 60 "''10.0.0.1''"] unfolding if_not_P [OF n] .
qed

section \<open>Administrators and the throttle\<close>

lemma RequireAdmin_run:
  assumes "RequireAdmin now header ttl ip s = ((uo, err), s')"
  shows "(err = [] \<and> fst s' = fst s \<and> (\<exists>row. uo = Some row \<and> row \<in> set (users (fst s)) \<and> u_admin row \<and>
        accepts now ttl (users (fst s)) header row)) \<or>
    (err \<noteq> [] \<and> uo = None \<and> (\<exists>usr reason. fst s' \<in> {fst s, add_failed (failed_row now usr ip reason) (fst s)}) \<and>
       (err \<noteq> ''Admin privileges required'' \<longrightarrow> (\<exists>un. VerifyHMAC now header ttl ip s = ((un, err), s'))))"
proof -
  obtain un e1 s1 where v: "VerifyHMAC now header ttl ip s = ((un, e1), s1)" by (metis surj_pair)
  note run = VerifyHMAC_run [OF v]
  show ?thesis
  proof (cases "e1 = []")
    case False
    with assms v have "uo = None" "err = e1" "s' = s1" by (simp_all add: RequireAdmin_def)
    with run False v show ?thesis by auto
  next
    case True
    with run obtain row where
      acc: "accepts now ttl (users (fst s)) header row" "un = u_name row" and s1: "fst s1 = fst s" by blast
    then have f: "find (\<lambda>u. u_name u = un) (users (fst s)) = Some row" by (simp add: accepts_def)
    then have mem: "row \<in> set (users (fst s))" unfolding find_Some_iff by auto
    obtain a s2 where ad: "IsAdmin un s1 = (a, s2)" by (cases "IsAdmin un s1")
    have s2: "fst s2 = fst s" and a: "a \<Longrightarrow> u_admin row"
      using ad s1 f by (rule_tac GetUserByUsername_cases [of un s1], auto simp: IsAdmin_def)+
    show ?thesis
    proof (cases a)
      case False
      with assms v ad True have "uo = None" "err = ''Admin privileges required''"
        "s' = snd (RecordFailedAttempt now (Some un) (Some ip) ''Admin privileges required'' s2)"
        by (auto simp: RequireAdmin_def)
      then show ?thesis
        using RecordFailedAttempt_effect(1) [of now "Some un" ip "''Admin privileges required''" s2] s2 by auto
    next
      case adm: True
      obtain r s3 where g: "GetUserByUsername un s2 = (r, s3)" by (cases "GetUserByUsername un s2")
      have r: "r = Inl DbFault \<or> r = Inr (Some row)" and s3: "fst s3 = fst s"
        using g s2 f by (rule_tac GetUserByUsername_cases [of un s2], auto)+
      have run: "RequireAdmin now header ttl ip s = (case r of Inl e \<Rightarrow> ((None, ''Admin privileges required''), s3)
          | Inr u \<Rightarrow> ((u, []), s3))"
        using v ad True adm g by (simp add: RequireAdmin_def)
      from r s3 run assms acc(1) a adm mem show ?thesis by (elim disjE) auto
    qed
  qed
qed

text \<open>RequireAdmin lets nobody else in: under any statement failures it returns a user with an empty
  error only when that user is in the database with the admin flag set and signed the header with a
  fresh timestamp; then nothing has changed.  Every other call returns an error and no user.\<close>

theorem RequireAdmin_sound:
  assumes "RequireAdmin now header ttl ip s = ((uo, err), s')"
  shows "if err = [] then \<exists>row tsStr ts. uo = Some row \<and> row \<in> set (users (fst s)) \<and> u_admin row \<and> fst s' = fst s \<and>
        header = signed_header row tsStr \<and> parse_int64 tsStr = Some ts \<and> \<not> expired now ttl ts
    else uo = None"
  using RequireAdmin_run [OF assms] by (auto simp: accepts_def)

theorem RequireAdmin_sound_witness:
  "fst (fst (RequireAdmin 1000 (signed_header demo_ann ''1000'') 60 ''10.0.0.1'' (demo_db, []))) = None"
proof -
  obtain uo err s' where r: "RequireAdmin 1000 (signed_header demo_ann ''1000'') 60 ''10.0.0.1'' (demo_db, []) = ((uo, err), s')"
    by (metis surj_pair)
  have "fst (IsAdmin ''ann'' (demo_db, [])) = False" by code_simp
  then have "err \<noteq> []"
    using r demo_signed by (auto simp: RequireAdmin_def split: prod.splits if_splits)
  with RequireAdmin_sound [OF r] r show ?thesis by simp
qed

lemma CheckIPThrottle_nofault:
  "CheckIPThrottle now ip m w (d, []) =
     (if 0 < m \<and> ip \<noteq> [] \<and> m \<le> int (length (filter (\<lambda>f. f_ip f = Some ip \<and> now - w \<le> f_created f) (failed d)))
      then ''Too many failed attempts; try again later'' else [], (d, []))"
  by (auto simp: CheckIPThrottle_def CountRecentFailedAttempts_def)

end
