(* ===== verification/Totp.thy ===== *)
theory Totp
  imports Crypto
begin

text \<open>
  \<open>internal/auth/totp.go\<close>: the time-based one-time codes, with Go's \<open>base32.StdEncoding\<close> written out.
  Secrets are ASCII; the 20 random bytes of a new secret are an argument.
\<close>

section \<open>Base32\<close>

definition b32_char :: "nat \<Rightarrow> char" where
  "b32_char v = char_of (if v < 26 then 65 + v else 24 + v)"

definition b32_val :: "char \<Rightarrow> nat option" where
  "b32_val c = (if is_upper c then Some (byte c - 65)
                else if 50 \<le> byte c \<and> byte c \<le> 55 then Some (byte c - 24) else None)"

definition upcase :: "string \<Rightarrow> string" where
  "upcase s = map (\<lambda>c. if is_lower c then char_of (byte c - 32) else c) s"

text \<open>Five bytes are eight digits of five bits.\<close>

definition b32_digits :: "nat list \<Rightarrow> nat list" where
  "b32_digits bs = (let n = foldl (\<lambda>a b. a * 256 + b) 0 bs in map (\<lambda>i. n div 32 ^ i mod 32) [7, 6, 5, 4, 3, 2, 1, 0])"

fun b32_encode :: "nat list \<Rightarrow> string" where
  "b32_encode (a # b # c # d # e # r) = map b32_char (b32_digits [a, b, c, d, e]) @ b32_encode r"
| "b32_encode [] = []"
| "b32_encode bs = (let bs' = bs @ replicate (5 - length bs) 0; k = (8 * length bs + 4) div 5
     in map b32_char (take k (b32_digits bs')) @ replicate (8 - k) CHR ''='')"

definition trim_eq :: "string \<Rightarrow> string" where
  "trim_eq s = rev (dropWhile (\<lambda>c. c = CHR ''='') (rev s))"

definition GenerateTOTPSecret :: "nat list \<Rightarrow> string" where
  "GenerateTOTPSecret rnd = trim_eq (b32_encode rnd)"

text \<open>One quantum: the digits read so far, whether the padding ended the input, and what is left.\<close>

fun b32_quantum :: "nat list \<Rightarrow> string \<Rightarrow> (nat list \<times> bool \<times> string) option" where
  "b32_quantum dbuf [] = (if length dbuf = 8 then Some (dbuf, False, []) else None)"
| "b32_quantum dbuf (c # cs) =
     (if length dbuf = 8 then Some (dbuf, False, c # cs)
      else if c = CHR ''='' \<and> length dbuf \<ge> 2 \<and> length cs < 8
      then (if length cs + length dbuf < 7 then None
            else if \<exists>x \<in> set (take (7 - length dbuf) cs). x \<noteq> CHR ''='' then None
            else if length dbuf \<in> {1, 3, 6} then None
            else Some (dbuf, True, cs))
      else (case b32_val c of None \<Rightarrow> None | Some v \<Rightarrow> b32_quantum (dbuf @ [v]) cs))"

text \<open>The bytes of a quantum: five for eight digits, fewer for a padded one.\<close>

definition b32_pack :: "nat list \<Rightarrow> nat list" where
  "b32_pack dbuf = (let n = foldl (\<lambda>a v. a * 32 + v) 0 (dbuf @ replicate (8 - length dbuf) 0)
     in take (5 * length dbuf div 8) (map (\<lambda>i. n div 256 ^ i mod 256) [4, 3, 2, 1, 0]))"

fun b32_decode :: "nat \<Rightarrow> string \<Rightarrow> nat list option" where
  "b32_decode 0 src = (if src = [] then Some [] else None)"
| "b32_decode (Suc n) src = (if src = [] then Some [] else (case b32_quantum [] src of
      None \<Rightarrow> None
    | Some (dbuf, fin, rest) \<Rightarrow> if fin then Some (b32_pack dbuf)
        else (case b32_decode n rest of None \<Rightarrow> None | Some bs \<Rightarrow> Some (b32_pack dbuf @ bs))))"

text \<open>\<open>DecodeString\<close> drops line ends first; the length of the input bounds the number of quanta.\<close>

definition b32decode :: "string \<Rightarrow> nat list" where
  "b32decode secret = (let s = upcase secret;
       s' = s @ replicate ((8 - length s mod 8) mod 8) CHR ''='';
       src = filter (\<lambda>c. c \<noteq> CHR 10 \<and> c \<noteq> CHR 13) s'
     in (case b32_decode (length src) src of None \<Rightarrow> [] | Some key \<Rightarrow> key))"

section \<open>HOTP and TOTP\<close>

definition totpStep :: int where "totpStep = 30"
definition totpDigits :: nat where "totpDigits = 6"
definition totpWindow :: int where "totpWindow = 1"

definition pad_left :: "nat \<Rightarrow> string \<Rightarrow> string" where
  "pad_left n s = replicate (n - length s) CHR ''0'' @ s"

definition hotp :: "nat list \<Rightarrow> nat \<Rightarrow> string" where
  "hotp key counter = (let sum = hmac sha1 key (be_bytes64 counter);
       ofs = sum ! (length sum - 1) mod 16;
       truncated = (sum ! ofs mod 128) * 2 ^ 24 + sum ! (ofs + 1) * 2 ^ 16 + sum ! (ofs + 2) * 2 ^ 8 + sum ! (ofs + 3)
     in pad_left totpDigits (dec_str (truncated mod 10 ^ totpDigits)))"

text \<open>Go's division truncates towards zero; \<open>uint64\<close> of an \<open>int64\<close> is the value modulo \<open>2^64\<close>.\<close>

definition step_of :: "int \<Rightarrow> int" where
  "step_of t = (if 0 \<le> t then t div totpStep else - (- t div totpStep))"

definition uint64 :: "int \<Rightarrow> nat" where
  "uint64 c = nat (c mod 2 ^ 64)"

definition TOTPNow :: "string \<Rightarrow> int \<Rightarrow> string" where
  "TOTPNow secret t = hotp (b32decode secret) (uint64 (step_of t))"

definition VerifyTOTPCounter :: "string \<Rightarrow> string \<Rightarrow> int \<Rightarrow> int option" where
  "VerifyTOTPCounter secret code t =
     (if secret = [] \<or> code = [] then None
      else find (\<lambda>c. hotp (b32decode secret) (uint64 c) = trim_space code)
             (map (\<lambda>w. step_of t + w) [- totpWindow .. totpWindow]))"

definition VerifyTOTP :: "string \<Rightarrow> string \<Rightarrow> int \<Rightarrow> bool" where
  "VerifyTOTP secret code t \<longleftrightarrow> VerifyTOTPCounter secret code t \<noteq> None"

section \<open>Digits in a base\<close>

definition digs :: "nat \<Rightarrow> nat \<Rightarrow> nat \<Rightarrow> nat list" where
  "digs B k n = map (\<lambda>i. n div B ^ i mod B) (rev [0..<k])"

lemma length_digs [simp]: "length (digs B k n) = k"
  by (simp add: digs_def)

lemma digs_range: "0 < B \<Longrightarrow> v \<in> set (digs B k n) \<Longrightarrow> v < B"
  by (auto simp: digs_def)

lemma foldl_digs: "foldl (\<lambda>a v. a * B + v) x (digs B k n) = x * B ^ k + n mod B ^ k"
proof (induction k arbitrary: x)
  case (Suc k)
  have "foldl (\<lambda>a v. a * B + v) x (digs B (Suc k) n) =
      foldl (\<lambda>a v. a * B + v) (x * B + n div B ^ k mod B) (digs B k n)" by (simp add: digs_def)
  also have "\<dots> = (x * B + n div B ^ k mod B) * B ^ k + n mod B ^ k" by (rule Suc)
  also have "\<dots> = x * B ^ Suc k + (B ^ k * (n div B ^ k mod B) + n mod B ^ k)" by (simp add: algebra_simps)
  also have "B ^ k * (n div B ^ k mod B) + n mod B ^ k = n mod (B ^ k * B)" by (simp add: mod_mult2_eq)
  finally show ?case by (simp add: mult.commute)
qed (simp add: digs_def)

lemma digs_snoc: "b < B \<Longrightarrow> digs B (Suc k) (m * B + b) = digs B k m @ [b]"
proof -
  assume b: "b < B"
  have "(m * B + b) div B ^ Suc i mod B = m div B ^ i mod B" for i
    using b by (simp add: div_mult2_eq)
  then have "map (\<lambda>i. (m * B + b) div B ^ i mod B) (rev [Suc 0..<Suc k]) = digs B k m"
    by (simp add: digs_def map_Suc_upt [symmetric] rev_map [symmetric] comp_def del: upt_Suc)
  moreover have "rev [0..<Suc k] = rev [Suc 0..<Suc k] @ [0]" by (simp add: upt_conv_Cons del: upt_Suc)
  ultimately show ?thesis using b by (simp add: digs_def del: upt_Suc)
qed

lemma digs_foldl:
  "\<forall>b \<in> set bs. b < B \<Longrightarrow> digs B (length bs) (foldl (\<lambda>a b. a * B + b) 0 bs) = bs"
proof (induction bs rule: rev_induct)
  case (snoc b bs)
  then show ?case by (simp add: digs_snoc)
qed (simp add: digs_def)

lemma foldl_bound: "\<forall>b \<in> set bs. b < B \<Longrightarrow> foldl (\<lambda>a b. a * B + b) (0 :: nat) bs < B ^ length bs"
proof (induction bs rule: rev_induct)
  case (snoc b bs)
  then have "foldl (\<lambda>a b. a * B + b) 0 bs + 1 \<le> B ^ length bs" and "b < B" by auto
  then have "(foldl (\<lambda>a b. a * B + b) 0 bs + 1) * B \<le> B ^ length bs * B" by (simp only: mult_le_mono1)
  with \<open>b < B\<close> show ?case by (simp add: algebra_simps)
qed simp

lemma digit_lists: "[7, 6, 5, 4, 3, 2, 1, 0] = rev [0..<8]" "[4, 3, 2, 1, 0] = rev [0..<(5::nat)]"
  by code_simp+

lemma b32_digits_digs: "b32_digits bs = digs 32 8 (foldl (\<lambda>a b. a * 256 + b) 0 bs)"
  unfolding b32_digits_def Let_def digs_def digit_lists(1) ..

lemma length_b32_digits [simp]: "length (b32_digits bs) = 8"
  by (simp add: b32_digits_digs)

lemma b32_digits_range: "v \<in> set (b32_digits bs) \<Longrightarrow> v < 32"
  unfolding b32_digits_digs by (rule digs_range) simp_all

lemma b32_pack_digs: "length ds = 8 \<Longrightarrow> b32_pack ds = digs 256 5 (foldl (\<lambda>a v. a * 32 + v) 0 ds)"
  unfolding b32_pack_def Let_def digs_def digit_lists(2) by simp

lemma b32_pack_digits:
  assumes "length bs = 5" and "\<forall>b \<in> set bs. b < 256"
  shows "b32_pack (b32_digits bs) = bs"
proof -
  let ?n = "foldl (\<lambda>a b. a * 256 + b) 0 bs"
  have "?n < 256 ^ 5" using foldl_bound [OF assms(2)] assms(1) by simp
  then have "foldl (\<lambda>a v. a * 32 + v) 0 (b32_digits bs) = ?n"
    unfolding b32_digits_digs foldl_digs by simp
  then show ?thesis
    using digs_foldl [OF assms(2)] assms(1) by (simp add: b32_pack_digs)
qed

section \<open>Round trip of a secret\<close>

lemma byte_b32_char: "v < 32 \<Longrightarrow> byte (b32_char v) = (if v < 26 then 65 + v else 24 + v)"
  by (simp add: b32_char_def)

lemma b32_char_props:
  assumes "v < 32"
  shows "b32_val (b32_char v) = Some v" "b32_char v \<noteq> CHR ''=''" "\<not> is_lower (b32_char v)"
    "b32_char v \<noteq> CHR 10" "b32_char v \<noteq> CHR 13"
proof -
  note b = byte_b32_char [OF assms]
  show "b32_val (b32_char v) = Some v" "\<not> is_lower (b32_char v)"
    using assms by (auto simp: b32_val_def is_upper_def is_lower_def b)
  have "byte (b32_char v) \<noteq> byte CHR ''=''" "byte (b32_char v) \<noteq> byte (CHR 10)" "byte (b32_char v) \<noteq> byte (CHR 13)"
    unfolding b using assms by auto
  then show "b32_char v \<noteq> CHR ''=''" "b32_char v \<noteq> CHR 10" "b32_char v \<noteq> CHR 13" by metis+
qed

lemma b32_quantum_digits:
  "length dbuf + length ds = 8 \<Longrightarrow> \<forall>v \<in> set ds. v < 32 \<Longrightarrow>
   b32_quantum dbuf (map b32_char ds @ rest) = Some (dbuf @ ds, False, rest)"
proof (induction ds arbitrary: dbuf)
  case Nil
  then show ?case by (cases rest) simp_all
next
  case (Cons v ds)
  then show ?case using b32_char_props [of v] by simp
qed

lemma mod5: "length (a # b # c # d # e # r) mod 5 = length r mod 5"
proof -
  have "length (a # b # c # d # e # r) = length r + 5" by simp
  then show ?thesis by (simp only: mod_add_self2)
qed

lemma b32_encode_chars:
  "length bs mod 5 = 0 \<Longrightarrow> \<exists>vs. b32_encode bs = map b32_char vs \<and> (\<forall>v \<in> set vs. v < 32) \<and> length vs mod 8 = 0"
proof (induction bs rule: b32_encode.induct)
  case (1 a b c d e r)
  have "length r mod 5 = 0" using 1(2) unfolding mod5 .
  from 1(1) [OF this] obtain vs where "b32_encode r = map b32_char vs" "\<forall>v \<in> set vs. v < 32" "length vs mod 8 = 0"
    by (elim exE conjE)
  then show ?case using b32_digits_range
    by (intro exI [of _ "b32_digits [a, b, c, d, e] @ vs"]) auto
next
  case 2
  then show ?case by simp
qed (simp_all add: mod_Suc del: b32_encode.simps)

lemma b32_decode_encode:
  "length bs mod 5 = 0 \<Longrightarrow> \<forall>b \<in> set bs. b < 256 \<Longrightarrow> length bs \<le> n \<Longrightarrow> b32_decode n (b32_encode bs) = Some bs"
proof (induction bs arbitrary: n rule: b32_encode.induct)
  case (1 a b c d e r)
  obtain n' where n: "n = Suc n'" using 1(4) by (cases n) auto
  have r: "length r mod 5 = 0" using 1(2) unfolding mod5 .
  have "b32_quantum [] (map b32_char (b32_digits [a, b, c, d, e]) @ b32_encode r) =
      Some (b32_digits [a, b, c, d, e], False, b32_encode r)"
    using b32_quantum_digits [of "[]" "b32_digits [a, b, c, d, e]"] b32_digits_range
    by simp
  moreover have "b32_digits [a, b, c, d, e] \<noteq> []" using length_b32_digits [of "[a, b, c, d, e]"] by force
  moreover have "b32_pack (b32_digits [a, b, c, d, e]) = [a, b, c, d, e]"
    using 1(3) by (intro b32_pack_digits) auto
  ultimately show ?case using 1 n r by simp
next
  case 2
  then show ?case by (cases n) auto
qed (simp_all add: mod_Suc del: b32_encode.simps)

text \<open>A generated secret decodes to its random bytes: the key the server checks codes with is the
  full 160-bit random key.\<close>

theorem secret_roundtrip:
  assumes "length rnd = 20" and "\<forall>b \<in> set rnd. b < 256"
  shows "b32decode (GenerateTOTPSecret rnd) = rnd"
proof -
  have m: "length rnd mod 5 = 0" using assms(1) by simp
  from b32_encode_chars [OF m] obtain vs
    where vs: "b32_encode rnd = map b32_char vs" "\<forall>v \<in> set vs. v < 32" "length vs mod 8 = 0"
    by (elim exE conjE)
  have "dropWhile (\<lambda>c. c = CHR ''='') (rev (map b32_char vs)) = rev (map b32_char vs)"
    unfolding dropWhile_eq_self_iff using vs(2) b32_char_props(2)
    by (cases vs rule: rev_cases) simp_all
  then have g: "GenerateTOTPSecret rnd = map b32_char vs" by (simp add: GenerateTOTPSecret_def trim_eq_def vs(1))
  have u: "upcase (map b32_char vs) = map b32_char vs"
    using vs(2) b32_char_props(3) by (auto simp: upcase_def)
  have f: "filter (\<lambda>c. c \<noteq> CHR 10 \<and> c \<noteq> CHR 13) (map b32_char vs) = map b32_char vs"
    using vs(2) b32_char_props(4,5) by (auto simp: filter_id_conv)
  have l: "length rnd \<le> length (map b32_char vs)"
  proof -
    have "length (b32_encode bs) \<ge> length bs" if "length bs mod 5 = 0" for bs
      using that
    proof (induction bs rule: b32_encode.induct)
      case (1 a b c d e r)
      then show ?case unfolding mod5 by simp
    qed (simp_all add: mod_Suc del: b32_encode.simps)
    from this [OF m] vs(1) show ?thesis by simp
  qed
  show ?thesis
    using b32_decode_encode [OF m assms(2) l] vs(1,3) g u f by (simp add: b32decode_def Let_def)
qed

theorem secret_roundtrip_witness: "b32decode (GenerateTOTPSecret [0..<20]) = [0..<20]"
  using secret_roundtrip [of "[0..<20]"] by simp

section \<open>Codes\<close>

lemma hotp_format: "list_all is_digit (hotp key c)" "length (hotp key c) = 6"
proof -
  have l: "length (dec_str (n mod 10 ^ totpDigits)) \<le> 6" for n
    unfolding dec_str_def by (rule length_digits_of) (simp_all add: totpDigits_def)
  have d: "list_all is_digit (pad_left 6 (dec_str n))" for n
    using dec_str_digits [of n] by (auto simp: pad_left_def list_all_iff is_digit_def)
  show "list_all is_digit (hotp key c)" using d by (simp add: hotp_def Let_def totpDigits_def)
  show "length (hotp key c) = 6"
    using l by (simp add: hotp_def Let_def pad_left_def totpDigits_def)
qed

lemma window_steps: "map (\<lambda>w. step_of t + w) [- totpWindow .. totpWindow] = [step_of t - 1, step_of t, step_of t + 1]"
  by (simp add: totpWindow_def upto_rec1)



text \<open>A stored secret that is not base32 does not lock its account: it decodes to the empty key, and
  the codes of the empty key, which anyone can compute, are accepted.\<close>

theorem invalid_secret_accepts_empty_key:
  assumes "secret \<noteq> []" and "b32decode secret = []"
  shows "VerifyTOTP secret (hotp [] (uint64 (step_of t))) t"
  unfolding VerifyTOTP_def VerifyTOTPCounter_def window_steps
  using assms trim_space_digits [OF hotp_format(1)] hotp_format(2) [of "[]" "uint64 (step_of t)"]
  by (auto simp: find_None_iff)

theorem invalid_secret_accepts_empty_key_witness:
  "VerifyTOTP ''not base32!'' (hotp [] (uint64 (step_of 59))) 59"
proof -
  have "b32decode ''not base32!'' = []" by code_simp
  with invalid_secret_accepts_empty_key [of "''not base32!''" 59] show ?thesis by simp
qed

end
