(* ===== verification/Config.thy ===== *)
theory Config
  imports Prelude
begin

text \<open>
  \<open>internal/config/config.go\<close>: the configuration, its defaults and its validation.  Reading the file and
  \<open>yaml.Unmarshal\<close> (a third-party package) are the arguments \<open>readFile\<close> and \<open>unmarshal\<close>; the
  latter overwrites the fields of a configuration that occur in the document.
\<close>

record config =
  c_protected_ports :: "int list"
  c_allowed_ports :: "int list"
  c_proto :: string
  c_listen_host :: string
  c_listen_port :: int
  c_ttl :: int
  c_prefix :: string
  c_trusted :: "string list"
  c_throttle_max :: int
  c_throttle_window :: int
  c_require_admin_totp :: bool
  c_totp_replay :: bool
  c_anomaly_window :: int
  c_anomaly_max :: int
  c_db_path :: string
  c_backup_dir :: string
  c_backup_keep :: int
  c_backend :: string
  c_nft_table :: string
  c_nft_chain :: string
  c_nft_priority :: int
  c_nft_guard :: bool
  c_cleanup_days :: int
  c_agent_allowed_ports :: "int list"
  c_users :: "(string \<times> string) list"

definition default_config :: config where
  "default_config = \<lparr>c_protected_ports = [], c_allowed_ports = [], c_proto = ''tcp'', c_listen_host = ''127.0.0.1'',
     c_listen_port = 5000, c_ttl = 300, c_prefix = ''nft-okboy'', c_trusted = [''127.0.0.1'', ''::1''],
     c_throttle_max = 10, c_throttle_window = 300, c_require_admin_totp = False, c_totp_replay = True,
     c_anomaly_window = 3600, c_anomaly_max = 5, c_db_path = ''/var/lib/nft-okboy/nft-okboy.db'',
     c_backup_dir = ''/var/lib/nft-okboy/backups'', c_backup_keep = 7, c_backend = ''nftables'',
     c_nft_table = ''nft_okboy'', c_nft_chain = ''input'', c_nft_priority = -150, c_nft_guard = True,
     c_cleanup_days = 7, c_agent_allowed_ports = [], c_users = []\<rparr>"

datatype config_error = ReadFailed string | ParseFailed string | BadBackend string

definition Load :: "(string \<Rightarrow> string option) \<Rightarrow> (string \<Rightarrow> config \<Rightarrow> config option) \<Rightarrow> string \<Rightarrow> config_error + config" where
  "Load readFile unmarshal path = (case readFile path of
      None \<Rightarrow> Inl (ReadFailed path)
    | Some data \<Rightarrow> (case unmarshal data default_config of
          None \<Rightarrow> Inl (ParseFailed path)
        | Some c \<Rightarrow>
            (let c1 = (if c_proto c = [] then c\<lparr>c_proto := ''tcp''\<rparr> else c);
                 c2 = (if c_prefix c1 = [] then c1\<lparr>c_prefix := ''nft-okboy''\<rparr> else c1);
                 c3 = (if c_backend c2 = [] then c2\<lparr>c_backend := ''nftables''\<rparr> else c2)
             in if c_backend c3 \<in> {''nftables'', ''ufw'', ''none''} then Inr c3 else Inl (BadBackend (c_backend c3)))))"

text \<open>A configuration that loads names a known backend and has a protocol and a rule prefix; a field
  that neither the document nor these three fallbacks set keeps its default, the secure ones (replay
  protection, the nftables guard) included.\<close>

theorem Load_valid:
  assumes "Load readFile unmarshal path = Inr c"
  shows "c_backend c \<in> {''nftables'', ''ufw'', ''none''} \<and> c_proto c \<noteq> [] \<and> c_prefix c \<noteq> []
    \<and> (\<exists>data c0. readFile path = Some data \<and> unmarshal data default_config = Some c0 \<and>
        c_totp_replay c = c_totp_replay c0 \<and> c_nft_guard c = c_nft_guard c0 \<and> c_ttl c = c_ttl c0 \<and>
        c_trusted c = c_trusted c0 \<and> c_throttle_max c = c_throttle_max c0)"
  using assms by (auto simp: Load_def Let_def split: option.splits if_splits)

theorem Load_valid_witness:
  "\<exists>c. Load (\<lambda>_. Some ''firewall_backend: ufw'') (\<lambda>_ c. Some (c\<lparr>c_backend := ''ufw'', c_prefix := []\<rparr>)) ''/etc/x'' = Inr c \<and>
     c_backend c \<in> {''nftables'', ''ufw'', ''none''} \<and> c_proto c \<noteq> [] \<and> c_prefix c \<noteq> []"
proof -
  obtain c where c: "Load (\<lambda>_. Some ''firewall_backend: ufw'') (\<lambda>_ c. Some (c\<lparr>c_backend := ''ufw'', c_prefix := []\<rparr>)) ''/etc/x'' = Inr c"
    by (simp add: Load_def default_config_def)
  with Load_valid [OF c] show ?thesis by blast
qed

end
