(* ===== verification/Http.thy ===== *)
theory Http
  imports Manager Auth Totp Config
begin

text \<open>
  The ground of \<open>internal/server\<close>: requests, responses, JSON values (\<open>respond.go\<close>), the client address and
  the throttle gate (\<open>middleware.go\<close>), the server's state (\<open>server.go\<close>), and the handler monad: a handler
  runs on the state and may answer early, which is \<open>Inl\<close> of the response.  A request is parsed: the
  body is the decoded JSON object (empty when there is none or it does not decode), headers are the
  values \<open>Header.Get\<close> returns.
\<close>

section \<open>JSON values\<close>

text \<open>A number is the float64 \<open>m * 2 ^ e\<close> that \<open>encoding/json\<close> decodes it to.\<close>

datatype json = JNull | JBool bool | JNum int int | JStr string | JArr "json list" | JObj "(string \<times> json) list"

abbreviation JInt :: "int \<Rightarrow> json" where "JInt n \<equiv> JNum n 0"

definition trunc_int :: "int \<Rightarrow> int \<Rightarrow> int" where
  "trunc_int m e = (if 0 \<le> e then m * 2 ^ nat e
     else if 0 \<le> m then m div 2 ^ nat (- e) else - (- m div 2 ^ nat (- e)))"

text \<open>\<open>int(f)\<close> outside the range of an int64 is the minimal integer on amd64.\<close>

definition float_int :: "int \<Rightarrow> int \<Rightarrow> int" where
  "float_int m e = (let v = trunc_int m e in if - (2 ^ 63) \<le> v \<and> v < 2 ^ 63 then v else - (2 ^ 63))"

type_synonym body = "(string \<times> json) list"

definition jsonBool :: "body \<Rightarrow> string \<Rightarrow> bool option" where
  "jsonBool m key = (case map_of m key of Some (JBool b) \<Rightarrow> Some b | _ \<Rightarrow> None)"

definition jsonBoolDefault :: "body \<Rightarrow> string \<Rightarrow> bool \<Rightarrow> bool" where
  "jsonBoolDefault m key def = (case jsonBool m key of Some b \<Rightarrow> b | None \<Rightarrow> def)"

definition jsonString :: "body \<Rightarrow> string \<Rightarrow> string" where
  "jsonString m key = (case map_of m key of Some (JStr s) \<Rightarrow> s | _ \<Rightarrow> [])"

definition parseIntLenient :: "string \<Rightarrow> int option" where
  "parseIntLenient s = parse_int64 (trim_space s)"

definition jsonInt :: "body \<Rightarrow> string \<Rightarrow> int option" where
  "jsonInt m key = (case map_of m key of
      Some (JNum k e) \<Rightarrow> Some (float_int k e)
    | Some (JStr s) \<Rightarrow> parseIntLenient s
    | _ \<Rightarrow> None)"

section \<open>Requests, responses and the server\<close>

record request =
  rq_remote :: string
  rq_xri :: string
  rq_xff :: string
  rq_auth :: string
  rq_totp :: string
  rq_version :: string
  rq_backend :: string
  rq_path :: "string \<Rightarrow> string"
  rq_limit :: string
  rq_body :: body

record resp =
  rs_status :: int
  rs_body :: json

definition writeJSON :: "int \<Rightarrow> (string \<times> json) list \<Rightarrow> resp" where
  "writeJSON status kvs = \<lparr>rs_status = status, rs_body = JObj kvs\<rparr>"

definition errJSON :: "int \<Rightarrow> string \<Rightarrow> resp" where
  "errJSON status msg = writeJSON status [(''ok'', JBool False), (''error'', JStr msg)]"

text \<open>A handler panic: net/http closes the connection without a response.\<close>

definition panic_resp :: resp where
  "panic_resp = \<lparr>rs_status = 0, rs_body = JNull\<rparr>"

text \<open>The state: the database with the faults to come, the firewall behind the backend, and the time of
  the last stale-user cleanup.  The environment of a request: the backend, the configuration, the
  clock, the random bytes the handler draws (32 for a user secret, 20 for a TOTP secret), the version,
  the embedded page, and the order in which Go iterates over a map.\<close>

record 's srv =
  sv_db :: "db \<times> bool list"
  sv_fw :: 's
  sv_cleanup :: "int option"

record 's env =
  e_be :: "'s backend"
  e_cfg :: config
  e_now :: int
  e_secret :: "nat list"
  e_totp :: "nat list"
  e_version :: string
  e_index :: string
  e_order :: "(string \<times> portproto) list \<Rightarrow> (string \<times> portproto) list"

type_synonym ('s, 'a) hm = "'s srv \<Rightarrow> (resp + 'a) \<times> 's srv"

definition hret :: "'a \<Rightarrow> ('s, 'a) hm" where
  "hret a s = (Inr a, s)"

definition answer :: "resp \<Rightarrow> ('s, 'a) hm" where
  "answer r s = (Inl r, s)"

definition hb :: "('s, 'a) hm \<Rightarrow> ('a \<Rightarrow> ('s, 'b) hm) \<Rightarrow> ('s, 'b) hm" where
  "hb m f s = (case m s of (Inl r, s') \<Rightarrow> (Inl r, s') | (Inr a, s') \<Rightarrow> f a s')"

definition hguard :: "bool \<Rightarrow> resp \<Rightarrow> ('s, unit) hm" where
  "hguard b r = (if b then hret () else answer r)"

text \<open>A database call whose error the handler looks at, ignores, or answers with 500; a firewall call.\<close>

definition dbcall :: "'a dbm \<Rightarrow> ('s, dberr + 'a) hm" where
  "dbcall m s = (case m (sv_db s) of (r, d) \<Rightarrow> (Inr r, s\<lparr>sv_db := d\<rparr>))"

definition dbdo :: "'a dbm \<Rightarrow> ('s, unit) hm" where
  "dbdo m = hb (dbcall m) (\<lambda>_. hret ())"

definition internal_error :: resp where
  "internal_error = errJSON 500 ''Internal error''"

definition dbtry :: "'a dbm \<Rightarrow> ('s, 'a) hm" where
  "dbtry m = hb (dbcall m) (\<lambda>r. case r of Inl e \<Rightarrow> answer internal_error | Inr a \<Rightarrow> hret a)"

definition fwcall :: "('s \<Rightarrow> 'a \<times> 's) \<Rightarrow> ('s, 'a) hm" where
  "fwcall f s = (case f (sv_fw s) of (r, w) \<Rightarrow> (Inr r, s\<lparr>sv_fw := w\<rparr>))"

text \<open>Unwrapping a row that must exist.\<close>

definition found :: "'a option \<Rightarrow> resp \<Rightarrow> ('s, 'a) hm" where
  "found x r = (case x of None \<Rightarrow> answer r | Some a \<Rightarrow> hret a)"

definition run :: "('s, resp) hm \<Rightarrow> 's srv \<Rightarrow> resp \<times> 's srv" where
  "run h s = (case h s of (Inl r, s') \<Rightarrow> (r, s') | (Inr r, s') \<Rightarrow> (r, s'))"

definition pathInt :: "request \<Rightarrow> string \<Rightarrow> int option" where
  "pathInt rq name = parse_int64 (rq_path rq name)"

section \<open>The client address\<close>

text \<open>\<open>net.SplitHostPort\<close>: the host, or \<open>None\<close> on an error.\<close>

definition last_index :: "char \<Rightarrow> string \<Rightarrow> nat option" where
  "last_index c s = (if c \<in> set s then Some (length s - 1 - length (takeWhile (\<lambda>x. x \<noteq> c) (rev s))) else None)"

definition SplitHostPort :: "string \<Rightarrow> string option" where
  "SplitHostPort hp = (case last_index CHR '':'' hp of
      None \<Rightarrow> None
    | Some i \<Rightarrow>
        if hp \<noteq> [] \<and> hd hp = CHR ''[''
        then (case cut_at CHR '']'' hp of
            None \<Rightarrow> None
          | Some (pre, post) \<Rightarrow>
              let e = length pre in
              if e + 1 = length hp \<or> e + 1 \<noteq> i then None
              else if CHR ''['' \<in> set (drop 1 hp) \<or> CHR '']'' \<in> set (drop (e + 1) hp) then None
              else Some (drop 1 pre))
        else (let host = take i hp in
          if CHR '':'' \<in> set host \<or> CHR ''['' \<in> set hp \<or> CHR '']'' \<in> set hp then None else Some host))"

definition hostOnly :: "string \<Rightarrow> string" where
  "hostOnly remoteAddr = (if remoteAddr = [] then []
     else (case SplitHostPort remoteAddr of Some host \<Rightarrow> host | None \<Rightarrow> remoteAddr))"

definition isTrustedProxy :: "config \<Rightarrow> string \<Rightarrow> bool" where
  "isTrustedProxy cfg peer \<longleftrightarrow> peer \<in> set (c_trusted cfg)"

definition clientIP :: "config \<Rightarrow> request \<Rightarrow> string" where
  "clientIP cfg rq = (let peer = hostOnly (rq_remote rq) in
     if isTrustedProxy cfg peer
     then (if trim_space (rq_xri rq) \<noteq> [] then CanonicalIP (trim_space (rq_xri rq))
           else if trim_space (rq_xff rq) \<noteq> [] then CanonicalIP (last (split_on CHR '','' (rq_xff rq)))
           else [])
     else peer)"

definition requestIP :: "config \<Rightarrow> request \<Rightarrow> string" where
  "requestIP cfg rq = (if clientIP cfg rq \<noteq> [] then clientIP cfg rq else hostOnly (rq_remote rq))"

section \<open>The throttle gate and the authentication of a handler\<close>

definition throttleGate :: "'s env \<Rightarrow> request \<Rightarrow> ('s, resp) hm \<Rightarrow> ('s, resp) hm" where
  "throttleGate env rq next s =
     (case CheckIPThrottle (e_now env) (requestIP (e_cfg env) rq) (c_throttle_max (e_cfg env))
             (c_throttle_window (e_cfg env)) (sv_db s) of (err, d) \<Rightarrow>
        if err \<noteq> [] then (Inl (errJSON 429 err), s\<lparr>sv_db := d\<rparr>) else next (s\<lparr>sv_db := d\<rparr>))"

definition authUser :: "'s env \<Rightarrow> request \<Rightarrow> ('s, string) hm" where
  "authUser env rq s =
     (case VerifyHMAC (e_now env) (rq_auth rq) (c_ttl (e_cfg env)) (requestIP (e_cfg env) rq) (sv_db s) of
        ((username, err), d) \<Rightarrow>
          if err \<noteq> [] then (Inl (errJSON 401 err), s\<lparr>sv_db := d\<rparr>) else (Inr username, s\<lparr>sv_db := d\<rparr>))"

definition adminError :: "string \<Rightarrow> resp" where
  "adminError err = errJSON (if err = ''Admin privileges required'' then 403 else 401) err"

definition requireAdmin :: "'s env \<Rightarrow> request \<Rightarrow> ('s, user) hm" where
  "requireAdmin env rq s =
     (case RequireAdmin (e_now env) (rq_auth rq) (c_ttl (e_cfg env)) (requestIP (e_cfg env) rq) (sv_db s) of
        ((uo, err), d) \<Rightarrow>
          if err \<noteq> [] then (Inl (adminError err), s\<lparr>sv_db := d\<rparr>)
          else (case uo of None \<Rightarrow> (Inl panic_resp, s\<lparr>sv_db := d\<rparr>) | Some u \<Rightarrow> (Inr u, s\<lparr>sv_db := d\<rparr>)))"

definition isAdmin :: "string \<Rightarrow> ('s, bool) hm" where
  "isAdmin username s = (case IsAdmin username (sv_db s) of (b, d) \<Rightarrow> (Inr b, s\<lparr>sv_db := d\<rparr>))"

section \<open>The text of an error\<close>

text \<open>\<open>%q\<close> of a string of ASCII bytes; other bytes stand for themselves.\<close>

definition quote_char :: "char \<Rightarrow> string" where
  "quote_char c = (if c = CHR ''\"'' then [CHR 92, CHR ''\"''] else if c = CHR 92 then [CHR 92, CHR 92]
     else if c = CHR 10 then [CHR 92, CHR ''n''] else if c = CHR 13 then [CHR 92, CHR ''r'']
     else if c = CHR 9 then [CHR 92, CHR ''t'']
     else if byte c < 32 \<or> byte c = 127
     then [CHR 92, CHR ''x'', hex_char (byte c div 16), hex_char (byte c mod 16)] else [c])"

definition quote :: "string \<Rightarrow> string" where
  "quote s = [CHR ''\"''] @ concat (map quote_char s) @ [CHR ''\"'']"

fun refusal_text :: "refusal \<Rightarrow> string" where
  "refusal_text (NotSingleIP ip) = ''refusing rule for '' @ quote ip @ '': not a single IP address''"
| "refusal_text (PortOutOfRange p) = ''refusing rule for port '' @ itoa p @ '': out of range''"
| "refusal_text (BadProtocol p) = ''refusing rule for protocol '' @ quote p @ '': must be tcp or udp''"

primrec err_text :: "fwerr \<Rightarrow> string" and err_texts :: "fwerr list \<Rightarrow> string list" where
  "err_text ErrInactive =
     ''ufw is inactive: nft-okboy cannot list or change its rules until ufw is enabled (allow SSH first)''"
| "err_text (HostRuleError a) =
     ''a host rule for the same source, port and protocol decides this access ('' @ a @ '')''"
| "err_text (Refused r) = refusal_text r"
| "err_text (Opaque m) = m"
| "err_text (Wrapped p e) = p @ '': '' @ err_text e"
| "err_text (Joined es) = join [CHR 10] (err_texts es)"
| "err_texts [] = []"
| "err_texts (e # es) = err_text e # err_texts es"

definition boolPy :: "bool \<Rightarrow> string" where
  "boolPy b = (if b then ''True'' else ''False'')"

definition b2iJSON :: "bool \<Rightarrow> json" where
  "b2iJSON b = JInt (if b then 1 else 0)"

definition opt_str :: "string option \<Rightarrow> json" where
  "opt_str x = (case x of None \<Rightarrow> JNull | Some s \<Rightarrow> JStr s)"

definition opt_int :: "int option \<Rightarrow> json" where
  "opt_int x = (case x of None \<Rightarrow> JNull | Some n \<Rightarrow> JInt n)"

end
