(* ===== verification/TotpApi.thy ===== *)
theory TotpApi
  imports Http
begin

text \<open>
  \<open>internal/server/totp.go\<close>: the TOTP checks under the per-account cap, the step-up gate of the admin
  operations, and the enroll, activate and disable handlers.  The lock \<open>totpMu\<close> makes each check one
  step.  A check that answers the request is an early answer of the handler monad.
\<close>

definition issuer :: string where "issuer = ''nft-okboy''"

definition totpFailReason :: string where "totpFailReason = ''Invalid TOTP code''"

section \<open>The check under the cap\<close>

definition totpLocked :: "'s env \<Rightarrow> user \<Rightarrow> ('s, unit) hm" where
  "totpLocked env user =
     (if c_throttle_max (e_cfg env) \<le> 0 then hret ()
      else hb (dbcall (CountRecentUserFailures (e_now env) (u_name user) totpFailReason (c_throttle_window (e_cfg env))))
        (\<lambda>r. case r of
            Inl e \<Rightarrow> hret ()
          | Inr n \<Rightarrow> if n < c_throttle_max (e_cfg env) then hret ()
              else answer (errJSON 429 ''Too many failed TOTP codes; try again later'')))"

definition totpFailed :: "'s env \<Rightarrow> request \<Rightarrow> user \<Rightarrow> string \<Rightarrow> bool \<Rightarrow> ('s, unit) hm" where
  "totpFailed env rq user action replayed =
     hb (dbdo (LogAudit (e_now env) (u_name user) action (Some (u_name user)) (if replayed then Some ''replay'' else None)))
       (\<lambda>_. dbdo (RecordFailedAttempt (e_now env) (Some (u_name user)) (Some (requestIP (e_cfg env) rq)) totpFailReason))"

text \<open>The result is \<open>ok\<close>; \<open>verify\<close> yields (ok, replayed).\<close>

definition totpAttempt :: "'s env \<Rightarrow> request \<Rightarrow> user \<Rightarrow> string \<Rightarrow> string \<Rightarrow> ('s, dberr + bool \<times> bool) hm \<Rightarrow>
    ('s, bool) hm" where
  "totpAttempt env rq user code action verify =
     (if trim_space code = [] then hret False
      else hb (totpLocked env user) (\<lambda>_. hb verify (\<lambda>r. case r of
          Inl e \<Rightarrow> answer internal_error
        | Inr (ok, replayed) \<Rightarrow>
            if ok then hret True else hb (totpFailed env rq user action replayed) (\<lambda>_. hret False))))"

definition consumeTOTP :: "'s env \<Rightarrow> user \<Rightarrow> string \<Rightarrow> ('s, dberr + bool \<times> bool) hm" where
  "consumeTOTP env user code =
     (case VerifyTOTPCounter (case u_totp user of Some sec \<Rightarrow> sec | None \<Rightarrow> []) code (e_now env) of
        None \<Rightarrow> hret (Inr (False, False))
      | Some matched \<Rightarrow>
          if \<not> c_totp_replay (e_cfg env) then hret (Inr (True, False))
          else hb (dbcall (ConsumeTOTPCounter (u_id user) matched)) (\<lambda>r. case r of
              Inl e \<Rightarrow> hret (Inl e)
            | Inr consumed \<Rightarrow> hret (Inr (consumed, \<not> consumed))))"

definition totp_code_of :: "request \<Rightarrow> string" where
  "totp_code_of rq = (if rq_totp rq \<noteq> [] then rq_totp rq else jsonString (rq_body rq) ''totp_code'')"

definition stepUp :: "'s env \<Rightarrow> request \<Rightarrow> user \<Rightarrow> ('s, unit) hm" where
  "stepUp env rq user =
     (if u_totp_on user
      then hb (totpAttempt env rq user (totp_code_of rq) ''stepup_failed'' (consumeTOTP env user (totp_code_of rq)))
        (\<lambda>valid. hguard valid (writeJSON 403 [(''ok'', JBool False), (''error'', JStr ''Valid TOTP code required''),
           (''totp_required'', JBool True)]))
      else hguard (\<not> c_require_admin_totp (e_cfg env))
        (writeJSON 403 [(''ok'', JBool False), (''error'', JStr ''Admin TOTP enrollment required before this action''),
           (''totp_enroll_required'', JBool True)]))"

section \<open>The handlers\<close>

text \<open>\<open>url.QueryEscape\<close>.\<close>

definition query_escape :: "string \<Rightarrow> string" where
  "query_escape s = concat (map (\<lambda>c.
     if is_upper c \<or> is_lower c \<or> is_digit c \<or> c \<in> {CHR ''-'', CHR ''_'', CHR ''.'', CHR ''~''} then [c]
     else if c = CHR '' '' then ''+''
     else (let up = (\<lambda>d. if is_lower d then char_of (byte d - 32) else d) in
       [CHR ''%'', up (hex_char (byte c div 16)), up (hex_char (byte c mod 16))])) s)"

definition TOTPURI :: "string \<Rightarrow> string \<Rightarrow> string \<Rightarrow> string" where
  "TOTPURI secret username iss = ''otpauth://totp/'' @ query_escape (iss @ '':'' @ username) @ ''?secret='' @ secret @
     ''&issuer='' @ query_escape iss @ ''&digits=6&period=30''"

definition totpEnroll :: "'s env \<Rightarrow> request \<Rightarrow> ('s, resp) hm" where
  "totpEnroll env rq =
     hb (requireAdmin env rq) (\<lambda>user.
     hb (if u_totp_on user
         then hb (totpAttempt env rq user (totp_code_of rq) ''totp_reenroll_failed'' (consumeTOTP env user (totp_code_of rq)))
           (\<lambda>ok. hguard ok (writeJSON 403 [(''ok'', JBool False),
              (''error'', JStr ''Valid TOTP code required to re-enroll''), (''totp_required'', JBool True)]))
         else hret ()) (\<lambda>_.
     let secret = GenerateTOTPSecret (e_totp env) in
     hb (dbcall (SetTOTPSecret (u_id user) secret)) (\<lambda>r. case r of
         Inl e \<Rightarrow> answer (errJSON 500 ''Failed to store TOTP secret'')
       | Inr _ \<Rightarrow>
           hb (dbdo (LogAudit (e_now env) (u_name user) ''totp_enroll_start'' (Some (u_name user)) None)) (\<lambda>_.
           hret (writeJSON 200 [(''ok'', JBool True), (''secret'', JStr secret),
             (''otpauth_uri'', JStr (TOTPURI secret (u_name user) issuer))])))))"

definition totpActivate :: "'s env \<Rightarrow> request \<Rightarrow> ('s, resp) hm" where
  "totpActivate env rq =
     hb (requireAdmin env rq) (\<lambda>user.
     hb (hguard (u_totp user \<noteq> None \<and> u_totp user \<noteq> Some [])
           (errJSON 400 ''No pending enrollment; call enroll first'')) (\<lambda>_.
     let code = jsonString (rq_body rq) ''totp_code'' in
     hb (totpAttempt env rq user code ''totp_activate_failed''
           (hret (Inr (VerifyTOTP (the (u_totp user)) code (e_now env), False)))) (\<lambda>ok.
     hb (hguard ok (errJSON 400 ''Invalid code'')) (\<lambda>_.
     hb (dbcall (EnableTOTP (u_id user))) (\<lambda>r. case r of
         Inl e \<Rightarrow> answer (errJSON 500 ''Failed to enable TOTP'')
       | Inr _ \<Rightarrow>
           hb (dbdo (LogAudit (e_now env) (u_name user) ''totp_activate'' (Some (u_name user)) None)) (\<lambda>_.
           hret (writeJSON 200 [(''ok'', JBool True), (''totp_enabled'', JBool True)])))))))"

definition totpDisable :: "'s env \<Rightarrow> request \<Rightarrow> ('s, resp) hm" where
  "totpDisable env rq =
     hb (requireAdmin env rq) (\<lambda>user.
     hb (if u_totp_on user
         then (let code = jsonString (rq_body rq) ''totp_code'' in
           hb (totpAttempt env rq user code ''totp_disable_failed'' (consumeTOTP env user code))
             (\<lambda>ok. hguard ok (errJSON 403 ''Valid TOTP code required to disable'')))
         else hret ()) (\<lambda>_.
     hb (dbcall (DisableTOTP (u_id user))) (\<lambda>r. case r of
         Inl e \<Rightarrow> answer (errJSON 500 ''Failed to disable TOTP'')
       | Inr _ \<Rightarrow>
           hb (dbdo (LogAudit (e_now env) (u_name user) ''totp_disable'' (Some (u_name user)) None)) (\<lambda>_.
           hret (writeJSON 200 [(''ok'', JBool True), (''totp_enabled'', JBool False)])))))"

end
