(* ===== verification/KnockApi.thy ===== *)
theory KnockApi
  imports TotpApi
begin

text \<open>
  \<open>internal/server/knock.go\<close>: the client handlers.  Each handler is one step: a knock and every
  membership change run under \<open>fwMu\<close>, and the other handlers only read or log.
\<close>

definition portMap :: "grp list \<Rightarrow> (string \<times> portproto) list" where
  "portMap groups = map (\<lambda>g. (g_name g, PP (g_port g) (g_proto g))) groups"

definition em_dash :: string where
  "em_dash = [CHR 0xE2, CHR 0x80, CHR 0x94]"

definition fwRemovalWarning :: "fwerr \<Rightarrow> string" where
  "fwRemovalWarning err = ''firewall rule removal failed ('' @ err_text err @ '') '' @ em_dash @
     '' nft-okboy retries every 30 seconds; check the firewall if this persists''"

section \<open>The knock\<close>

definition allowlistable :: "string \<Rightarrow> bool" where
  "allowlistable ip = (case parse_ip ip of None \<Rightarrow> False | Some g \<Rightarrow> \<not> is_loopback g \<and> \<not> is_unspecified g)"

definition denied_warnings :: "string list \<Rightarrow> grp list \<Rightarrow> string list" where
  "denied_warnings denied groups = concat (map (\<lambda>name. map (\<lambda>g.
      ''Group '' @ g_name g @ '' (port '' @ itoa (g_port g) @ ''/'' @ g_proto g @
      ''): a rule of the server'' @ [CHR 39] @ ''s own firewall denies your address; knocking does not change it.'')
     (filter (\<lambda>g. g_name g = name) groups)) denied)"

fun remove_old_rules :: "'s env \<Rightarrow> string \<Rightarrow> string \<Rightarrow> grp list \<Rightarrow> ('s, unit) hm" where
  "remove_old_rules env username old [] = hret ()"
| "remove_old_rules env username old (g # gs) =
     hb (fwcall (manager_RemoveRule (e_be env) old (g_port g) username (g_proto g) (g_name g)))
       (\<lambda>_. remove_old_rules env username old gs)"

definition anomalyCheck :: "'s env \<Rightarrow> string \<Rightarrow> ('s, anomaly option) hm" where
  "anomalyCheck env username s =
     (case CheckIPAnomaly (e_now env) username (c_anomaly_window (e_cfg env)) (c_anomaly_max (e_cfg env)) (sv_db s) of
        (a, d) \<Rightarrow> (Inr a, s\<lparr>sv_db := d\<rparr>))"

definition minutes :: "int \<Rightarrow> int" where
  "minutes n = (if 0 \<le> n then n div 60 else - (- n div 60))"

definition anomaly_warning :: "config \<Rightarrow> anomaly \<Rightarrow> string" where
  "anomaly_warning cfg a = ''Suspicious activity: '' @ itoa (an_changes a) @ '' IP changes from '' @
     itoa (an_unique a) @ '' unique IPs in the last '' @ itoa (minutes (c_anomaly_window cfg)) @
     '' minutes. Possible credential sharing.''"

definition with_warning :: "string list \<Rightarrow> (string \<times> json) list \<Rightarrow> (string \<times> json) list" where
  "with_warning ws kvs = (if ws = [] then kvs else kvs @ [(''warning'', JStr (join '' '' ws))])"

definition knock :: "'s env \<Rightarrow> request \<Rightarrow> ('s, resp) hm" where
  "knock env rq =
     hb (authUser env rq) (\<lambda>username.
     let ip = clientIP (e_cfg env) rq in
     hb (hguard (allowlistable ip)
           (errJSON 400 ''Cannot determine real client IP. Check Nginx X-Real-IP header.'')) (\<lambda>_.
     hb (dbtry (GetUserByUsername username)) (\<lambda>uo.
     hb (found uo (errJSON 404 ''User not found'')) (\<lambda>user.
     hb (dbtry (GetUserGroups (u_id user) True)) (\<lambda>groups.
     hb (fwcall (manager_Reconcile (e_be env) (c_prefix (e_cfg env)) username ip (e_order env (portMap groups)))) (\<lambda>rc.
     hb (hguard (case rc_err rc of None \<Rightarrow> True | Some e \<Rightarrow> is_inactive e)
           (errJSON 500 ''Firewall reconcile failed'')) (\<lambda>_.
     let warnings = (if rc_err rc = None then [] else [''The server'' @ [CHR 39] @ ''s firewall (ufw) is not active.'']) @
           denied_warnings (rc_denied rc) groups in
     hb (dbtry (RecordIPChange (e_now env) (u_id user) username ip)) (\<lambda>oldIP.
     if oldIP = Some ip
     then hret (writeJSON 200 (with_warning warnings [(''ok'', JBool True), (''ip'', JStr ip), (''changed'', JBool False),
            (''message'', JStr ''IP unchanged, heartbeat recorded'')]))
     else
     hb (case oldIP of Some old \<Rightarrow> remove_old_rules env username old groups | None \<Rightarrow> hret ()) (\<lambda>_.
     hb (anomalyCheck env username) (\<lambda>a.
     let warnings' = warnings @ (case a of None \<Rightarrow> [] | Some an \<Rightarrow> [anomaly_warning (e_cfg env) an]) in
     hret (writeJSON 200 (with_warning warnings' [(''ok'', JBool True), (''ip'', JStr ip), (''changed'', JBool True),
            (''old_ip'', opt_str oldIP), (''groups'', JArr (map (\<lambda>g. JStr (g_name g)) groups)),
            (''message'', JStr ''Firewall rules updated'')]))))))))))))"

section \<open>Status and own groups\<close>

definition group_json :: "grp \<Rightarrow> json" where
  "group_json g = JObj [(''name'', JStr (g_name g)), (''port'', JInt (g_port g)), (''proto'', JStr (g_proto g))]"

definition status :: "'s env \<Rightarrow> request \<Rightarrow> ('s, resp) hm" where
  "status env rq =
     hb (authUser env rq) (\<lambda>username.
     hb (dbtry (GetUserByUsername username)) (\<lambda>uo.
     let reply = (\<lambda>adm totp groups ip knock n. hret (writeJSON 200 [(''ok'', JBool True), (''username'', JStr username),
           (''is_admin'', JBool adm), (''totp_enabled'', JBool totp), (''enabled_groups'', JArr (map group_json groups)),
           (''ip'', ip), (''last_knock'', knock), (''ip_changes_recent'', JInt n)])) in
     case uo of
       None \<Rightarrow> reply False False [] JNull JNull 0
     | Some user \<Rightarrow>
         hb (dbcall (CountRecentIPChanges (e_now env) username 86400)) (\<lambda>n.
         hb (dbcall (GetUserGroups (u_id user) True)) (\<lambda>gs.
         reply (u_admin user) (u_totp_on user) (case gs of Inl e \<Rightarrow> [] | Inr groups \<Rightarrow> groups)
           (opt_str (u_ip user)) (opt_int (u_knock user)) (case n of Inl e \<Rightarrow> 0 | Inr k \<Rightarrow> k)))))"

definition own_groups :: "int \<Rightarrow> (grp \<times> bool) list dbm" where
  "own_groups uid = query (\<lambda>d. sort_key (\<lambda>(g, en). g_name g)
     (concat (map (\<lambda>m. map (\<lambda>g. (g, m_enabled m)) (filter (\<lambda>g. g_id g = m_group m) (grps d)))
        (filter (\<lambda>m. m_user m = uid) (members d)))))"

definition myGroups :: "'s env \<Rightarrow> request \<Rightarrow> ('s, resp) hm" where
  "myGroups env rq =
     hb (authUser env rq) (\<lambda>username.
     hb (dbtry (GetUserByUsername username)) (\<lambda>uo.
     hb (found uo (errJSON 404 ''User not found'')) (\<lambda>user.
     hb (dbtry (own_groups (u_id user))) (\<lambda>gs.
     hret (writeJSON 200 [(''ok'', JBool True), (''username'', JStr username),
       (''groups'', JArr (map (\<lambda>(g, en). JObj [(''id'', JInt (g_id g)), (''name'', JStr (g_name g)),
          (''port'', JInt (g_port g)), (''proto'', JStr (g_proto g)), (''enabled'', JBool en)]) gs))])))))"

section \<open>Membership toggles\<close>

definition setMembership :: "'s env \<Rightarrow> int \<Rightarrow> grp \<Rightarrow> bool \<Rightarrow> ('s, dberr + string) hm" where
  "setMembership env uid g enabled =
     hb (dbcall (SetMembershipEnabled uid (g_id g) enabled)) (\<lambda>r. case r of
         Inl e \<Rightarrow> hret (Inl e)
       | Inr _ \<Rightarrow>
     hb (dbcall (GetUser uid)) (\<lambda>ur. case ur of
         Inr (Some u) \<Rightarrow>
           if u_ip u = None \<or> u_ip u = Some [] then hret (Inr [])
           else if \<not> enabled
           then hb (fwcall (manager_RemoveRule (e_be env) (the (u_ip u)) (g_port g) (u_name u) (g_proto g) (g_name g)))
             (\<lambda>e. hret (Inr (case e of None \<Rightarrow> [] | Some x \<Rightarrow> fwRemovalWarning x)))
           else hb (dbcall (GetUserGroups uid True)) (\<lambda>gr. case gr of
               Inl e \<Rightarrow> hret (Inr [])
             | Inr groups \<Rightarrow> hb (fwcall (manager_Reconcile (e_be env) (c_prefix (e_cfg env)) (u_name u) (the (u_ip u))
                   (e_order env (portMap groups)))) (\<lambda>_. hret (Inr [])))
       | _ \<Rightarrow> hret (Inr [])))"

definition toggle_reply :: "string \<Rightarrow> (string \<times> json) list \<Rightarrow> resp" where
  "toggle_reply warning kvs = writeJSON 200 (if warning = [] then kvs else kvs @ [(''warning'', JStr warning)])"

definition enabled_required :: resp where
  "enabled_required = errJSON 400 (''Request body must include '' @ [CHR 39] @ ''enabled'' @ [CHR 39] @ '' (bool)'')"

text \<open>The re-enable rule: who is no administrator may enable only a group of an existing membership.\<close>

definition check_reenable :: "'s env \<Rightarrow> string \<Rightarrow> int \<Rightarrow> string \<Rightarrow> string \<Rightarrow> ('s, unit) hm" where
  "check_reenable env username gid target msg =
     hb (isAdmin username) (\<lambda>adm. if adm then hret () else
     hb (dbtry (UserHasGroupAccess username gid True)) (\<lambda>has. if has then hret () else
     hb (dbdo (LogAudit (e_now env) username ''unauthorized_reenable_attempt'' (Some target)
           (Some ''self-enable of never-authorized group''))) (\<lambda>_. answer (errJSON 403 msg))))"

definition selfToggleMembership :: "'s env \<Rightarrow> request \<Rightarrow> ('s, resp) hm" where
  "selfToggleMembership env rq =
     hb (authUser env rq) (\<lambda>username.
     hb (dbtry (GetUserByUsername username)) (\<lambda>ro.
     hb (found ro (errJSON 401 ''Authenticated user not found'')) (\<lambda>requester.
     hb (found (pathInt rq ''group_id'') (errJSON 404 ''Group not found'')) (\<lambda>groupID.
     hb (found (jsonBool (rq_body rq) ''enabled'') enabled_required) (\<lambda>enabled.
     hb (dbtry (GetGroup groupID)) (\<lambda>go.
     hb (found go (errJSON 404 ''Group not found'')) (\<lambda>g.
     hb (if enabled then check_reenable env username groupID (''self/'' @ itoa groupID)
           ''Forbidden: you may only re-enable a previously authorized group. Ask an admin to grant access.''
         else hret ()) (\<lambda>_.
     hb (setMembership env (u_id requester) g enabled) (\<lambda>r. case r of
         Inl e \<Rightarrow> answer internal_error
       | Inr warning \<Rightarrow>
           hb (dbdo (LogAudit (e_now env) username ''self_toggle_membership''
                 (Some (itoa (u_id requester) @ ''/'' @ itoa groupID)) (Some (''enabled='' @ boolPy enabled)))) (\<lambda>_.
           hret (toggle_reply warning [(''ok'', JBool True), (''group_id'', JInt groupID), (''enabled'', JBool enabled)])))))))))))"

definition toggleMembership :: "'s env \<Rightarrow> request \<Rightarrow> ('s, resp) hm" where
  "toggleMembership env rq =
     hb (authUser env rq) (\<lambda>username.
     hb (dbtry (GetUserByUsername username)) (\<lambda>ro.
     hb (found ro (errJSON 401 ''Authenticated user not found'')) (\<lambda>requester.
     hb (found (pathInt rq ''user_id'') (errJSON 404 ''User not found'')) (\<lambda>userID.
     hb (found (pathInt rq ''group_id'') (errJSON 404 ''User not found'')) (\<lambda>groupID.
     let isSelf = (u_id requester = userID) in
     hb (if isSelf then hret () else hb (isAdmin username) (\<lambda>adm.
           hguard adm (errJSON 403 ''Forbidden: admin privileges or self-toggle required''))) (\<lambda>_.
     hb (found (jsonBool (rq_body rq) ''enabled'') enabled_required) (\<lambda>enabled.
     hb (if isSelf then hret () else stepUp env rq requester) (\<lambda>_.
     hb (dbtry (GetGroup groupID)) (\<lambda>go.
     hb (found go (errJSON 404 ''Group not found'')) (\<lambda>g.
     hb (dbtry (GetUser userID)) (\<lambda>to.
     hb (found to (errJSON 404 ''User not found'')) (\<lambda>target.
     hb (if isSelf \<and> enabled then check_reenable env username groupID (itoa userID @ ''/'' @ itoa groupID)
           ''Forbidden: you may only re-enable a group you were previously authorized for. Ask an admin to grant access.''
         else hret ()) (\<lambda>_.
     hb (setMembership env userID g enabled) (\<lambda>r. case r of
         Inl e \<Rightarrow> answer internal_error
       | Inr warning \<Rightarrow>
           hb (dbdo (LogAudit (e_now env) username ''toggle_membership''
                 (Some (itoa userID @ ''/'' @ itoa groupID)) (Some (''enabled='' @ boolPy enabled)))) (\<lambda>_.
           hret (toggle_reply warning [(''ok'', JBool True), (''user_id'', JInt userID), (''group_id'', JInt groupID),
             (''enabled'', JBool enabled)]))))))))))))))))"

definition health :: "'s env \<Rightarrow> request \<Rightarrow> ('s, resp) hm" where
  "health env rq = hret (writeJSON 200 [(''ok'', JBool True), (''service'', JStr ''nft-okboy''),
     (''version'', JStr (e_version env))])"

end
