(* ===== verification/AdminApi.thy ===== *)
theory AdminApi
  imports KnockApi
begin

text \<open>
  \<open>internal/server/admin.go\<close>, \<open>maintain.go\<close> and \<open>node.go\<close>: the admin handlers, the periodic
  maintenance, and the node API.  Every handler that changes the firewall or a membership holds \<open>fwMu\<close> for that part,
  so a handler is one step.  A \<open>created_at\<close> text is its unix time.
\<close>

definition genSecret :: "'s env \<Rightarrow> string" where
  "genSecret env = hex_encode (e_secret env)"

text \<open>The head of every admin handler that changes something.\<close>

definition adminGate :: "'s env \<Rightarrow> request \<Rightarrow> ('s, user) hm" where
  "adminGate env rq = hb (requireAdmin env rq) (\<lambda>user. hb (stepUp env rq user) (\<lambda>_. hret user))"

definition not_found :: "string \<Rightarrow> resp" where
  "not_found what = errJSON 404 (what @ '' not found'')"

definition the_user :: "int \<Rightarrow> ('s, user) hm" where
  "the_user uid = hb (dbtry (GetUser uid)) (\<lambda>u. found u (not_found ''User''))"

definition the_group :: "int \<Rightarrow> ('s, grp) hm" where
  "the_group gid = hb (dbtry (GetGroup gid)) (\<lambda>g. found g (not_found ''Group''))"

definition audit_log :: "'s env \<Rightarrow> user \<Rightarrow> string \<Rightarrow> string \<Rightarrow> string option \<Rightarrow> ('s, unit) hm" where
  "audit_log env user action target detail =
     dbdo (LogAudit (e_now env) (u_name user) action (Some target) detail)"

definition fw_warning :: "fwerr option \<Rightarrow> (string \<times> json) list" where
  "fw_warning e = (case e of None \<Rightarrow> [] | Some x \<Rightarrow> [(''warning'', JStr (fwRemovalWarning x))])"

section \<open>Users\<close>

definition userPublic :: "user \<Rightarrow> json" where
  "userPublic u = JObj [(''id'', JInt (u_id u)), (''username'', JStr (u_name u)), (''is_admin'', b2iJSON (u_admin u)),
     (''current_ip'', opt_str (u_ip u)), (''last_knock'', opt_int (u_knock u)), (''totp_enabled'', b2iJSON (u_totp_on u)),
     (''totp_last_counter'', JInt (u_totp_ctr u)), (''created_at'', JInt (u_created u))]"

definition adminListUsers :: "'s env \<Rightarrow> request \<Rightarrow> ('s, resp) hm" where
  "adminListUsers env rq =
     hb (requireAdmin env rq) (\<lambda>_.
     hb (dbtry ListUsers) (\<lambda>us.
     hret (writeJSON 200 [(''ok'', JBool True), (''users'', JArr (map userPublic us))])))"

definition adminCreateUser :: "'s env \<Rightarrow> request \<Rightarrow> ('s, resp) hm" where
  "adminCreateUser env rq =
     hb (adminGate env rq) (\<lambda>user.
     let username = jsonString (rq_body rq) ''username'' in
     hb (hguard (username \<noteq> []) (errJSON 400 ''username is required'')) (\<lambda>_.
     hb (hguard (ValidName username)
           (errJSON 400 ''Invalid username (allowed: letters, digits, _ and -, max 64)'')) (\<lambda>_.
     let given = jsonString (rq_body rq) ''secret'';
         secret = (if given = [] then genSecret env else given);
         adm = jsonBoolDefault (rq_body rq) ''is_admin'' False in
     hb (dbcall (CreateUser (e_now env) username secret adm)) (\<lambda>r. case r of
         Inl e \<Rightarrow> answer (if e = DbUnique then errJSON 409 (''User '' @ [CHR 39] @ username @ [CHR 39] @ '' already exists'')
                          else internal_error)
       | Inr i \<Rightarrow>
           hb (audit_log env user ''user_add'' username (Some (''is_admin='' @ boolPy adm))) (\<lambda>_.
           hret (writeJSON 201 [(''ok'', JBool True), (''id'', JInt i), (''username'', JStr username),
             (''secret'', JStr secret), (''is_admin'', JBool adm)]))))))"

definition adminDeleteUser :: "'s env \<Rightarrow> request \<Rightarrow> ('s, resp) hm" where
  "adminDeleteUser env rq =
     hb (adminGate env rq) (\<lambda>user.
     hb (found (pathInt rq ''user_id'') (not_found ''User'')) (\<lambda>userID.
     hb (the_user userID) (\<lambda>target.
     hb (fwcall (RemoveUserRules (e_be env) (u_name target))) (\<lambda>fwErr.
     hb (dbtry (DeleteUser userID)) (\<lambda>_.
     hb (audit_log env user ''user_del'' (u_name target) None) (\<lambda>_.
     hret (writeJSON 200 ([(''ok'', JBool True), (''deleted'', JInt userID)] @ fw_warning fwErr))))))))"

definition adminSetAdmin :: "'s env \<Rightarrow> request \<Rightarrow> ('s, resp) hm" where
  "adminSetAdmin env rq =
     hb (adminGate env rq) (\<lambda>user.
     hb (found (pathInt rq ''user_id'') (not_found ''User'')) (\<lambda>userID.
     hb (the_user userID) (\<lambda>target.
     let adm = jsonBoolDefault (rq_body rq) ''is_admin'' True in
     hb (dbtry (SetUserAdmin userID adm)) (\<lambda>_.
     hb (audit_log env user ''set_admin'' (u_name target) (Some (''is_admin='' @ boolPy adm))) (\<lambda>_.
     hret (writeJSON 200 [(''ok'', JBool True), (''user_id'', JInt userID), (''is_admin'', JBool adm)]))))))"

definition adminUserGroups :: "'s env \<Rightarrow> request \<Rightarrow> ('s, resp) hm" where
  "adminUserGroups env rq =
     hb (requireAdmin env rq) (\<lambda>_.
     hb (found (pathInt rq ''user_id'') (not_found ''User'')) (\<lambda>userID.
     hb (the_user userID) (\<lambda>_.
     hb (dbtry (UserGroupStates userID)) (\<lambda>states.
     hret (writeJSON 200 [(''ok'', JBool True), (''user_id'', JInt userID),
       (''groups'', JArr (map (\<lambda>s. JObj [(''id'', JInt (s_id s)), (''name'', JStr (s_name s)), (''port'', JInt (s_port s)),
          (''proto'', JStr (s_proto s)), (''is_member'', JBool (s_member s)), (''enabled'', JBool (s_enabled s))]) states))])))))"

definition adminRevokeUser :: "'s env \<Rightarrow> request \<Rightarrow> ('s, resp) hm" where
  "adminRevokeUser env rq =
     hb (adminGate env rq) (\<lambda>user.
     hb (found (pathInt rq ''user_id'') (not_found ''User'')) (\<lambda>userID.
     hb (the_user userID) (\<lambda>target.
     hb (fwcall (RemoveUserRules (e_be env) (u_name target))) (\<lambda>fwErr.
     hb (dbtry (ClearUserState userID)) (\<lambda>_.
     let rotate = jsonBoolDefault (rq_body rq) ''rotate_secret'' True;
         newSecret = (if rotate then genSecret env else []) in
     hb (if rotate then dbtry (RotateSecret userID newSecret) else hret ()) (\<lambda>_.
     hb (audit_log env user ''revoke'' (u_name target) (Some (''rotate='' @ boolPy rotate))) (\<lambda>_.
     hb (case fwErr of None \<Rightarrow> hret () | Some x \<Rightarrow> audit_log env user ''revoke_fw_error'' (u_name target) (Some (err_text x))) (\<lambda>_.
     hret (writeJSON 200 ([(''ok'', JBool True), (''user_id'', JInt userID), (''rotated'', JBool rotate)] @
       (if newSecret = [] then [] else [(''secret'', JStr newSecret)]) @ fw_warning fwErr))))))))))"

section \<open>Memberships\<close>

definition has_ip :: "user \<Rightarrow> bool" where
  "has_ip u \<longleftrightarrow> u_ip u \<noteq> None \<and> u_ip u \<noteq> Some []"

definition adminAddMembership :: "'s env \<Rightarrow> request \<Rightarrow> ('s, resp) hm" where
  "adminAddMembership env rq =
     hb (adminGate env rq) (\<lambda>user.
     hb (found (pathInt rq ''user_id'') (not_found ''User'')) (\<lambda>userID.
     hb (the_user userID) (\<lambda>target.
     hb (found (jsonInt (rq_body rq) ''group_id'') (errJSON 400 ''group_id is required'')) (\<lambda>groupID.
     hb (the_group groupID) (\<lambda>g.
     let enabled = jsonBoolDefault (rq_body rq) ''enabled'' True in
     hb (dbtry (AddMembership (e_now env) userID groupID enabled)) (\<lambda>_.
     hb (if has_ip target \<and> enabled
         then fwcall (manager_AddRule (e_be env) (the (u_ip target)) (g_port g) (u_name target) (g_proto g) (g_name g))
         else hret None) (\<lambda>_.
     hb (audit_log env user ''user_join'' (u_name target) (Some (g_name g))) (\<lambda>_.
     hret (writeJSON 201 [(''ok'', JBool True), (''user_id'', JInt userID), (''group_id'', JInt groupID),
       (''enabled'', b2iJSON enabled)])))))))))"

definition adminRemoveMembership :: "'s env \<Rightarrow> request \<Rightarrow> ('s, resp) hm" where
  "adminRemoveMembership env rq =
     hb (adminGate env rq) (\<lambda>user.
     hb (dbtry (GetUserByUsername (jsonString (rq_body rq) ''username''))) (\<lambda>to.
     hb (dbtry (GetGroupByName (jsonString (rq_body rq) ''group_name''))) (\<lambda>go.
     hb (found to (not_found ''User'')) (\<lambda>target.
     hb (found go (not_found ''Group'')) (\<lambda>g.
     hb (dbtry (RemoveMembership (u_id target) (g_id g))) (\<lambda>_.
     hb (if has_ip target
         then fwcall (manager_RemoveRule (e_be env) (the (u_ip target)) (g_port g) (u_name target) (g_proto g) (g_name g))
         else hret None) (\<lambda>fwErr.
     hb (audit_log env user ''remove_membership'' (u_name target) (Some (g_name g))) (\<lambda>_.
     hret (writeJSON 200 ([(''ok'', JBool True), (''user_id'', JInt (u_id target)), (''group_id'', JInt (g_id g))] @
       fw_warning fwErr))))))))))"

section \<open>The guard and the groups\<close>

definition syncGuard :: "'s env \<Rightarrow> ('s, unit) hm" where
  "syncGuard env =
     hb (if c_nft_guard (e_cfg env)
         then hb (dbcall ListGroups) (\<lambda>r. hret (case r of Inl e \<Rightarrow> None
            | Inr gs \<Rightarrow> Some (map (\<lambda>g. PP (g_port g) (g_proto g)) gs)))
         else hret (Some [])) (\<lambda>ports. case ports of
       None \<Rightarrow> hret ()
     | Some ps \<Rightarrow> hb (fwcall (manager_SyncGuard (e_be env) ps)) (\<lambda>_. hret ()))"

definition adminListGroups :: "'s env \<Rightarrow> request \<Rightarrow> ('s, resp) hm" where
  "adminListGroups env rq =
     hb (requireAdmin env rq) (\<lambda>_.
     hb (dbtry ListGroups) (\<lambda>gs.
     hret (writeJSON 200 [(''ok'', JBool True), (''groups'', JArr (map (\<lambda>g. JObj [(''id'', JInt (g_id g)),
       (''name'', JStr (g_name g)), (''port'', JInt (g_port g)), (''proto'', JStr (g_proto g)),
       (''created_at'', JInt (g_created g))]) gs))])))"

definition adminCreateGroup :: "'s env \<Rightarrow> request \<Rightarrow> ('s, resp) hm" where
  "adminCreateGroup env rq =
     hb (adminGate env rq) (\<lambda>user.
     let name = jsonString (rq_body rq) ''name''; portField = map_of (rq_body rq) ''port'' in
     hb (hguard (name \<noteq> [] \<and> portField \<noteq> None \<and> portField \<noteq> Some JNull) (errJSON 400 ''name and port are required'')) (\<lambda>_.
     let proto = (if jsonString (rq_body rq) ''proto'' = [] then ''tcp'' else jsonString (rq_body rq) ''proto'') in
     hb (found (jsonInt (rq_body rq) ''port'') (errJSON 400 ''port must be an integer'')) (\<lambda>port.
     hb (hguard (1 \<le> port \<and> port \<le> 65535) (errJSON 400 ''port out of range (1-65535)'')) (\<lambda>_.
     hb (hguard (proto = ''tcp'' \<or> proto = ''udp'') (errJSON 400 ''proto must be tcp or udp'')) (\<lambda>_.
     hb (if c_allowed_ports (e_cfg env) \<noteq> [] \<and> port \<notin> set (c_allowed_ports (e_cfg env))
         then hb (audit_log env user ''group_add_denied'' name (Some (''port '' @ itoa port @ '' not in allowed_ports'')))
           (\<lambda>_. answer (errJSON 400 (''Port '' @ itoa port @ '' is not in the allowed_ports whitelist'')))
         else hret ()) (\<lambda>_.
     hb (hguard (ValidName name) (errJSON 400 ''Invalid group name'')) (\<lambda>_.
     hb (dbcall (GetGroupByPortProto port proto)) (\<lambda>dup.
     hb (case dup of Inr (Some g) \<Rightarrow> answer (errJSON 409 (''Port '' @ itoa port @ ''/'' @ proto @
              '' is already used by group '' @ [CHR 39] @ g_name g @ [CHR 39])) | _ \<Rightarrow> hret ()) (\<lambda>_.
     hb (dbcall (CreateGroup (e_now env) name port proto)) (\<lambda>r. case r of
         Inl e \<Rightarrow>
           if e = DbUnique
           then hb (dbcall (GetGroupByPortProto port proto)) (\<lambda>dup'. case dup' of
               Inr (Some g) \<Rightarrow> answer (errJSON 409 (''Port '' @ itoa port @ ''/'' @ proto @ '' is already in use''))
             | _ \<Rightarrow> answer (errJSON 409 (''Group '' @ [CHR 39] @ name @ [CHR 39] @ '' already exists'')))
           else answer internal_error
       | Inr i \<Rightarrow>
           hb (audit_log env user ''group_add'' name (Some (''port='' @ itoa port @ '' proto='' @ proto))) (\<lambda>_.
           hb (syncGuard env) (\<lambda>_.
           hret (writeJSON 201 [(''ok'', JBool True), (''id'', JInt i), (''name'', JStr name), (''port'', JInt port),
             (''proto'', JStr proto)])))))))))))))"

definition groupMembers :: "int \<Rightarrow> (string \<times> string option) list dbm" where
  "groupMembers gid = query (\<lambda>d. concat (map (\<lambda>m. map (\<lambda>u. (u_name u, u_ip u))
     (filter (\<lambda>u. u_id u = m_user m) (users d))) (filter (\<lambda>m. m_group m = gid) (members d))))"

fun remove_member_rules :: "'s env \<Rightarrow> grp \<Rightarrow> (string \<times> string option) list \<Rightarrow> fwerr list \<Rightarrow> ('s, fwerr list) hm" where
  "remove_member_rules env g [] errs = hret errs"
| "remove_member_rules env g ((un, ip) # ms) errs =
     (if ip \<noteq> None \<and> ip \<noteq> Some []
      then hb (fwcall (manager_RemoveRule (e_be env) (the ip) (g_port g) un (g_proto g) (g_name g)))
        (\<lambda>e. remove_member_rules env g ms (case e of None \<Rightarrow> errs | Some x \<Rightarrow> errs @ [Wrapped un x]))
      else remove_member_rules env g ms errs)"

definition adminDeleteGroup :: "'s env \<Rightarrow> request \<Rightarrow> ('s, resp) hm" where
  "adminDeleteGroup env rq =
     hb (adminGate env rq) (\<lambda>user.
     hb (found (pathInt rq ''group_id'') (not_found ''Group'')) (\<lambda>groupID.
     hb (the_group groupID) (\<lambda>g.
     hb (dbtry (groupMembers groupID)) (\<lambda>ms.
     hb (remove_member_rules env g ms []) (\<lambda>fwErrs.
     hb (dbtry (DeleteGroup groupID)) (\<lambda>_.
     hb (audit_log env user ''group_del'' (g_name g) None) (\<lambda>_.
     hb (syncGuard env) (\<lambda>_.
     hret (writeJSON 200 ([(''ok'', JBool True), (''deleted'', JInt groupID)] @ fw_warning (join_errs fwErrs)))))))))))"

section \<open>Audit and nodes\<close>

definition adminListAudit :: "'s env \<Rightarrow> request \<Rightarrow> ('s, resp) hm" where
  "adminListAudit env rq =
     hb (requireAdmin env rq) (\<lambda>_.
     let asked = (if rq_limit rq = [] then 100 else (case parse_int64 (rq_limit rq) of
            Some n \<Rightarrow> if n \<noteq> 0 then n else 100 | None \<Rightarrow> 100));
         limit = min 1000 (max 1 asked) in
     hb (dbtry (ListAudit limit)) (\<lambda>es.
     hret (writeJSON 200 [(''ok'', JBool True), (''audit'', JArr (map (\<lambda>a. JObj [(''id'', JInt (a_id a)),
       (''actor'', JStr (a_actor a)), (''action'', JStr (a_action a)), (''target'', opt_str (a_target a)),
       (''detail'', opt_str (a_detail a)), (''created_at'', JInt (a_created a))]) es))])))"

definition HashToken :: "string \<Rightarrow> string" where
  "HashToken token = sha256_hex token"

definition authNode :: "'s env \<Rightarrow> request \<Rightarrow> ('s, node) hm" where
  "authNode env rq =
     (if \<not> has_prefix ''Bearer '' (rq_auth rq) then answer (errJSON 401 ''Missing or invalid node token'')
      else (let token = trim_space (drop (length ''Bearer '') (rq_auth rq)) in
        hb (hguard (token \<noteq> []) (errJSON 401 ''Missing or invalid node token'')) (\<lambda>_.
        hb (dbtry (GetNodeByTokenHash (HashToken token))) (\<lambda>n.
        found n (errJSON 401 ''Invalid node token'')))))"

definition desired_json :: "config \<Rightarrow> desired_rule \<Rightarrow> json" where
  "desired_json cfg r = JObj [(''ip'', JStr (d_ip r)), (''port'', JInt (d_port r)), (''proto'', JStr (d_proto r)),
     (''user'', JStr (d_user r)), (''group'', JStr (d_group r)),
     (''comment'', JStr (commentFor (c_prefix cfg) (d_user r) (d_group r)))]"

definition port_json :: "group_port \<Rightarrow> json" where
  "port_json p = JObj [(''port'', JInt (gp_port p)), (''proto'', JStr (gp_proto p))]"

definition nodeDesiredState :: "'s env \<Rightarrow> request \<Rightarrow> ('s, resp) hm" where
  "nodeDesiredState env rq =
     hb (authNode env rq) (\<lambda>nd.
     hb (dbdo (UpdateNodeReport (e_now env) (n_id nd) (rq_version rq) (rq_backend rq))) (\<lambda>_.
     hb (dbtry (DesiredStateForNode (n_id nd))) (\<lambda>desired.
     hb (dbtry (NodeTargetPorts (n_id nd))) (\<lambda>ports.
     hret (writeJSON 200 [(''ok'', JBool True), (''node'', JStr (n_name nd)), (''prefix'', JStr (c_prefix (e_cfg env))),
       (''rules'', JArr (map (desired_json (e_cfg env)) desired)), (''ports'', JArr (map port_json ports))])))))"

fun node_views :: "'s env \<Rightarrow> node list \<Rightarrow> json list \<Rightarrow> ('s, json list) hm" where
  "node_views env [] out = hret out"
| "node_views env (n # ns) out =
     hb (dbcall (DesiredStateForNode (n_id n))) (\<lambda>r.
     node_views env ns (out @ [JObj [(''id'', JInt (n_id n)), (''name'', JStr (n_name n)), (''last_seen'', opt_int (n_seen n)),
       (''online'', JBool (case n_seen n of None \<Rightarrow> False | Some t \<Rightarrow> e_now env - t < 60)),
       (''version'', opt_str (n_version n)), (''backend'', opt_str (n_backend n)),
       (''rule_count'', JInt (case r of Inl e \<Rightarrow> 0 | Inr rs \<Rightarrow> int (length rs)))]]))"

definition adminListNodes :: "'s env \<Rightarrow> request \<Rightarrow> ('s, resp) hm" where
  "adminListNodes env rq =
     hb (requireAdmin env rq) (\<lambda>_.
     hb (dbtry ListNodes) (\<lambda>ns.
     hb (node_views env ns []) (\<lambda>out.
     hret (writeJSON 200 [(''ok'', JBool True), (''nodes'', JArr out)]))))"

section \<open>Maintenance\<close>

definition cleanupEvery :: int where "cleanupEvery = 3600"

definition desired_to_rule :: "desired_rule \<Rightarrow> rule" where
  "desired_to_rule d = \<lparr>r_handle = 0, r_ip = d_ip d, r_port = d_port d, r_proto = d_proto d, r_user = d_user d,
     r_group = d_group d, r_comment = []\<rparr>"

definition expire_stale :: "'s env \<Rightarrow> ('s, unit) hm" where
  "expire_stale env s =
     (if c_cleanup_days (e_cfg env) > 0 \<and> (case sv_cleanup s of None \<Rightarrow> True | Some t \<Rightarrow> e_now env - t \<ge> cleanupEvery)
      then hb (dbcall GetAllUserGroupPorts) (\<lambda>r t. case r of
          Inl e \<Rightarrow> (Inr (), t)
        | Inr ugp \<Rightarrow> (case CleanupStale (e_be env) (e_now env) (c_cleanup_days (e_cfg env) * 86400) ugp (sv_fw t) (sv_db t) of
            (_, w, d) \<Rightarrow> (Inr (), t\<lparr>sv_fw := w, sv_db := d\<rparr>))) (s\<lparr>sv_cleanup := Some (e_now env)\<rparr>)
      else (Inr (), s))"

definition no_answer :: resp where
  "no_answer = \<lparr>rs_status = 0, rs_body = JNull\<rparr>"

definition Maintain :: "'s env \<Rightarrow> ('s, resp) hm" where
  "Maintain env =
     hb (fwcall (be_EnsureBase (e_be env))) (\<lambda>err. if err \<noteq> None then answer no_answer else
     hb (expire_stale env) (\<lambda>_.
     hb (dbcall DesiredStateLocal) (\<lambda>r. case r of
         Inl e \<Rightarrow> answer no_answer
       | Inr desired \<Rightarrow>
           hb (fwcall (\<lambda>w. case ReconcileAll (e_be env) (map desired_to_rule desired) w of
               (added, removed, err, w') \<Rightarrow> ((added, removed, err), w'))) (\<lambda>_.
           hb (syncGuard env) (\<lambda>_. hret no_answer)))))"

end
