(* ===== verification/Routes.thy ===== *)
theory Routes
  imports AdminApi
begin

text \<open>
  \<open>Routes\<close> of \<open>server.go\<close>: the table of the mux with the throttle gate in front.  A path is the list of
  its segments, unescaped, as \<open>PathValue\<close> returns them; a trailing slash is an empty last segment, which
  a wildcard does not match.  A GET pattern also serves HEAD, and no two patterns of the table match
  the same request, so the first match is the most specific one; the patterns \<open>GET /\<close> and
  \<open>GET /static/\<close> serve what is left, and any other method is answered with 405.
\<close>

datatype route = RKnock | RStatus | RMyGroups | RSelfToggle | RToggle | RNodeState
  | RListUsers | RCreateUser | RDeleteUser | RSetAdmin | RUserGroups | RAddMembership | RRevoke
  | RRemoveMembership | RListGroups | RCreateGroup | RDeleteGroup | RAudit | RNodes
  | REnroll | RActivate | RDisable | RHealth | RIndex

datatype segment = Lit string | Wild string

definition route_table :: "(string \<times> segment list \<times> route) list" where
  "route_table = [
     (''POST'', [Lit ''api'', Lit ''knock''], RKnock),
     (''GET'', [Lit ''api'', Lit ''status''], RStatus),
     (''GET'', [Lit ''api'', Lit ''me'', Lit ''groups''], RMyGroups),
     (''PATCH'', [Lit ''api'', Lit ''me'', Lit ''membership'', Wild ''group_id''], RSelfToggle),
     (''PATCH'', [Lit ''api'', Lit ''membership'', Wild ''user_id'', Wild ''group_id''], RToggle),
     (''GET'', [Lit ''api'', Lit ''v1'', Lit ''node'', Lit ''desired-state''], RNodeState),
     (''GET'', [Lit ''api'', Lit ''admin'', Lit ''users''], RListUsers),
     (''POST'', [Lit ''api'', Lit ''admin'', Lit ''users''], RCreateUser),
     (''DELETE'', [Lit ''api'', Lit ''admin'', Lit ''users'', Wild ''user_id''], RDeleteUser),
     (''POST'', [Lit ''api'', Lit ''admin'', Lit ''users'', Wild ''user_id'', Lit ''admin''], RSetAdmin),
     (''GET'', [Lit ''api'', Lit ''admin'', Lit ''users'', Wild ''user_id'', Lit ''groups''], RUserGroups),
     (''POST'', [Lit ''api'', Lit ''admin'', Lit ''users'', Wild ''user_id'', Lit ''groups''], RAddMembership),
     (''POST'', [Lit ''api'', Lit ''admin'', Lit ''users'', Wild ''user_id'', Lit ''revoke''], RRevoke),
     (''POST'', [Lit ''api'', Lit ''admin'', Lit ''memberships'', Lit ''remove''], RRemoveMembership),
     (''GET'', [Lit ''api'', Lit ''admin'', Lit ''groups''], RListGroups),
     (''POST'', [Lit ''api'', Lit ''admin'', Lit ''groups''], RCreateGroup),
     (''DELETE'', [Lit ''api'', Lit ''admin'', Lit ''groups'', Wild ''group_id''], RDeleteGroup),
     (''GET'', [Lit ''api'', Lit ''admin'', Lit ''audit''], RAudit),
     (''GET'', [Lit ''api'', Lit ''admin'', Lit ''nodes''], RNodes),
     (''POST'', [Lit ''api'', Lit ''admin'', Lit ''totp'', Lit ''enroll''], REnroll),
     (''POST'', [Lit ''api'', Lit ''admin'', Lit ''totp'', Lit ''activate''], RActivate),
     (''DELETE'', [Lit ''api'', Lit ''admin'', Lit ''totp''], RDisable),
     (''GET'', [Lit ''health''], RHealth)]"

fun match_path :: "segment list \<Rightarrow> string list \<Rightarrow> (string \<times> string) list option" where
  "match_path [] [] = Some []"
| "match_path (Lit l # ps) (s # ss) = (if s = l then match_path ps ss else None)"
| "match_path (Wild w # ps) (s # ss) = (if s = [] then None else map_option ((#) (w, s)) (match_path ps ss))"
| "match_path _ _ = None"

definition method_ok :: "string \<Rightarrow> string \<Rightarrow> bool" where
  "method_ok pattern m \<longleftrightarrow> m = pattern \<or> m = ''HEAD'' \<and> pattern = ''GET''"

fun lookup_route :: "(string \<times> segment list \<times> route) list \<Rightarrow> string \<Rightarrow> string list \<Rightarrow>
    (route \<times> (string \<times> string) list) option" where
  "lookup_route [] m path = (if method_ok ''GET'' m then Some (RIndex, []) else None)"
| "lookup_route ((pm, pat, rt) # tab) m path =
     (case (if method_ok pm m then match_path pat path else None) of
        Some ps \<Rightarrow> Some (rt, ps)
      | None \<Rightarrow> lookup_route tab m path)"

definition serveIndex :: "'s env \<Rightarrow> request \<Rightarrow> ('s, resp) hm" where
  "serveIndex env rq = hret \<lparr>rs_status = 200, rs_body = JStr (e_index env)\<rparr>"

definition handler :: "'s env \<Rightarrow> route \<Rightarrow> request \<Rightarrow> ('s, resp) hm" where
  "handler env rt = (case rt of
      RKnock \<Rightarrow> knock env | RStatus \<Rightarrow> status env | RMyGroups \<Rightarrow> myGroups env
    | RSelfToggle \<Rightarrow> selfToggleMembership env | RToggle \<Rightarrow> toggleMembership env
    | RNodeState \<Rightarrow> nodeDesiredState env
    | RListUsers \<Rightarrow> adminListUsers env | RCreateUser \<Rightarrow> adminCreateUser env
    | RDeleteUser \<Rightarrow> adminDeleteUser env | RSetAdmin \<Rightarrow> adminSetAdmin env
    | RUserGroups \<Rightarrow> adminUserGroups env | RAddMembership \<Rightarrow> adminAddMembership env
    | RRevoke \<Rightarrow> adminRevokeUser env | RRemoveMembership \<Rightarrow> adminRemoveMembership env
    | RListGroups \<Rightarrow> adminListGroups env | RCreateGroup \<Rightarrow> adminCreateGroup env
    | RDeleteGroup \<Rightarrow> adminDeleteGroup env | RAudit \<Rightarrow> adminListAudit env
    | RNodes \<Rightarrow> adminListNodes env
    | REnroll \<Rightarrow> totpEnroll env | RActivate \<Rightarrow> totpActivate env | RDisable \<Rightarrow> totpDisable env
    | RHealth \<Rightarrow> health env | RIndex \<Rightarrow> serveIndex env)"

definition path_string :: "string list \<Rightarrow> string" where
  "path_string path = concat (map (\<lambda>s. ''/'' @ s) path)"

definition path_value :: "(string \<times> string) list \<Rightarrow> string \<Rightarrow> string" where
  "path_value ps name = (case map_of ps name of Some v \<Rightarrow> v | None \<Rightarrow> [])"

definition method_not_allowed :: resp where
  "method_not_allowed = \<lparr>rs_status = 405, rs_body = JStr ''Method Not Allowed''\<rparr>"

definition dispatch :: "'s env \<Rightarrow> string \<Rightarrow> string list \<Rightarrow> request \<Rightarrow> ('s, resp) hm" where
  "dispatch env m path rq = (case lookup_route route_table m path of
      None \<Rightarrow> hret method_not_allowed
    | Some (rt, ps) \<Rightarrow> handler env rt (rq\<lparr>rq_path := path_value ps\<rparr>))"

definition Routes :: "'s env \<Rightarrow> string \<Rightarrow> string list \<Rightarrow> request \<Rightarrow> ('s, resp) hm" where
  "Routes env m path rq =
     (if has_prefix ''/api/'' (path_string path) then throttleGate env rq (dispatch env m path rq)
      else dispatch env m path rq)"

text \<open>A request is answered: the response and the state after it.\<close>

definition serve :: "'s env \<Rightarrow> string \<Rightarrow> string list \<Rightarrow> request \<Rightarrow> 's srv \<Rightarrow> resp \<times> 's srv" where
  "serve env m path rq s = run (Routes env m path rq) s"

end
