(* ===== verification/FwInv.thy ===== *)
theory FwInv
  imports Manager
begin

text \<open>
  What every call of the policy layer keeps of the firewall, whatever fails: the keys of the rules stay
  inside an allowed set \<open>P\<close>, and a set \<open>R\<close> of rules of other users stays in the store.
\<close>

definition fw_inv :: "('s \<Rightarrow> bool) \<Rightarrow> ('s \<Rightarrow> rule list) \<Rightarrow> (rkey \<Rightarrow> bool) \<Rightarrow> rule set \<Rightarrow> 's \<Rightarrow> bool" where
  "fw_inv I store P R w \<longleftrightarrow> I w \<and> (\<forall>r \<in> set (store w). P (rule_key r)) \<and> R \<subseteq> set (store w)"

lemma rule_key_mk_rule [simp]: "rule_key (mk_rule prefix h ip port u pr g) = (ip, port, pr, u, g)"
  by (simp add: rule_key_def mk_rule_def)

definition none_of :: "string \<Rightarrow> rule set \<Rightarrow> bool" where
  "none_of u R \<longleftrightarrow> (\<forall>r \<in> R. r_user r \<noteq> u)"

lemma none_of_empty [simp]: "none_of u {}"
  by (simp add: none_of_def)

definition opens_ok :: "(rkey \<Rightarrow> bool) \<Rightarrow> string \<Rightarrow> string \<Rightarrow> (string \<times> portproto) list \<Rightarrow> bool" where
  "opens_ok P ip user enabled \<longleftrightarrow> (\<forall>(g, pp) \<in> set enabled. P (ip, p_port pp, p_proto pp, user, g))"

context keyed_store begin

lemma fw_mono:
  "fw_inv inv store P R s \<Longrightarrow> inv s' \<Longrightarrow> set (store s') \<subseteq> set (store s) \<Longrightarrow> R \<subseteq> set (store s') \<Longrightarrow> fw_inv inv store P R s'"
  by (auto simp: fw_inv_def)

lemma fw_EnsureBase: "fw_inv inv store P R s \<Longrightarrow> fw_inv inv store P R (snd (be_EnsureBase be s))"
  using ensure [of s] by (cases "be_EnsureBase be s") (auto simp: fw_inv_def)

lemma fw_SyncGuard: "fw_inv inv store P R s \<Longrightarrow> fw_inv inv store P R (snd (manager_SyncGuard be ports s))"
  using guard [of s _ ports "fst (the (be_SyncGuard be) ports s)" "snd (the (be_SyncGuard be) ports s)"]
  by (cases "be_SyncGuard be") (simp_all add: fw_inv_def manager_SyncGuard_def)

lemma fw_AddRule:
  assumes "fw_inv inv store P R s" and "CHR '':'' \<notin> set u" and "P (ip, port, pr, u, g)"
  shows "fw_inv inv store P R (snd (manager_AddRule be ip port u pr g s))"
proof -
  obtain e s' where a: "be_AddRule be ip port u pr g s = (e, s')" by (cases "be_AddRule be ip port u pr g s")
  have I: "inv s" using assms(1) by (simp add: fw_inv_def)
  note c = add_cases [OF I a assms(2)]
  have "rule_key ` set (store s') \<subseteq> insert (ip, port, pr, u, g) (rule_key ` set (store s))"
    using arg_cong [OF c(3), of set_mset] by auto
  with assms a c show ?thesis by (auto simp: fw_inv_def manager_AddRule_def)
qed

lemma fw_RemoveRule:
  assumes "fw_inv inv store P R s" and "CHR '':'' \<notin> set u" and "g \<noteq> []" and "none_of u R"
  shows "fw_inv inv store P R (snd (manager_RemoveRule be ip port u pr g s))"
proof -
  obtain e s' where a: "be_RemoveRule be ip port u pr g s = (e, s')" by (cases "be_RemoveRule be ip port u pr g s")
  have I: "inv s" using assms(1) by (simp add: fw_inv_def)
  note c = remove_one [OF I a assms(2,3)]
  have "r \<in> set (store s')" if "r \<in> R" for r
    using c(3) [of r] that assms(1,4) by (auto simp: fw_inv_def none_of_def rule_key_def)
  with assms(1) a c(1,2) show ?thesis by (auto simp: fw_inv_def manager_RemoveRule_def)
qed

lemma fw_RemoveUserRules:
  assumes "fw_inv inv store P R s" and "none_of u R"
  shows "fw_inv inv store P R (snd (RemoveUserRules be u s))"
proof -
  obtain e s' where a: "RemoveUserRules be u s = (e, s')" by (cases "RemoveUserRules be u s")
  have I: "inv s" using assms(1) by (simp add: fw_inv_def)
  obtain l t where l: "be_ListManaged be s = (l, t)" by (cases "be_ListManaged be s")
  note t = list_managed [OF I l]
  have I': "inv s'"
  proof (cases l)
    case (Inr rs)
    then show ?thesis
      using a l t remove_user_loop_spec [of t u rs "[]"]
      by (cases "remove_user_loop be u rs [] t") (auto simp: RemoveUserRules_def)
  qed (use a l t in \<open>auto simp: RemoveUserRules_def\<close>)
  from remove_user_complete [OF rule_store_axioms I a] have
    k: "filter (\<lambda>r. r_user r \<noteq> u) (store s') = filter (\<lambda>r. r_user r \<noteq> u) (store s)" "set (store s') \<subseteq> set (store s)"
    by blast+
  have "r \<in> set (store s')" if "r \<in> R" for r
  proof -
    have "r \<in> set (filter (\<lambda>r. r_user r \<noteq> u) (store s))"
      using that assms by (auto simp: fw_inv_def none_of_def)
    then show ?thesis using k(1) by (metis filter_is_subset subsetD)
  qed
  with assms(1) I' k(2) a show ?thesis by (auto simp: fw_inv_def)
qed

lemma fw_Reconcile:
  assumes "fw_inv inv store P R s" and "CHR '':'' \<notin> set user" and "opens_ok P ip user enabled" and "none_of user R"
  shows "fw_inv inv store P R (snd (manager_Reconcile be prefix user ip enabled s))"
proof -
  obtain rc s' where a: "manager_Reconcile be prefix user ip enabled s = (rc, s')"
    by (cases "manager_Reconcile be prefix user ip enabled s")
  have I: "inv s" using assms(1) by (simp add: fw_inv_def)
  let ?L = "filter (listed prefix user) (store s)"
  from manager_Reconcile_run [OF I assms(2) a] obtain D A ns where
    D: "D \<subseteq> r_handle ` {r \<in> set ?L. is_stale prefix user ip enabled r}" and
    S': "mset (store s') = mset (filter (\<lambda>r. r_handle r \<notin> D) (store s)) + mset ns" and
    ns: "list_all2 (new_rule prefix ip user) ns A" and I': "inv s'" and
    A: "set A \<subseteq> set (to_open ip (user_keys prefix user ?L) (host s) enabled)"
    by blast
  have set': "set (store s') = set (filter (\<lambda>r. r_handle r \<notin> D) (store s)) \<union> set ns"
    using S' by (metis set_mset_mset set_mset_union)
  have "P (rule_key r)" if "r \<in> set ns" for r
  proof -
    obtain x where x: "x \<in> set A" "new_rule prefix ip user r x" using list_all2_left [OF ns \<open>r \<in> set ns\<close>] by blast
    then have "x \<in> set enabled" using A by (auto simp: to_open_def)
    with x(2) assms(3) show ?thesis by (cases x) (auto simp: new_rule_def opens_ok_def)
  qed
  moreover have "r_handle r \<notin> D" if "r \<in> R" for r
  proof
    assume "r_handle r \<in> D"
    then obtain q where q: "q \<in> set (store s)" "listed prefix user q" "r_handle q = r_handle r" using D by auto
    moreover have rs: "r \<in> set (store s)" using that assms(1) by (auto simp: fw_inv_def)
    ultimately have "q = r" using handles_distinct [OF I] by (metis distinct_map inj_onD)
    with q rs have "listed prefix user r" "wf_rule prefix r" using wf [OF I] by (auto simp: wf_store_def)
    then have "r_user r = user" using listed_user(1) [OF _ assms(2)] by (simp add: listed_def)
    with that assms(4) show False by (auto simp: none_of_def)
  qed
  ultimately show ?thesis
    using assms(1) I' a set' by (auto simp: fw_inv_def)
qed

lemma fw_cleanup_rules:
  assumes "fw_inv inv store P R s" and "CHR '':'' \<notin> set u" and "\<forall>gp \<in> set gps. gp_group gp \<noteq> []" and "none_of u R"
  shows "fw_inv inv store P R (cleanup_rules be ip u gps s)"
  using assms(1,3)
  by (induction gps arbitrary: s) (simp_all add: fw_RemoveRule assms(2,4))

lemma fw_cleanup_users:
  assumes "fw_inv inv store P R s" and "\<forall>u \<in> set us. CHR '':'' \<notin> set (u_name u) \<and> none_of (u_name u) R"
    and "\<forall>un. \<forall>gp \<in> set (ugp un). gp_group gp \<noteq> []"
  shows "fw_inv inv store P R (fst (snd (cleanup_users be now maxAge ugp us removed s d)))"
  using assms(1,2)
proof (induction us arbitrary: removed s d)
  case (Cons u us)
  define s1 where "s1 = (case u_ip u of Some ip \<Rightarrow> if ip \<noteq> [] then cleanup_rules be ip (u_name u) (ugp (u_name u)) s else s
     | None \<Rightarrow> s)"
  have s1: "fw_inv inv store P R s1"
    using Cons.prems assms(3) by (auto simp: s1_def fw_cleanup_rules split: option.splits)
  have us: "\<forall>u \<in> set us. CHR '':'' \<notin> set (u_name u) \<and> none_of (u_name u) R" using Cons.prems(2) by simp
  show ?case
    using Cons.IH [OF s1 us] Cons.IH [OF Cons.prems(1) us] s1
    by (simp add: s1_def [symmetric] split: prod.splits sum.splits)
qed simp

lemma fw_ReconcileAll:
  assumes "fw_inv inv store P {} s" and "named desired" and "\<forall>d \<in> set desired. P (rule_key d)"
    and "ReconcileAll be desired s = (added, removed, err, s')"
  shows "fw_inv inv store P {} s'"
proof -
  have I: "inv s" using assms(1) by (simp add: fw_inv_def)
  from ReconcileAll_run [OF I assms(2,4)] obtain D A N where
    I': "inv s'" and A: "A \<subseteq> missing desired (rule_key ` set desired \<inter> rule_key ` set (store s)) (host s)" and
    S': "mset (store s') = mset (filter (\<lambda>r. r_handle r \<notin> D) (store s)) + N" and N: "image_mset rule_key N = mset_set A"
    by blast
  have set': "set (store s') = set (filter (\<lambda>r. r_handle r \<notin> D) (store s)) \<union> set_mset N"
    using S' by (metis set_mset_mset set_mset_union)
  have "rule_key ` set_mset N = set_mset (mset_set A)" using N by (metis set_image_mset)
  moreover have "finite A" using A finite_missing finite_subset by blast
  ultimately have "rule_key ` set_mset N = A" by simp
  moreover have "A \<subseteq> rule_key ` set desired" using A by (auto simp: missing_def)
  ultimately show ?thesis using assms(1,3) I' set' by (auto simp: fw_inv_def)
qed

end

end
