(* ===== verification/Keeps.thy ===== *)
theory Keeps
  imports Routes FwInv
begin

text \<open>
  A proof rule per construct of the handler monad.  \<open>keeps J K m F\<close>: whatever fails, \<open>m\<close> keeps \<open>J\<close> of the
  database and \<open>K\<close> of the firewall, and a result it goes on with satisfies \<open>F\<close>.  The locale
  \<open>client_ops\<close> says what a pair of such predicates must withstand from the client and node endpoints,
  \<open>server_ops\<close> adds what the admin endpoints and the maintenance do; each is shown once for every
  handler and interpreted for the invariants of \<open>ServerInv\<close>, \<open>NonAdmin\<close> and \<open>CodeOnce\<close>.
\<close>

section \<open>Rules\<close>

definition keeps :: "(db \<Rightarrow> bool) \<Rightarrow> ('s \<Rightarrow> bool) \<Rightarrow> ('s, 'a) hm \<Rightarrow> ('a \<Rightarrow> bool) \<Rightarrow> bool" where
  "keeps J K m F \<longleftrightarrow> (\<forall>s. J (fst (sv_db s)) \<and> K (sv_fw s) \<longrightarrow>
     (case m s of (r, s') \<Rightarrow> J (fst (sv_db s')) \<and> K (sv_fw s') \<and> (\<forall>a. r = Inr a \<longrightarrow> F a)))"

definition yields :: "(db \<Rightarrow> bool) \<Rightarrow> 'a dbm \<Rightarrow> ('a \<Rightarrow> bool) \<Rightarrow> bool" where
  "yields J m F \<longleftrightarrow> (\<forall>s a. J (fst s) \<and> fst (m s) = Inr a \<longrightarrow> F a)"

lemma keepsI:
  "(\<And>s r s'. J (fst (sv_db s)) \<Longrightarrow> K (sv_fw s) \<Longrightarrow> m s = (r, s') \<Longrightarrow>
     J (fst (sv_db s')) \<and> K (sv_fw s') \<and> (\<forall>a. r = Inr a \<longrightarrow> F a)) \<Longrightarrow> keeps J K m F"
  by (auto simp: keeps_def split: prod.splits)

lemma keepsD:
  "keeps J K m F \<Longrightarrow> J (fst (sv_db s)) \<Longrightarrow> K (sv_fw s) \<Longrightarrow> m s = (r, s') \<Longrightarrow>
     J (fst (sv_db s')) \<and> K (sv_fw s') \<and> (\<forall>a. r = Inr a \<longrightarrow> F a)"
  unfolding keeps_def by (drule spec [where x = s]) simp

lemma keeps_weaken: "keeps J K m F \<Longrightarrow> (\<And>a. F a \<Longrightarrow> G a) \<Longrightarrow> keeps J K m G"
  by (rule keepsI) (use keepsD [of J K m F] in blast)

lemma keeps_hb:
  assumes "keeps J K m F" and "\<And>a. F a \<Longrightarrow> keeps J K (f a) G"
  shows "keeps J K (hb m f) G"
proof (rule keepsI)
  fix s r s' assume s: "J (fst (sv_db s))" "K (sv_fw s)" and run: "hb m f s = (r, s')"
  obtain x t where m: "m s = (x, t)" by (cases "m s")
  note k = keepsD [OF assms(1) s m]
  show "J (fst (sv_db s')) \<and> K (sv_fw s') \<and> (\<forall>a. r = Inr a \<longrightarrow> G a)"
  proof (cases x)
    case (Inl e)
    with run m k show ?thesis by (auto simp: hb_def)
  next
    case (Inr a)
    with run m have "f a t = (r, s')" by (simp add: hb_def)
    with keepsD [OF assms(2) [of a], of t r s'] k Inr show ?thesis by simp
  qed
qed

lemma keeps_hret: "F a \<Longrightarrow> keeps J K (hret a) F"
  by (auto simp: keeps_def hret_def)

lemma keeps_answer: "keeps J K (answer r) F"
  by (auto simp: keeps_def answer_def)

lemma keeps_hguard: "(b \<Longrightarrow> F ()) \<Longrightarrow> keeps J K (hguard b r) F"
  by (simp add: hguard_def keeps_answer keeps_hret)

lemma keeps_found: "(\<And>a. x = Some a \<Longrightarrow> F a) \<Longrightarrow> keeps J K (found x r) F"
  by (simp add: found_def keeps_answer keeps_hret split: option.splits)

lemma keeps_dbcall:
  assumes "preserves J m" and "yields J m F"
  shows "keeps J K (dbcall m) (\<lambda>r. \<forall>a. r = Inr a \<longrightarrow> F a)"
proof (rule keepsI)
  fix s r s' assume s: "J (fst (sv_db s))" "K (sv_fw s)" and run: "dbcall m s = (r, s')"
  obtain x d where m: "m (sv_db s) = (x, d)" by (cases "m (sv_db s)")
  then have "r = Inr x" "s' = s\<lparr>sv_db := d\<rparr>" using run by (auto simp: dbcall_def)
  moreover have "J (fst d)" using preservesD [OF assms(1) s(1)] m by simp
  moreover have "\<forall>a. x = Inr a \<longrightarrow> F a"
    using assms(2) s(1) m unfolding yields_def by (metis fst_conv)
  ultimately show "J (fst (sv_db s')) \<and> K (sv_fw s') \<and> (\<forall>a. r = Inr a \<longrightarrow> (\<forall>b. a = Inr b \<longrightarrow> F b))"
    using s by simp
qed

lemma keeps_dbdo: "preserves J m \<Longrightarrow> keeps J K (dbdo m) (\<lambda>_. True)"
  unfolding dbdo_def
  by (rule keeps_hb [where F = "\<lambda>_. True"]) (auto intro: keeps_weaken [OF keeps_dbcall] keeps_hret simp: yields_def)

lemma keeps_dbtry:
  assumes "preserves J m" and "yields J m F"
  shows "keeps J K (dbtry m) F"
  unfolding dbtry_def
  by (rule keeps_hb [OF keeps_dbcall [OF assms]]) (auto split: sum.splits intro: keeps_answer keeps_hret)

lemma keeps_fwcall: "(\<And>w. K w \<Longrightarrow> K (snd (f w))) \<Longrightarrow> keeps J K (fwcall f) (\<lambda>_. True)"
  unfolding keeps_def fwcall_def by (auto split: prod.splits) (metis snd_conv)

lemma keeps_if: "(b \<Longrightarrow> keeps J K m F) \<Longrightarrow> (\<not> b \<Longrightarrow> keeps J K n F) \<Longrightarrow> keeps J K (if b then m else n) F"
  by simp

lemma keeps_option:
  "(x = None \<Longrightarrow> keeps J K m F) \<Longrightarrow> (\<And>a. x = Some a \<Longrightarrow> keeps J K (f a) F) \<Longrightarrow>
   keeps J K (case x of None \<Rightarrow> m | Some a \<Rightarrow> f a) F"
  by (cases x) auto

lemma keeps_sum:
  "(\<And>e. x = Inl e \<Longrightarrow> keeps J K (f e) F) \<Longrightarrow> (\<And>a. x = Inr a \<Longrightarrow> keeps J K (g a) F) \<Longrightarrow>
   keeps J K (case x of Inl e \<Rightarrow> f e | Inr a \<Rightarrow> g a) F"
  by (cases x) auto

lemma keeps_Let: "keeps J K (f x) F \<Longrightarrow> keeps J K (Let x f) F"
  by simp

lemma keeps_True: "keeps J K m F \<Longrightarrow> keeps J K m (\<lambda>_. True)"
  by (rule keeps_weaken) simp_all

lemma keeps_pair: "(\<And>a b. x = (a, b) \<Longrightarrow> keeps J K (f a b) F) \<Longrightarrow> keeps J K (case x of (a, b) \<Rightarrow> f a b) F"
  by (cases x) auto

lemma keeps_hb_guard: "(b \<Longrightarrow> keeps J K (f ()) G) \<Longrightarrow> keeps J K (hb (hguard b r) f) G"
  by (rule keeps_hb [OF keeps_hguard]) auto

lemma keeps_hb_found: "(\<And>a. x = Some a \<Longrightarrow> keeps J K (f a) G) \<Longrightarrow> keeps J K (hb (found x r) f) G"
  by (rule keeps_hb [OF keeps_found]) auto

lemma keeps_hb_any: "keeps J K m (\<lambda>_. True) \<Longrightarrow> (\<And>a. keeps J K (f a) G) \<Longrightarrow> keeps J K (hb m f) G"
  by (rule keeps_hb)

lemmas keeps_rules = keeps_hguard keeps_found keeps_answer keeps_hret keeps_if keeps_option keeps_sum keeps_pair

section \<open>Reads\<close>

lemma yields_True: "yields J m (\<lambda>_. True)"
  by (simp add: yields_def)

lemma yields_query: "(\<And>d. J d \<Longrightarrow> F (f d)) \<Longrightarrow> yields J (query f) F"
  by (auto simp: yields_def query_def stmt_def split: prod.splits if_splits)

lemma preserves_reads [intro]:
  "preserves J (GetUser i)" "preserves J (GetUserByUsername un)" "preserves J ListUsers"
  "preserves J (GetGroup i)" "preserves J (GetGroupByName nm)" "preserves J (GetGroupByPortProto p pr)"
  "preserves J ListGroups" "preserves J (GetUserGroups i b)" "preserves J (UserHasGroupAccess un i b)"
  "preserves J GetAllUserGroupPorts" "preserves J (ListAudit n)" "preserves J (CountRecentFailedAttempts now ip w)"
  "preserves J (CountRecentUserFailures now un rs w)" "preserves J (CountRecentIPChanges now un w)"
  "preserves J (GetRecentIPChangeIPs now un w)" "preserves J (GetNodeByTokenHash h)" "preserves J ListNodes"
  "preserves J (NodeTargetPorts i)" "preserves J DesiredStateLocal" "preserves J (DesiredStateForNode i)"
  "preserves J (own_groups i)" "preserves J (groupMembers i)"
  unfolding GetUser_def GetUserByUsername_def ListUsers_def GetGroup_def GetGroupByName_def
    GetGroupByPortProto_def ListGroups_def GetUserGroups_def UserHasGroupAccess_def GetAllUserGroupPorts_def
    ListAudit_def CountRecentFailedAttempts_def CountRecentUserFailures_def CountRecentIPChanges_def
    GetRecentIPChangeIPs_def GetNodeByTokenHash_def ListNodes_def NodeTargetPorts_def DesiredStateLocal_def
    DesiredStateForNode_def own_groups_def groupMembers_def
  by (rule preserves_query)+

text \<open>The lookups of the authentication code leave the tables as they are.\<close>

lemma query_fst: "query f s = (r, s') \<Longrightarrow> fst s' = fst s"
  by (auto simp: query_def stmt_def split: prod.splits if_splits)

lemma CheckIPThrottle_fst: "CheckIPThrottle now ip m w s = (err, s') \<Longrightarrow> fst s' = fst s"
  unfolding CheckIPThrottle_def CountRecentFailedAttempts_def
  by (auto split: prod.splits sum.splits if_splits dest: query_fst)

lemma IsAdmin_run:
  assumes "IsAdmin un s = (b, s')"
  shows "fst s' = fst s \<and> (b \<longrightarrow> (\<exists>u \<in> set (users (fst s)). u_name u = un \<and> u_admin u))"
proof (rule GetUserByUsername_cases [of un s])
  fix t assume "GetUserByUsername un s = (Inr (find (\<lambda>u. u_name u = un) (users (fst s))), t)" "fst t = fst s"
  then show ?thesis
    using assms by (cases "find (\<lambda>u. u_name u = un) (users (fst s))") (auto simp: IsAdmin_def find_Some_iff)
qed (use assms in \<open>auto simp: IsAdmin_def\<close>)

lemma CheckIPAnomaly_fst: "CheckIPAnomaly now un w m s = (a, s') \<Longrightarrow> fst s' = fst s"
  unfolding CheckIPAnomaly_def GetUserByUsername_def CountRecentIPChanges_def GetRecentIPChangeIPs_def Let_def
  by (auto split: prod.splits sum.splits option.splits if_splits dest!: query_fst)

lemma preserves_UserGroupStates [intro]: "preserves J (UserGroupStates i)"
  unfolding UserGroupStates_def ListGroups_def by (intro preserves_bnd preserves_query preserves_ret)

lemma run_keeps:
  assumes "keeps J K m F" and "J (fst (sv_db s))" and "K (sv_fw s)" and "run m s = (r, s')"
  shows "J (fst (sv_db s')) \<and> K (sv_fw s')"
proof -
  obtain x t where "m s = (x, t)" by (cases "m s")
  with keepsD [OF assms(1-3) this] assms(4) show ?thesis by (cases x) (auto simp: run_def)
qed

end
