(* ===== verification/ClientOps.thy ===== *)
theory ClientOps
  imports Keeps
begin

text \<open>
  The client and node endpoints under an arbitrary pair of predicates: the locale lists what each write
  and each firewall call of these handlers must keep, given what the handler knows of its arguments,
  and shows every handler once.  \<open>okA\<close> are the names a request can authenticate as, \<open>okT\<close> the users whose
  memberships it may change, \<open>okIP\<close> the addresses it may open for a user, \<open>okE\<close> the groups it may open,
  \<open>okAdm\<close> whether it can pass for an administrator.
\<close>

locale client_ops =
  fixes env :: "'s env" and rq :: request and J :: "db \<Rightarrow> bool" and K :: "'s \<Rightarrow> bool"
    and okU :: "user \<Rightarrow> bool" and okG :: "grp \<Rightarrow> bool" and okA :: "string \<Rightarrow> bool" and okT :: "int \<Rightarrow> bool"
    and okE :: "int \<Rightarrow> grp \<Rightarrow> bool" and okIP :: "string \<Rightarrow> string \<Rightarrow> bool" and okAdm :: bool
  assumes row_user: "J d \<Longrightarrow> u \<in> set (users d) \<Longrightarrow> okU u"
    and row_group: "J d \<Longrightarrow> g \<in> set (grps d) \<Longrightarrow> okG g"
    and row_member: "J d \<Longrightarrow> g \<in> set (grps d) \<Longrightarrow> m \<in> set (members d) \<Longrightarrow> is_row uid (g_id g) m \<Longrightarrow> okE uid g"
    and auth: "J d \<Longrightarrow> accepts (e_now env) (c_ttl (e_cfg env)) (users d) (rq_auth rq) row \<Longrightarrow> okA (u_name row)"
    and own: "okU u \<Longrightarrow> okA (u_name u) \<Longrightarrow> okT (u_id u)"
    and admin: "okU u \<Longrightarrow> okA (u_name u) \<Longrightarrow> u_admin u \<Longrightarrow> okAdm"
    and any: "okAdm \<Longrightarrow> okT i"
    and own_ip: "okU u \<Longrightarrow> okT (u_id u) \<Longrightarrow> u_ip u = Some ip \<Longrightarrow> ip \<noteq> [] \<Longrightarrow> okIP (u_name u) ip"
    and new_ip: "okA un \<Longrightarrow> allowlistable (clientIP (e_cfg env) rq) \<Longrightarrow> okIP un (clientIP (e_cfg env) rq)"
    and w_failed: "preserves J (RecordFailedAttempt now uo (Some ip) rs)"
    and w_audit: "preserves J (LogAudit now a b t e)"
    and w_report: "preserves J (UpdateNodeReport now i v b)"
    and w_ip: "okU u \<Longrightarrow> okT (u_id u) \<Longrightarrow> okIP (u_name u) ip \<Longrightarrow> allowlistable ip \<Longrightarrow>
      preserves J (RecordIPChange now (u_id u) (u_name u) ip)"
    and w_enable: "okT i \<Longrightarrow> preserves J (SetMembershipEnabled i gi en)"
    and w_consume: "okAdm \<Longrightarrow> preserves J (ConsumeTOTPCounter i c)"
    and k_remove: "K w \<Longrightarrow> okU u \<Longrightarrow> okT (u_id u) \<Longrightarrow> okG g \<Longrightarrow>
      K (snd (manager_RemoveRule (e_be env) ip (g_port g) (u_name u) (g_proto g) (g_name g) w))"
    and k_reconcile: "K w \<Longrightarrow> okU u \<Longrightarrow> okT (u_id u) \<Longrightarrow> okIP (u_name u) ip \<Longrightarrow>
      \<forall>g \<in> set gs. okG g \<and> okE (u_id u) g \<Longrightarrow>
      K (snd (manager_Reconcile (e_be env) (c_prefix (e_cfg env)) (u_name u) ip (e_order env (portMap gs)) w))"
begin

section \<open>Calls\<close>

abbreviation kp :: "('s, 'a) hm \<Rightarrow> ('a \<Rightarrow> bool) \<Rightarrow> bool" where
  "kp \<equiv> keeps J K"

lemma J_add_failed: "J d \<Longrightarrow> J (add_failed (failed_row now usr ip rs) d)"
  using preservesD [OF w_failed, of "(d, [])" now usr ip rs] RecordFailedAttempt_effect(2) [of "(d, [])" now usr ip rs]
  by simp

lemma keeps_authUser: "kp (authUser env rq) okA"
proof (rule keepsI)
  fix s r s' assume s: "J (fst (sv_db s))" "K (sv_fw s)" and run: "authUser env rq s = (r, s')"
  obtain un err d where v: "VerifyHMAC (e_now env) (rq_auth rq) (c_ttl (e_cfg env)) (requestIP (e_cfg env) rq) (sv_db s) = ((un, err), d)"
    by (metis surj_pair)
  show "J (fst (sv_db s')) \<and> K (sv_fw s') \<and> (\<forall>a. r = Inr a \<longrightarrow> okA a)"
    using VerifyHMAC_run [OF v] run v s J_add_failed auth [OF s(1)]
    by (auto simp: authUser_def)
qed

lemma keeps_requireAdmin: "kp (requireAdmin env rq) (\<lambda>u. okU u \<and> okA (u_name u) \<and> okAdm)"
proof (rule keepsI)
  fix s r s' assume s: "J (fst (sv_db s))" "K (sv_fw s)" and run: "requireAdmin env rq s = (r, s')"
  obtain uo err d where v: "RequireAdmin (e_now env) (rq_auth rq) (c_ttl (e_cfg env)) (requestIP (e_cfg env) rq) (sv_db s) = ((uo, err), d)"
    by (metis surj_pair)
  have adm: "okU row \<and> okA (u_name row) \<and> okAdm" if "row \<in> set (users (fst (sv_db s)))" "u_admin row"
      "accepts (e_now env) (c_ttl (e_cfg env)) (users (fst (sv_db s))) (rq_auth rq) row" for row
    using row_user [OF s(1) that(1)] auth [OF s(1) that(3)] admin that(2) by blast
  show "J (fst (sv_db s')) \<and> K (sv_fw s') \<and> (\<forall>a. r = Inr a \<longrightarrow> okU a \<and> okA (u_name a) \<and> okAdm)"
    using RequireAdmin_run [OF v] run v s J_add_failed adm by (auto simp: requireAdmin_def)
qed

lemma keeps_throttle: "kp m F \<Longrightarrow> kp (throttleGate env rq m) F"
proof (rule keepsI)
  fix s r s' assume m: "kp m F" and s: "J (fst (sv_db s))" "K (sv_fw s)" and run: "throttleGate env rq m s = (r, s')"
  obtain err d where c: "CheckIPThrottle (e_now env) (requestIP (e_cfg env) rq) (c_throttle_max (e_cfg env))
      (c_throttle_window (e_cfg env)) (sv_db s) = (err, d)" by (metis surj_pair)
  have "fst d = fst (sv_db s)" using c by (rule CheckIPThrottle_fst)
  with s c run keepsD [OF m, of "s\<lparr>sv_db := d\<rparr>" r s'] show "J (fst (sv_db s')) \<and> K (sv_fw s') \<and> (\<forall>a. r = Inr a \<longrightarrow> F a)"
    by (auto simp: throttleGate_def split: if_splits)
qed

lemma keeps_isAdmin: "okA un \<Longrightarrow> kp (isAdmin un) (\<lambda>b. b \<longrightarrow> okAdm)"
proof (rule keepsI)
  fix s r s' assume un: "okA un" and s: "J (fst (sv_db s))" "K (sv_fw s)" and run: "isAdmin un s = (r, s')"
  obtain b d where "IsAdmin un (sv_db s) = (b, d)" by (metis surj_pair)
  with IsAdmin_run [OF this] run un s row_user [OF s(1)] admin
  show "J (fst (sv_db s')) \<and> K (sv_fw s') \<and> (\<forall>a. r = Inr a \<longrightarrow> a \<longrightarrow> okAdm)" by (auto simp: isAdmin_def)
qed

lemma keeps_anomaly: "kp (anomalyCheck env un) (\<lambda>_. True)"
  by (intro keepsI) (auto simp: anomalyCheck_def split: prod.splits dest!: CheckIPAnomaly_fst)

lemma try_user: "kp (dbtry (GetUser i)) (\<lambda>uo. \<forall>u. uo = Some u \<longrightarrow> okU u \<and> u_id u = i)"
  by (intro keeps_dbtry preserves_reads) (auto simp: GetUser_def find_Some_iff row_user intro!: yields_query)

lemma call_user: "kp (dbcall (GetUser i)) (\<lambda>r. \<forall>uo. r = Inr uo \<longrightarrow> (\<forall>u. uo = Some u \<longrightarrow> okU u \<and> u_id u = i))"
  by (intro keeps_dbcall preserves_reads) (auto simp: GetUser_def find_Some_iff row_user intro!: yields_query)

lemma try_name: "kp (dbtry (GetUserByUsername un)) (\<lambda>uo. \<forall>u. uo = Some u \<longrightarrow> okU u \<and> u_name u = un)"
  by (intro keeps_dbtry preserves_reads) (auto simp: GetUserByUsername_def find_Some_iff row_user intro!: yields_query)

lemma try_group: "kp (dbtry (GetGroup i)) (\<lambda>go. \<forall>g. go = Some g \<longrightarrow> okG g \<and> g_id g = i)"
  by (intro keeps_dbtry preserves_reads) (auto simp: GetGroup_def find_Some_iff row_group intro!: yields_query)

lemma yields_groups: "yields J (GetUserGroups i b) (\<lambda>gs. \<forall>g \<in> set gs. okG g \<and> okE i g)"
  unfolding GetUserGroups_def by (rule yields_query) (auto intro: row_group row_member)

lemma try_groups: "kp (dbtry (GetUserGroups i b)) (\<lambda>gs. \<forall>g \<in> set gs. okG g \<and> okE i g)"
  by (intro keeps_dbtry preserves_reads yields_groups)

lemma call_groups: "kp (dbcall (GetUserGroups i b)) (\<lambda>r. \<forall>gs. r = Inr gs \<longrightarrow> (\<forall>g \<in> set gs. okG g \<and> okE i g))"
  by (intro keeps_dbcall preserves_reads yields_groups)

lemma try_any: "preserves J m \<Longrightarrow> kp (dbtry m) (\<lambda>_. True)"
  by (intro keeps_dbtry yields_True)

lemma call_any: "preserves J m \<Longrightarrow> kp (dbcall m) (\<lambda>_. True)"
  by (rule keeps_True, rule keeps_dbcall, assumption, rule yields_True)

lemma keeps_audit: "kp (dbdo (LogAudit now a b t e)) (\<lambda>_. True)"
  by (intro keeps_dbdo w_audit)

section \<open>TOTP checks\<close>

lemma keeps_totpLocked: "kp (totpLocked env u) (\<lambda>_. True)"
  unfolding totpLocked_def
  by (intro keeps_rules keeps_hb [OF call_any]) auto

lemma keeps_totpFailed: "kp (totpFailed env rq u act rep) (\<lambda>_. True)"
  unfolding totpFailed_def by (intro keeps_hb [OF keeps_audit] keeps_dbdo w_failed)

lemma keeps_totpAttempt: "kp v (\<lambda>_. True) \<Longrightarrow> kp (totpAttempt env rq u code act v) (\<lambda>_. True)"
  unfolding totpAttempt_def
  by (intro keeps_rules keeps_hb [OF keeps_totpLocked] keeps_hb [of J K v "\<lambda>_. True"] keeps_hb [OF keeps_totpFailed])
    simp_all

lemma keeps_consumeTOTP: "okAdm \<Longrightarrow> kp (consumeTOTP env u code) (\<lambda>_. True)"
  unfolding consumeTOTP_def
  by (intro keeps_rules keeps_hb [OF call_any] w_consume) simp_all

lemma keeps_stepUp: "okAdm \<Longrightarrow> kp (stepUp env rq u) (\<lambda>_. True)"
  unfolding stepUp_def
  by (intro keeps_rules keeps_hb [OF keeps_totpAttempt] keeps_consumeTOTP) simp_all

section \<open>Handlers\<close>

lemma keeps_remove: "okU u \<Longrightarrow> okT (u_id u) \<Longrightarrow> okG g \<Longrightarrow>
    kp (fwcall (manager_RemoveRule (e_be env) ip (g_port g) (u_name u) (g_proto g) (g_name g))) (\<lambda>_. True)"
  by (intro keeps_fwcall k_remove)

lemma keeps_remove_old:
  "okU u \<Longrightarrow> okT (u_id u) \<Longrightarrow> \<forall>g \<in> set gs. okG g \<and> okE (u_id u) g \<Longrightarrow> kp (remove_old_rules env (u_name u) old gs) (\<lambda>_. True)"
  by (induction gs) (auto intro!: keeps_rules keeps_hb [OF keeps_remove])

lemma keeps_reconcile: "okU u \<Longrightarrow> okT (u_id u) \<Longrightarrow> okIP (u_name u) ip \<Longrightarrow> \<forall>g \<in> set gs. okG g \<and> okE (u_id u) g \<Longrightarrow>
    kp (fwcall (manager_Reconcile (e_be env) (c_prefix (e_cfg env)) (u_name u) ip (e_order env (portMap gs)))) (\<lambda>_. True)"
  by (intro keeps_fwcall k_reconcile)

lemma keeps_setMembership:
  assumes "okT uid" and "okG g"
  shows "kp (setMembership env uid g en) (\<lambda>_. True)"
  unfolding setMembership_def
  using assms
  by (intro keeps_hb [OF call_any] keeps_rules w_enable keeps_hb [OF call_user] keeps_hb [OF call_groups]
      keeps_hb [OF keeps_remove] keeps_hb [OF keeps_reconcile] own_ip) auto

lemma keeps_check_reenable: "okA un \<Longrightarrow> kp (check_reenable env un gid tg msg) (\<lambda>_. True)"
  unfolding check_reenable_def
  by (intro keeps_hb [OF keeps_isAdmin] keeps_rules keeps_hb [OF try_any] preserves_reads keeps_hb [OF keeps_audit]) simp_all

lemma keeps_knock: "kp (knock env rq) (\<lambda>_. True)"
  unfolding knock_def Let_def
  apply (intro keeps_hb [OF keeps_authUser] keeps_hb_guard keeps_hb [OF try_name] keeps_hb_found)
  apply (elim allE impE conjE, assumption, hypsubst)
  apply (intro keeps_hb [OF try_groups] keeps_hb [OF keeps_reconcile] keeps_hb [OF try_any] keeps_hb [OF keeps_anomaly]
      keeps_hb_any [OF keeps_option] keeps_hb_guard keeps_rules)
  by (auto intro: own new_ip w_ip keeps_remove_old keeps_hret)

lemma keeps_status: "kp (status env rq) (\<lambda>_. True)"
  unfolding status_def Let_def
  by (intro keeps_hb [OF keeps_authUser] keeps_hb [OF try_any] keeps_hb [OF call_any] keeps_rules preserves_reads) simp_all

lemma keeps_myGroups: "kp (myGroups env rq) (\<lambda>_. True)"
  unfolding myGroups_def
  by (intro keeps_hb [OF keeps_authUser] keeps_hb [OF try_any] keeps_hb_found keeps_rules preserves_reads) simp_all

lemma keeps_selfToggle: "kp (selfToggleMembership env rq) (\<lambda>_. True)"
  unfolding selfToggleMembership_def
  by (intro keeps_hb [OF keeps_authUser] keeps_hb [OF try_name] keeps_hb_found keeps_hb [OF try_group]
      keeps_hb_any [OF keeps_if] keeps_check_reenable keeps_hb [OF keeps_setMembership] keeps_hb [OF keeps_audit]
      keeps_rules)
    (auto intro: own)

lemma keeps_toggle: "kp (toggleMembership env rq) (\<lambda>_. True)"
proof -
  have adm: "kp (if isSelf then hret () else hb (isAdmin un) (\<lambda>adm. hguard adm r)) (\<lambda>_. isSelf \<or> okAdm)"
    if "okA un" for isSelf un r
    using that by (intro keeps_hb [OF keeps_isAdmin] keeps_rules) auto
  show ?thesis
    unfolding toggleMembership_def Let_def
    by (intro keeps_hb [OF keeps_authUser] keeps_hb [OF try_name] keeps_hb_found keeps_hb [OF adm] keeps_hb [OF try_group]
        keeps_hb_any [OF keeps_if] keeps_check_reenable keeps_stepUp keeps_hb [OF try_any] preserves_reads
        keeps_hb [OF keeps_setMembership] keeps_hb [OF keeps_audit] keeps_rules)
      (auto intro: own any)
qed

lemma keeps_node: "kp (nodeDesiredState env rq) (\<lambda>_. True)"
  unfolding nodeDesiredState_def authNode_def Let_def
  by (intro keeps_hb_any [OF keeps_if] keeps_hb_guard keeps_hb [OF try_any] keeps_hb [OF keeps_dbdo] w_report keeps_rules
      preserves_reads) simp_all

lemma keeps_public: "kp (health env rq) (\<lambda>_. True)" "kp (serveIndex env rq) (\<lambda>_. True)"
  unfolding health_def serveIndex_def by (rule keeps_hret, simp)+

end

text \<open>The endpoints that need no administrator.\<close>

definition client_routes :: "route set" where
  "client_routes = {RKnock, RStatus, RMyGroups, RSelfToggle, RToggle, RNodeState, RHealth, RIndex}"

context client_ops begin

lemma keeps_client: "rt \<in> client_routes \<Longrightarrow> kp (handler env rt rq) (\<lambda>_. True)"
  by (auto simp: client_routes_def handler_def keeps_knock keeps_status keeps_myGroups keeps_selfToggle keeps_toggle
      keeps_node keeps_public)

end

end
