(* ===== verification/AdminOps.thy ===== *)
theory AdminOps
  imports ClientOps
begin

text \<open>
  The admin endpoints and the maintenance under an arbitrary pair of predicates, on top of \<open>client_ops\<close>.
  Enrollment replaces a TOTP secret; it is kept apart because the code counter does not survive it.
\<close>

text \<open>The admin endpoints that write, all behind the TOTP gate.\<close>

definition write_routes :: "route set" where
  "write_routes = {RCreateUser, RDeleteUser, RSetAdmin, RAddMembership, RRevoke, RRemoveMembership, RCreateGroup,
     RDeleteGroup}"

locale server_ops = client_ops +
  assumes okAdm: "okAdm"
    and w_create_user: "ValidName un \<Longrightarrow> preserves J (CreateUser now un sec adm)"
    and w_delete_user: "preserves J (DeleteUser i)"
    and w_user: "preserves J (SetUserAdmin i adm)" "preserves J (RotateSecret i sec)" "preserves J (ClearUserState i)"
      "preserves J (EnableTOTP i)" "preserves J (DisableTOTP i)"
    and w_member: "preserves J (AddMembership now i gi en)" "preserves J (RemoveMembership i gi)"
    and w_create_group: "ValidName nm \<Longrightarrow> 1 \<le> p \<Longrightarrow> p \<le> 65535 \<Longrightarrow> pr = ''tcp'' \<or> pr = ''udp'' \<Longrightarrow>
      preserves J (CreateGroup now nm p pr)"
    and w_delete_group: "preserves J (DeleteGroup gi)"
    and k_add: "K w \<Longrightarrow> okU u \<Longrightarrow> okG g \<Longrightarrow> okIP (u_name u) ip \<Longrightarrow>
      K (snd (manager_AddRule (e_be env) ip (g_port g) (u_name u) (g_proto g) (g_name g) w))"
    and k_remove_user: "K w \<Longrightarrow> okU u \<Longrightarrow> K (snd (RemoveUserRules (e_be env) (u_name u) w))"
    and k_guard: "K w \<Longrightarrow> K (snd (manager_SyncGuard (e_be env) ps w))"
    and k_base: "K w \<Longrightarrow> K (snd (be_EnsureBase (e_be env) w))"
    and k_cleanup: "K w \<Longrightarrow> J d \<Longrightarrow> fst (GetAllUserGroupPorts (d, fs)) = Inr ugp \<Longrightarrow>
      K (fst (snd (CleanupStale (e_be env) (e_now env) age ugp w (d, fs'))))"
    and k_all: "K w \<Longrightarrow> J d \<Longrightarrow> K (snd (snd (snd (ReconcileAll (e_be env) (map desired_to_rule (desired_local d)) w))))"
begin

lemma okT [simp]: "okT i"
  using any okAdm .

lemma own_ip': "okU u \<Longrightarrow> has_ip u \<Longrightarrow> okIP (u_name u) (the (u_ip u))"
  by (auto simp: has_ip_def intro: own_ip)

lemma keeps_adminGate: "kp (adminGate env rq) (\<lambda>u. okU u \<and> okA (u_name u))"
  unfolding adminGate_def by (intro keeps_hb [OF keeps_requireAdmin] keeps_hb [OF keeps_stepUp] keeps_rules) simp_all

lemma keeps_the_user: "kp (the_user i) (\<lambda>u. okU u \<and> u_id u = i)"
  unfolding the_user_def by (intro keeps_hb [OF try_user] keeps_rules) simp

lemma keeps_the_group: "kp (the_group i) (\<lambda>g. okG g \<and> g_id g = i)"
  unfolding the_group_def by (intro keeps_hb [OF try_group] keeps_rules) simp

lemma keeps_audit_log: "kp (audit_log env u a t e) (\<lambda>_. True)"
  unfolding audit_log_def by (rule keeps_audit)

lemma try_name': "kp (dbtry (GetUserByUsername un)) (\<lambda>uo. \<forall>u. uo = Some u \<longrightarrow> okU u)"
  by (rule keeps_weaken [OF try_name]) simp

lemma try_groupname: "kp (dbtry (GetGroupByName nm)) (\<lambda>go. \<forall>g. go = Some g \<longrightarrow> okG g)"
  by (intro keeps_dbtry preserves_reads) (auto simp: GetGroupByName_def find_Some_iff row_group intro!: yields_query)

lemma keeps_remove_user: "okU u \<Longrightarrow> kp (fwcall (RemoveUserRules (e_be env) (u_name u))) (\<lambda>_. True)"
  by (intro keeps_fwcall k_remove_user)

lemma keeps_add: "okU u \<Longrightarrow> okG g \<Longrightarrow> okIP (u_name u) ip \<Longrightarrow>
    kp (fwcall (manager_AddRule (e_be env) ip (g_port g) (u_name u) (g_proto g) (g_name g))) (\<lambda>_. True)"
  by (intro keeps_fwcall k_add)

lemma keeps_syncGuard: "kp (syncGuard env) (\<lambda>_. True)"
  unfolding syncGuard_def
  by (intro keeps_hb_any [OF keeps_if] keeps_hb [OF call_any] keeps_rules preserves_reads keeps_hb [OF keeps_fwcall]
      k_guard) simp_all

text \<open>A handler behind the gate: what follows the gate keeps the predicates too.\<close>

abbreviation gated :: "('a, resp) hm \<Rightarrow> bool" where
  "gated h \<equiv> \<exists>k. h = hb (adminGate env rq) k \<and> (\<forall>u. okU u \<and> okA (u_name u) \<longrightarrow> kp (k u) (\<lambda>_. True))"

lemma gatedI: "(\<And>u. okU u \<and> okA (u_name u) \<Longrightarrow> kp (k u) (\<lambda>_. True)) \<Longrightarrow> gated (hb (adminGate env rq) k)"
  by blast

lemma keeps_gated: "gated h \<Longrightarrow> kp h (\<lambda>_. True)"
  by (elim exE conjE, hypsubst) (rule keeps_hb [OF keeps_adminGate], blast)

lemmas gate = keeps_hb [OF keeps_adminGate] keeps_hb [OF keeps_requireAdmin] keeps_hb_found keeps_hb_guard
lemmas calls = keeps_hb [OF keeps_the_user] keeps_hb [OF keeps_the_group] keeps_hb [OF try_any] keeps_hb [OF call_any]
  keeps_hb [OF keeps_audit_log] keeps_hb [OF keeps_audit] keeps_hb [OF keeps_syncGuard]

section \<open>Users and memberships\<close>

lemma keeps_reads:
  "kp (adminListUsers env rq) (\<lambda>_. True)" "kp (adminUserGroups env rq) (\<lambda>_. True)"
  "kp (adminListGroups env rq) (\<lambda>_. True)" "kp (adminListAudit env rq) (\<lambda>_. True)"
  unfolding adminListUsers_def adminUserGroups_def adminListGroups_def adminListAudit_def Let_def
  by (intro gate calls keeps_rules preserves_reads preserves_UserGroupStates TrueI)+

lemma gated_createUser: "gated (adminCreateUser env rq)"
  unfolding adminCreateUser_def Let_def by (intro gatedI gate calls keeps_rules w_create_user) simp_all

lemma gated_deleteUser: "gated (adminDeleteUser env rq)"
  unfolding adminDeleteUser_def
  by (intro gatedI gate calls keeps_hb [OF keeps_remove_user] keeps_rules w_delete_user) simp_all

lemma gated_setAdmin: "gated (adminSetAdmin env rq)"
  unfolding adminSetAdmin_def Let_def by (intro gatedI gate calls keeps_rules w_user) simp_all

lemma gated_revoke: "gated (adminRevokeUser env rq)"
  unfolding adminRevokeUser_def Let_def
  by (intro gatedI gate calls keeps_hb [OF keeps_remove_user] keeps_hb_any [OF keeps_if] keeps_hb_any [OF keeps_option]
      keeps_audit_log try_any keeps_rules w_user) simp_all

lemma gated_addMembership: "gated (adminAddMembership env rq)"
  unfolding adminAddMembership_def Let_def
  by (intro gatedI gate calls keeps_hb_any [OF keeps_if] keeps_rules w_member) (auto intro: keeps_add own_ip' keeps_hret)

lemma gated_removeMembership: "gated (adminRemoveMembership env rq)"
  unfolding adminRemoveMembership_def
  by (intro gatedI gate keeps_hb [OF try_name'] keeps_hb [OF try_groupname] calls keeps_hb_any [OF keeps_if] keeps_rules w_member)
    (auto intro: keeps_remove keeps_hret)

section \<open>Groups, nodes and TOTP\<close>

lemma gated_createGroup: "gated (adminCreateGroup env rq)"
  unfolding adminCreateGroup_def Let_def
  by (intro gatedI gate calls keeps_hb_any [OF keeps_if] keeps_hb_any [OF keeps_sum] keeps_rules w_create_group preserves_reads)
    (auto intro!: keeps_rules split: sum.splits option.splits)

lemma try_members: "kp (dbtry (groupMembers i)) (\<lambda>ms. \<forall>(un, ip) \<in> set ms. \<exists>u. okU u \<and> u_name u = un)"
  unfolding groupMembers_def
  by (intro keeps_dbtry preserves_query yields_query) (auto dest: row_user)

lemma keeps_remove_members:
  "okG g \<Longrightarrow> \<forall>(un, ip) \<in> set ms. \<exists>u. okU u \<and> u_name u = un \<Longrightarrow> kp (remove_member_rules env g ms errs) (\<lambda>_. True)"
proof (induction ms arbitrary: errs)
  case (Cons m ms)
  obtain un ip u where m: "m = (un, ip)" "okU u" "u_name u = un" using Cons.prems(2) by (cases m) auto
  have "kp (remove_member_rules env g ms errs) (\<lambda>_. True)" for errs using Cons by simp
  then show ?case
    using m Cons.prems(1) by (auto intro!: keeps_rules keeps_hb_any keeps_remove)
qed (simp add: keeps_hret)

lemma gated_deleteGroup: "gated (adminDeleteGroup env rq)"
  unfolding adminDeleteGroup_def
  by (intro gatedI gate keeps_hb [OF keeps_the_group] keeps_hb [OF try_members] keeps_hb [OF keeps_remove_members] calls
      keeps_rules w_delete_group) simp_all

lemma keeps_node_views: "kp (node_views env ns out) (\<lambda>_. True)"
  by (induction ns arbitrary: out) (auto intro!: keeps_rules keeps_hb [OF call_any])

lemma keeps_listNodes: "kp (adminListNodes env rq) (\<lambda>_. True)"
  unfolding adminListNodes_def by (intro gate calls keeps_hb [OF keeps_node_views] keeps_rules preserves_reads) simp

lemma keeps_activate: "kp (totpActivate env rq) (\<lambda>_. True)"
  unfolding totpActivate_def Let_def
  by (intro gate calls keeps_hb [OF keeps_totpAttempt] keeps_rules w_user) simp_all

lemma keeps_disable: "kp (totpDisable env rq) (\<lambda>_. True)"
  unfolding totpDisable_def Let_def
  by (intro gate calls keeps_hb_any [OF keeps_if] keeps_hb [OF keeps_totpAttempt] keeps_consumeTOTP okAdm keeps_rules w_user)
    simp_all

lemma keeps_enroll:
  assumes "\<And>u sec. okU u \<Longrightarrow> okA (u_name u) \<Longrightarrow> preserves J (SetTOTPSecret (u_id u) sec)"
  shows "kp (totpEnroll env rq) (\<lambda>_. True)"
  unfolding totpEnroll_def Let_def
  by (intro gate calls keeps_hb_any [OF keeps_if] keeps_hb [OF keeps_totpAttempt] keeps_consumeTOTP okAdm keeps_rules assms)
    simp_all

lemma gated_handler: "rt \<in> write_routes \<Longrightarrow> gated (handler env rt rq)"
  using gated_createUser gated_deleteUser gated_setAdmin gated_revoke gated_addMembership gated_removeMembership
    gated_createGroup gated_deleteGroup
  by (auto simp: write_routes_def handler_def)

lemma keeps_handler: "rt \<noteq> REnroll \<Longrightarrow> kp (handler env rt rq) (\<lambda>_. True)"
  using keeps_client [of rt]
  using gated_handler [THEN keeps_gated, of rt]
  by (cases rt) (simp_all add: client_routes_def write_routes_def handler_def keeps_reads keeps_listNodes keeps_activate
      keeps_disable)

section \<open>Maintenance\<close>

lemma J_cleanup_users:
  "J (fst d) \<Longrightarrow> J (fst (snd (snd (cleanup_users be now age ugp us removed w d))))"
proof (induction us arbitrary: removed w d)
  case (Cons u us)
  obtain r d1 where c: "ClearUserState (u_id u) d = (r, d1)" by (cases "ClearUserState (u_id u) d")
  have "J (fst d1)" using preservesD [OF w_user(3) Cons.prems, of "u_id u"] c by simp
  with Cons c show ?case by (auto simp: Let_def split: sum.splits)
qed simp

lemma J_CleanupStale: "J (fst d) \<Longrightarrow> J (fst (snd (snd (CleanupStale be now age ugp w d))))"
  using preservesD [OF preserves_reads(3), of J d] J_cleanup_users
  by (auto simp: CleanupStale_def split: prod.splits sum.splits)

lemma keeps_expire: "kp (expire_stale env) (\<lambda>_. True)"
proof (rule keepsI)
  fix s r s' assume s: "J (fst (sv_db s))" "K (sv_fw s)" and run: "expire_stale env s = (r, s')"
  obtain x d where g: "GetAllUserGroupPorts (sv_db s) = (x, d)" by (cases "GetAllUserGroupPorts (sv_db s)")
  have d: "fst d = fst (sv_db s)" using g unfolding GetAllUserGroupPorts_def by (rule query_fst)
  show "J (fst (sv_db s')) \<and> K (sv_fw s') \<and> (\<forall>a. r = Inr a \<longrightarrow> True)"
  proof (cases x)
    case (Inl e)
    then show ?thesis using run g s d by (auto simp: expire_stale_def hb_def dbcall_def split: if_splits)
  next
    case (Inr ugp)
    obtain res w d2 where c: "CleanupStale (e_be env) (e_now env) (c_cleanup_days (e_cfg env) * 86400) ugp (sv_fw s) d = (res, w, d2)"
      using prod_cases3 by blast
    have "J (fst d2)" using J_CleanupStale [of d] c d s by (metis snd_conv)
    moreover have "K w"
      using k_cleanup [OF s(2,1), of "snd (sv_db s)" ugp "c_cleanup_days (e_cfg env) * 86400" "snd d"] g Inr c d
      by (metis fst_conv prod.collapse snd_conv)
    ultimately show ?thesis
      using run g Inr c s by (auto simp: expire_stale_def hb_def dbcall_def split: if_splits)
  qed
qed

lemma call_desired: "kp (dbcall DesiredStateLocal) (\<lambda>r. \<forall>ds. r = Inr ds \<longrightarrow> (\<exists>d. J d \<and> ds = desired_local d))"
  unfolding DesiredStateLocal_def by (intro keeps_dbcall preserves_query yields_query) blast

lemma keeps_Maintain: "kp (Maintain env) (\<lambda>_. True)"
  unfolding Maintain_def
  by (intro keeps_hb [OF keeps_fwcall] k_base keeps_hb [OF keeps_expire] keeps_hb [OF call_desired] keeps_rules
      keeps_hb [OF keeps_syncGuard]) (auto dest: k_all split: prod.splits)

end

end
