(* ===== verification/ServerInv.thy ===== *)
theory ServerInv
  imports AdminOps
begin

text \<open>
  The invariant of the server: whatever requests arrive, whatever statements and firewall calls fail, the
  tables stay well formed, every name and port in them is valid, every recorded address is one the
  knock would accept, and the firewall holds only rules made of such names, ports and addresses.
\<close>

definition user_ok :: "user \<Rightarrow> bool" where
  "user_ok u \<longleftrightarrow> ValidName (u_name u) \<and> (case u_ip u of None \<Rightarrow> True | Some ip \<Rightarrow> allowlistable ip)"

lemma user_ok_iff: "user_ok u \<longleftrightarrow> ValidName (u_name u) \<and> (\<forall>ip. u_ip u = Some ip \<longrightarrow> allowlistable ip)"
  by (simp add: user_ok_def split: option.splits)

definition port_ok :: "int \<Rightarrow> string \<Rightarrow> bool" where
  "port_ok p pr \<longleftrightarrow> 1 \<le> p \<and> p \<le> 65535 \<and> (pr = ''tcp'' \<or> pr = ''udp'')"

definition grp_ok :: "grp \<Rightarrow> bool" where
  "grp_ok g \<longleftrightarrow> ValidName (g_name g) \<and> port_ok (g_port g) (g_proto g)"

definition targets_ok :: "db \<Rightarrow> bool" where
  "targets_ok d \<longleftrightarrow> (\<forall>t \<in> set (targets d). port_ok (t_port t) (t_proto t))"

definition rows_ok :: "db \<Rightarrow> bool" where
  "rows_ok d \<longleftrightarrow> (\<forall>u \<in> set (users d). user_ok u) \<and> (\<forall>g \<in> set (grps d). grp_ok g) \<and> targets_ok d"

definition server_ok :: "db \<Rightarrow> bool" where
  "server_ok d \<longleftrightarrow> wf_db d \<and> rows_ok d"

definition key_ok :: "rkey \<Rightarrow> bool" where
  "key_ok = (\<lambda>(ip, port, pr, u, g). allowlistable ip \<and> port_ok port pr \<and> ValidName u \<and> ValidName g)"

text \<open>A server runs its one backend under its configured prefix, and Go visits a map in some order.\<close>

definition good_env :: "'s backend \<Rightarrow> string \<Rightarrow> 's env \<Rightarrow> bool" where
  "good_env be prefix env \<longleftrightarrow> e_be env = be \<and> c_prefix (e_cfg env) = prefix \<and> (\<forall>xs. mset (e_order env xs) = mset xs)"

section \<open>The writes\<close>

lemma preserves_conj:
  "preserves I m \<Longrightarrow> preserves J m \<Longrightarrow> preserves (\<lambda>d. I d \<and> J d) m"
  by (simp add: preserves_def)

lemma preserves_eq: "(\<And>d. I d = J d) \<Longrightarrow> preserves J m \<Longrightarrow> preserves I m"
  by (simp add: preserves_def)

lemma set_upd_where: "x \<in> set (upd_where P f xs) \<Longrightarrow> \<exists>y \<in> set xs. x = (if P y then f y else y)"
  by (auto simp: upd_where_def)

lemma rows_ok_upd:
  "rows_ok d \<Longrightarrow> (\<And>u. user_ok u \<Longrightarrow> user_ok (f u)) \<Longrightarrow> rows_ok (upd_user i f d)"
  by (auto simp: rows_ok_def targets_ok_def upd_user_def dest!: set_upd_where)

lemma rows_ok_tables [simp]:
  "rows_ok (d\<lparr>members := ms\<rparr>) = rows_ok d" "rows_ok (d\<lparr>failed := fl\<rparr>) = rows_ok d"
  "rows_ok (d\<lparr>audits := al, audits_seq := n\<rparr>) = rows_ok d" "rows_ok (d\<lparr>nodes := ns\<rparr>) = rows_ok d"
  "rows_ok (d\<lparr>oplog := ol\<rparr>) = rows_ok d" "rows_ok (d\<lparr>nodes := ns, nodes_seq := n\<rparr>) = rows_ok d"
  by (simp_all add: rows_ok_def targets_ok_def)

lemma rows_ok_user_writes:
  "preserves rows_ok (SetUserAdmin i adm)" "preserves rows_ok (RotateSecret i sec)"
  "preserves rows_ok (ClearUserState i)" "preserves rows_ok (EnableTOTP i)" "preserves rows_ok (DisableTOTP i)"
  "preserves rows_ok (SetTOTPSecret i sec)"
  unfolding SetUserAdmin_def RotateSecret_def ClearUserState_def EnableTOTP_def DisableTOTP_def SetTOTPSecret_def
  by (intro preserves_exec rows_ok_upd; simp add: user_ok_iff)+

lemma rows_ok_logs:
  "preserves rows_ok (LogAudit now a b t e)" "preserves rows_ok (RecordFailedAttempt now uo ip rs)"
  "preserves rows_ok (UpdateNodeReport now i v b)"
  unfolding LogAudit_def RecordFailedAttempt_def UpdateNodeReport_def by (intro preserves_exec; simp)+

lemma rows_ok_members:
  "preserves rows_ok (SetMembershipEnabled i gi en)" "preserves rows_ok (RemoveMembership i gi)"
  "preserves rows_ok (AddMembership now i gi en)"
  unfolding SetMembershipEnabled_def RemoveMembership_def AddMembership_def
  by (intro preserves_exec preserves_stmt; simp)+

lemma rows_ok_consume: "preserves rows_ok (ConsumeTOTPCounter i c)"
  unfolding ConsumeTOTPCounter_def
  by (intro preserves_stmt) (auto simp: rows_ok_def targets_ok_def user_ok_iff dest!: set_upd_where)

lemma rows_ok_deletes: "preserves rows_ok (DeleteUser i)" "preserves rows_ok (DeleteGroup i)"
  unfolding DeleteUser_def DeleteGroup_def by (intro preserves_exec; simp add: rows_ok_def targets_ok_def)+

lemma rows_ok_nodes:
  "preserves rows_ok (CreateNode now nm h)" "preserves rows_ok (DeleteNode i)" "preserves rows_ok (RemoveGroupTarget i ni)"
  unfolding CreateNode_def DeleteNode_def RemoveGroupTarget_def
  by (intro preserves_exec preserves_stmt; simp add: rows_ok_def targets_ok_def)+

lemma rows_ok_add_target: "port_ok p pr \<Longrightarrow> preserves rows_ok (AddGroupTarget i ni p pr)"
  unfolding AddGroupTarget_def
  by (intro preserves_stmt) (auto simp: rows_ok_def targets_ok_def dest!: set_upd_where)

lemma rows_ok_create_user: "ValidName un \<Longrightarrow> preserves rows_ok (CreateUser now un sec adm)"
  unfolding CreateUser_def by (intro preserves_stmt) (auto simp: rows_ok_def targets_ok_def user_ok_iff new_user_def)

lemma rows_ok_create_group: "ValidName nm \<Longrightarrow> port_ok p pr \<Longrightarrow> preserves rows_ok (CreateGroup now nm p pr)"
  unfolding CreateGroup_def by (intro preserves_stmt) (auto simp: rows_ok_def targets_ok_def grp_ok_def)

lemma rows_ok_ip: "allowlistable ip \<Longrightarrow> preserves rows_ok (RecordIPChange now i un ip)"
  unfolding RecordIPChange_def query_row_def log_op_def
  by (intro preserves_txn preserves_bnd preserves_stmt preserves_exec preserves_ret)
    (auto simp: user_ok_iff intro!: rows_ok_upd preserves_exec preserves_ret split: option.splits)

lemma server_ok_preserves: "preserves wf_db m \<Longrightarrow> preserves rows_ok m \<Longrightarrow> preserves server_ok m"
  unfolding server_ok_def [abs_def] by (rule preserves_conj)

lemma server_ok_writes:
  "preserves server_ok (SetUserAdmin i adm)" "preserves server_ok (RotateSecret i sec)"
  "preserves server_ok (ClearUserState i)" "preserves server_ok (EnableTOTP i)" "preserves server_ok (DisableTOTP i)"
  "preserves server_ok (SetTOTPSecret i sec)" "preserves server_ok (LogAudit now a b t e)"
  "preserves server_ok (RecordFailedAttempt now uo ipo rs)" "preserves server_ok (UpdateNodeReport now i v b)"
  "preserves server_ok (SetMembershipEnabled i gi en)" "preserves server_ok (RemoveMembership i gi)"
  "preserves server_ok (AddMembership now i gi en)" "preserves server_ok (ConsumeTOTPCounter i c)"
  "preserves server_ok (DeleteUser i)" "preserves server_ok (DeleteGroup i)"
  "ValidName nm \<Longrightarrow> preserves server_ok (CreateUser now nm sec adm)"
  "ValidName nm \<Longrightarrow> port_ok p pr \<Longrightarrow> preserves server_ok (CreateGroup now nm p pr)"
  "allowlistable ip \<Longrightarrow> preserves server_ok (RecordIPChange now i un ip)"
  "preserves server_ok (CreateNode now nm h)" "preserves server_ok (DeleteNode i)"
  "preserves server_ok (RemoveGroupTarget gi ni)" "port_ok p pr \<Longrightarrow> preserves server_ok (AddGroupTarget gi ni p pr)"
  by (intro server_ok_preserves wf_writes rows_ok_nodes rows_ok_add_target rows_ok_user_writes rows_ok_logs rows_ok_members rows_ok_consume
      rows_ok_deletes rows_ok_create_user rows_ok_create_group rows_ok_ip; assumption?)+

section \<open>What it says of rows and rules\<close>

lemma rows_okD: "server_ok d \<Longrightarrow> u \<in> set (users d) \<Longrightarrow> user_ok u" "server_ok d \<Longrightarrow> g \<in> set (grps d) \<Longrightarrow> grp_ok g"
    "server_ok d \<Longrightarrow> targets_ok d"
  by (simp_all add: server_ok_def rows_ok_def)

lemma ValidName_facts: "ValidName s \<Longrightarrow> s \<noteq> [] \<and> CHR '':'' \<notin> set s"
  using ValidName_nonempty ValidName_no_colon by blast

lemma desired_local_ok:
  assumes "server_ok d" and "r \<in> set (desired_local d)"
  shows "ValidName (d_user r)" and "key_ok (rule_key (desired_to_rule r))"
proof -
  obtain m u g where u: "u \<in> set (users d)" "g \<in> set (grps d)" and r: "grants r m u g (g_port g) (g_proto g)"
    using assms(2) in_desired_local by blast
  have "user_ok u" "grp_ok g" using rows_okD assms(1) u by auto
  with r show "ValidName (d_user r)" "key_ok (rule_key (desired_to_rule r))"
    by (auto simp: grants_def user_ok_iff grp_ok_def key_ok_def desired_to_rule_def rule_key_def)
qed

lemma server_ok_named: "server_ok d \<Longrightarrow> named (map desired_to_rule (desired_local d))"
  using desired_local_ok(1) ValidName_facts by (auto simp: named_def desired_to_rule_def)

section \<open>The interface is met\<close>

lemma set_order: "good_env be prefix env \<Longrightarrow> set (e_order env xs) = set xs"
  unfolding good_env_def by (metis set_mset_mset)

lemma ugp_ok:
  assumes "server_ok d" and "fst (GetAllUserGroupPorts (d, fs)) = Inr ugp" and "gp \<in> set (ugp un)"
  shows "gp_group gp \<noteq> []"
proof -
  have "ugp = (\<lambda>un. map (\<lambda>(m, u, g). \<lparr>gp_group = g_name g, gp_port = g_port g, gp_proto = g_proto g\<rparr>)
       (filter (\<lambda>(m, u, g). m_enabled m \<and> u_name u = un) (joined d)))"
    using assms(2) by (auto simp: GetAllUserGroupPorts_def query_def stmt_def split: if_splits)
  with assms(3) obtain g where "g \<in> set (grps d)" "gp_group gp = g_name g" by (auto simp: joined_def)
  with rows_okD(2) [OF assms(1)] ValidName_facts show ?thesis by (metis grp_ok_def)
qed

lemma server_ops_ok:
  assumes be: "keyed_store be prefix store host I" and env: "good_env be prefix env"
  shows "server_ops env rq server_ok (fw_inv I store key_ok {}) user_ok grp_ok (\<lambda>_. True) (\<lambda>_. True) (\<lambda>_ _. True)
    (\<lambda>_ ip. allowlistable ip) True"
proof -
  have e: "e_be env = be" "c_prefix (e_cfg env) = prefix" using env by (simp_all add: good_env_def)
  have opens: "opens_ok key_ok ip (u_name u) (e_order env (portMap gs))"
    if "user_ok u" "allowlistable ip" "\<forall>g \<in> set gs. grp_ok g \<and> True" for ip u gs
    using that unfolding opens_ok_def set_order [OF env] by (auto simp: portMap_def key_ok_def grp_ok_def user_ok_iff)
  have nm: "CHR '':'' \<notin> set (u_name u)" if "user_ok u" for u
    using that ValidName_facts by (simp add: user_ok_iff)
  have gn: "g_name g \<noteq> []" if "grp_ok g" for g
    using that ValidName_facts by (simp add: grp_ok_def)
  have k: "key_ok (ip, g_port g, g_proto g, u_name u, g_name g)" if "user_ok u" "grp_ok g" "allowlistable ip" for ip u g
    using that by (simp add: key_ok_def user_ok_iff grp_ok_def)
  have users: "\<forall>u \<in> set (users d). CHR '':'' \<notin> set (u_name u) \<and> none_of (u_name u) {}" if "server_ok d" for d
    using rows_okD(1) [OF that] nm by simp
  have cleanup: "fw_inv I store key_ok {} (fst (snd (CleanupStale be now age ugp w (d, fs'))))"
    if "fw_inv I store key_ok {} w" "server_ok d" "fst (GetAllUserGroupPorts (d, fs)) = Inr ugp" for now age ugp w d fs fs'
  proof -
    have g: "\<forall>un. \<forall>gp \<in> set (ugp un). gp_group gp \<noteq> []" using ugp_ok [OF that(2,3)] by blast
    show ?thesis
      using keyed_store.fw_cleanup_users [OF be that(1) users [OF that(2)] g] that(1)
      by (auto simp: CleanupStale_def ListUsers_def query_def stmt_def split: prod.splits sum.splits)
  qed
  have all: "fw_inv I store key_ok {} (snd (snd (snd (ReconcileAll be (map desired_to_rule (desired_local d)) w))))"
    if "fw_inv I store key_ok {} w" "server_ok d" for w d
  proof -
    have "\<forall>r \<in> set (map desired_to_rule (desired_local d)). key_ok (rule_key r)"
      using desired_local_ok(2) [OF that(2)] by simp
    with keyed_store.fw_ReconcileAll [OF be that(1) server_ok_named [OF that(2)]] show ?thesis
      by (metis prod.collapse)
  qed
  show ?thesis
    apply unfold_locales
    apply (simp_all add: e rows_okD opens nm gn k cleanup all keyed_store.fw_RemoveRule [OF be]
      keyed_store.fw_Reconcile [OF be] keyed_store.fw_AddRule [OF be] keyed_store.fw_RemoveUserRules [OF be]
      keyed_store.fw_SyncGuard [OF be] keyed_store.fw_EnsureBase [OF be])
    by (auto intro: server_ok_writes simp: port_ok_def) (simp add: user_ok_iff)
qed

text \<open>The server with the mock behind it.\<close>

definition with_mock :: "'s env \<Rightarrow> mock env" where
  "with_mock env = \<lparr>e_be = mock_backend, e_cfg = e_cfg env, e_now = e_now env, e_secret = e_secret env,
     e_totp = e_totp env, e_version = e_version env, e_index = e_index env, e_order = (\<lambda>xs. xs)\<rparr>"

interpretation mock_server: server_ops "with_mock env" rq server_ok
  "fw_inv (mock_inv (c_prefix (e_cfg env))) mk_rules key_ok {}" user_ok grp_ok "\<lambda>_. True" "\<lambda>_. True" "\<lambda>_ _. True"
  "\<lambda>_ ip. allowlistable ip" True
  for env rq
  by (rule server_ops_ok [OF mock.keyed_store_axioms]) (simp add: good_env_def with_mock_def)

section \<open>Every reachable state\<close>

text \<open>A step is a request with whatever content, a maintenance pass, or a new schedule of faults.\<close>

inductive srv_step :: "'s backend \<Rightarrow> string \<Rightarrow> 's srv \<Rightarrow> 's srv \<Rightarrow> bool" for be prefix where
  request: "good_env be prefix env \<Longrightarrow> serve env m path rq s = (r, s') \<Longrightarrow> srv_step be prefix s s'"
| maintain: "good_env be prefix env \<Longrightarrow> run (Maintain env) s = (r, s') \<Longrightarrow> srv_step be prefix s s'"
| schedule: "srv_step be prefix s (s\<lparr>sv_db := (fst (sv_db s), fs)\<rparr>)"

lemma keeps_method: "keeps J K (hret r) (\<lambda>_. True)"
  by (simp add: keeps_hret)

text \<open>What holds of every handler holds of a served request.\<close>

lemma keeps_Routes:
  assumes "\<And>rt ps. lookup_route route_table m path = Some (rt, ps) \<Longrightarrow>
      keeps J K (handler env rt (rq\<lparr>rq_path := path_value ps\<rparr>)) (\<lambda>_. True)"
    and "\<And>h. keeps J K h (\<lambda>_. True) \<Longrightarrow> keeps J K (throttleGate env rq h) (\<lambda>_. True)"
  shows "keeps J K (Routes env m path rq) (\<lambda>_. True)"
proof -
  have "keeps J K (dispatch env m path rq) (\<lambda>_. True)"
    unfolding dispatch_def using assms(1) by (auto intro!: keeps_rules)
  with assms(2) show ?thesis by (simp add: Routes_def)
qed

lemma serve_keeps:
  assumes "keeps J K (Routes env m path rq) F" and "serve env m path rq s = (r, s')"
    and "J (fst (sv_db s))" and "K (sv_fw s)"
  shows "J (fst (sv_db s')) \<and> K (sv_fw s')"
  using run_keeps [OF assms(1,3,4)] assms(2) by (simp add: serve_def)

lemma server_ok_Routes:
  assumes "keyed_store be prefix store host I" and "good_env be prefix env"
  shows "keeps server_ok (fw_inv I store key_ok {}) (Routes env m path rq) (\<lambda>_. True)"
proof (rule keeps_Routes)
  fix rt ps
  let ?rq = "rq\<lparr>rq_path := path_value ps\<rparr>"
  note ops = server_ops_ok [OF assms, of ?rq]
  show "keeps server_ok (fw_inv I store key_ok {}) (handler env rt ?rq) (\<lambda>_. True)"
    using server_ops.keeps_handler [OF ops, of rt] server_ops.keeps_enroll [OF ops] server_ok_writes(6)
    by (cases "rt = REnroll") (simp_all add: handler_def)
next
  fix h :: "('a, resp) hm" assume "keeps server_ok (fw_inv I store key_ok {}) h (\<lambda>_. True)"
  then show "keeps server_ok (fw_inv I store key_ok {}) (throttleGate env rq h) (\<lambda>_. True)"
    by (rule client_ops.keeps_throttle [OF server_ops.axioms(1) [OF server_ops_ok [OF assms]]])
qed

lemma srv_step_ok:
  assumes be: "keyed_store be prefix store host I" and st: "srv_step be prefix s s'"
    and ok: "server_ok (fst (sv_db s))" "fw_inv I store key_ok {} (sv_fw s)"
  shows "server_ok (fst (sv_db s')) \<and> fw_inv I store key_ok {} (sv_fw s')"
  using st
proof cases
  case (request env m path rq r)
  from serve_keeps [OF server_ok_Routes [OF be request(1)] request(2) ok] show ?thesis .
next
  case (maintain env r)
  from run_keeps [OF server_ops.keeps_Maintain [OF server_ops_ok [OF be maintain(1)]] ok maintain(2)] show ?thesis by simp
next
  case (schedule fs)
  with ok show ?thesis by simp
qed

lemma srv_steps_ok:
  assumes "(srv_step be prefix)\<^sup>*\<^sup>* s0 s" and "keyed_store be prefix store host I"
    and "server_ok (fst (sv_db s0))" and "fw_inv I store key_ok {} (sv_fw s0)"
  shows "server_ok (fst (sv_db s)) \<and> fw_inv I store key_ok {} (sv_fw s)"
  using assms by (induction rule: rtranclp_induct) (blast dest: srv_step_ok)+

text \<open>Whatever sequence of requests and maintenance passes a server runs, and whatever database and
  firewall faults it meets: the tables stay well formed; user and group names are valid, ports and
  protocols are in range; a recorded address is a single, non-loopback, specified IP address; and the
  firewall never holds a managed rule for any other name, port, protocol or address.\<close>

theorem server_reachable_ok:
  assumes "keyed_store be prefix store host I" and "(srv_step be prefix)\<^sup>*\<^sup>* s0 s"
    and "server_ok (fst (sv_db s0))" and "I (sv_fw s0)" and "\<forall>r \<in> set (store (sv_fw s0)). key_ok (rule_key r)"
  shows "server_ok (fst (sv_db s)) \<and> I (sv_fw s) \<and> (\<forall>r \<in> set (store (sv_fw s)). key_ok (rule_key r))"
  using srv_steps_ok [OF assms(2,1,3)] assms(4,5) by (simp add: fw_inv_def)

definition demo_request :: request where
  "demo_request = \<lparr>rq_remote = ''198.51.100.7:4242'', rq_xri = [], rq_xff = [], rq_auth = ''HMAC-SHA256 ann:1000:00'',
     rq_totp = [], rq_version = [], rq_backend = [], rq_path = (\<lambda>_. []), rq_limit = [], rq_body = []\<rparr>"

definition demo_env :: "mock env" where
  "demo_env = \<lparr>e_be = mock_backend, e_cfg = default_config\<lparr>c_prefix := ''ok''\<rparr>, e_now = 1000, e_secret = replicate 32 7,
     e_totp = replicate 20 9, e_version = ''dev'', e_index = [], e_order = (\<lambda>xs. xs)\<rparr>"

definition demo_srv :: "mock srv" where
  "demo_srv = \<lparr>sv_db = (demo_db, []), sv_fw = demo_mock, sv_cleanup = None\<rparr>"

lemma good_demo_env: "good_env mock_backend ''ok'' demo_env"
  by (simp add: good_env_def demo_env_def default_config_def)

lemmas text_eval = parse_ip_def parse_v4_def v4_field_def is_digit_def dec_val_def digit_val_def val_of_def v4_mapped_def
  is_loopback_def is_unspecified_def to4_def ValidName_def name_char_def name_start_def is_lower_def is_upper_def

lemma demo_addresses: "allowlistable ''10.0.0.1''" "allowlistable ''10.0.0.9''" "allowlistable ''10.0.0.2''"
    "allowlistable ''10.0.0.3''" "allowlistable ''198.51.100.7''"
  by (simp_all add: allowlistable_def text_eval)

lemma demo_names: "ValidName ''ann''" "ValidName ''bob''" "ValidName ''web''" "ValidName ''ssh''"
  by (simp_all add: text_eval)

lemma server_ok_demo: "server_ok demo_db" "\<forall>r \<in> set (mk_rules demo_mock). key_ok (rule_key r)"
  using wf_demo_db
  by (simp_all add: server_ok_def rows_ok_def targets_ok_def demo_db_def user_ok_def grp_ok_def port_ok_def new_user_def demo_addresses
      demo_names demo_mock_def key_ok_def empty_db_def)

theorem server_reachable_ok_witness:
  "server_ok (fst (sv_db (snd (serve demo_env ''POST'' [''api'', ''knock''] demo_request demo_srv))))"
proof -
  obtain r s' where s: "serve demo_env ''POST'' [''api'', ''knock''] demo_request demo_srv = (r, s')"
    by (cases "serve demo_env ''POST'' [''api'', ''knock''] demo_request demo_srv")
  then have "(srv_step mock_backend ''ok'')\<^sup>*\<^sup>* demo_srv s'"
    by (intro r_into_rtranclp srv_step.request [OF good_demo_env])
  from server_reachable_ok [OF mock.keyed_store_axioms this] server_ok_demo demo_mock_inv s
  show ?thesis by (simp add: demo_srv_def)
qed

end
