(* ===== verification/Access.thy ===== *)
theory Access
  imports ServerInv
begin

text \<open>
  Who may do what: a request without the credentials its endpoint asks for is refused and leaves at most
  a failed attempt behind, and one signed by a user who is no administrator stays within that user's
  own rows, own rules and the groups an administrator put the user in.
\<close>

section \<open>Credentials\<close>

abbreviation db_of :: "'s srv \<Rightarrow> db" where "db_of s \<equiv> fst (sv_db s)"

definition signed_by :: "'s env \<Rightarrow> request \<Rightarrow> db \<Rightarrow> user \<Rightarrow> bool" where
  "signed_by env rq d row \<longleftrightarrow> accepts (e_now env) (c_ttl (e_cfg env)) (users d) (rq_auth rq) row"

definition node_of :: "request \<Rightarrow> db \<Rightarrow> node option" where
  "node_of rq d = (if has_prefix ''Bearer '' (rq_auth rq) \<and> trim_space (drop 7 (rq_auth rq)) \<noteq> []
     then find (\<lambda>n. n_hash n = HashToken (trim_space (drop 7 (rq_auth rq)))) (nodes d) else None)"

definition entitled :: "route \<Rightarrow> 's env \<Rightarrow> request \<Rightarrow> db \<Rightarrow> bool" where
  "entitled rt env rq d \<longleftrightarrow> (if rt \<in> {RHealth, RIndex} then True
     else if rt = RNodeState then node_of rq d \<noteq> None
     else \<exists>row. signed_by env rq d row \<and> (rt \<notin> client_routes \<longrightarrow> u_admin row))"

definition only_attempts :: "'s srv \<Rightarrow> 's srv \<Rightarrow> bool" where
  "only_attempts s s' \<longleftrightarrow> sv_fw s' = sv_fw s \<and> sv_cleanup s' = sv_cleanup s \<and>
     (\<exists>rows. length rows \<le> 1 \<and> db_of s' = (db_of s)\<lparr>failed := failed (db_of s) @ rows\<rparr>)"

lemma only_attempts_same: "sv_fw s' = sv_fw s \<Longrightarrow> sv_cleanup s' = sv_cleanup s \<Longrightarrow> db_of s' = db_of s \<Longrightarrow> only_attempts s s'"
  by (auto simp: only_attempts_def intro: exI [of _ "[]"])

lemma only_attempts_add: "db_of s' \<in> {db_of s, add_failed f (db_of s)} \<Longrightarrow> sv_fw s' = sv_fw s \<Longrightarrow> sv_cleanup s' = sv_cleanup s \<Longrightarrow>
    only_attempts s s'"
  by (auto simp: only_attempts_def add_failed_def intro: exI [of _ "[]"] exI [of _ "[f]"])

text \<open>A header names one user.\<close>

definition header_user :: "string \<Rightarrow> string option" where
  "header_user h = map_option fst (cut_at CHR '':'' (drop (length hmacPrefix) h))"

lemma accepts_user: "accepts now ttl us h row \<Longrightarrow> header_user h = Some (u_name row) \<and> row \<in> set us"
  by (auto simp: accepts_def header_user_def signed_header_def cut_at_append find_Some_iff)

section \<open>The heads of the handlers\<close>

lemma hb_assoc: "hb (hb m f) g = hb m (\<lambda>a. hb (f a) g)"
  by (auto simp: hb_def fun_eq_iff split: prod.splits sum.splits)

lemma head_signed:
  assumes "rt \<in> client_routes - {RNodeState, RHealth, RIndex}"
  shows "\<exists>k. handler env rt rq = hb (authUser env rq) k"
  using assms
  by (auto simp: client_routes_def handler_def knock_def status_def myGroups_def selfToggleMembership_def toggleMembership_def)

lemma head_admin:
  assumes "rt \<notin> client_routes"
  shows "\<exists>k. handler env rt rq = hb (requireAdmin env rq) k"
  using assms
  by (cases rt) (auto simp: client_routes_def handler_def adminGate_def hb_assoc adminListUsers_def adminCreateUser_def
      adminDeleteUser_def adminSetAdmin_def adminUserGroups_def adminAddMembership_def adminRevokeUser_def
      adminRemoveMembership_def adminListGroups_def adminCreateGroup_def adminDeleteGroup_def adminListAudit_def
      adminListNodes_def totpEnroll_def totpActivate_def totpDisable_def)

lemma head_node: "\<exists>k. handler env RNodeState rq = hb (authNode env rq) k"
  by (auto simp: handler_def nodeDesiredState_def)

lemma authUser_cases:
  assumes "authUser env rq s = (x, s')"
  shows "(\<exists>row. x = Inr (u_name row) \<and> signed_by env rq (db_of s) row \<and> db_of s' = db_of s \<and> sv_fw s' = sv_fw s \<and>
      sv_cleanup s' = sv_cleanup s) \<or>
    (\<exists>err. x = Inl (errJSON 401 err) \<and> only_attempts s s')"
proof -
  obtain un err d where v: "VerifyHMAC (e_now env) (rq_auth rq) (c_ttl (e_cfg env)) (requestIP (e_cfg env) rq) (sv_db s) = ((un, err), d)"
    by (metis surj_pair)
  show ?thesis
  proof (cases "err = []")
    case True
    with VerifyHMAC_run [OF v] obtain row where "fst d = db_of s" "un = u_name row" "signed_by env rq (db_of s) row"
      by (auto simp: signed_by_def)
    with True v assms show ?thesis by (intro disjI1 exI [of _ row]) (auto simp: authUser_def)
  next
    case False
    with VerifyHMAC_run [OF v] obtain usr reason where
      "fst d \<in> {db_of s, add_failed (failed_row (e_now env) usr (requestIP (e_cfg env) rq) reason) (db_of s)}" by blast
    then have "only_attempts s (s\<lparr>sv_db := d\<rparr>)"
      by (rule_tac only_attempts_add [of _ s]) simp_all
    with False v assms show ?thesis by (auto simp: authUser_def)
  qed
qed

lemma requireAdmin_cases:
  assumes "requireAdmin env rq s = (x, s')"
  shows "(\<exists>row. x = Inr row \<and> signed_by env rq (db_of s) row \<and> u_admin row \<and> db_of s' = db_of s \<and> sv_fw s' = sv_fw s \<and>
      sv_cleanup s' = sv_cleanup s) \<or>
    (\<exists>err. x = Inl (adminError err) \<and> only_attempts s s')"
proof -
  obtain uo err d where v: "RequireAdmin (e_now env) (rq_auth rq) (c_ttl (e_cfg env)) (requestIP (e_cfg env) rq) (sv_db s) = ((uo, err), d)"
    by (metis surj_pair)
  show ?thesis
  proof (cases "err = []")
    case True
    with RequireAdmin_run [OF v] obtain row where "fst d = db_of s" "uo = Some row" "u_admin row" "signed_by env rq (db_of s) row"
      by (auto simp: signed_by_def)
    with True v assms show ?thesis by (intro disjI1 exI [of _ row]) (auto simp: requireAdmin_def)
  next
    case False
    with RequireAdmin_run [OF v] obtain usr reason where
      "fst d \<in> {db_of s, add_failed (failed_row (e_now env) usr (requestIP (e_cfg env) rq) reason) (db_of s)}" by blast
    then have "only_attempts s (s\<lparr>sv_db := d\<rparr>)"
      by (rule_tac only_attempts_add [of _ s]) simp_all
    with False v assms show ?thesis by (auto simp: requireAdmin_def)
  qed
qed

lemma bearer_length: "length ''Bearer '' = 7"
  by simp

lemmas authNode_eq = authNode_def [unfolded bearer_length]

lemma authNode_cases:
  assumes "authNode env rq s = (x, s')"
  shows "db_of s' = db_of s \<and> sv_fw s' = sv_fw s \<and> sv_cleanup s' = sv_cleanup s \<and>
    ((\<exists>n. x = Inr n \<and> node_of rq (db_of s) = Some n) \<or> (\<exists>r. x = Inl r \<and> rs_status r \<in> {401, 500}))"
proof (cases "has_prefix ''Bearer '' (rq_auth rq) \<and> trim_space (drop 7 (rq_auth rq)) \<noteq> []")
  case False
  with assms show ?thesis
    by (auto simp: authNode_eq answer_def hb_def hguard_def errJSON_def writeJSON_def Let_def split: if_splits)
next
  case True
  let ?h = "HashToken (trim_space (drop 7 (rq_auth rq)))"
  obtain y d where q: "GetNodeByTokenHash ?h (sv_db s) = (y, d)" by (cases "GetNodeByTokenHash ?h (sv_db s)")
  have "fst d = db_of s" "y = Inl DbFault \<or> y = Inr (find (\<lambda>n. n_hash n = ?h) (nodes (db_of s)))"
    using q query_cases [of "\<lambda>d. find (\<lambda>n. n_hash n = ?h) (nodes d)" "sv_db s"] by (auto simp: GetNodeByTokenHash_def)
  then show ?thesis
    using assms True q
    by (auto simp: authNode_eq dbtry_def dbcall_def hb_def hguard_def found_def answer_def hret_def node_of_def errJSON_def
        internal_error_def writeJSON_def Let_def split: option.splits)
qed

lemma gate_cases:
  assumes "throttleGate env rq h s = (x, s')"
  shows "(\<exists>err. x = Inl (errJSON 429 err) \<and> db_of s' = db_of s \<and> sv_fw s' = sv_fw s \<and> sv_cleanup s' = sv_cleanup s) \<or>
    (\<exists>d. fst d = db_of s \<and> h (s\<lparr>sv_db := d\<rparr>) = (x, s'))"
proof -
  obtain err d where c: "CheckIPThrottle (e_now env) (requestIP (e_cfg env) rq) (c_throttle_max (e_cfg env))
      (c_throttle_window (e_cfg env)) (sv_db s) = (err, d)" by (metis surj_pair)
  note d = CheckIPThrottle_fst [OF c]
  show ?thesis
  proof (cases "err = []")
    case True
    with c assms have "h (s\<lparr>sv_db := d\<rparr>) = (x, s')" by (simp add: throttleGate_def)
    with d show ?thesis by blast
  next
    case False
    with c assms d show ?thesis by (auto simp: throttleGate_def)
  qed
qed

lemma serve_cases:
  assumes "serve env m path rq s = (r, s')" and "lookup_route route_table m path = Some (rt, ps)"
  obtains d where "fst d = db_of s" "run (handler env rt (rq\<lparr>rq_path := path_value ps\<rparr>)) (s\<lparr>sv_db := d\<rparr>) = (r, s')"
  | "rs_status r = 429" "only_attempts s s'"
proof (cases "has_prefix ''/api/'' (path_string path)")
  case False
  with assms that(1) [of "sv_db s"] show thesis by (simp add: serve_def Routes_def dispatch_def)
next
  case True
  let ?h = "handler env rt (rq\<lparr>rq_path := path_value ps\<rparr>)"
  obtain x t where g: "throttleGate env rq ?h s = (x, t)" by (cases "throttleGate env rq ?h s")
  then have "Routes env m path rq s = (x, t)" using True assms(2) by (simp add: Routes_def dispatch_def)
  then have r: "(r, s') = (case x of Inl a \<Rightarrow> (a, t) | Inr a \<Rightarrow> (a, t))"
    using assms(1) by (cases x) (auto simp: serve_def run_def)
  from gate_cases [OF g] show thesis
  proof (elim disjE exE conjE)
    fix err assume "x = Inl (errJSON 429 err)" "db_of t = db_of s" "sv_fw t = sv_fw s" "sv_cleanup t = sv_cleanup s"
    with r show thesis by (intro that(2)) (auto simp: errJSON_def writeJSON_def intro: only_attempts_same)
  next
    fix d assume "fst d = db_of s" "?h (s\<lparr>sv_db := d\<rparr>) = (x, t)"
    with r show thesis by (intro that(1) [of d]) (auto simp: run_def split: sum.splits)
  qed
qed

lemma run_hb_Inl: "m s = (Inl r, s') \<Longrightarrow> run (hb m k) s = (r, s')"
  by (simp add: run_def hb_def)

lemma signed_path [simp]: "signed_by env (rq\<lparr>rq_path := f\<rparr>) = signed_by env rq" "node_of (rq\<lparr>rq_path := f\<rparr>) = node_of rq"
  by (auto simp: signed_by_def node_of_def fun_eq_iff)

lemma handler_refused:
  assumes "\<not> entitled rt env rq (db_of s)" and "run (handler env rt rq) s = (r, s')"
  shows "rs_status r \<in> {401, 403, 500} \<and> only_attempts s s'"
proof -
  have node: ?thesis if "rt = RNodeState"
  proof -
    obtain k where k: "handler env RNodeState rq = hb (authNode env rq) k" using head_node by blast
    obtain x t where a: "authNode env rq s = (x, t)" by (cases "authNode env rq s")
    from authNode_cases [OF a] assms(1) that obtain e where
      "x = Inl e" "rs_status e \<in> {401, 500}" "only_attempts s t"
      by (auto simp: entitled_def intro: only_attempts_same)
    with run_hb_Inl [of "authNode env rq" s e t k] a k that assms(2) show ?thesis by auto
  qed
  have admin: ?thesis if "rt \<notin> client_routes"
  proof -
    obtain k where k: "handler env rt rq = hb (requireAdmin env rq) k" using head_admin [OF \<open>rt \<notin> client_routes\<close>] by blast
    obtain x t where a: "requireAdmin env rq s = (x, t)" by (cases "requireAdmin env rq s")
    from that assms(1) have "\<not> (\<exists>row. signed_by env rq (db_of s) row \<and> u_admin row)"
      by (auto simp: entitled_def client_routes_def split: if_splits)
    with requireAdmin_cases [OF a] obtain err where "x = Inl (adminError err)" "only_attempts s t" by blast
    with run_hb_Inl [of "requireAdmin env rq" s "adminError err" t k] a k assms(2) show ?thesis
      by (auto simp: adminError_def errJSON_def writeJSON_def split: if_splits)
  qed
  have client: ?thesis if c: "rt \<in> client_routes - {RNodeState, RHealth, RIndex}"
  proof -
    obtain k where k: "handler env rt rq = hb (authUser env rq) k" using head_signed [OF c] by blast
    obtain x t where a: "authUser env rq s = (x, t)" by (cases "authUser env rq s")
    from c assms(1) have "\<not> (\<exists>row. signed_by env rq (db_of s) row)"
      by (auto simp: entitled_def split: if_splits)
    with authUser_cases [OF a] obtain err where "x = Inl (errJSON 401 err)" "only_attempts s t" by blast
    with run_hb_Inl [of "authUser env rq" s "errJSON 401 err" t k] a k assms(2) show ?thesis
      by (auto simp: errJSON_def writeJSON_def)
  qed
  have "rt \<notin> {RHealth, RIndex}" using assms(1) by (auto simp: entitled_def)
  with node admin client show ?thesis by blast
qed

lemma only_attempts_schedule: "fst d = db_of s \<Longrightarrow> only_attempts (s\<lparr>sv_db := d\<rparr>) s' \<Longrightarrow> only_attempts s s'"
  by (simp add: only_attempts_def)

lemma request_refused:
  assumes "serve env m path rq s = (r, s')" and "lookup_route route_table m path = Some (rt, ps)"
    and "\<not> entitled rt env rq (db_of s)"
  shows "rs_status r \<in> {401, 403, 429, 500} \<and> only_attempts s s'"
  using assms(1,2)
proof (cases rule: serve_cases)
  case (1 d)
  have "entitled rt env (rq\<lparr>rq_path := path_value ps\<rparr>) = entitled rt env rq"
    by (simp add: entitled_def fun_eq_iff)
  then have "\<not> entitled rt env (rq\<lparr>rq_path := path_value ps\<rparr>) (db_of (s\<lparr>sv_db := d\<rparr>))"
    using assms(3) 1(1) by simp
  from handler_refused [OF this 1(2)] only_attempts_schedule [OF 1(1)] show ?thesis by blast
next
  case 2
  then show ?thesis by simp
qed

text \<open>C5. No endpoint works without its credentials: when a request is not signed by a user of the
  database (for the client endpoints), by an administrator (for the admin endpoints) or by the token of
  a node (for the node endpoint), under a fresh timestamp, it is answered with an error and nothing
  changes but at most one failed attempt on record -- no table, no firewall rule, no clock.\<close>

theorem request_authorised:
  assumes "serve env m path rq s = (r, s')" and "lookup_route route_table m path = Some (rt, ps)"
    and "\<not> entitled rt env rq (db_of s)"
  shows "rs_status r \<in> {401, 403, 429, 500} \<and> only_attempts s s'"
  using assms by (rule request_refused)

theorem request_authorised_witness:
  "rs_status (fst (serve demo_env ''DELETE'' [''api'', ''admin'', ''users'', ''1''] demo_request demo_srv)) \<in> {401, 403, 429, 500} \<and>
   users (db_of (snd (serve demo_env ''DELETE'' [''api'', ''admin'', ''users'', ''1''] demo_request demo_srv))) = users demo_db"
proof -
  let ?p = "[''api'', ''admin'', ''users'', ''1'']"
  obtain r s' where s: "serve demo_env ''DELETE'' ?p demo_request demo_srv = (r, s')"
    by (cases "serve demo_env ''DELETE'' ?p demo_request demo_srv")
  have l: "lookup_route route_table ''DELETE'' ?p = Some (RDeleteUser, [(''user_id'', ''1'')])"
    by (simp add: route_table_def method_ok_def)
  have "u_name row = ''ann'' \<and> row \<in> set (users demo_db)" if "signed_by demo_env demo_request (db_of demo_srv) row" for row
    using accepts_user [OF that [unfolded signed_by_def]]
    by (simp add: header_user_def demo_request_def hmacPrefix_def demo_srv_def cut_at_def)
  then have "\<not> entitled RDeleteUser demo_env demo_request (db_of demo_srv)"
    by (fastforce simp: entitled_def client_routes_def demo_db_def new_user_def empty_db_def)
  from request_authorised [OF s l this] s show ?thesis by (auto simp: only_attempts_def demo_srv_def)
qed

end
