(* ===== verification/CodeOnce.thy ===== *)
theory CodeOnce
  imports Access
begin

text \<open>
  The step-up gate over time: an admin write consumes a fresh code, the counter of an account never goes
  back while the account keeps its secret, so no code is good twice; and past the cap of failed codes
  the gate stays shut.
\<close>

section \<open>The counter of an account\<close>

definition ctr_at :: "int \<Rightarrow> int \<Rightarrow> db \<Rightarrow> bool" where
  "ctr_at i c d \<longleftrightarrow> i \<le> users_seq d \<and> (\<forall>u \<in> set (users d). u_id u = i \<longrightarrow> c \<le> u_totp_ctr u)"

lemma ctr_at_upd: "ctr_at i c d \<Longrightarrow> (\<And>u. u_id (f u) = u_id u \<and> u_totp_ctr u \<le> u_totp_ctr (f u)) \<Longrightarrow> ctr_at i c (upd_user j f d)"
  unfolding ctr_at_def upd_user_def
  by (auto dest!: set_upd_where split: if_splits intro: order_trans) (metis order_trans)+

lemma ctr_at_log: "ctr_at i c d \<Longrightarrow> ctr_at i c (d\<lparr>oplog := ol\<rparr>)"
  by (simp add: ctr_at_def)

lemma ctr_at_users: "preserves (ctr_at i c) (SetUserAdmin j adm)" "preserves (ctr_at i c) (RotateSecret j sec)"
    "preserves (ctr_at i c) (ClearUserState j)" "preserves (ctr_at i c) (EnableTOTP j)" "preserves (ctr_at i c) (DisableTOTP j)"
  unfolding SetUserAdmin_def RotateSecret_def ClearUserState_def EnableTOTP_def DisableTOTP_def
  by (intro preserves_exec ctr_at_upd; simp)+

lemma ctr_at_secret: "j \<noteq> i \<Longrightarrow> preserves (ctr_at i c) (SetTOTPSecret j sec)"
  unfolding SetTOTPSecret_def by (intro preserves_exec) (auto simp: ctr_at_def upd_user_def dest!: set_upd_where)

lemma ctr_at_rest:
  "preserves (ctr_at i c) (LogAudit now a b t e)" "preserves (ctr_at i c) (RecordFailedAttempt now uo ipo rs)"
  "preserves (ctr_at i c) (UpdateNodeReport now n v b)" "preserves (ctr_at i c) (SetMembershipEnabled j gi en)"
  "preserves (ctr_at i c) (RemoveMembership j gi)" "preserves (ctr_at i c) (AddMembership now j gi en)"
  "preserves (ctr_at i c) (DeleteUser j)" "preserves (ctr_at i c) (DeleteGroup gi)"
  "preserves (ctr_at i c) (CreateGroup now nm p pr)" "preserves (ctr_at i c) (CreateUser now nm sec adm)"
  "preserves (ctr_at i c) (ConsumeTOTPCounter j c')"
  unfolding LogAudit_def RecordFailedAttempt_def UpdateNodeReport_def SetMembershipEnabled_def RemoveMembership_def
    AddMembership_def DeleteUser_def DeleteGroup_def CreateGroup_def CreateUser_def ConsumeTOTPCounter_def
  by (intro preserves_exec preserves_stmt; fastforce simp: ctr_at_def new_user_def dest!: set_upd_where)+

lemma ctr_at_ip: "preserves (ctr_at i c) (RecordIPChange now j un ip)"
  unfolding RecordIPChange_def query_row_def log_op_def
  by (intro preserves_txn preserves_bnd preserves_stmt preserves_exec preserves_ret)
    (auto intro!: ctr_at_upd ctr_at_log preserves_exec preserves_ret split: option.splits)

interpretation counter: server_ops env rq "ctr_at i c" "\<lambda>_. True" "\<lambda>_. True" "\<lambda>_. True" "\<lambda>_. True" "\<lambda>_. True" "\<lambda>_ _. True"
  "\<lambda>_ _. True" True
  for env rq i c
  by unfold_locales (simp_all add: ctr_at_users ctr_at_rest ctr_at_ip)

section \<open>The gate\<close>

text \<open>The counter a request's code matches for the secret of an account.\<close>

definition matched_ctr :: "'s env \<Rightarrow> request \<Rightarrow> user \<Rightarrow> int option" where
  "matched_ctr env rq row =
     VerifyTOTPCounter (case u_totp row of Some sec \<Rightarrow> sec | None \<Rightarrow> []) (totp_code_of rq) (e_now env)"

lemma matched_path [simp]: "matched_ctr env (rq\<lparr>rq_path := f\<rparr>) = matched_ctr env rq"
  by (auto simp: matched_ctr_def totp_code_of_def fun_eq_iff)

lemma hb_InrE:
  assumes "hb m f s = (Inr b, s')"
  obtains a t where "m s = (Inr a, t)" "f a t = (Inr b, s')"
  using assms by (cases "m s") (auto simp: hb_def split: sum.splits)

lemma totpLocked_run: "totpLocked env u s = (x, s') \<Longrightarrow> db_of s' = db_of s"
  by (auto simp: totpLocked_def hb_def dbcall_def hret_def answer_def CountRecentUserFailures_def
      split: if_splits prod.splits sum.splits dest!: query_fst)

text \<open>What a passed step-up has verified and consumed.\<close>

lemma stepUp_verified:
  assumes "stepUp env rq u s = (Inr (), s')" and "u_totp_on u"
  obtains t rep where "db_of t = db_of s" "consumeTOTP env u (totp_code_of rq) t = (Inr (Inr (True, rep)), s')"
proof -
  let ?code = "totp_code_of rq"
  from assms obtain ok t where a: "totpAttempt env rq u ?code ''stepup_failed'' (consumeTOTP env u ?code) s = (Inr ok, t)"
    and g: "ok" "s' = t"
    unfolding stepUp_def by (auto elim!: hb_InrE simp: hguard_def hret_def answer_def split: if_splits)
  from a g have "trim_space ?code \<noteq> []" by (auto simp: totpAttempt_def hret_def)
  then have "hb (totpLocked env u) (\<lambda>_. hb (consumeTOTP env u ?code) (\<lambda>r. case r of Inl e \<Rightarrow> answer internal_error
        | Inr (ok, replayed) \<Rightarrow> if ok then hret True
            else hb (totpFailed env rq u ''stepup_failed'' replayed) (\<lambda>_. hret False))) s = (Inr ok, t)"
    using a by (simp add: totpAttempt_def)
  then obtain x t1 where l: "totpLocked env u s = (Inr x, t1)"
    and b: "hb (consumeTOTP env u ?code) (\<lambda>r. case r of Inl e \<Rightarrow> answer internal_error
        | Inr (ok, replayed) \<Rightarrow> if ok then hret True
            else hb (totpFailed env rq u ''stepup_failed'' replayed) (\<lambda>_. hret False)) t1 = (Inr ok, t)"
    by (rule hb_InrE)
  obtain y t2 where c: "consumeTOTP env u ?code t1 = (Inr y, t2)"
    and k: "(case y of Inl e \<Rightarrow> answer internal_error
        | Inr (ok, replayed) \<Rightarrow> if ok then hret True
            else hb (totpFailed env rq u ''stepup_failed'' replayed) (\<lambda>_. hret False)) t2 = (Inr ok, t)"
    using b by (rule hb_InrE)
  have "\<exists>rep. y = Inr (True, rep) \<and> t = t2"
    using k g by (auto simp: answer_def hret_def split: sum.splits if_splits elim!: hb_InrE)
  with c g(2) totpLocked_run [OF l] that [of t1] show thesis by auto
qed

lemma stepUp_consumes:
  assumes "stepUp env rq u s = (Inr (), s')" and "u_totp_on u" and "c_totp_replay (e_cfg env)" and "wf_users (db_of s)"
  shows "\<exists>c. matched_ctr env rq u = Some c \<and>
    (\<exists>v. find (\<lambda>v. u_id v = u_id u) (users (db_of s)) = Some v \<and> u_totp_ctr v < c) \<and>
    db_of s' = upd_user (u_id u) (\<lambda>u. u\<lparr>u_totp_ctr := c\<rparr>) (db_of s)"
proof -
  obtain t rep where d: "db_of t = db_of s" and c: "consumeTOTP env u (totp_code_of rq) t = (Inr (Inr (True, rep)), s')"
    using stepUp_verified [OF assms(1,2)] .
  obtain c where m: "matched_ctr env rq u = Some c"
    using c by (cases "matched_ctr env rq u") (auto simp: consumeTOTP_def hret_def matched_ctr_def)
  obtain r d' where q: "ConsumeTOTPCounter (u_id u) c (sv_db t) = (r, d')" by (cases "ConsumeTOTPCounter (u_id u) c (sv_db t)")
  have r: "r = Inr True" "s' = t\<lparr>sv_db := d'\<rparr>"
    using c m assms(3) q
    by (auto simp: consumeTOTP_def matched_ctr_def hb_def dbcall_def hret_def split: sum.splits)
  have "wf_users (fst (sv_db t))" using assms(4) d by simp
  from ConsumeTOTPCounter_cases [OF this q] r(1) have
    "\<exists>v. find (\<lambda>v. u_id v = u_id u) (users (db_of t)) = Some v \<and> u_totp_ctr v < c"
    "fst d' = upd_user (u_id u) (\<lambda>u. u\<lparr>u_totp_ctr := c\<rparr>) (db_of t)" by auto
  with m r(2) d show ?thesis by auto
qed

lemma stepUp_matches: "stepUp env rq u s = (Inr (), s') \<Longrightarrow> u_totp_on u \<Longrightarrow> matched_ctr env rq u \<noteq> None"
  by (erule stepUp_verified, assumption) (auto simp: consumeTOTP_def hret_def matched_ctr_def split: option.splits)

section \<open>The counter over time\<close>

lemma enroll_gate:
  "\<exists>k. totpEnroll env rq = hb (requireAdmin env rq) k \<and>
     (\<forall>u i c. u_id u \<noteq> i \<longrightarrow> keeps (ctr_at i c) (\<lambda>_. True) (k u) (\<lambda>_. True))"
  unfolding totpEnroll_def Let_def
  by (intro exI conjI, rule refl, intro allI impI counter.calls keeps_hb_any [OF keeps_if] keeps_hb [OF counter.keeps_totpAttempt]
      counter.keeps_consumeTOTP keeps_rules ctr_at_secret) simp_all

lemma ctr_at_attempts: "only_attempts s s' \<Longrightarrow> ctr_at i c (db_of s) \<Longrightarrow> ctr_at i c (db_of s')"
  unfolding only_attempts_def by (elim conjE exE) (simp add: ctr_at_def)

text \<open>The steps of a server in which account \<open>i\<close> does not enroll a new secret.\<close>

inductive kept_step :: "'s backend \<Rightarrow> string \<Rightarrow> int \<Rightarrow> 's srv \<Rightarrow> 's srv \<Rightarrow> bool" for be prefix i where
  request: "good_env be prefix env \<Longrightarrow> serve env m path rq s = (r, s') \<Longrightarrow>
    (\<forall>ps row. lookup_route route_table m path = Some (REnroll, ps) \<and> signed_by env rq (db_of s) row \<longrightarrow> u_id row \<noteq> i) \<Longrightarrow>
    kept_step be prefix i s s'"
| maintain: "good_env be prefix env \<Longrightarrow> run (Maintain env) s = (r, s') \<Longrightarrow> kept_step be prefix i s s'"
| schedule: "kept_step be prefix i s (s\<lparr>sv_db := (db_of s, fs)\<rparr>)"

lemma kept_srv_step: "kept_step be prefix i s s' \<Longrightarrow> srv_step be prefix s s'"
  by (induction rule: kept_step.induct) (auto intro: srv_step.intros)

lemma ctr_at_enroll:
  assumes "run (totpEnroll env rq) s = (r, s')" and "ctr_at i c (db_of s)"
    and "\<And>row. signed_by env rq (db_of s) row \<Longrightarrow> u_id row \<noteq> i"
  shows "ctr_at i c (db_of s')"
proof -
  obtain k where k: "totpEnroll env rq = hb (requireAdmin env rq) k"
    and keep: "\<forall>u i c. u_id u \<noteq> i \<longrightarrow> keeps (ctr_at i c) (\<lambda>_. True) (k u) (\<lambda>_. True)"
    using enroll_gate [of env rq] by (elim exE conjE)
  obtain x t where a: "requireAdmin env rq s = (x, t)" by (cases "requireAdmin env rq s")
  have t: "ctr_at i c (db_of t)"
    using requireAdmin_cases [OF a] assms(2) by (metis ctr_at_attempts)
  show ?thesis
  proof (cases x)
    case (Inl e)
    with run_hb_Inl [of "requireAdmin env rq" s e t k] a assms(1) t show ?thesis by (simp add: k)
  next
    case (Inr u)
    with requireAdmin_cases [OF a] assms(3) have "u_id u \<noteq> i" by auto
    moreover have "run (k u) t = (r, s')" using assms(1) a Inr by (simp add: k run_def hb_def)
    ultimately show ?thesis using run_keeps [OF keep [rule_format], of u i c t r s'] t by simp
  qed
qed

lemma ctr_at_serve:
  assumes "serve env m path rq s = (r, s')" and "ctr_at i c (db_of s)"
    and "\<And>ps row. lookup_route route_table m path = Some (REnroll, ps) \<Longrightarrow> signed_by env rq (db_of s) row \<Longrightarrow> u_id row \<noteq> i"
  shows "ctr_at i c (db_of s')"
proof (cases "\<exists>ps. lookup_route route_table m path = Some (REnroll, ps)")
  case False
  have "keeps (ctr_at i c) (\<lambda>_. True) (Routes env m path rq) (\<lambda>_. True)"
  proof (rule keeps_Routes)
    show "keeps (ctr_at i c) (\<lambda>_. True) (handler env rt (rq\<lparr>rq_path := path_value ps\<rparr>)) (\<lambda>_. True)"
      if "lookup_route route_table m path = Some (rt, ps)" for rt ps
      using that False by (intro counter.keeps_handler) auto
  qed (rule counter.keeps_throttle)
  from serve_keeps [OF this assms(1,2)] show ?thesis by simp
next
  case True
  then obtain ps where l: "lookup_route route_table m path = Some (REnroll, ps)" by blast
  from assms(1) l show ?thesis
  proof (cases rule: serve_cases)
    case (1 d)
    from 1(2) have run: "run (totpEnroll env (rq\<lparr>rq_path := path_value ps\<rparr>)) (s\<lparr>sv_db := d\<rparr>) = (r, s')"
      by (simp add: handler_def)
    show ?thesis by (rule ctr_at_enroll [OF run]) (use 1(1) assms(2,3) l in simp_all)
  next
    case 2
    with assms(2) show ?thesis by (blast intro: ctr_at_attempts)
  qed
qed

lemma ctr_at_step: "kept_step be prefix i s s' \<Longrightarrow> ctr_at i c (db_of s) \<Longrightarrow> ctr_at i c (db_of s')"
proof (induction rule: kept_step.induct)
  case (request env m path rq s r s')
  then show ?case by (intro ctr_at_serve [OF request(2)]) auto
next
  case (maintain env s r s')
  from run_keeps [OF counter.keeps_Maintain _ _ maintain(2)] maintain(3) show ?case by simp
qed simp

lemma ctr_at_steps: "(kept_step be prefix i)\<^sup>*\<^sup>* s s' \<Longrightarrow> ctr_at i c (db_of s) \<Longrightarrow> ctr_at i c (db_of s')"
  by (induction rule: rtranclp_induct) (auto intro: ctr_at_step)

section \<open>Accepted writes\<close>

definition ok_status :: "resp \<Rightarrow> bool" where
  "ok_status r \<longleftrightarrow> 200 \<le> rs_status r \<and> rs_status r < 300"

text \<open>Code whose early answers are no success.\<close>

definition refusing :: "('s, 'a) hm \<Rightarrow> bool" where
  "refusing m \<longleftrightarrow> (\<forall>s e t. m s = (Inl e, t) \<longrightarrow> \<not> ok_status e)"

lemma refusing_rules:
  "refusing (hret a)" "\<not> ok_status e \<Longrightarrow> refusing (answer e)" "\<not> ok_status e \<Longrightarrow> refusing (hguard b e)"
  "refusing (dbcall q)" "refusing m \<Longrightarrow> refusing n \<Longrightarrow> refusing (if b then m else n)"
  by (auto simp: refusing_def hret_def answer_def hguard_def dbcall_def split: prod.splits)

lemma refusing_hb: "refusing m \<Longrightarrow> (\<And>a. refusing (f a)) \<Longrightarrow> refusing (hb m f)"
  by (auto simp: refusing_def hb_def split: prod.splits sum.splits)

lemma refusing_cases:
  "(\<And>a. refusing (f a)) \<Longrightarrow> (\<And>b. refusing (g b)) \<Longrightarrow> refusing (case x of Inl a \<Rightarrow> f a | Inr b \<Rightarrow> g b)"
  "refusing m \<Longrightarrow> (\<And>b. refusing (h b)) \<Longrightarrow> refusing (case y of None \<Rightarrow> m | Some b \<Rightarrow> h b)"
  "(\<And>a b. refusing (p a b)) \<Longrightarrow> refusing (case z of (a, b) \<Rightarrow> p a b)"
  by (simp_all split: sum.splits option.splits prod.splits)

lemma error_status: "\<not> ok_status (errJSON n e) \<longleftrightarrow> \<not> (200 \<le> n \<and> n < 300)"
    "\<not> ok_status (writeJSON n kvs) \<longleftrightarrow> \<not> (200 \<le> n \<and> n < 300)"
  by (auto simp: errJSON_def writeJSON_def ok_status_def)

lemma refusing_stepUp: "refusing (stepUp env rq u)"
  unfolding stepUp_def totpAttempt_def totpLocked_def totpFailed_def consumeTOTP_def dbdo_def internal_error_def
  by (intro refusing_rules refusing_hb refusing_cases; simp add: error_status)

lemma refusing_requireAdmin: "refusing (requireAdmin env rq)"
  unfolding refusing_def
proof (intro allI impI)
  fix s e t assume "requireAdmin env rq s = (Inl e, t)"
  from requireAdmin_cases [OF this] show "\<not> ok_status e" unfolding adminError_def
    by (elim disjE exE conjE) (simp_all add: error_status)
qed

lemma run_hb_ok:
  assumes "run (hb m k) s = (r, s')" and "refusing m" and "ok_status r"
  obtains a t where "m s = (Inr a, t)" "run (k a) t = (r, s')"
proof (cases "m s")
  case (Pair x t)
  then show thesis using assms that by (cases x) (auto simp: run_def hb_def refusing_def)
qed

lemma stepUp_off: "stepUp env rq u s = (Inr (), s') \<Longrightarrow> \<not> u_totp_on u \<Longrightarrow> \<not> c_require_admin_totp (e_cfg env)"
  by (auto simp: stepUp_def hguard_def hret_def answer_def split: if_splits)

text \<open>What stands behind a success of a write: a signed administrator, a passed step-up, and a rest that
  keeps every counter.\<close>

lemma hb_hret: "hb (hret a) k = k a"
  by (simp add: hb_def hret_def fun_eq_iff)

lemma gate_run:
  assumes "run (hb (adminGate env rq) k) s = (r, s')" and "ok_status r"
  obtains row t t' where "requireAdmin env rq s = (Inr row, t)" "stepUp env rq row t = (Inr (), t')" "run (k row) t' = (r, s')"
proof -
  from assms(1) have "run (hb (requireAdmin env rq) (\<lambda>u. hb (stepUp env rq u) (\<lambda>_. k u))) s = (r, s')"
    by (simp add: adminGate_def hb_assoc hb_hret)
  then obtain row t where a: "requireAdmin env rq s = (Inr row, t)"
    and "run (hb (stepUp env rq row) (\<lambda>_. k row)) t = (r, s')"
    by (rule run_hb_ok [OF _ refusing_requireAdmin assms(2)])
  from this(2) obtain x t' where "stepUp env rq row t = (Inr x, t')" "run (k row) t' = (r, s')"
    by (rule run_hb_ok [OF _ refusing_stepUp assms(2)])
  with a show thesis by (intro that) simp_all
qed

lemma write_gate:
  assumes "serve env m path rq s = (r, s')" and "lookup_route route_table m path = Some (rt, ps)" and "rt \<in> write_routes"
    and "ok_status r"
  obtains row t t' where "signed_by env rq (db_of s) row" "u_admin row" "db_of t = db_of s"
    "stepUp env (rq\<lparr>rq_path := path_value ps\<rparr>) row t = (Inr (), t')"
    "\<And>i c. ctr_at i c (db_of t') \<Longrightarrow> ctr_at i c (db_of s')"
  using assms(1,2)
proof (cases rule: serve_cases)
  case (1 d)
  let ?rq = "rq\<lparr>rq_path := path_value ps\<rparr>" and ?s = "s\<lparr>sv_db := d\<rparr>"
  note gated = counter.gated_handler [OF assms(3), of env ?rq]
  from gated obtain k where "handler env rt ?rq = hb (adminGate env ?rq) k" by blast
  with 1(2) obtain row t t' where a: "requireAdmin env ?rq ?s = (Inr row, t)" and st: "stepUp env ?rq row t = (Inr (), t')"
    by (auto elim: gate_run [OF _ assms(4)])
  have "ctr_at i c (db_of s')" if c: "ctr_at i c (db_of t')" for i c
  proof -
    from gated [of i c] obtain k' where k': "handler env rt ?rq = hb (adminGate env ?rq) k'"
      "\<forall>u. keeps (ctr_at i c) (\<lambda>_. True) (k' u) (\<lambda>_. True)" by auto
    then have "run (hb (adminGate env ?rq) k') ?s = (r, s')" using 1(2) by simp
    then have "run (k' row) t' = (r, s')"
      by (rule gate_run [OF _ assms(4)]) (use a st in simp)
    from run_keeps [OF k'(2) [rule_format] _ _ this] c show ?thesis by simp
  qed
  with requireAdmin_cases [OF a] 1(1) st that [of row t t'] show thesis by simp
next
  case 2
  with assms(4) show thesis by (simp add: ok_status_def)
qed

end
