(* ===== verification/CodeUse.thy ===== *)
theory CodeUse
  imports CodeOnce
begin

text \<open>
  The step-up gate: when it opens, what it consumes, and when it stays shut.
\<close>

section \<open>When it opens\<close>

definition too_many_failures :: "'s env \<Rightarrow> string \<Rightarrow> db \<Rightarrow> bool" where
  "too_many_failures env un d \<longleftrightarrow> 0 < c_throttle_max (e_cfg env) \<and> c_throttle_max (e_cfg env) \<le>
     int (length (filter (\<lambda>f. f_user f = Some un \<and> f_reason f = totpFailReason \<and>
       e_now env - c_throttle_window (e_cfg env) \<le> f_created f) (failed d)))"

lemma totpLocked_nofault:
  "sv_db s = (d, []) \<Longrightarrow> totpLocked env u s = (if too_many_failures env (u_name u) d
     then (Inl (errJSON 429 ''Too many failed TOTP codes; try again later''), s) else (Inr (), s))"
  by (auto simp: totpLocked_def too_many_failures_def hb_def dbcall_def hret_def answer_def CountRecentUserFailures_def)

lemma find_distinct: "distinct (map f xs) \<Longrightarrow> x \<in> set xs \<Longrightarrow> find (\<lambda>y. f y = f x) xs = Some x"
  by (induction xs) auto

lemma ConsumeTOTPCounter_nofault:
  assumes "wf_users d" and "u \<in> set (users d)" and "u_totp_ctr u < c"
  shows "ConsumeTOTPCounter (u_id u) c (d, []) = (Inr True, (upd_user (u_id u) (\<lambda>u. u\<lparr>u_totp_ctr := c\<rparr>) d, []))"
proof -
  obtain r t where q: "ConsumeTOTPCounter (u_id u) c (d, []) = (r, t)" by (cases "ConsumeTOTPCounter (u_id u) c (d, [])")
  let ?P = "\<lambda>v. u_id v = u_id u \<and> u_totp_ctr v < c"
  have di: "distinct (map u_id (users d))" using assms(1) ids_ok_distinct by (auto simp: wf_users_def)
  have "filter ?P (users d) = filter (\<lambda>v. u_totp_ctr v < c) (filter (\<lambda>v. u_id v = u_id u) (users d))"
    by (simp add: conj_commute)
  moreover have f: "find (\<lambda>v. u_id v = u_id u) (users d) = Some u"
    using find_distinct [OF di assms(2)] .
  ultimately have "length (filter ?P (users d)) = 1" using find_unique [OF di, of "u_id u"] assms(3) by simp
  then have "r = Inr True" "snd t = []" using q by (auto simp: ConsumeTOTPCounter_def)
  moreover have "fst t = upd_user (u_id u) (\<lambda>u. u\<lparr>u_totp_ctr := c\<rparr>) d"
    using ConsumeTOTPCounter_cases [OF _ q] assms(1) \<open>r = Inr True\<close> by auto
  ultimately show ?thesis using q by (cases t) simp
qed

lemma stepUp_passes:
  assumes "sv_db s = (d, [])" and "wf_users d" and "u \<in> set (users d)" and "u_totp_on u"
    and "c_totp_replay (e_cfg env)" and "\<not> too_many_failures env (u_name u) d"
    and "trim_space (totp_code_of rq) \<noteq> []" and "matched_ctr env rq u = Some c" and "u_totp_ctr u < c"
  shows "stepUp env rq u s = (Inr (), s\<lparr>sv_db := (upd_user (u_id u) (\<lambda>u. u\<lparr>u_totp_ctr := c\<rparr>) d, [])\<rparr>)"
proof -
  have "consumeTOTP env u (totp_code_of rq) s = (Inr (Inr (True, False)), s\<lparr>sv_db := (upd_user (u_id u) (\<lambda>u. u\<lparr>u_totp_ctr := c\<rparr>) d, [])\<rparr>)"
    using ConsumeTOTPCounter_nofault [OF assms(2,3,9)] assms(1,5,8)
    by (simp add: consumeTOTP_def matched_ctr_def hb_def dbcall_def hret_def)
  then show ?thesis
    using assms(4,6,7) totpLocked_nofault [OF assms(1), of env u]
    by (simp add: stepUp_def totpAttempt_def hb_def hret_def hguard_def)
qed

section \<open>What it consumes\<close>

lemma ctr_at_consumed: "wf_users d \<Longrightarrow> u \<in> set (users d) \<Longrightarrow> ctr_at (u_id u) c (upd_user (u_id u) (\<lambda>u. u\<lparr>u_totp_ctr := c\<rparr>) d)"
  by (auto simp: ctr_at_def upd_user_def wf_users_def ids_ok_def dest!: set_upd_where)

lemma signer_row: "signed_by env rq d row \<Longrightarrow> row \<in> set (users d)"
  using accepts_user by (auto simp: signed_by_def)

lemma write_accepted:
  assumes "serve env m path rq s = (r, s')" and "lookup_route route_table m path = Some (rt, ps)" and "rt \<in> write_routes"
    and "ok_status r" and "wf_users (db_of s)"
  shows "\<exists>row. signed_by env rq (db_of s) row \<and> u_admin row \<and>
    (u_totp_on row \<longrightarrow> matched_ctr env rq row \<noteq> None) \<and>
    (u_totp_on row \<and> c_totp_replay (e_cfg env) \<longrightarrow> (\<exists>c. matched_ctr env rq row = Some c \<and> u_totp_ctr row < c \<and>
       ctr_at (u_id row) c (db_of s'))) \<and>
    (\<not> u_totp_on row \<longrightarrow> \<not> c_require_admin_totp (e_cfg env))"
proof -
  let ?rq = "rq\<lparr>rq_path := path_value ps\<rparr>"
  obtain row t t' where g: "signed_by env rq (db_of s) row" "u_admin row" "db_of t = db_of s"
    "stepUp env ?rq row t = (Inr (), t')" "\<And>i c. ctr_at i c (db_of t') \<Longrightarrow> ctr_at i c (db_of s')"
    using write_gate [OF assms(1-4)] by metis
  have "\<exists>c. matched_ctr env rq row = Some c \<and> u_totp_ctr row < c \<and> ctr_at (u_id row) c (db_of s')"
    if "u_totp_on row" "c_totp_replay (e_cfg env)"
  proof -
    have wf: "wf_users (db_of t)" using assms(5) g(3) by simp
    from stepUp_consumes [OF g(4) that wf] obtain c v where c: "matched_ctr env ?rq row = Some c"
      "find (\<lambda>v. u_id v = u_id row) (users (db_of t)) = Some v" "u_totp_ctr v < c"
      "db_of t' = upd_user (u_id row) (\<lambda>u. u\<lparr>u_totp_ctr := c\<rparr>) (db_of t)"
      by (elim exE conjE)
    have row: "row \<in> set (users (db_of t))" using signer_row [OF g(1)] g(3) by simp
    have "v = row"
      using c(2) row wf ids_ok_inj [of u_id "users_seq (db_of t)" "users (db_of t)" v row]
      by (auto simp: find_Some_iff wf_users_def)
    with c g(5) ctr_at_consumed [OF wf row] show ?thesis by auto
  qed
  with g(1,2) stepUp_off [OF g(4)] stepUp_matches [OF g(4)] show ?thesis by auto
qed

section \<open>When it stays shut\<close>

lemma totp_path: "totp_code_of (rq\<lparr>rq_path := f\<rparr>) = totp_code_of rq"
  by (simp add: totp_code_of_def)

lemma requireAdmin_signed:
  assumes "sv_db s = (d, [])" and "signed_by env rq d row" and "u_admin row"
  shows "requireAdmin env rq s = (Inr row, s)"
proof -
  from assms(2) obtain tsStr ts where a: "find (\<lambda>u. u_name u = u_name row) (users d) = Some row" "CHR '':'' \<notin> set (u_name row)"
    "rq_auth rq = signed_header row tsStr" "parse_int64 tsStr = Some ts" "\<not> expired (e_now env) (c_ttl (e_cfg env)) ts"
    by (auto simp: signed_by_def accepts_def)
  have "RequireAdmin (e_now env) (rq_auth rq) (c_ttl (e_cfg env)) (requestIP (e_cfg env) rq) (sv_db s) = ((Some row, []), (d, []))"
    using VerifyHMAC_signed [OF a(1,2,4,5)] a(1,3) assms(1,3)
    by (simp add: RequireAdmin_def IsAdmin_def GetUserByUsername_def)
  with assms(1) show ?thesis by (simp add: requireAdmin_def)
qed

definition throttled :: "'s env \<Rightarrow> request \<Rightarrow> db \<Rightarrow> bool" where
  "throttled env rq d \<longleftrightarrow> 0 < c_throttle_max (e_cfg env) \<and> requestIP (e_cfg env) rq \<noteq> [] \<and> c_throttle_max (e_cfg env) \<le>
     int (length (filter (\<lambda>f. f_ip f = Some (requestIP (e_cfg env) rq) \<and> e_now env - c_throttle_window (e_cfg env) \<le> f_created f)
       (failed d)))"

lemma throttle_nofault:
  assumes "sv_db s = (d, [])"
  shows "throttleGate env rq h s =
    (if throttled env rq d then (Inl (errJSON 429 ''Too many failed attempts; try again later''), s) else h s)"
proof -
  have e: "s\<lparr>sv_db := (d, [])\<rparr> = s" using assms by (cases s) simp
  show ?thesis unfolding throttleGate_def assms CheckIPThrottle_nofault throttled_def by (auto simp: e)
qed

lemma serve_handler:
  assumes "sv_db s = (d, [])" and "\<not> throttled env rq d" and "lookup_route route_table m path = Some (rt, ps)"
  shows "serve env m path rq s = run (handler env rt (rq\<lparr>rq_path := path_value ps\<rparr>)) s"
  using assms(2,3) throttle_nofault [OF assms(1)] by (simp add: serve_def Routes_def dispatch_def run_def)

lemma write_locked:
  assumes "serve env m path rq s = (r, s')" and "lookup_route route_table m path = Some (rt, ps)" and "rt \<in> write_routes"
    and "sv_db s = (d, [])" and "signed_by env rq d row" and "u_admin row" and "u_totp_on row"
    and "trim_space (totp_code_of rq) \<noteq> []" and "too_many_failures env (u_name row) d"
  shows "rs_status r = 429 \<and> s' = s"
proof -
  let ?rq = "rq\<lparr>rq_path := path_value ps\<rparr>"
  from counter.gated_handler [OF assms(3), of env ?rq]
  obtain k where k: "handler env rt ?rq = hb (adminGate env ?rq) k" by blast
  have "requireAdmin env ?rq s = (Inr row, s)"
    by (rule requireAdmin_signed [OF assms(4)]) (use assms(5,6) in simp_all)
  moreover have "stepUp env ?rq row s = (Inl (errJSON 429 ''Too many failed TOTP codes; try again later''), s)"
    using totpLocked_nofault [OF assms(4), of env row] assms(7-9) totp_path
    by (simp add: stepUp_def totpAttempt_def hb_def)
  ultimately have h: "handler env rt ?rq s = (Inl (errJSON 429 ''Too many failed TOTP codes; try again later''), s)"
    by (simp add: k adminGate_def hb_def)
  have "\<exists>e. Routes env m path rq s = (Inl (errJSON 429 e), s)"
    using throttle_nofault [OF assms(4), of env rq "handler env rt ?rq"] h assms(2)
    by (auto simp: Routes_def dispatch_def)
  with assms(1) show ?thesis by (auto simp: serve_def run_def errJSON_def writeJSON_def)
qed

lemma set_admin_served:
  assumes "sv_db s = (d, [])" and "wf_users d" and "signed_by env rq d row" and "u_admin row" and "u_totp_on row"
    and "c_totp_replay (e_cfg env)" and "failed d = []"
    and "trim_space (totp_code_of rq) \<noteq> []" and "matched_ctr env rq row = Some c" and "u_totp_ctr row < c"
    and "lookup_route route_table m path = Some (RSetAdmin, ps)" and "parse_int64 (path_value ps ''user_id'') = Some uid"
    and "t \<in> set (users d)" and "u_id t = uid" and "serve env m path rq s = (r, s')"
  shows "ok_status r \<and> snd (sv_db s') = [] \<and> failed (db_of s') = [] \<and> users (db_of s') =
    users (upd_user uid (\<lambda>u. u\<lparr>u_admin := jsonBoolDefault (rq_body rq) ''is_admin'' True\<rparr>)
      (upd_user (u_id row) (\<lambda>u. u\<lparr>u_totp_ctr := c\<rparr>) d))"
proof -
  let ?rq = "rq\<lparr>rq_path := path_value ps\<rparr>" and ?d = "upd_user (u_id row) (\<lambda>u. u\<lparr>u_totp_ctr := c\<rparr>) d"
  have "\<not> too_many_failures env (u_name row) d" "\<not> throttled env rq d"
    by (simp_all add: assms(7) too_many_failures_def throttled_def)
  moreover have a: "requireAdmin env ?rq s = (Inr row, s)"
    by (rule requireAdmin_signed [OF assms(1)]) (use assms(3,4) in simp_all)
  moreover have "stepUp env ?rq row s = (Inr (), s\<lparr>sv_db := (?d, [])\<rparr>)"
    by (rule stepUp_passes [OF assms(1,2) signer_row [OF assms(3)] assms(5,6) calculation(1)])
      (use assms(8,9,10) in \<open>simp_all add: totp_path\<close>)
  ultimately have g: "adminGate env ?rq s = (Inr row, s\<lparr>sv_db := (?d, [])\<rparr>)" and th: "\<not> throttled env rq d"
    by (simp_all add: adminGate_def hb_def hret_def)
  have "map u_id (users ?d) = map u_id (users d)" by (simp add: upd_user_def upd_where_def)
  then have "uid \<in> u_id ` set (users ?d)" using assms(13,14) by (metis image_eqI list.set_map)
  then have "find (\<lambda>u. u_id u = uid) (users ?d) \<noteq> None" by (auto simp: find_None_iff)
  then show ?thesis
    using assms(15,12,7) serve_handler [OF assms(1) th assms(11)]
    by (auto simp: handler_def adminSetAdmin_def hb_def g run_def found_def pathInt_def
        the_user_def dbtry_def dbcall_def GetUser_def SetUserAdmin_def audit_log_def dbdo_def LogAudit_def hret_def
        ok_status_def writeJSON_def upd_user_def Let_def split: option.splits)
qed

section \<open>A server whose administrator has enrolled\<close>

definition root_row :: user where
  "root_row = (new_user 0 2 ''bob'' ''sb'' True)\<lparr>u_totp := Some ''GEZDGNBV'', u_totp_on := True\<rparr>"

definition root_db :: db where
  "root_db = demo_db\<lparr>users := [hd (users demo_db), root_row]\<rparr>"

definition root_srv :: "mock srv" where
  "root_srv = demo_srv\<lparr>sv_db := (root_db, [])\<rparr>"

definition root_request :: "user \<Rightarrow> string \<Rightarrow> int \<Rightarrow> request" where
  "root_request row ts t = demo_request\<lparr>rq_auth := signed_header row ts, rq_totp := TOTPNow ''GEZDGNBV'' t\<rparr>"

definition root_env :: "int \<Rightarrow> mock env" where
  "root_env t = demo_env\<lparr>e_now := t\<rparr>"

abbreviation admin_path :: "string list" where
  "admin_path \<equiv> [''api'', ''admin'', ''users'', ''1'', ''admin'']"

lemma root_signs:
  assumes "parse_int64 ts = Some t" and "find (\<lambda>u. u_name u = u_name row) (users d) = Some row" and "CHR '':'' \<notin> set (u_name row)"
  shows "signed_by (root_env t) (root_request row ts t) d row"
proof -
  have "\<not> expired t 300 t" by (simp add: expired_def abs64_def)
  with assms show ?thesis
    by (auto simp: signed_by_def accepts_def root_env_def demo_env_def default_config_def root_request_def)
qed

lemma root_matches:
  assumes "u_totp row = Some ''GEZDGNBV''"
  obtains c where "matched_ctr (root_env t) (root_request row ts t) row = Some c" "step_of t - 1 \<le> c" "c \<le> step_of t + 1"
    "trim_space (totp_code_of (root_request row ts t)) \<noteq> []"
proof -
  let ?code = "TOTPNow ''GEZDGNBV'' t"
  have f: "length ?code = 6" "trim_space ?code = ?code"
    using hotp_format trim_space_digits by (simp_all add: TOTPNow_def)
  then have ne: "?code \<noteq> []" by auto
  then have code: "totp_code_of (root_request row ts t) = ?code" by (simp add: totp_code_of_def root_request_def)
  have "VerifyTOTPCounter ''GEZDGNBV'' ?code t \<noteq> None"
    using ne f(2) unfolding VerifyTOTPCounter_def window_steps by (simp add: TOTPNow_def)
  then obtain c where c: "VerifyTOTPCounter ''GEZDGNBV'' ?code t = Some c" by blast
  then have "c \<in> {step_of t - 1, step_of t, step_of t + 1}"
    unfolding VerifyTOTPCounter_def window_steps by (auto split: if_splits)
  with c assms code ne f(2) show thesis by (intro that [of c]) (auto simp: matched_ctr_def root_env_def)
qed

lemma root_write:
  assumes "sv_db s = (d, [])" and "wf_users d" and "failed d = []" and "find (\<lambda>u. u_name u = u_name row) (users d) = Some row"
    and "CHR '':'' \<notin> set (u_name row)" and "u_admin row" and "u_totp row = Some ''GEZDGNBV''" and "u_totp_on row"
    and "u_totp_ctr row < step_of t - 1" and "parse_int64 ts = Some t" and "v \<in> set (users d)" and "u_id v = 1"
  obtains r s' c where "serve (root_env t) ''POST'' admin_path (root_request row ts t) s = (r, s')" "ok_status r"
    "snd (sv_db s') = []" "failed (db_of s') = []" "c \<le> step_of t + 1" "users (db_of s') =
      users (upd_user 1 (\<lambda>u. u\<lparr>u_admin := True\<rparr>) (upd_user (u_id row) (\<lambda>u. u\<lparr>u_totp_ctr := c\<rparr>) d))"
proof -
  obtain c where c: "matched_ctr (root_env t) (root_request row ts t) row = Some c" "step_of t - 1 \<le> c" "c \<le> step_of t + 1"
    "trim_space (totp_code_of (root_request row ts t)) \<noteq> []" using root_matches [OF assms(7)] .
  obtain r s' where s: "serve (root_env t) ''POST'' admin_path (root_request row ts t) s = (r, s')"
    by (cases "serve (root_env t) ''POST'' admin_path (root_request row ts t) s")
  have l: "lookup_route route_table ''POST'' admin_path = Some (RSetAdmin, [(''user_id'', ''1'')])"
    by (simp add: route_table_def method_ok_def)
  have p: "parse_int64 (path_value [(''user_id'', ''1'')] ''user_id'') = Some 1" by code_simp
  have e: "c_totp_replay (e_cfg (root_env t))" by (simp add: root_env_def demo_env_def default_config_def)
  have b: "jsonBoolDefault (rq_body (root_request row ts t)) ''is_admin'' True"
    by (simp add: root_request_def demo_request_def jsonBoolDefault_def jsonBool_def)
  have lt: "u_totp_ctr row < c" using c(2) assms(9) by simp
  from set_admin_served [OF assms(1,2) root_signs [OF assms(10,4,5)] assms(6,8) e assms(3) c(4,1) lt l p assms(11,12) s] b
  show thesis by (intro that [OF s]) (use c(3) in simp_all)
qed

lemma root_first:
  obtains r s' c where "serve (root_env 1000) ''POST'' admin_path (root_request root_row ''1000'' 1000) root_srv = (r, s')"
    "ok_status r" "snd (sv_db s') = []" "failed (db_of s') = []" "c \<le> 34"
    "users (db_of s') = [(hd (users demo_db))\<lparr>u_admin := True\<rparr>, root_row\<lparr>u_totp_ctr := c\<rparr>]"
proof -
  have n: "step_of 1000 = 33" "parse_int64 ''1000'' = Some 1000" by code_simp+
  have wf: "wf_users root_db" by code_simp
  have f: "find (\<lambda>u. u_name u = u_name root_row) (users root_db) = Some root_row"
    by (simp add: root_db_def root_row_def demo_db_def new_user_def)
  obtain r s' c where "serve (root_env 1000) ''POST'' admin_path (root_request root_row ''1000'' 1000) root_srv = (r, s')" "ok_status r"
    "snd (sv_db s') = []" "failed (db_of s') = []" "c \<le> step_of 1000 + 1" "users (db_of s') =
      users (upd_user 1 (\<lambda>u. u\<lparr>u_admin := True\<rparr>) (upd_user (u_id root_row) (\<lambda>u. u\<lparr>u_totp_ctr := c\<rparr>) root_db))"
    by (rule root_write [of root_srv root_db root_row 1000 "''1000''" "hd (users demo_db)"])
      (use n wf f in \<open>simp_all add: root_srv_def root_db_def root_row_def demo_db_def new_user_def empty_db_def\<close>)
  moreover have "users (upd_user 1 (\<lambda>u. u\<lparr>u_admin := True\<rparr>) (upd_user (u_id root_row) (\<lambda>u. u\<lparr>u_totp_ctr := c\<rparr>) root_db)) =
      [(hd (users demo_db))\<lparr>u_admin := True\<rparr>, root_row\<lparr>u_totp_ctr := c\<rparr>]"
    by (simp add: root_db_def root_row_def demo_db_def new_user_def upd_user_def upd_where_def)
  ultimately show thesis using n(1) by (intro that) simp_all
qed

end
