(* ===== verification/KnockLaws.thy ===== *)
theory KnockLaws
  imports CodeUse
begin

text \<open>
  What a successful knock has done, from the signature to the firewall and the row: the composition of the
  handler with the authentication, the policy layer, the database and any \<open>keyed_store\<close>.
\<close>

section \<open>Stages of the handler\<close>

definition warned :: "resp \<Rightarrow> bool" where
  "warned r \<longleftrightarrow> (case rs_body r of JObj kvs \<Rightarrow> ''warning'' \<in> fst ` set kvs | _ \<Rightarrow> False)"

definition record_knock :: "int \<Rightarrow> user \<Rightarrow> string \<Rightarrow> db \<Rightarrow> db" where
  "record_knock now row ip d = d\<lparr>
     users := upd_where (\<lambda>u. u_id u = u_id row) (\<lambda>u. u\<lparr>u_ip := Some ip, u_knock := Some now\<rparr>) (users d),
     oplog := oplog d @ (if u_ip row = Some ip then [] else [ip_change_entry now (u_name row) ip (u_ip row)])\<rparr>"

definition enabled_for :: "db \<Rightarrow> int \<Rightarrow> grp \<Rightarrow> bool" where
  "enabled_for d uid g \<longleftrightarrow> g \<in> set (grps d) \<and> (\<exists>m \<in> set (members d). is_row uid (g_id g) m \<and> m_enabled m)"

definition door :: "string \<Rightarrow> string \<Rightarrow> user \<Rightarrow> grp \<Rightarrow> rule \<Rightarrow> bool" where
  "door prefix ip row g r \<longleftrightarrow> r_user r = u_name row \<and>
     access prefix (u_name row) r = (ip, g_port g, g_proto g, g_name g)"

lemma refusing_authUser: "refusing (authUser env rq)"
  unfolding refusing_def
proof (intro allI impI)
  fix s e t assume "authUser env rq s = (Inl e, t)"
  from authUser_cases [OF this] show "\<not> ok_status e"
    by (elim disjE exE conjE) (simp_all add: error_status)
qed

lemma refusing_dbtry: "refusing (dbtry m)" "refusing (fwcall f)" "\<not> ok_status e \<Longrightarrow> refusing (found x e)"
  unfolding dbtry_def internal_error_def
  by (intro refusing_hb refusing_rules refusing_cases; simp add: error_status)
    (auto simp: refusing_def fwcall_def found_def hret_def answer_def split: prod.splits option.splits)

lemma dbtry_InrD: "dbtry m s = (Inr a, t) \<Longrightarrow> m (sv_db s) = (Inr a, sv_db t) \<and> sv_fw t = sv_fw s"
  by (cases "m (sv_db s)") (auto simp: dbtry_def hb_def dbcall_def answer_def hret_def split: sum.splits)

lemma fwcall_InrD: "fwcall f s = (Inr a, t) \<Longrightarrow> f (sv_fw s) = (a, sv_fw t) \<and> sv_db t = sv_db s"
  by (cases "f (sv_fw s)") (auto simp: fwcall_def)

lemma found_InrD: "found x e s = (Inr a, t) \<Longrightarrow> x = Some a \<and> t = s"
  by (auto simp: found_def answer_def hret_def split: option.splits)

lemma hguard_InrD: "hguard b e s = (Inr a, t) \<Longrightarrow> b \<and> t = s"
  by (auto simp: hguard_def answer_def hret_def split: if_splits)

lemma set_warned: "warned (writeJSON n (with_warning ws kvs)) \<longleftrightarrow> ws \<noteq> [] \<or> ''warning'' \<in> fst ` set kvs"
  by (auto simp: warned_def writeJSON_def with_warning_def)

lemma anomalyCheck_run: "anomalyCheck env un s = (x, t) \<Longrightarrow> (\<exists>a. x = Inr a) \<and> db_of t = db_of s \<and> sv_fw t = sv_fw s"
  by (auto simp: anomalyCheck_def split: prod.splits dest!: CheckIPAnomaly_fst)

lemma record_runs:
  assumes "RecordIPChange now i un ip s = (Inr prior, s')"
    and "row \<in> set (users (fst s))" and "u_id row = i" and "u_name row = un" and "distinct (map u_id (users (fst s)))"
  shows "prior = u_ip row \<and> fst s' = record_knock now row ip (fst s)"
  using assms(1) unfolding RecordIPChange_def
proof (elim txn_InrE bnd_InrE, goal_cases)
  case (1 t u p t1 x t2 y t3)
  have "find (\<lambda>u. u_id u = i) (users (fst s)) = Some row"
    using find_distinct [OF assms(5,2)] assms(3) by simp
  with 1 assms(3,4) show ?case
    by (auto simp: record_knock_def upd_user_def log_op_def ip_change_entry_def dest!: query_row_InrD exec_InrD split: if_splits)
qed

section \<open>The firewall\<close>

lemma remove_old_keeps:
  assumes "rule_store be prefix store host I" and "e_be env = be" and "CHR '':'' \<notin> set un" and "\<forall>g \<in> set gs. g_name g \<noteq> []"
    and "I (sv_fw s)" and "remove_old_rules env un old gs s = (x, t)"
  shows "x = Inr () \<and> sv_db t = sv_db s \<and> (\<forall>r \<in> set (store (sv_fw s)). r_ip r \<noteq> old \<longrightarrow> r \<in> set (store (sv_fw t)))"
  using assms(4-6)
proof (induction gs arbitrary: s)
  case Nil
  then show ?case by (simp add: hret_def)
next
  case (Cons g gs)
  obtain eo w where e: "be_RemoveRule be old (g_port g) un (g_proto g) (g_name g) (sv_fw s) = (eo, w)" by (metis surj_pair)
  have k: "I w \<and> (\<forall>r \<in> set (store (sv_fw s)). r_ip r \<noteq> old \<longrightarrow> r \<in> set (store w))"
  proof (cases eo)
    case None
    with rule_store.remove_ok [OF assms(1) Cons.prems(2)] e assms(3) Cons.prems(1)
    have "I w" "store w = drop_first (remove_matches prefix old (g_port g) un (g_proto g) (g_name g)) (store (sv_fw s))"
      by (metis list.set_intros(1))+
    then show ?thesis by (auto intro!: drop_first_keeps simp: remove_matches_def)
  next
    case (Some er)
    with rule_store.remove_err [OF assms(1) Cons.prems(2)] e assms(3) Cons.prems(1)
    have "I w" "store w = store (sv_fw s)"
      by (metis list.set_intros(1))+
    then show ?thesis by simp
  qed
  have "remove_old_rules env un old gs (s\<lparr>sv_fw := w\<rparr>) = (x, t)"
    using Cons.prems(3) e assms(2) by (simp add: hb_def fwcall_def manager_RemoveRule_def)
  with Cons.IH [of "s\<lparr>sv_fw := w\<rparr>"] Cons.prems(1) k show ?case by auto
qed

lemma portMap_valid:
  assumes "server_ok d" and "gs = filter P (grps d)" and "mset xs = mset (portMap gs)"
  shows "valid_enabled xs"
proof -
  have "distinct (map g_name (grps d))" using assms(1) by (simp add: server_ok_def wf_db_def wf_grps_def)
  then have "distinct (map fst (portMap gs))"
    by (simp add: portMap_def o_def assms(2) distinct_map_filter)
  then have "distinct (map fst xs)"
    using assms(3) by (metis mset_map mset_eq_imp_distinct_iff)
  moreover have "set xs = set (portMap gs)" using assms(3) by (metis set_mset_mset)
  moreover have "\<forall>g \<in> set gs. g_name g \<noteq> [] \<and> CHR '':'' \<notin> set (g_name g)"
    using assms(1,2) rows_okD(2) ValidName_facts by (fastforce simp: grp_ok_def)
  ultimately show ?thesis by (auto simp: valid_enabled_def portMap_def)
qed

lemma reconcile_keeps:
  assumes "keyed_store be prefix store host I" and "I w" and "CHR '':'' \<notin> set user"
    and "manager_Reconcile be prefix user ip xs w = (rc, w')" and "r \<in> set (store w)" and "\<not> is_stale prefix user ip xs r"
  shows "r \<in> set (store w')"
proof -
  from keyed_store.manager_Reconcile_run [OF assms(1-4)] obtain D ns where
    D: "D \<subseteq> r_handle ` {r \<in> set (filter (listed prefix user) (store w)). is_stale prefix user ip xs r}" and
    m: "mset (store w') = mset (filter (\<lambda>r. r_handle r \<notin> D) (store w)) + mset ns"
    by blast
  have "distinct (map r_handle (store w))"
    using rule_store.wf [OF keyed_store.axioms(1) [OF assms(1)] assms(2)] by (simp add: wf_store_def)
  then have "r_handle r \<notin> D" using D assms(5,6) by (auto simp: distinct_map dest: inj_onD)
  with assms(5) have "r \<in># mset (store w')" unfolding m by simp
  then show ?thesis by simp
qed

lemma reconcile_doors:
  assumes "keyed_store be prefix store host I" and "I w" and "server_ok d" and "CHR '':'' \<notin> set (u_name row)"
    and "gs = filter P (grps d)" and "mset xs = mset (portMap gs)"
    and "manager_Reconcile be prefix (u_name row) ip xs w = (rc, w')" and "rc_err rc = None" and "rc_denied rc = []"
  shows "I w' \<and> (\<forall>g \<in> set gs. (\<exists>r \<in> set (store w'). door prefix ip row g r) \<or>
    (\<exists>a. host w (ip, g_port g, g_proto g) = Some a \<and> a \<noteq> ''DENY'' \<and> a \<noteq> ''REJECT''))"
proof (intro conjI ballI)
  note v = portMap_valid [OF assms(3,5,6)]
  note opens = reconcile_opens [OF assms(1,2,4) v assms(7,8)]
  from keyed_store.manager_Reconcile_run [OF assms(1,2,4,7)] show i: "I w'" by blast
  fix g assume g: "g \<in> set gs"
  let ?pp = "PP (g_port g) (g_proto g)" and ?m = "(ip, g_port g, g_proto g)"
  have "set xs = set (portMap gs)" using assms(6) by (metis set_mset_mset)
  with g have x: "(g_name g, ?pp) \<in> set xs" by (auto simp: portMap_def)
  have keep: "door prefix ip row g r"
    if "r \<in> set (store k)" "I k" "listed prefix (u_name row) r" "access prefix (u_name row) r = (ip, g_port g, g_proto g, g_name g)"
    for r k
  proof -
    have "wf_rule prefix r" using rule_store.wf [OF keyed_store.axioms(1) [OF assms(1)] that(2)] that(1) by (simp add: wf_store_def)
    from listed_user(1) [OF this assms(4)] that(3,4) show ?thesis by (simp add: door_def listed_def)
  qed
  from opens x have o: "host w ?m \<noteq> None \<or> (\<exists>r \<in> set (store w'). listed prefix (u_name row) r \<and>
      access prefix (u_name row) r = (ip, g_port g, g_proto g, g_name g))" by fastforce
  show "(\<exists>r \<in> set (store w'). door prefix ip row g r) \<or> (\<exists>a. host w ?m = Some a \<and> a \<noteq> ''DENY'' \<and> a \<noteq> ''REJECT'')"
  proof (cases "host w ?m \<in> {Some ''DENY'', Some ''REJECT''}")
    case True
    with opens assms(9) x obtain r where r: "r \<in> set (store w)" "listed prefix (u_name row) r"
        "access prefix (u_name row) r = (ip, g_port g, g_proto g, g_name g)"
      by fastforce
    have "map_of xs (g_name g) \<noteq> None" using x by (auto simp: map_of_eq_None_iff rev_image_eqI)
    then have "\<not> is_stale prefix (u_name row) ip xs r" using r(3) by (auto simp: is_stale_def access_def Let_def)
    with reconcile_keeps [OF assms(1,2,4,7) r(1)] keep [OF _ i r(2,3)] show ?thesis by blast
  next
    case False
    show ?thesis
    proof (cases "host w ?m")
      case None
      with o obtain r where "r \<in> set (store w')" "listed prefix (u_name row) r"
          "access prefix (u_name row) r = (ip, g_port g, g_proto g, g_name g)" by (elim disjE bexE conjE) simp_all
      with keep [OF _ i] show ?thesis by (intro disjI1 bexI)
    next
      case (Some a)
      with False show ?thesis by (intro disjI2 exI [of _ a] conjI) simp_all
    qed
  qed
qed

section \<open>The knock\<close>

text \<open>The answer, after the firewall and the row are written.\<close>

abbreviation inactive_warning :: string where
  "inactive_warning \<equiv> ''The server'' @ [CHR 39] @ ''s firewall (ufw) is not active.''"

abbreviation knock_answer :: "'s env \<Rightarrow> string \<Rightarrow> string \<Rightarrow> string list \<Rightarrow> grp list \<Rightarrow> string option \<Rightarrow> ('s, resp) hm" where
  "knock_answer env un ip ws gs old \<equiv>
     (if old = Some ip
      then hret (writeJSON 200 (with_warning ws [(''ok'', JBool True), (''ip'', JStr ip), (''changed'', JBool False),
             (''message'', JStr ''IP unchanged, heartbeat recorded'')]))
      else hb (case old of Some o' \<Rightarrow> remove_old_rules env un o' gs | None \<Rightarrow> hret ()) (\<lambda>_.
        hb (anomalyCheck env un) (\<lambda>a.
        hret (writeJSON 200 (with_warning (ws @ (case a of None \<Rightarrow> [] | Some an \<Rightarrow> [anomaly_warning (e_cfg env) an]))
            [(''ok'', JBool True), (''ip'', JStr ip), (''changed'', JBool True),
            (''old_ip'', opt_str old), (''groups'', JArr (map (\<lambda>g. JStr (g_name g)) gs)),
            (''message'', JStr ''Firewall rules updated'')])))))"

lemma knock_answer_run:
  assumes "rule_store be prefix store host I" and "e_be env = be" and "CHR '':'' \<notin> set un" and "\<forall>g \<in> set gs. g_name g \<noteq> []"
    and "I (sv_fw s)" and "run (knock_answer env un ip ws gs old) s = (resp, s')"
  shows "db_of s' = db_of s \<and> (\<forall>r \<in> set (store (sv_fw s)). r_ip r = ip \<longrightarrow> r \<in> set (store (sv_fw s'))) \<and> (ws \<noteq> [] \<longrightarrow> warned resp)"
proof (cases "old = Some ip")
  case True
  with assms(6) show ?thesis by (auto simp: run_def hret_def set_warned)
next
  case False
  define m where "m = (case old of Some o' \<Rightarrow> remove_old_rules env un o' gs | None \<Rightarrow> hret ())"
  obtain x t where m: "m s = (x, t)" by (metis surj_pair)
  have k: "x = Inr () \<and> sv_db t = sv_db s \<and> (\<forall>r \<in> set (store (sv_fw s)). r_ip r = ip \<longrightarrow> r \<in> set (store (sv_fw t)))"
  proof (cases old)
    case None
    with m show ?thesis by (simp add: m_def hret_def)
  next
    case (Some o')
    with remove_old_keeps [OF assms(1-5)] m False show ?thesis by (auto simp: m_def)
  qed
  obtain y u where y: "anomalyCheck env un t = (y, u)" by (metis surj_pair)
  from anomalyCheck_run [OF y] obtain a where a: "y = Inr a" "db_of u = db_of t" "sv_fw u = sv_fw t" by blast
  from assms(6) False have "run (hb m (\<lambda>_. hb (anomalyCheck env un) (\<lambda>a.
      hret (writeJSON 200 (with_warning (ws @ (case a of None \<Rightarrow> [] | Some an \<Rightarrow> [anomaly_warning (e_cfg env) an]))
        [(''ok'', JBool True), (''ip'', JStr ip), (''changed'', JBool True),
        (''old_ip'', opt_str old), (''groups'', JArr (map (\<lambda>g. JStr (g_name g)) gs)),
        (''message'', JStr ''Firewall rules updated'')]))))) s = (resp, s')"
    by (simp only: m_def if_False)
  with m k y a(1) have "s' = u" "ws \<noteq> [] \<longrightarrow> warned resp"
    by (auto simp: run_def hb_def hret_def set_warned)
  with k a show ?thesis by simp
qed

lemma knock_stages:
  fixes s :: "'s srv"
  assumes "run (knock env rq) s = (resp, s')" and "ok_status resp"
  obtains un user gs rc prior and s1 s2 s3 s4 s5 :: "'s srv" where
    "authUser env rq s = (Inr un, s1)" "allowlistable (clientIP (e_cfg env) rq)"
    "GetUserByUsername un (sv_db s1) = (Inr (Some user), sv_db s2)" "sv_fw s2 = sv_fw s1"
    "GetUserGroups (u_id user) True (sv_db s2) = (Inr gs, sv_db s3)" "sv_fw s3 = sv_fw s2"
    "manager_Reconcile (e_be env) (c_prefix (e_cfg env)) un (clientIP (e_cfg env) rq) (e_order env (portMap gs)) (sv_fw s3) = (rc, sv_fw s4)"
    "sv_db s4 = sv_db s3"
    "RecordIPChange (e_now env) (u_id user) un (clientIP (e_cfg env) rq) (sv_db s4) = (Inr prior, sv_db s5)" "sv_fw s5 = sv_fw s4"
    "run (knock_answer env un (clientIP (e_cfg env) rq) ((if rc_err rc = None then [] else [inactive_warning]) @
       denied_warnings (rc_denied rc) gs) gs prior) s5 = (resp, s')"
proof -
  have e: "\<not> ok_status (errJSON 400 m)" "\<not> ok_status (errJSON 404 m)" "\<not> ok_status (errJSON 500 m)" for m
    by (simp_all add: error_status)
  note elims = run_hb_ok [OF _ refusing_authUser assms(2)] run_hb_ok [OF _ refusing_rules(3) [OF e(1)] assms(2)]
    run_hb_ok [OF _ refusing_rules(3) [OF e(3)] assms(2)] run_hb_ok [OF _ refusing_dbtry(1) assms(2)]
    run_hb_ok [OF _ refusing_dbtry(2) assms(2)] run_hb_ok [OF _ refusing_dbtry(3) [OF e(2)] assms(2)]
  from assms(1) [unfolded knock_def Let_def] show thesis
  proof (elim elims, goal_cases)
    case (1 un s1 x1 t0 uo t1 user t2 gs s3 rc s4 x2 t4 prior s5)
    note g = hguard_InrD [OF 1(2)] and f = found_InrD [OF 1(4)] and h = hguard_InrD [OF 1(7)]
    show thesis
      using that [OF 1(1), where user = user and ?s2.0 = t1 and gs = gs and ?s3.0 = s3 and rc = rc and ?s4.0 = s4 and prior = prior and ?s5.0 = s5] dbtry_InrD [OF 1(3)] dbtry_InrD [OF 1(5)] fwcall_InrD [OF 1(6)]
        dbtry_InrD [OF 1(8)] g f h 1(9) by simp
  qed
qed

lemma no_denied:
  assumes "keyed_store be prefix store host I" and "I w" and "CHR '':'' \<notin> set un"
    and "manager_Reconcile be prefix un ip xs w = (rc, w')" and "rc_err rc = None" and "set xs = set (portMap gs)"
    and "denied_warnings (rc_denied rc) gs = []"
  shows "rc_denied rc = []"
proof (rule ccontr)
  assume "rc_denied rc \<noteq> []"
  then obtain n where n: "n \<in> set (rc_denied rc)" by (cases "rc_denied rc") auto
  from keyed_store.manager_Reconcile_run [OF assms(1-4)] assms(5) obtain K where
    "rc_denied rc = map fst (to_deny ip K (host w) xs)" by blast
  with n have "n \<in> fst ` set xs" by (auto simp: to_deny_def)
  then obtain g where "g \<in> set gs" "g_name g = n" using assms(6) by (auto simp: portMap_def)
  with n assms(7) show False by (auto simp: denied_warnings_def filter_empty_conv)
qed

text \<open>C8. A successful knock opens the caller's doors.  When a knock is answered with success and without a
  warning, on any backend that keeps its rules by key: the request carried a fresh signature of some user;
  the address is the client's own, neither loopback nor unspecified; every group enabled for that user has
  a rule of the user at that address, for the group's port and protocol (or a rule of the host's own decides
  that access, and not by refusing it); and the database differs only in the user's address and knock
  time, with one ip_change entry when the address is new.\<close>

theorem knock_opens:
  fixes s :: "'s srv"
  assumes "keyed_store be prefix store host I" and "good_env be prefix env" and "server_ok (db_of s)" and "I (sv_fw s)"
    and "run (knock env rq) s = (resp, s')" and "ok_status resp" and "\<not> warned resp"
  shows "allowlistable (clientIP (e_cfg env) rq) \<and> (\<exists>row. signed_by env rq (db_of s) row \<and>
    db_of s' = record_knock (e_now env) row (clientIP (e_cfg env) rq) (db_of s) \<and>
    (\<forall>g. enabled_for (db_of s) (u_id row) g \<longrightarrow>
      (\<exists>r \<in> set (store (sv_fw s')). door prefix (clientIP (e_cfg env) rq) row g r) \<or>
      (\<exists>a. host (sv_fw s) (clientIP (e_cfg env) rq, g_port g, g_proto g) = Some a \<and> a \<noteq> ''DENY'' \<and> a \<noteq> ''REJECT'')))"
proof -
  let ?ip = "clientIP (e_cfg env) rq"
  obtain un user gs rc prior and s1 s2 s3 s4 s5 :: "'s srv" where st: "authUser env rq s = (Inr un, s1)" "allowlistable ?ip"
    "GetUserByUsername un (sv_db s1) = (Inr (Some user), sv_db s2)" "sv_fw s2 = sv_fw s1"
    "GetUserGroups (u_id user) True (sv_db s2) = (Inr gs, sv_db s3)" "sv_fw s3 = sv_fw s2"
    "manager_Reconcile (e_be env) (c_prefix (e_cfg env)) un ?ip (e_order env (portMap gs)) (sv_fw s3) = (rc, sv_fw s4)"
    "sv_db s4 = sv_db s3" "RecordIPChange (e_now env) (u_id user) un ?ip (sv_db s4) = (Inr prior, sv_db s5)" "sv_fw s5 = sv_fw s4"
    "run (knock_answer env un ?ip ((if rc_err rc = None then [] else [inactive_warning]) @ denied_warnings (rc_denied rc) gs) gs prior) s5
       = (resp, s')"
    by (rule knock_stages [OF assms(5,6)])
  from authUser_cases [OF st(1)] obtain row where row: "un = u_name row" "signed_by env rq (db_of s) row" "db_of s1 = db_of s"
    "sv_fw s1 = sv_fw s" by auto
  have f: "find (\<lambda>u. u_name u = u_name row) (users (db_of s)) = Some row" "CHR '':'' \<notin> set (u_name row)"
    using row(2) by (auto simp: signed_by_def accepts_def)
  have u: "user = row" "db_of s2 = db_of s"
    using st(3) f(1) row(1,3) by (auto simp: GetUserByUsername_def dest!: query_InrD)
  have gs: "gs = filter (\<lambda>g. \<exists>m \<in> set (members (db_of s)). is_row (u_id row) (g_id g) m \<and> m_enabled m) (grps (db_of s))"
    "db_of s3 = db_of s"
    using st(5) u by (auto simp: GetUserGroups_def dest!: query_InrD)
  have be: "e_be env = be" "c_prefix (e_cfg env) = prefix" "mset (e_order env (portMap gs)) = mset (portMap gs)"
    using assms(2) by (simp_all add: good_env_def)
  have rec: "manager_Reconcile be prefix (u_name row) ?ip (e_order env (portMap gs)) (sv_fw s) = (rc, sv_fw s4)"
    using st(4,6,7) row(1,4) be(1,2) by simp
  have I5: "I (sv_fw s5)" using keyed_store.manager_Reconcile_run [OF assms(1,4) f(2) rec] st(10) by auto
  have nm: "\<forall>g \<in> set gs. g_name g \<noteq> []"
    using gs(1) assms(3) rows_okD(2) ValidName_facts by (fastforce simp: grp_ok_def)
  have un: "CHR '':'' \<notin> set un" using f(2) row(1) by simp
  note ans = knock_answer_run [OF keyed_store.axioms(1) [OF assms(1)] be(1) un nm I5 st(11)]
  have ok: "rc_err rc = None" "denied_warnings (rc_denied rc) gs = []" using ans assms(7) by (auto split: if_splits)
  have "set (e_order env (portMap gs)) = set (portMap gs)" using be(3) by (metis set_mset_mset)
  note nd = no_denied [OF assms(1,4) f(2) rec ok(1) this ok(2)]
  note doors = reconcile_doors [OF assms(1,4,3) f(2) gs(1) be(3) rec ok(1) nd]
  have "distinct (map u_id (users (db_of s)))" using assms(3) ids_ok_distinct by (auto simp: server_ok_def wf_db_def wf_users_def)
  then have db: "db_of s' = record_knock (e_now env) row ?ip (db_of s)"
    using record_runs [OF st(9)] signer_row [OF row(2)] row(1) u gs(2) st(8) ans by simp
  have "\<exists>r \<in> set (store (sv_fw s')). door prefix ?ip row g r"
    if "\<exists>r \<in> set (store (sv_fw s4)). door prefix ?ip row g r" for g
    using that ans st(10) by (auto simp: door_def access_def)
  moreover have "g \<in> set gs" if "enabled_for (db_of s) (u_id row) g" for g
    using that by (simp add: gs(1) enabled_for_def)
  ultimately have "\<forall>g. enabled_for (db_of s) (u_id row) g \<longrightarrow>
      (\<exists>r \<in> set (store (sv_fw s')). door prefix ?ip row g r) \<or>
      (\<exists>a. host (sv_fw s) (?ip, g_port g, g_proto g) = Some a \<and> a \<noteq> ''DENY'' \<and> a \<noteq> ''REJECT'')"
    using doors by blast
  with st(2) row(2) db show ?thesis by blast
qed

definition ann :: user where
  "ann = (new_user 0 1 ''ann'' ''sa'' False)\<lparr>u_ip := Some ''10.0.0.1''\<rparr>"

definition ann_request :: request where
  "ann_request = demo_request\<lparr>rq_auth := signed_header ann ''1000''\<rparr>"

lemma ann_signed: "signed_by demo_env ann_request demo_db ann"
proof -
  have "parse_int64 ''1000'' = Some 1000" "\<not> expired 1000 300 1000" by (code_simp, simp add: expired_def abs64_def)
  then show ?thesis
    by (auto simp: signed_by_def accepts_def demo_env_def default_config_def ann_request_def ann_def demo_db_def new_user_def)
qed

lemma ann_address: "clientIP (e_cfg demo_env) ann_request = ''198.51.100.7''"
proof -
  have "clientIP (e_cfg demo_env) ann_request = clientIP (e_cfg demo_env) demo_request"
    by (simp add: clientIP_def ann_request_def Let_def)
  also have "\<dots> = ''198.51.100.7''" by code_simp
  finally show ?thesis .
qed

lemma ann_enters: "authUser demo_env ann_request demo_srv = (Inr ''ann'', demo_srv)"
proof -
  have "parse_int64 ''1000'' = Some 1000" "\<not> expired 1000 300 1000" by (code_simp, simp add: expired_def abs64_def)
  moreover have "find (\<lambda>u. u_name u = u_name ann) (users demo_db) = Some ann" "CHR '':'' \<notin> set (u_name ann)"
    by (simp_all add: ann_def demo_db_def new_user_def)
  ultimately show ?thesis
    using VerifyHMAC_signed [of ann demo_db "''1000''" 1000 1000 300]
    by (simp add: authUser_def demo_env_def default_config_def ann_request_def demo_srv_def) (simp add: ann_def new_user_def)
qed

lemma run_hbI: "m s = (Inr a, t) \<Longrightarrow> run (f a) t = y \<Longrightarrow> run (hb m f) s = y"
  by (simp add: run_def hb_def)

definition web :: grp where
  "web = \<lparr>g_id = 1, g_name = ''web'', g_port = 80, g_proto = ''tcp'', g_created = 0\<rparr>"

lemma ann_rows: "GetUserByUsername ''ann'' (demo_db, []) = (Inr (Some ann), demo_db, [])"
    "GetUserGroups (u_id ann) True (demo_db, []) = (Inr [web], demo_db, [])"
  by (simp_all add: GetUserByUsername_def GetUserGroups_def ann_def web_def demo_db_def new_user_def is_row_def)

lemma ann_reconciles: "rc_err (fst (manager_Reconcile mock_backend ''ok'' ''ann'' ''198.51.100.7'' (portMap [web]) demo_mock)) = None"
    "rc_denied (fst (manager_Reconcile mock_backend ''ok'' ''ann'' ''198.51.100.7'' (portMap [web]) demo_mock)) = []"
  by code_simp+

lemma ann_records: "RecordIPChange 1000 (u_id ann) ''ann'' ''198.51.100.7'' (demo_db, []) =
    (Inr (Some ''10.0.0.1''), record_knock 1000 ann ''198.51.100.7'' demo_db, [])"
  by code_simp

lemma ann_calm: "CheckIPAnomaly 1000 ''ann'' (c_anomaly_window default_config) (c_anomaly_max default_config)
    (record_knock 1000 ann ''198.51.100.7'' demo_db, []) = (None, record_knock 1000 ann ''198.51.100.7'' demo_db, [])"
  by code_simp

lemma ann_knocks:
  obtains resp s' where "run (knock demo_env ann_request) demo_srv = (resp, s')" "ok_status resp" "\<not> warned resp"
proof -
  obtain rc w where r: "manager_Reconcile mock_backend ''ok'' ''ann'' ''198.51.100.7'' (portMap [web]) demo_mock = (rc, w)"
    by (metis surj_pair)
  let ?s = "demo_srv\<lparr>sv_fw := w\<rparr>" and ?ip = "''198.51.100.7''"
  let ?t = "demo_srv\<lparr>sv_fw := w, sv_db := (record_knock 1000 ann ?ip demo_db, [])\<rparr>"
  have rc: "rc_err rc = None" "rc_denied rc = []" using ann_reconciles by (simp_all add: r)
  have env: "e_be demo_env = mock_backend" "c_prefix (e_cfg demo_env) = ''ok''" "e_order demo_env xs = xs" "e_now demo_env = 1000"
      "c_anomaly_window (e_cfg demo_env) = c_anomaly_window default_config" "c_anomaly_max (e_cfg demo_env) = c_anomaly_max default_config"
    for xs by (simp_all add: demo_env_def)
  have st: "hguard (allowlistable ?ip) e demo_srv = (Inr (), demo_srv)" "dbtry (GetUserByUsername ''ann'') demo_srv = (Inr (Some ann), demo_srv)"
      "found (Some ann) e demo_srv = (Inr ann, demo_srv)" "dbtry (GetUserGroups (u_id ann) True) demo_srv = (Inr [web], demo_srv)"
      "fwcall (manager_Reconcile mock_backend ''ok'' ''ann'' ?ip (portMap [web])) demo_srv = (Inr rc, ?s)"
      "hguard (case rc_err rc of None \<Rightarrow> True | Some e \<Rightarrow> is_inactive e) e ?s = (Inr (), ?s)" "dbtry (RecordIPChange 1000 (u_id ann) ''ann'' ?ip) ?s = (Inr (Some ''10.0.0.1''), ?t)" for e
    using ann_rows ann_records r demo_addresses rc
    by (simp_all add: hguard_def hret_def dbtry_def hb_def dbcall_def found_def fwcall_def demo_srv_def)
  obtain x u where x: "remove_old_rules demo_env ''ann'' ''10.0.0.1'' [web] ?t = (x, u)" by (metis surj_pair)
  have "mock_inv ''ok'' w" using keyed_store.manager_Reconcile_run [OF mock.keyed_store_axioms demo_mock_inv demo_colon r] by blast
  then have I: "mock_inv ''ok'' (sv_fw ?t)" by simp
  have nm: "\<forall>g \<in> set [web]. g_name g \<noteq> []" by (simp add: web_def)
  from remove_old_keeps [OF keyed_store.axioms(1) [OF mock.keyed_store_axioms] env(1) demo_colon nm I x]
  have x': "x = Inr ()" "sv_db u = (record_knock 1000 ann ?ip demo_db, [])" by simp_all
  have x2: "remove_old_rules demo_env ''ann'' ''10.0.0.1'' [web] ?t = (Inr (), u)" using x x'(1) by simp
  have a: "anomalyCheck demo_env ''ann'' u = (Inr None, u)" using ann_calm x'(2) by (cases u) (simp add: anomalyCheck_def env)
  have ne: "Some ''10.0.0.1'' \<noteq> Some ?ip" by simp
  have "run (knock demo_env ann_request) demo_srv = (writeJSON 200 [(''ok'', JBool True), (''ip'', JStr ?ip), (''changed'', JBool True),
      (''old_ip'', JStr ''10.0.0.1''), (''groups'', JArr [JStr ''web'']), (''message'', JStr ''Firewall rules updated'')], u)"
    unfolding knock_def ann_address Let_def env
    by (rule run_hbI, rule ann_enters st)+
      (simp only: ne if_False option.case, rule run_hbI, rule x2, rule run_hbI, rule a,
        simp add: rc denied_warnings_def with_warning_def run_def hret_def opt_str_def web_def)
  then show thesis by (rule that) (simp_all add: ok_status_def warned_def writeJSON_def)
qed

theorem knock_opens_witness:
  "\<exists>r \<in> set (mk_rules (sv_fw (snd (run (knock demo_env ann_request) demo_srv)))).
     r_ip r = ''198.51.100.7'' \<and> r_port r = 80 \<and> r_user r = ''ann''"
proof -
  obtain resp s' where k: "run (knock demo_env ann_request) demo_srv = (resp, s')" "ok_status resp" "\<not> warned resp"
    by (rule ann_knocks)
  have s: "server_ok (db_of demo_srv)" "mock_inv ''ok'' (sv_fw demo_srv)"
    using server_ok_demo(1) demo_mock_inv by (simp_all add: demo_srv_def)
  note o = knock_opens [OF mock.keyed_store_axioms good_demo_env s k]
  then obtain row where row: "signed_by demo_env ann_request demo_db row" and d: "\<forall>g. enabled_for demo_db (u_id row) g \<longrightarrow>
      (\<exists>r \<in> set (mk_rules (sv_fw s')). door ''ok'' ''198.51.100.7'' row g r) \<or>
      (\<exists>a. mock_host demo_mock (''198.51.100.7'', g_port g, g_proto g) = Some a \<and> a \<noteq> ''DENY'' \<and> a \<noteq> ''REJECT'')"
    unfolding ann_address by (auto simp: demo_srv_def)
  have "header_user (rq_auth ann_request) = Some (u_name row)" "header_user (rq_auth ann_request) = Some (u_name ann)"
    using accepts_user row ann_signed unfolding signed_by_def by blast+
  then have "row = ann" using row ann_signed by (simp add: signed_by_def accepts_def)
  moreover have "enabled_for demo_db (u_id ann) web"
    by (simp add: enabled_for_def demo_db_def ann_def web_def new_user_def is_row_def)
  moreover have "mock_host demo_mock (''198.51.100.7'', g_port web, g_proto web) = None" by code_simp
  ultimately obtain r where "r \<in> set (mk_rules (sv_fw s'))" "door ''ok'' ''198.51.100.7'' ann web r" using d by force
  then show ?thesis by (intro bexI [of _ r]) (simp_all add: k(1) door_def access_def web_def ann_def new_user_def)
qed

end
