(* ===== verification/CodeLaws.thy ===== *)
theory CodeLaws
  imports CodeUse
begin

text \<open>
  What the step-up gate guarantees of the server as a whole.
\<close>


lemma admin_lookup: "lookup_route route_table ''POST'' admin_path = Some (RSetAdmin, [(''user_id'', ''1'')])" "RSetAdmin \<in> write_routes"
  by (simp_all add: route_table_def method_ok_def write_routes_def)

lemma wf_root: "wf_users (db_of root_srv)"
proof -
  have "wf_users root_db" by code_simp
  then show ?thesis by (simp add: root_srv_def)
qed


lemma parse_times: "parse_int64 ''1000'' = Some 1000" "parse_int64 ''2000'' = Some 2000" "step_of 1000 = 33" "step_of 2000 = 66"
  by code_simp+

lemma server_ok_root: "server_ok (db_of root_srv)" "mock_inv ''ok'' (sv_fw root_srv)"
    "\<forall>x \<in> set (mk_rules (sv_fw root_srv)). key_ok (rule_key x)"
proof -
  have "wf_db root_db" by code_simp
  then show "server_ok (db_of root_srv)"
    using server_ok_demo(1) by (simp add: server_ok_def rows_ok_def targets_ok_def root_srv_def root_db_def root_row_def demo_db_def user_ok_iff new_user_def)
qed (use server_ok_demo(2) demo_mock_inv in \<open>simp_all add: root_srv_def demo_srv_def\<close>)

lemma signed_unique: "signed_by env rq d row \<Longrightarrow> signed_by env rq d row' \<Longrightarrow> row' = row"
  using accepts_user [of _ _ _ _ row] accepts_user [of _ _ _ _ row']
  unfolding signed_by_def accepts_def by (metis option.inject)

text \<open>C6. A code is good once.  Of two successful admin writes by the same account with TOTP on, with any
  requests, maintenance passes and faults in between but no new enrollment of that account, the second
  matches a strictly higher counter than the first: neither the code nor any older one is accepted
  again.\<close>

theorem code_single_use:
  assumes "keyed_store be prefix store host I" and "good_env be prefix env1" and "server_ok (db_of s1)"
    and "I (sv_fw s1)" and "\<forall>x \<in> set (store (sv_fw s1)). key_ok (rule_key x)"
    and "serve env1 m1 p1 rq1 s1 = (r1, s1')" and "lookup_route route_table m1 p1 = Some (rt1, ps1)" and "rt1 \<in> write_routes"
    and "ok_status r1" and "signed_by env1 rq1 (db_of s1) row1" and "u_totp_on row1" and "c_totp_replay (e_cfg env1)"
    and "(kept_step be prefix (u_id row1))\<^sup>*\<^sup>* s1' s2"
    and "serve env2 m2 p2 rq2 s2 = (r2, s2')" and "lookup_route route_table m2 p2 = Some (rt2, ps2)" and "rt2 \<in> write_routes"
    and "ok_status r2" and "signed_by env2 rq2 (db_of s2) row2" and "u_totp_on row2" and "c_totp_replay (e_cfg env2)"
    and "u_id row2 = u_id row1"
  shows "\<exists>c1 c2. matched_ctr env1 rq1 row1 = Some c1 \<and> matched_ctr env2 rq2 row2 = Some c2 \<and> c1 < c2"
proof -
  have step: "srv_step be prefix s1 s1'" by (rule srv_step.request [OF assms(2,6)])
  have "(srv_step be prefix)\<^sup>*\<^sup>* s1' s2" using assms(13) by (rule rtranclp_mono [THEN predicate2D, rotated]) (auto dest: kept_srv_step)
  with step have steps: "(srv_step be prefix)\<^sup>*\<^sup>* s1 s2" by (rule converse_rtranclp_into_rtranclp)
  have fw: "fw_inv I store key_ok {} (sv_fw s1)" using assms(4,5) by (simp add: fw_inv_def)
  have ok2: "server_ok (db_of s2)" using srv_steps_ok [OF steps assms(1,3) fw] by simp
  have wf: "wf_users (db_of s1)" "wf_users (db_of s2)" using assms(3) ok2 by (auto simp: server_ok_def wf_db_def)
  obtain c1 where c1: "matched_ctr env1 rq1 row1 = Some c1" "ctr_at (u_id row1) c1 (db_of s1')"
    using write_accepted [OF assms(6-9) wf(1)] signed_unique [OF assms(10)] assms(11,12) by metis
  obtain c2 where c2: "matched_ctr env2 rq2 row2 = Some c2" "u_totp_ctr row2 < c2"
    using write_accepted [OF assms(14-17) wf(2)] signed_unique [OF assms(18)] assms(19,20) by metis
  have "c1 \<le> u_totp_ctr row2"
    using ctr_at_steps [OF assms(13) c1(2)] signer_row [OF assms(18)] assms(21) by (simp add: ctr_at_def)
  with c1(1) c2 show ?thesis by auto
qed

theorem code_single_use_witness:
  "\<exists>r s' row c1 c2. serve (root_env 1000) ''POST'' admin_path (root_request root_row ''1000'' 1000) root_srv = (r, s') \<and>
     row \<in> set (users (db_of s')) \<and> matched_ctr (root_env 1000) (root_request root_row ''1000'' 1000) root_row = Some c1 \<and>
     matched_ctr (root_env 2000) (root_request row ''2000'' 2000) row = Some c2 \<and> c1 < c2"
proof -
  obtain r s' c where s: "serve (root_env 1000) ''POST'' admin_path (root_request root_row ''1000'' 1000) root_srv = (r, s')"
    "ok_status r" "snd (sv_db s') = []" "failed (db_of s') = []" "c \<le> 34"
    "users (db_of s') = [(hd (users demo_db))\<lparr>u_admin := True\<rparr>, root_row\<lparr>u_totp_ctr := c\<rparr>]" using root_first .
  let ?row = "root_row\<lparr>u_totp_ctr := c\<rparr>"
  have env: "good_env mock_backend ''ok'' (root_env t)" for t using good_demo_env by (simp add: good_env_def root_env_def)
  have replay: "c_totp_replay (e_cfg (root_env t))" for t by (simp add: root_env_def demo_env_def default_config_def)
  have signs: "signed_by (root_env 1000) (root_request root_row ''1000'' 1000) (db_of root_srv) root_row"
    by (rule root_signs) (simp add: parse_times, simp_all add: root_srv_def root_db_def root_row_def demo_db_def new_user_def)
  have rows: "find (\<lambda>u. u_name u = u_name ?row) (users (db_of s')) = Some ?row"
    by (simp add: s(6) root_row_def demo_db_def new_user_def)
  have signs2: "signed_by (root_env 2000) (root_request ?row ''2000'' 2000) (db_of s') ?row"
    by (rule root_signs [OF parse_times(2) rows]) (simp add: root_row_def new_user_def)
  note ok = server_ok_root
  have "server_ok (db_of s')"
    using srv_step_ok [OF mock.keyed_store_axioms srv_step.request [OF env s(1)]] ok by (simp add: fw_inv_def)
  then have "wf_users (db_of s')" by (simp add: server_ok_def wf_db_def)
  then obtain r2 s2' where
    s2: "serve (root_env 2000) ''POST'' admin_path (root_request ?row ''2000'' 2000) s' = (r2, s2')" "ok_status r2"
    by (rule root_write [of s' "db_of s'" ?row 2000 "''2000''" "(hd (users demo_db))\<lparr>u_admin := True\<rparr>", rotated])
      (use s(3-6) rows parse_times in \<open>simp_all add: prod_eq_iff\<close>,
       simp_all add: root_row_def demo_db_def new_user_def)
  from code_single_use [OF mock.keyed_store_axioms env ok s(1) admin_lookup s(2) signs _ replay rtranclp.rtrancl_refl
      s2(1) admin_lookup s2(2) signs2 _ replay]
  have "\<exists>c1 c2. matched_ctr (root_env 1000) (root_request root_row ''1000'' 1000) root_row = Some c1 \<and>
      matched_ctr (root_env 2000) (root_request ?row ''2000'' 2000) ?row = Some c2 \<and> c1 < c2"
    by (simp add: root_row_def)
  with s(1,6) show ?thesis by auto
qed



end
