(* ===== verification/Nft.thy ===== *)
theory Nft
  imports Http
begin

text \<open>
  \<open>internal/firewall/nft.go\<close>: the nftables backend.  It writes JSON programs to \<open>nft -j -f -\<close> and reads
  the chain back from \<open>nft -j -a list chain\<close>; the binary and the kernel behind it are the functions
  \<open>run\<close> and \<open>read\<close>.  Documents are JSON values; Go's map order is not visible in them.
\<close>

section \<open>The binary\<close>

text \<open>How a run of \<open>nft\<close> ends: with its output, killed at the timeout, or failing with a status and a text
  on stderr.  An output is empty, no JSON, or a document.\<close>

datatype nft_out = NoOutput | NotJson string | Doc json

datatype 'a proc = Done 'a | TimedOut | Failed string string

record nft_config =
  n_prefix :: string
  n_table :: string
  n_chain :: string
  n_priority :: int

record 'k nft =
  nft_cfg :: nft_config
  nft_run :: "json \<Rightarrow> 'k \<Rightarrow> unit proc \<times> 'k"
  nft_read :: "string list \<Rightarrow> 'k \<Rightarrow> nft_out proc \<times> 'k"

definition nftTimeout :: string where "nftTimeout = ''30s''"

definition NewNftBackend :: "(string \<Rightarrow> string + unit) \<Rightarrow> nft_config \<Rightarrow> fwerr + nft_config" where
  "NewNftBackend lookPath cfg =
     (let c1 = (if n_prefix cfg = [] then cfg\<lparr>n_prefix := ''ufw-okboy''\<rparr> else cfg);
          c2 = (if n_table c1 = [] then c1\<lparr>n_table := ''ufw_okboy''\<rparr> else c1);
          c3 = (if n_chain c2 = [] then c2\<lparr>n_chain := ''input''\<rparr> else c2);
          c4 = (if n_priority c3 = 0 then c3\<lparr>n_priority := -150\<rparr> else c3)
      in case lookPath ''nft'' of
           Inl e \<Rightarrow> Inl (Wrapped ''nft binary not found in PATH'' (Opaque e))
         | Inr _ \<Rightarrow> Inr c4)"

definition nft_program :: "json list \<Rightarrow> json" where
  "nft_program cmds = JObj [(''nftables'', JArr cmds)]"

definition runJSON :: "'k nft \<Rightarrow> json list \<Rightarrow> 'k \<Rightarrow> fwerr option \<times> 'k" where
  "runJSON n cmds k = (case nft_run n (nft_program cmds) k of
      (Done _, k') \<Rightarrow> (None, k')
    | (TimedOut, k') \<Rightarrow> (Some (Opaque (''nft timed out after '' @ nftTimeout)), k')
    | (Failed st err, k') \<Rightarrow> (Some (Opaque (''nft failed: '' @ st @ '': '' @ trim_space err)), k'))"

fun contains :: "string \<Rightarrow> string \<Rightarrow> bool" where
  "contains [] sub = (sub = [])"
| "contains (c # cs) sub = (has_prefix sub (c # cs) \<or> contains cs sub)"

definition downcase :: "string \<Rightarrow> string" where
  "downcase s = map (\<lambda>c. if is_upper c then char_of (byte c + 32) else c) s"

definition missing_chain :: "string \<Rightarrow> bool" where
  "missing_chain err \<longleftrightarrow> contains (downcase err) ''no such file'' \<or> contains (downcase err) ''does not exist''"

definition runJSONRead :: "'k nft \<Rightarrow> string list \<Rightarrow> 'k \<Rightarrow> (fwerr + nft_out) \<times> 'k" where
  "runJSONRead n args k = (case nft_read n args k of
      (Done out, k') \<Rightarrow> (Inr out, k')
    | (TimedOut, k') \<Rightarrow> (Inl (Opaque (''nft timed out after '' @ nftTimeout)), k')
    | (Failed st err, k') \<Rightarrow>
        if missing_chain err then (Inr NoOutput, k')
        else (Inl (Opaque (''nft read failed: '' @ st @ '': '' @ trim_space err)), k'))"

section \<open>Programs\<close>

definition EnsureBase_cmds :: "nft_config \<Rightarrow> json list" where
  "EnsureBase_cmds cfg =
     [JObj [(''add'', JObj [(''table'', JObj [(''family'', JStr ''inet''), (''name'', JStr (n_table cfg))])])],
      JObj [(''add'', JObj [(''chain'', JObj [(''family'', JStr ''inet''), (''table'', JStr (n_table cfg)),
        (''name'', JStr (n_chain cfg)), (''type'', JStr ''filter''), (''hook'', JStr ''input''),
        (''prio'', JInt (n_priority cfg)), (''policy'', JStr ''accept'')])])]]"

definition nft_EnsureBase :: "'k nft \<Rightarrow> 'k \<Rightarrow> fwerr option \<times> 'k" where
  "nft_EnsureBase n = runJSON n (EnsureBase_cmds (nft_cfg n))"

definition isIPv6 :: "string \<Rightarrow> bool" where
  "isIPv6 ip \<longleftrightarrow> (case parse_ip ip of None \<Rightarrow> False | Some g \<Rightarrow> to4 g = None \<and> CHR '':'' \<in> set ip)"

definition jmatch :: "json \<Rightarrow> json \<Rightarrow> json" where
  "jmatch left right = JObj [(''match'', JObj [(''op'', JStr ''==''), (''left'', left), (''right'', right)])]"

definition payload :: "string \<Rightarrow> string \<Rightarrow> json" where
  "payload proto field = JObj [(''payload'', JObj [(''protocol'', JStr proto), (''field'', JStr field)])]"

definition matchExpr :: "string \<Rightarrow> int \<Rightarrow> string \<Rightarrow> json list" where
  "matchExpr ip port proto =
     [jmatch (payload (if isIPv6 ip then ''ip6'' else ''ip'') ''saddr'') (JStr ip),
      jmatch (payload proto ''dport'') (JInt port)]"

definition accept_stmt :: json where "accept_stmt = JObj [(''accept'', JNull)]"

definition drop_stmt :: json where "drop_stmt = JObj [(''drop'', JNull)]"

definition rule_json :: "nft_config \<Rightarrow> string \<Rightarrow> json list \<Rightarrow> json" where
  "rule_json cfg comment expr = JObj [(''family'', JStr ''inet''), (''table'', JStr (n_table cfg)),
     (''chain'', JStr (n_chain cfg)), (''comment'', JStr comment), (''expr'', JArr expr)]"

definition insert_cmd :: "nft_config \<Rightarrow> string \<Rightarrow> json list \<Rightarrow> json" where
  "insert_cmd cfg comment expr = JObj [(''insert'', JObj [(''rule'', rule_json cfg comment expr)])]"

definition add_cmd :: "nft_config \<Rightarrow> string \<Rightarrow> json list \<Rightarrow> json" where
  "add_cmd cfg comment expr = JObj [(''add'', JObj [(''rule'', rule_json cfg comment expr)])]"

definition delete_cmd :: "nft_config \<Rightarrow> int \<Rightarrow> json" where
  "delete_cmd cfg h = JObj [(''delete'', JObj [(''rule'', JObj [(''family'', JStr ''inet''), (''table'', JStr (n_table cfg)),
     (''chain'', JStr (n_chain cfg)), (''handle'', JInt h)])])]"

definition nft_AddRule :: "'k nft \<Rightarrow> string \<Rightarrow> int \<Rightarrow> string \<Rightarrow> string \<Rightarrow> string \<Rightarrow> 'k \<Rightarrow> fwerr option \<times> 'k" where
  "nft_AddRule n ip port user proto grp k = (case checkRule ip port proto of
      Some e \<Rightarrow> (Some e, k)
    | None \<Rightarrow> runJSON n [insert_cmd (nft_cfg n) (commentFor (n_prefix (nft_cfg n)) user grp)
        (matchExpr ip port proto @ [accept_stmt])] k)"

definition nft_DeleteByHandle :: "'k nft \<Rightarrow> int \<Rightarrow> 'k \<Rightarrow> fwerr option \<times> 'k" where
  "nft_DeleteByHandle n handle = runJSON n [delete_cmd (nft_cfg n) handle]"

section \<open>The listing\<close>

text \<open>\<open>json.Unmarshal\<close> into the fields the code reads: a key that is absent or \<open>null\<close> leaves the zero value, a
  value of another type is an error.  \<open>None\<close> is the error.\<close>

definition field :: "(string \<times> json) list \<Rightarrow> string \<Rightarrow> json" where
  "field kvs key = (case map_of (rev kvs) key of None \<Rightarrow> JNull | Some v \<Rightarrow> v)"

fun str_field :: "json \<Rightarrow> string option" where
  "str_field JNull = Some []"
| "str_field (JStr s) = Some s"
| "str_field _ = None"

fun int_field :: "json \<Rightarrow> int option" where
  "int_field JNull = Some 0"
| "int_field (JNum m e) = (if e = 0 \<and> - (2 ^ 63) \<le> m \<and> m < 2 ^ 63 then Some m else None)"
| "int_field _ = None"

fun arr_field :: "json \<Rightarrow> json list option" where
  "arr_field JNull = Some []"
| "arr_field (JArr xs) = Some xs"
| "arr_field _ = None"

fun obj_field :: "json \<Rightarrow> (string \<times> json) list option option" where
  "obj_field JNull = Some None"
| "obj_field (JObj kvs) = Some (Some kvs)"
| "obj_field _ = None"

record nftRule =
  nr_handle :: int
  nr_comment :: string
  nr_expr :: "json list"

definition nftRule_of :: "json \<Rightarrow> nftRule option" where
  "nftRule_of raw = (case obj_field raw of
      None \<Rightarrow> None
    | Some None \<Rightarrow> Some \<lparr>nr_handle = 0, nr_comment = [], nr_expr = []\<rparr>
    | Some (Some kvs) \<Rightarrow>
        (case (str_field (field kvs ''family''), str_field (field kvs ''table''), str_field (field kvs ''chain''),
               int_field (field kvs ''handle''), str_field (field kvs ''comment''), arr_field (field kvs ''expr'')) of
           (Some _, Some _, Some _, Some h, Some c, Some es) \<Rightarrow> Some \<lparr>nr_handle = h, nr_comment = c, nr_expr = es\<rparr>
         | _ \<Rightarrow> None))"

text \<open>The payload (protocol, field) and the right side of a match statement, if the statement is one.\<close>

definition match_payload :: "json \<Rightarrow> (string \<times> string \<times> (string \<times> json) list) option" where
  "match_payload e = (case obj_field e of
      Some (Some kvs) \<Rightarrow> (case obj_field (field kvs ''match'') of
          Some (Some m) \<Rightarrow> (case obj_field (field m ''left'') of
              Some (Some l) \<Rightarrow> (case obj_field (field l ''payload'') of
                  Some (Some p) \<Rightarrow> (case (str_field (field p ''protocol''), str_field (field p ''field'')) of
                      (Some proto, Some f) \<Rightarrow> Some (proto, f, m)
                    | _ \<Rightarrow> None)
                | _ \<Rightarrow> None)
            | _ \<Rightarrow> None)
        | _ \<Rightarrow> None)
    | _ \<Rightarrow> None)"

definition right_of :: "(string \<times> json) list \<Rightarrow> json option" where
  "right_of m = map_of (rev m) ''right''"

definition parse_stmt :: "json \<Rightarrow> rule \<Rightarrow> rule" where
  "parse_stmt e r = (case match_payload e of
      None \<Rightarrow> r
    | Some (proto, f, m) \<Rightarrow>
        if f = ''saddr''
        then (case Option.bind (right_of m) str_field of Some ip \<Rightarrow> r\<lparr>r_ip := ip\<rparr> | None \<Rightarrow> r)
        else if f = ''dport''
        then (let r1 = (case Option.bind (right_of m) int_field of Some p \<Rightarrow> r\<lparr>r_port := p\<rparr> | None \<Rightarrow> r)
              in if proto = ''tcp'' \<or> proto = ''udp'' then r1\<lparr>r_proto := proto\<rparr> else r1)
        else r)"

definition parseExpr :: "json list \<Rightarrow> rule \<Rightarrow> rule" where
  "parseExpr exprs r = fold parse_stmt exprs r"

definition rule_of :: "nftRule \<Rightarrow> rule" where
  "rule_of jr = parseExpr (nr_expr jr) \<lparr>r_handle = nr_handle jr, r_ip = [], r_port = 0, r_proto = [], r_user = [],
     r_group = [], r_comment = nr_comment jr\<rparr>"

definition item_rules :: "(string \<times> json) list option \<Rightarrow> rule list" where
  "item_rules item = (case item of
      None \<Rightarrow> []
    | Some kvs \<Rightarrow> (case map_of (rev kvs) ''rule'' of
        None \<Rightarrow> []
      | Some raw \<Rightarrow> (case nftRule_of raw of None \<Rightarrow> [] | Some jr \<Rightarrow> [rule_of jr])))"

fun all_some :: "'a option list \<Rightarrow> 'a list option" where
  "all_some [] = Some []"
| "all_some (x # xs) = (case x of None \<Rightarrow> None | Some a \<Rightarrow> map_option ((#) a) (all_some xs))"

definition items_of :: "json \<Rightarrow> (string \<times> json) list option list option" where
  "items_of doc = (case obj_field doc of
      None \<Rightarrow> None
    | Some None \<Rightarrow> Some []
    | Some (Some kvs) \<Rightarrow> (case arr_field (field kvs ''nftables'') of
        None \<Rightarrow> None
      | Some items \<Rightarrow> all_some (map obj_field items)))"

definition listChain :: "'k nft \<Rightarrow> 'k \<Rightarrow> (fwerr + rule list) \<times> 'k" where
  "listChain n k = (case runJSONRead n [''list'', ''chain'', ''inet'', n_table (nft_cfg n), n_chain (nft_cfg n)] k of
      (Inl e, k') \<Rightarrow> (Inl e, k')
    | (Inr NoOutput, k') \<Rightarrow> (Inr [], k')
    | (Inr (NotJson e), k') \<Rightarrow> (Inl (Wrapped ''parse nft list output'' (Opaque e)), k')
    | (Inr (Doc doc), k') \<Rightarrow> (case items_of doc of
          None \<Rightarrow> (Inl (Wrapped ''parse nft list output'' (Opaque ''json'')), k')
        | Some items \<Rightarrow> (Inr (concat (map item_rules items)), k')))"

definition named_rule :: "string \<Rightarrow> rule \<Rightarrow> rule" where
  "named_rule prefix r = r\<lparr>r_user := fst (splitComment prefix (r_comment r)), r_group := snd (splitComment prefix (r_comment r))\<rparr>"

definition listFiltered :: "'k nft \<Rightarrow> string \<Rightarrow> 'k \<Rightarrow> (fwerr + rule list) \<times> 'k" where
  "listFiltered n commentPrefix k = (case listChain n k of
      (Inl e, k') \<Rightarrow> (Inl e, k')
    | (Inr chain, k') \<Rightarrow> (Inr (map (named_rule (n_prefix (nft_cfg n)))
        (filter (\<lambda>r. has_prefix commentPrefix (r_comment r)) chain)), k'))"

definition nft_ListUserRules :: "'k nft \<Rightarrow> string \<Rightarrow> 'k \<Rightarrow> (fwerr + rule list) \<times> 'k" where
  "nft_ListUserRules n user = listFiltered n (n_prefix (nft_cfg n) @ '':'' @ user @ '':'')"

definition nft_ListManaged :: "'k nft \<Rightarrow> 'k \<Rightarrow> (fwerr + rule list) \<times> 'k" where
  "nft_ListManaged n = listFiltered n (n_prefix (nft_cfg n) @ '':'')"

definition nft_RemoveRule :: "'k nft \<Rightarrow> string \<Rightarrow> int \<Rightarrow> string \<Rightarrow> string \<Rightarrow> string \<Rightarrow> 'k \<Rightarrow> fwerr option \<times> 'k" where
  "nft_RemoveRule n ip port user proto grp k = (case nft_ListUserRules n user k of
      (Inl e, k') \<Rightarrow> (Some e, k')
    | (Inr rules, k') \<Rightarrow>
        (case find (remove_matches (n_prefix (nft_cfg n)) ip port user proto grp) rules of
           Some r \<Rightarrow> nft_DeleteByHandle n (r_handle r) k'
         | None \<Rightarrow> (None, k')))"

section \<open>The guard\<close>

definition guardComment :: "nft_config \<Rightarrow> string" where
  "guardComment cfg = n_prefix cfg @ ''-guard''"

definition guardable :: "portproto \<Rightarrow> bool" where
  "guardable p \<longleftrightarrow> 1 \<le> p_port p \<and> p_port p \<le> 65535 \<and> (p_proto p = ''tcp'' \<or> p_proto p = ''udp'')"

text \<open>Sorting by (port, protocol); of the two protocols, tcp comes first.\<close>

definition guardLayout :: "portproto list \<Rightarrow> portproto list" where
  "guardLayout ports =
     (let drops = sort_key p_port (sort_key (\<lambda>p. if p_proto p = ''tcp'' then 0 else (1 :: nat)) (remdups (filter guardable ports)))
      in if drops = [] then [] else PP 0 [] # drops)"

definition sameGuard :: "rule list \<Rightarrow> portproto list \<Rightarrow> bool" where
  "sameGuard guard want \<longleftrightarrow> length guard = length want \<and>
     list_all2 (\<lambda>r p. r_port r = p_port p \<and> r_proto r = p_proto p) guard want"

definition guardAtTail :: "rule list \<Rightarrow> rule list \<Rightarrow> portproto list \<Rightarrow> bool" where
  "guardAtTail chain guard want \<longleftrightarrow> length guard = length want \<and>
     list_all2 (\<lambda>r (g, p). r_handle r = r_handle g \<and> r_port r = p_port p \<and> r_proto r = p_proto p)
       (drop (length chain - length guard) chain) (zip guard want)"

definition describeGuard :: "portproto list \<Rightarrow> string" where
  "describeGuard want = (if want = [] then ''removed '' @ [CHR 0xE2, CHR 0x80, CHR 0x94] @
       '' no port is closed to sources that have not knocked''
     else ''new connections to '' @ join '', '' (map (\<lambda>p. itoa (p_port p) @ ''/'' @ p_proto p) (tl want)) @
       '' are dropped unless their source knocked'')"

definition guardRule :: "portproto \<Rightarrow> json list" where
  "guardRule p =
     (if p_port p = 0
      then [jmatch (JObj [(''meta'', JObj [(''key'', JStr ''iif'')])]) (JStr ''lo''), accept_stmt]
      else [jmatch (payload (p_proto p) ''dport'') (JInt (p_port p))] @
        (if p_proto p = ''tcp''
         then [jmatch (JObj [(''&'', JArr [payload ''tcp'' ''flags'', JArr [JStr ''syn'', JStr ''ack'']])]) (JStr ''syn'')]
         else []) @ [drop_stmt])"

definition nft_SyncGuard :: "'k nft \<Rightarrow> portproto list \<Rightarrow> 'k \<Rightarrow> fwerr option \<times> 'k" where
  "nft_SyncGuard n ports k = (let cfg = nft_cfg n; want = guardLayout ports in
     case listChain n k of
       (Inl e, k') \<Rightarrow> (Some e, k')
     | (Inr chain, k') \<Rightarrow>
         (let guard = filter (\<lambda>r. r_comment r = guardComment cfg) chain in
          if guardAtTail chain guard want then (None, k')
          else runJSON n (map (\<lambda>g. delete_cmd cfg (r_handle g)) guard @
                          map (\<lambda>p. add_cmd cfg (guardComment cfg) (guardRule p)) want) k'))"

section \<open>The backend\<close>

definition nft_backend :: "'k nft \<Rightarrow> 'k backend" where
  "nft_backend n = \<lparr>be_EnsureBase = nft_EnsureBase n, be_AddRule = nft_AddRule n, be_RemoveRule = nft_RemoveRule n,
     be_ListUserRules = nft_ListUserRules n, be_DeleteByHandle = nft_DeleteByHandle n,
     be_ListManaged = nft_ListManaged n, be_SyncGuard = Some (nft_SyncGuard n), be_MergesSameMatch = None\<rparr>"

section \<open>Conflicts\<close>

record chain_decl =
  ch_family :: string
  ch_table :: string
  ch_name :: string
  ch_type :: string
  ch_hook :: string
  ch_prio :: json
  ch_policy :: string

text \<open>The \<open>chain\<close> object of an item: \<open>None\<close> when its fields do not decode.\<close>

definition chain_of :: "(string \<times> json) list option \<Rightarrow> chain_decl option option" where
  "chain_of item = (case item of
      None \<Rightarrow> Some None
    | Some kvs \<Rightarrow> (case obj_field (field kvs ''chain'') of
        None \<Rightarrow> None
      | Some None \<Rightarrow> Some None
      | Some (Some c) \<Rightarrow>
          (case (str_field (field c ''family''), str_field (field c ''table''), str_field (field c ''name''),
                 str_field (field c ''type''), str_field (field c ''hook''), str_field (field c ''policy'')) of
             (Some fam, Some tab, Some nm, Some ty, Some hk, Some pol) \<Rightarrow>
               Some (Some \<lparr>ch_family = fam, ch_table = tab, ch_name = nm, ch_type = ty, ch_hook = hk,
                 ch_prio = field c ''prio'', ch_policy = pol\<rparr>)
           | _ \<Rightarrow> None)))"

text \<open>\<open>%v\<close> of a priority, which nft prints as an integer or a name.\<close>

definition prio_text :: "json \<Rightarrow> string" where
  "prio_text j = (case j of JNum m e \<Rightarrow> itoa (trunc_int m e) | JStr s \<Rightarrow> s | _ \<Rightarrow> ''<nil>'')"

definition foreign :: "nft_config \<Rightarrow> chain_decl \<Rightarrow> bool" where
  "foreign cfg c \<longleftrightarrow> \<not> (ch_family c = ''inet'' \<and> ch_table c = n_table cfg)"

definition filter_finding :: "nft_config \<Rightarrow> chain_decl option \<Rightarrow> string list" where
  "filter_finding cfg co = (case co of
      None \<Rightarrow> []
    | Some c \<Rightarrow> if foreign cfg c \<and> ch_hook c = ''input''
        then [''nft chain '' @ ch_family c @ '' '' @ ch_table c @ '' '' @ ch_name c @ '' (priority '' @
              prio_text (ch_prio c) @ '', policy '' @ ch_policy c @ '')''] else [])"

definition nat_finding :: "nft_config \<Rightarrow> chain_decl option \<Rightarrow> string list" where
  "nat_finding cfg co = (case co of
      None \<Rightarrow> []
    | Some c \<Rightarrow> if foreign cfg c \<and> ch_hook c = ''prerouting'' \<and> ch_type c = ''nat''
        then [ch_family c @ '' '' @ ch_table c @ '' '' @ ch_name c] else [])"

text \<open>\<open>ufw_status\<close> is the output of \<open>ufw status\<close>, \<open>None\<close> when there is no ufw or it fails.\<close>

definition Conflicts :: "'k nft \<Rightarrow> string option \<Rightarrow> 'k \<Rightarrow> string list \<times> 'k" where
  "Conflicts n ufw_status k = (let dash = [CHR 0xE2, CHR 0x80, CHR 0x94] in
     case runJSONRead n [''list'', ''chains''] k of (out, k') \<Rightarrow>
       (let chains = (case out of
              Inr (Doc doc) \<Rightarrow> (case items_of doc of
                  None \<Rightarrow> []
                | Some items \<Rightarrow> (case all_some (map chain_of items) of None \<Rightarrow> [] | Some cs \<Rightarrow> cs))
            | _ \<Rightarrow> []);
            filters = concat (map (filter_finding (nft_cfg n)) chains) @
              (case ufw_status of Some out \<Rightarrow> if contains out ''Status: active'' then [''ufw is active''] else [] | None \<Rightarrow> []);
            nats = concat (map (nat_finding (nft_cfg n)) chains)
        in ((if filters = [] then [] else
               [''other firewalls also filter incoming traffic here: '' @ join ''; '' filters @
                ''. An accept in nft-okboy'' @ [CHR 39] @ ''s chain is not final: if one of them drops a managed port, allowlisted clients stay blocked '' @
                dash @ '' allow the port there (nft-okboy'' @ [CHR 39] @ ''s guard then does the restricting), or on a ufw host use firewall_backend: ufw.'']) @
            (if nats = [] then [] else
               [''nat chains on the prerouting hook ('' @ join ''; '' nats @
                '') can forward ports elsewhere (Docker -p, Kubernetes NodePort): forwarded traffic never reaches the input hook,'' @
                '' so nft-okboy neither guards nor allowlists such a port '' @ dash @ '' do not make one a group port, or restrict it on the'' @
                '' forward path (e.g. Docker'' @ [CHR 39] @ ''s DOCKER-USER chain).'']), k')))"

end
