(* ===== verification/NftKernel.thy ===== *)
theory NftKernel
  imports Nft
begin

text \<open>
  What \<open>nft.go\<close> relies on in \<open>nft\<close> and the kernel, as a locale, and the proof that on top of it the
  backend is a \<open>keyed_store\<close>: the listing returns what was written.  A reference kernel that keeps the
  rules of the chain in a list shows the locale can hold.
\<close>

section \<open>The interface\<close>

type_synonym row = "int \<times> string \<times> json list"

text \<open>What a command does to the rules of the chain (handle, comment, expression).  Handles are fresh.\<close>

inductive nft_step :: "nft_config \<Rightarrow> json \<Rightarrow> row list \<Rightarrow> row list \<Rightarrow> bool" for cfg where
  insert: "h \<notin> fst ` set rs \<Longrightarrow> nft_step cfg (insert_cmd cfg c es) rs ((h, c, es) # rs)"
| add: "h \<notin> fst ` set rs \<Longrightarrow> nft_step cfg (add_cmd cfg c es) rs (rs @ [(h, c, es)])"
| delete: "h \<in> fst ` set rs \<Longrightarrow> nft_step cfg (delete_cmd cfg h) rs (filter (\<lambda>r. fst r \<noteq> h) rs)"
| base: "b \<in> set (EnsureBase_cmds cfg) \<Longrightarrow> nft_step cfg b rs rs"

inductive nft_steps :: "nft_config \<Rightarrow> json list \<Rightarrow> row list \<Rightarrow> row list \<Rightarrow> bool" for cfg where
  Nil: "nft_steps cfg [] rs rs"
| Cons: "nft_step cfg c rs rs' \<Longrightarrow> nft_steps cfg cs rs' rs'' \<Longrightarrow> nft_steps cfg (c # cs) rs rs''"

definition known_cmd :: "nft_config \<Rightarrow> json \<Rightarrow> bool" where
  "known_cmd cfg c \<longleftrightarrow> c \<in> set (EnsureBase_cmds cfg) \<or> (\<exists>h. c = delete_cmd cfg h) \<or>
     (\<exists>m es. c = insert_cmd cfg m es \<or> c = add_cmd cfg m es)"

text \<open>A listing shows the rules in order among other objects.\<close>

definition row_item :: "json \<Rightarrow> row \<Rightarrow> bool" where
  "row_item item r \<longleftrightarrow> (\<exists>kvs raw jr. item = JObj kvs \<and> map_of (rev kvs) ''rule'' = Some raw \<and>
     nftRule_of raw = Some jr \<and> (nr_handle jr, nr_comment jr, nr_expr jr) = r)"

definition other_item :: "json \<Rightarrow> bool" where
  "other_item item \<longleftrightarrow> (\<exists>kvs. item = JObj kvs \<and> map_of (rev kvs) ''rule'' = None)"

definition shows_rows :: "nft_out \<Rightarrow> row list \<Rightarrow> bool" where
  "shows_rows out rs \<longleftrightarrow> (case out of
      NoOutput \<Rightarrow> rs = []
    | NotJson e \<Rightarrow> True
    | Doc doc \<Rightarrow> \<exists>items. doc = JObj [(''nftables'', JArr items)] \<and> (\<forall>i \<in> set items. other_item i \<or> (\<exists>r. row_item i r)) \<and>
        list_all2 row_item (filter (\<lambda>i. \<not> other_item i) items) rs)"

definition chain_rule :: "row \<Rightarrow> rule" where
  "chain_rule r = (case r of (h, c, es) \<Rightarrow> rule_of \<lparr>nr_handle = h, nr_comment = c, nr_expr = es\<rparr>)"

definition nft_store :: "nft_config \<Rightarrow> row list \<Rightarrow> rule list" where
  "nft_store cfg rs = map (named_rule (n_prefix cfg))
     (filter (\<lambda>r. has_prefix (n_prefix cfg @ '':'') (r_comment r)) (map chain_rule rs))"

locale nft_kernel =
  fixes n :: "'k nft" and rows :: "'k \<Rightarrow> row list" and ok :: "'k \<Rightarrow> bool"
  assumes handles: "ok k \<Longrightarrow> distinct (map fst (rows k))"
    and run_done: "ok k \<Longrightarrow> \<forall>c \<in> set cmds. known_cmd (nft_cfg n) c \<Longrightarrow> nft_run n (nft_program cmds) k = (Done u, k') \<Longrightarrow>
      ok k' \<and> nft_steps (nft_cfg n) cmds (rows k) (rows k')"
    and run_failed: "ok k \<Longrightarrow> nft_run n p k = (o', k') \<Longrightarrow> o' \<noteq> Done () \<Longrightarrow> ok k' \<and> rows k' = rows k"
    and read_done: "ok k \<Longrightarrow> nft_read n args k = (o'', k') \<Longrightarrow> ok k' \<and> rows k' = rows k"
    and list_done: "ok k \<Longrightarrow> nft_read n [''list'', ''chain'', ''inet'', n_table (nft_cfg n), n_chain (nft_cfg n)] k =
      (Done out, k') \<Longrightarrow> shows_rows out (rows k)"
    and list_missing: "ok k \<Longrightarrow> nft_read n [''list'', ''chain'', ''inet'', n_table (nft_cfg n), n_chain (nft_cfg n)] k =
      (Failed st err, k') \<Longrightarrow> missing_chain err \<Longrightarrow> rows k = []"
begin

abbreviation "cfg \<equiv> nft_cfg n"

lemma runJSON_cases:
  assumes "ok k" and "\<forall>c \<in> set cmds. known_cmd cfg c" and "runJSON n cmds k = (e, k')"
  shows "ok k' \<and> (if e = None then nft_steps cfg cmds (rows k) (rows k') else rows k' = rows k)"
proof (cases "nft_run n (nft_program cmds) k")
  case (Pair x t)
  with assms run_done [OF assms(1,2), of "()" t] run_failed [OF assms(1) Pair]
  show ?thesis by (cases x) (auto simp: runJSON_def)
qed

end

section \<open>The listing\<close>

lemma parse_stmt_keeps: "r_handle (parse_stmt e r) = r_handle r" "r_comment (parse_stmt e r) = r_comment r"
  by (auto simp: parse_stmt_def Let_def split: option.splits)

lemma parseExpr_keeps: "r_handle (parseExpr es r) = r_handle r" "r_comment (parseExpr es r) = r_comment r"
  unfolding parseExpr_def by (induction es arbitrary: r) (simp_all add: parse_stmt_keeps)

lemma chain_rule_keeps [simp]: "r_handle (chain_rule r) = fst r" "r_comment (chain_rule r) = fst (snd r)"
  by (cases r; simp add: chain_rule_def rule_of_def parseExpr_keeps)+

lemma nftRule_eta [simp]: "\<lparr>nr_handle = nr_handle jr, nr_comment = nr_comment jr, nr_expr = nr_expr jr\<rparr> = (jr :: nftRule)"
  by (cases jr) simp

lemma item_rules_row: "row_item i r \<Longrightarrow> \<exists>kvs. obj_field i = Some (Some kvs) \<and> item_rules (Some kvs) = [chain_rule r]"
  by (auto simp: row_item_def item_rules_def chain_rule_def)

lemma item_rules_other: "other_item i \<Longrightarrow> \<exists>kvs. obj_field i = Some (Some kvs) \<and> item_rules (Some kvs) = []"
  by (auto simp: other_item_def item_rules_def)

lemma row_not_other: "row_item i r \<Longrightarrow> \<not> other_item i"
  by (auto simp: row_item_def other_item_def)

lemma items_rules:
  assumes "\<forall>i \<in> set items. other_item i \<or> (\<exists>r. row_item i r)"
    and "list_all2 row_item (filter (\<lambda>i. \<not> other_item i) items) rs"
  shows "\<exists>its. all_some (map obj_field items) = Some its \<and> concat (map item_rules its) = map chain_rule rs"
  using assms
proof (induction items arbitrary: rs)
  case (Cons i items)
  show ?case
  proof (cases "other_item i")
    case True
    then obtain kvs where "obj_field i = Some (Some kvs)" "item_rules (Some kvs) = []" using item_rules_other by blast
    with Cons True show ?thesis by fastforce
  next
    case False
    with Cons.prems obtain r rs' where r: "rs = r # rs'" "row_item i r"
      "list_all2 row_item (filter (\<lambda>i. \<not> other_item i) items) rs'" by (auto simp: list_all2_Cons1)
    then obtain kvs where "obj_field i = Some (Some kvs)" "item_rules (Some kvs) = [chain_rule r]"
      using item_rules_row by blast
    with Cons.IH [OF _ r(3)] Cons.prems(1) r(1) show ?thesis by fastforce
  qed
qed simp

context nft_kernel begin

lemma listChain_run:
  assumes "ok k" and "listChain n k = (r, k')"
  shows "ok k' \<and> rows k' = rows k \<and> (\<forall>rs. r = Inr rs \<longrightarrow> rs = map chain_rule (rows k))"
proof -
  let ?args = "[''list'', ''chain'', ''inet'', n_table cfg, n_chain cfg]"
  obtain x t where x: "nft_read n ?args k = (x, t)" by (cases "nft_read n ?args k")
  note t = read_done [OF assms(1) x]
  show ?thesis
  proof (cases x)
    case (Done out)
    with list_done [OF assms(1)] x have sh: "shows_rows out (rows k)" by simp
    show ?thesis
    proof (cases out)
      case (Doc doc)
      with sh obtain items where d: "doc = JObj [(''nftables'', JArr items)]"
        "\<forall>i \<in> set items. other_item i \<or> (\<exists>r. row_item i r)"
        "list_all2 row_item (filter (\<lambda>i. \<not> other_item i) items) (rows k)" by (auto simp: shows_rows_def)
      from items_rules [OF d(2,3)] obtain its where "all_some (map obj_field items) = Some its"
        "concat (map item_rules its) = map chain_rule (rows k)" by blast
      then show ?thesis using x Done Doc d(1) assms(2) t
        by (auto simp: listChain_def runJSONRead_def items_of_def field_def)
    qed (use sh x Done assms(2) t in \<open>auto simp: shows_rows_def listChain_def runJSONRead_def\<close>)
  next
    case TimedOut
    with x t assms(2) show ?thesis by (auto simp: listChain_def runJSONRead_def)
  next
    case (Failed st err)
    with x t assms(2) list_missing [OF assms(1), of st err t] show ?thesis
      by (auto simp: listChain_def runJSONRead_def split: if_splits)
  qed
qed

lemma listFiltered_run:
  assumes "ok k" and "listFiltered n p k = (r, k')"
  shows "ok k' \<and> rows k' = rows k \<and>
    (\<forall>rs. r = Inr rs \<longrightarrow> rs = map (named_rule (n_prefix cfg)) (filter (\<lambda>r. has_prefix p (r_comment r)) (map chain_rule (rows k))))"
proof (cases "listChain n k")
  case (Pair x t)
  with listChain_run [OF assms(1) Pair] assms(2) show ?thesis by (cases x) (auto simp: listFiltered_def)
qed

end

section \<open>Steps\<close>

inductive_cases nft_stepE: "nft_step cfg c rs rs'"
inductive_cases nft_steps_ConsE: "nft_steps cfg (c # cs) rs rs'"
inductive_simps nft_steps_Nil [simp]: "nft_steps cfg [] rs rs'"

lemma cmd_distinct:
  "insert_cmd cfg c es \<noteq> delete_cmd cfg h" "insert_cmd cfg c es \<noteq> add_cmd cfg c' es'" "add_cmd cfg c es \<noteq> delete_cmd cfg h"
  "insert_cmd cfg c es \<notin> set (EnsureBase_cmds cfg)" "add_cmd cfg c es \<notin> set (EnsureBase_cmds cfg)"
  "delete_cmd cfg h \<notin> set (EnsureBase_cmds cfg)"
  by (simp_all add: insert_cmd_def add_cmd_def delete_cmd_def EnsureBase_cmds_def)

lemma cmd_inject:
  "insert_cmd cfg c es = insert_cmd cfg c' es' \<longleftrightarrow> c = c' \<and> es = es'"
  "add_cmd cfg c es = add_cmd cfg c' es' \<longleftrightarrow> c = c' \<and> es = es'"
  "delete_cmd cfg h = delete_cmd cfg h' \<longleftrightarrow> h = h'"
  by (simp_all add: insert_cmd_def add_cmd_def delete_cmd_def rule_json_def)

lemmas cmd_simps = cmd_distinct cmd_distinct(1-3) [symmetric] cmd_inject

lemma step_insert: "nft_step cfg (insert_cmd cfg c es) rs rs' \<longleftrightarrow> (\<exists>h. h \<notin> fst ` set rs \<and> rs' = (h, c, es) # rs)"
  by (auto elim!: nft_stepE intro: nft_step.insert simp: cmd_simps)

lemma step_add: "nft_step cfg (add_cmd cfg c es) rs rs' \<longleftrightarrow> (\<exists>h. h \<notin> fst ` set rs \<and> rs' = rs @ [(h, c, es)])"
  by (auto elim!: nft_stepE intro: nft_step.add simp: cmd_simps)

lemma step_delete: "nft_step cfg (delete_cmd cfg h) rs rs' \<longleftrightarrow> h \<in> fst ` set rs \<and> rs' = filter (\<lambda>r. fst r \<noteq> h) rs"
  by (rule iffI, erule nft_stepE) (simp_all add: cmd_simps nft_step.delete)

lemma steps_Cons: "nft_steps cfg (c # cs) rs rs'' \<longleftrightarrow> (\<exists>rs'. nft_step cfg c rs rs' \<and> nft_steps cfg cs rs' rs'')"
  by (auto elim: nft_steps_ConsE intro: nft_steps.intros)

lemma step_base: "b \<in> set (EnsureBase_cmds cfg) \<Longrightarrow> nft_step cfg b rs rs' \<longleftrightarrow> rs' = rs"
  using cmd_distinct(4-6) by (auto elim!: nft_stepE intro: nft_step.base)

lemma steps_base: "set cs \<subseteq> set (EnsureBase_cmds cfg) \<Longrightarrow> nft_steps cfg cs rs rs' \<longleftrightarrow> rs' = rs"
  by (induction cs) (auto simp: steps_Cons step_base)

section \<open>Writing and reading a rule\<close>

lemma field_simps [simp]: "field [(k, v)] k = v" "k \<noteq> k' \<Longrightarrow> field [(k, v), (k', v')] k = v" "field [(k, v), (k', v')] k' = v'"
  by (simp_all add: field_def)

lemma match_payload_jmatch: "match_payload (jmatch (payload p f) v) = Some (p, f, [(''op'', JStr ''==''), (''left'', payload p f), (''right'', v)])"
  by (simp add: match_payload_def jmatch_def payload_def field_def)

lemma parse_saddr: "parse_stmt (jmatch (payload p ''saddr'') (JStr ip)) r = r\<lparr>r_ip := ip\<rparr>"
  by (simp add: parse_stmt_def match_payload_jmatch right_of_def)

lemma parse_dport: "- (2 ^ 63) \<le> port \<Longrightarrow> port < 2 ^ 63 \<Longrightarrow> p = ''tcp'' \<or> p = ''udp'' \<Longrightarrow>
    parse_stmt (jmatch (payload p ''dport'') (JInt port)) r = r\<lparr>r_port := port, r_proto := p\<rparr>"
  by (auto simp: parse_stmt_def match_payload_jmatch right_of_def)

lemma parse_verdict [simp]: "parse_stmt accept_stmt r = r" "parse_stmt drop_stmt r = r"
  by (simp_all add: parse_stmt_def match_payload_def accept_stmt_def drop_stmt_def field_def)

lemma chain_rule_written:
  assumes "checkRule ip port proto = None" and "CHR '':'' \<notin> set user"
  shows "named_rule prefix (chain_rule (h, commentFor prefix user grp, matchExpr ip port proto @ [accept_stmt])) =
    mk_rule prefix h ip port user proto grp"
proof -
  have p: "- (2 ^ 63) \<le> port" "port < 2 ^ 63" "proto = ''tcp'' \<or> proto = ''udp''" using assms(1) by (auto simp: checkRule_None)
  show ?thesis
    by (simp add: chain_rule_def rule_of_def parseExpr_def matchExpr_def parse_saddr parse_dport [OF p] named_rule_def
        splitComment_commentFor [OF assms(2)] mk_rule_def)
qed

section \<open>The backend is a keyed store\<close>

lemma named_rule_keeps [simp]: "r_handle (named_rule p r) = r_handle r" "r_comment (named_rule p r) = r_comment r"
  by (simp_all add: named_rule_def)

lemma wf_nft_store: "distinct (map fst rs) \<Longrightarrow> wf_store (n_prefix cfg) (nft_store cfg rs)"
proof -
  assume d: "distinct (map fst rs)"
  have "map r_handle (nft_store cfg rs) = map fst (filter (\<lambda>r. has_prefix (n_prefix cfg @ '':'') (fst (snd r))) rs)"
    by (induction rs) (auto simp: nft_store_def)
  then show ?thesis using distinct_map_filter [OF d]
    by (auto simp: wf_store_def nft_store_def wf_rule_def named_rule_def)
qed

lemma nft_store_filter: "nft_store cfg (filter (\<lambda>r. fst r \<noteq> h) rs) = filter (\<lambda>r. r_handle r \<noteq> h) (nft_store cfg rs)"
  by (induction rs) (auto simp: nft_store_def)

lemma nft_store_append [simp]: "nft_store cfg (xs @ ys) = nft_store cfg xs @ nft_store cfg ys"
  by (simp add: nft_store_def)

lemma guard_not_managed: "\<not> has_prefix (n_prefix cfg @ '':'') (guardComment cfg)"
  by (simp add: guardComment_def has_prefix_iff)

lemma user_prefix_longer: "has_prefix (user_prefix p u) c \<Longrightarrow> has_prefix (p @ '':'') c"
  by (auto simp: has_prefix_iff user_prefix_def)

lemma nft_store_user:
  "map (named_rule (n_prefix cfg)) (filter (\<lambda>r. has_prefix (user_prefix (n_prefix cfg) u) (r_comment r)) (map chain_rule rs)) =
   filter (\<lambda>x. has_prefix (user_prefix (n_prefix cfg) u) (r_comment x)) (nft_store cfg rs)"
  by (induction rs) (auto simp: nft_store_def user_prefix_longer)

lemma filter_out: "distinct (map f rs) \<Longrightarrow> filter (\<lambda>r. f r \<notin> f ` {r \<in> set rs. P r}) rs = filter (\<lambda>r. \<not> P r) rs"
  by (intro filter_cong refl) (auto simp: distinct_map dest: inj_onD)

text \<open>The guard's program: deletes, then adds at the tail.\<close>

lemma steps_deletes:
  "nft_steps cfg (map (delete_cmd cfg) hs @ cs) rs rs'' \<Longrightarrow> nft_steps cfg cs (filter (\<lambda>r. fst r \<notin> set hs) rs) rs''"
proof (induction hs arbitrary: rs)
  case (Cons h hs)
  then have "nft_steps cfg (map (delete_cmd cfg) hs @ cs) (filter (\<lambda>r. fst r \<noteq> h) rs) rs''"
    by (simp add: steps_Cons step_delete)
  from Cons.IH [OF this] show ?case by (simp add: conj_commute)
qed simp

lemma steps_adds:
  "nft_steps cfg (map (\<lambda>p. add_cmd cfg c (f p)) ps) rs rs'' \<Longrightarrow>
   \<exists>hs. length hs = length ps \<and> rs'' = rs @ map (\<lambda>(h, p). (h, c, f p)) (zip hs ps)"
proof (induction ps arbitrary: rs)
  case (Cons p ps)
  then obtain h where "nft_steps cfg (map (\<lambda>p. add_cmd cfg c (f p)) ps) (rs @ [(h, c, f p)]) rs''"
    by (auto simp: steps_Cons step_add)
  from Cons.IH [OF this] obtain hs where "length hs = length ps"
    "rs'' = (rs @ [(h, c, f p)]) @ map (\<lambda>(h, p). (h, c, f p)) (zip hs ps)" by blast
  then show ?case by (intro exI [of _ "h # hs"]) simp
qed simp

context nft_kernel begin

text \<open>The rules of the chain that are not the guard's.\<close>

lemma SyncGuard_run:
  assumes "ok k" and "nft_SyncGuard n ports k = (e, k')"
  shows "ok k' \<and> (e \<noteq> None \<longrightarrow> rows k' = rows k) \<and>
    (e = None \<longrightarrow> rows k' = rows k \<and> guardAtTail (map chain_rule (rows k))
        (filter (\<lambda>r. r_comment r = guardComment cfg) (map chain_rule (rows k))) (guardLayout ports) \<or>
      (\<exists>hs. length hs = length (guardLayout ports) \<and> rows k' = filter (\<lambda>r. fst (snd r) \<noteq> guardComment cfg) (rows k) @
        map (\<lambda>(h, p). (h, guardComment cfg, guardRule p)) (zip hs (guardLayout ports))))"
proof (cases "listChain n k")
  case (Pair x t)
  note t = listChain_run [OF assms(1) Pair]
  let ?gc = "guardComment cfg" and ?want = "guardLayout ports"
  let ?guard = "filter (\<lambda>r. r_comment r = ?gc) (map chain_rule (rows k))"
  show ?thesis
  proof (cases x)
    case (Inl y)
    with Pair t assms(2) show ?thesis by (auto simp: nft_SyncGuard_def Let_def)
  next
    case (Inr chain)
    show ?thesis
    proof (cases "guardAtTail chain ?guard ?want")
      case True
      with Pair Inr t assms(2) show ?thesis by (auto simp: nft_SyncGuard_def Let_def)
    next
      case False
      let ?cmds = "map (delete_cmd cfg) (map r_handle ?guard) @ map (\<lambda>p. add_cmd cfg ?gc (guardRule p)) ?want"
      have "runJSON n ?cmds t = (e, k')"
        using False Pair Inr t assms(2) by (simp add: nft_SyncGuard_def Let_def comp_def)
      moreover have "\<forall>c \<in> set ?cmds. known_cmd cfg c" by (auto simp: known_cmd_def)
      ultimately have r: "ok k' \<and> (if e = None then nft_steps cfg ?cmds (rows t) (rows k') else rows k' = rows t)"
        using t by (intro runJSON_cases) simp_all
      have "set (map r_handle ?guard) = fst ` {r \<in> set (rows k). fst (snd r) = ?gc}"
        by (auto simp: image_Collect) force+
      then have "filter (\<lambda>r. fst r \<notin> set (map r_handle ?guard)) (rows k) = filter (\<lambda>r. fst (snd r) \<noteq> ?gc) (rows k)"
        using filter_out [OF handles [OF assms(1)], of "\<lambda>r. fst (snd r) = ?gc"] by simp
      with r t steps_deletes [of cfg "map r_handle ?guard" "map (\<lambda>p. add_cmd cfg ?gc (guardRule p)) ?want" "rows k" "rows k'"]
        steps_adds [of cfg ?gc guardRule ?want]
      show ?thesis by (cases e) force+
    qed
  qed
qed

end

lemma backend_simps [simp]:
  "be_EnsureBase (nft_backend n) = nft_EnsureBase n" "be_AddRule (nft_backend n) = nft_AddRule n"
  "be_RemoveRule (nft_backend n) = nft_RemoveRule n" "be_ListUserRules (nft_backend n) = nft_ListUserRules n"
  "be_DeleteByHandle (nft_backend n) = nft_DeleteByHandle n" "be_ListManaged (nft_backend n) = nft_ListManaged n"
  "be_SyncGuard (nft_backend n) = Some (nft_SyncGuard n)" "be_MergesSameMatch (nft_backend n) = None"
  by (simp_all add: nft_backend_def)

lemma nft_store_guard:
  "nft_store cfg (filter (\<lambda>r. fst (snd r) \<noteq> guardComment cfg) rs) = nft_store cfg rs"
  "nft_store cfg (map (\<lambda>(h, p). (h, guardComment cfg, f p)) hps) = []"
  by (induction rs) (auto simp: nft_store_def guard_not_managed filter_empty_conv)

lemma find_drop_first:
  "distinct (map f xs) \<Longrightarrow> find P xs = Some x \<Longrightarrow> filter (\<lambda>y. f y \<noteq> f x) xs = drop_first P xs"
proof (induction xs)
  case (Cons a xs)
  show ?case
  proof (cases "P a")
    case True
    with Cons.prems show ?thesis by (auto simp: filter_id_conv image_iff)
  next
    case False
    with Cons.prems have "find P xs = Some x" by simp
    then have "x \<in> set xs" by (auto simp: find_Some_iff)
    with Cons False show ?thesis by auto
  qed
qed simp

lemma find_none_drop: "find P xs = None \<Longrightarrow> drop_first P xs = xs"
  by (induction xs) (auto split: if_splits)

lemma find_filter: "(\<And>x. P x \<Longrightarrow> Q x) \<Longrightarrow> find P (filter Q xs) = find P xs"
  by (induction xs) auto

lemma known_cmds [simp]: "known_cmd cfg (delete_cmd cfg h)" "known_cmd cfg (insert_cmd cfg c es)" "known_cmd cfg (add_cmd cfg c es)"
    "b \<in> set (EnsureBase_cmds cfg) \<Longrightarrow> known_cmd cfg b"
  by (auto simp: known_cmd_def)

lemma ListUserRules_prefix: "nft_ListUserRules n u = listFiltered n (user_prefix (n_prefix (nft_cfg n)) u)"
  by (simp add: nft_ListUserRules_def user_prefix_def fun_eq_iff)

lemma runJSON_no_host: "runJSON n cmds k = (Some e, k') \<Longrightarrow> host_rule e = None"
  by (auto simp: runJSON_def split: prod.splits proc.splits)

lemma remove_matches_prefix: "remove_matches prefix ip port u pr g r \<Longrightarrow> g \<noteq> [] \<Longrightarrow> has_prefix (user_prefix prefix u) (r_comment r)"
  by (auto simp: remove_matches_def commentFor_def user_prefix_def has_prefix_iff)

context nft_kernel begin

lemma DeleteByHandle_run:
  assumes "ok k" and "nft_DeleteByHandle n h k = (e, k')"
  shows "ok k' \<and> rows k' = (if e = None then filter (\<lambda>r. fst r \<noteq> h) (rows k) else rows k)"
  using runJSON_cases [OF assms(1), of "[delete_cmd cfg h]" e k'] assms(2)
  by (auto simp: nft_DeleteByHandle_def steps_Cons step_delete split: if_splits)

lemma RemoveRule_run:
  assumes "ok k" and "nft_RemoveRule n ip port u pr g k = (e, k')" and "g \<noteq> []"
  shows "ok k' \<and> nft_store cfg (rows k') = (if e = None
    then drop_first (remove_matches (n_prefix cfg) ip port u pr g) (nft_store cfg (rows k)) else nft_store cfg (rows k))"
proof -
  let ?P = "remove_matches (n_prefix cfg) ip port u pr g" and ?S = "nft_store cfg (rows k)"
  obtain x t where l: "nft_ListUserRules n u k = (x, t)" by (cases "nft_ListUserRules n u k")
  note t = listFiltered_run [OF assms(1) l [unfolded ListUserRules_prefix]]
  show ?thesis
  proof (cases x)
    case (Inl y)
    with l t assms(2) show ?thesis by (auto simp: nft_RemoveRule_def)
  next
    case (Inr rules)
    with t have "rules = filter (\<lambda>x. has_prefix (user_prefix (n_prefix cfg) u) (r_comment x)) ?S" by (simp add: nft_store_user)
    then have f: "find ?P rules = find ?P ?S" using remove_matches_prefix assms(3) by (simp add: find_filter)
    have d: "distinct (map r_handle ?S)" using wf_nft_store handles [OF assms(1)] by (auto simp: wf_store_def)
    show ?thesis
    proof (cases "find ?P ?S")
      case None
      with l Inr f t assms(2) find_none_drop [OF None] show ?thesis by (auto simp: nft_RemoveRule_def)
    next
      case (Some r)
      with l Inr f assms(2) have "nft_DeleteByHandle n (r_handle r) t = (e, k')" by (simp add: nft_RemoveRule_def)
      from DeleteByHandle_run [OF _ this] t find_drop_first [OF d Some] show ?thesis by (auto simp: nft_store_filter)
    qed
  qed
qed

end

sublocale nft_kernel \<subseteq> kernel: keyed_store "nft_backend n" "n_prefix cfg" "\<lambda>k. nft_store cfg (rows k)" "\<lambda>_ _. None" ok
proof (unfold_locales, goal_cases)
  case (1 s)
  then show ?case using wf_nft_store handles by blast
next
  case (2 s eo s')
  then show ?case
    using runJSON_cases [of s "EnsureBase_cmds cfg" eo s'] by (auto simp: nft_EnsureBase_def steps_base split: if_splits)
next
  case (3 s r s')
  then show ?case
    using listFiltered_run [of s "n_prefix cfg @ '':''" r s'] by (auto simp: nft_ListManaged_def nft_store_def)
next
  case (4 s u r s')
  then show ?case
    using listFiltered_run [of s "user_prefix (n_prefix cfg) u" r s'] by (auto simp: ListUserRules_prefix nft_store_user)
next
  case (5 s h s')
  then show ?case using DeleteByHandle_run [of s h None s'] by (simp add: nft_store_filter)
next
  case (6 s h e s')
  then show ?case using DeleteByHandle_run [of s h "Some e" s'] by simp
next
  case (7 s ip port u pr g s')
  then show ?case using RemoveRule_run [of s ip port u pr g None s'] by simp
next
  case (8 s ip port u pr g e s')
  then show ?case using RemoveRule_run [of s ip port u pr g "Some e" s'] by simp
next
  case (9 s f ports eo s')
  then have "nft_SyncGuard n ports s = (eo, s')" by simp
  from SyncGuard_run [OF 9(1) this] show ?case by (cases eo) (auto simp: nft_store_guard)
next
  case (10 s ip port u pr g s')
  then have c: "checkRule ip port pr = None" by (auto simp: nft_AddRule_def split: option.splits)
  with 10 runJSON_cases [of s "[insert_cmd cfg (commentFor (n_prefix cfg) u g) (matchExpr ip port pr @ [accept_stmt])]" None s']
  obtain h where h: "ok s'" "rows s' = (h, commentFor (n_prefix cfg) u g, matchExpr ip port pr @ [accept_stmt]) # rows s"
    by (auto simp: nft_AddRule_def steps_Cons step_insert)
  then have "nft_store cfg (rows s') = mk_rule (n_prefix cfg) h ip port u pr g # nft_store cfg (rows s)"
    using chain_rule_written [OF c 10(3)] by (simp add: nft_store_def)
  then have "\<exists>h xs ys. nft_store cfg (rows s) = xs @ ys \<and> nft_store cfg (rows s') = xs @ mk_rule (n_prefix cfg) h ip port u pr g # ys"
    by (intro exI [where x = h]) (metis append_Nil)
  with h(1) show ?case by simp
next
  case (11 s ip port u pr g e s')
  then show ?case
    using runJSON_cases [of s "[insert_cmd cfg (commentFor (n_prefix cfg) u g) (matchExpr ip port pr @ [accept_stmt])]" "Some e" s']
    runJSON_no_host [of n "[insert_cmd cfg (commentFor (n_prefix cfg) u g) (matchExpr ip port pr @ [accept_stmt])]" s e s']
    by (auto simp: nft_AddRule_def checkRule_def split: option.splits if_splits)
next
  case 12
  show ?case by simp
qed

end
