(* ===== verification/Guard.thy ===== *)
theory Guard
  imports NftKernel
begin

text \<open>
  What the chain does to a packet.  The rules \<open>nft.go\<close> writes are evaluated as nftables documents it:
  in order, a rule whose matches all hold gives its verdict, and the chain's policy accepts the rest.
  With the guard at the tail the chain is an allowlist.
\<close>

section \<open>Rules the backend writes\<close>

definition allow_row :: "nft_config \<Rightarrow> row \<Rightarrow> bool" where
  "allow_row cfg r \<longleftrightarrow> (\<exists>h ip port proto u g. checkRule ip port proto = None \<and> CHR '':'' \<notin> set u \<and>
     r = (h, commentFor (n_prefix cfg) u g, matchExpr ip port proto @ [accept_stmt]))"

definition guard_entry :: "portproto \<Rightarrow> bool" where
  "guard_entry p \<longleftrightarrow> p = PP 0 [] \<or> guardable p"

definition guard_row :: "nft_config \<Rightarrow> row \<Rightarrow> bool" where
  "guard_row cfg r \<longleftrightarrow> (\<exists>h p. guard_entry p \<and> r = (h, guardComment cfg, guardRule p))"

definition chain_of :: "nft_config \<Rightarrow> (row \<Rightarrow> bool) \<Rightarrow> row list \<Rightarrow> bool" where
  "chain_of cfg Q rs \<longleftrightarrow> (\<forall>r \<in> set rs. allow_row cfg r \<or> Q r)"

definition chain_ok :: "nft_config \<Rightarrow> row list \<Rightarrow> bool" where
  "chain_ok cfg = chain_of cfg (guard_row cfg)"

lemma chain_ok_def': "chain_ok cfg rs \<longleftrightarrow> (\<forall>r \<in> set rs. allow_row cfg r \<or> guard_row cfg r)"
  by (simp add: chain_ok_def chain_of_def)

lemma chain_of_subset: "chain_of cfg Q rs \<Longrightarrow> set rs' \<subseteq> set rs \<Longrightarrow> chain_of cfg Q rs'"
  by (auto simp: chain_of_def)

lemma guardLayout_entries: "p \<in> set (guardLayout ports) \<Longrightarrow> guard_entry p"
  by (auto simp: guardLayout_def Let_def guard_entry_def split: if_splits)

lemma sort_key_empty [simp]: "sort_key f xs = [] \<longleftrightarrow> xs = []"
  by (metis set_empty set_sort)

lemma set_guardLayout: "set (guardLayout ports) = (if filter guardable ports = [] then {} else insert (PP 0 []) {p \<in> set ports. guardable p})"
  by (auto simp: guardLayout_def Let_def filter_empty_conv)

context nft_kernel begin

lemma SyncGuard_chain_of:
  assumes "ok k" and "chain_of cfg Q (rows k)" and "nft_SyncGuard n ports k = (e, k')"
    and "\<And>h p. p \<in> set (guardLayout ports) \<Longrightarrow> Q (h, guardComment cfg, guardRule p)"
  shows "chain_of cfg Q (rows k')"
proof -
  have "chain_of cfg Q (filter (\<lambda>r. fst (snd r) \<noteq> guardComment cfg) (rows k) @
      map (\<lambda>(h, p). (h, guardComment cfg, guardRule p)) (zip hs (guardLayout ports)))" for hs
    using assms(2,4) by (auto simp: chain_of_def dest: set_zip_rightD)
  then show ?thesis using SyncGuard_run [OF assms(1,3)] assms(2) by (cases e) auto
qed

lemma SyncGuard_chain_ok:
  "ok k \<Longrightarrow> chain_ok cfg (rows k) \<Longrightarrow> nft_SyncGuard n ports k = (e, k') \<Longrightarrow> chain_ok cfg (rows k')"
  unfolding chain_ok_def by (erule (2) SyncGuard_chain_of) (auto simp: guard_row_def dest: guardLayout_entries)

lemma AddRule_chain_of:
  assumes "ok k" and "chain_of cfg Q (rows k)" and "nft_AddRule n ip port u pr g k = (e, k')" and "CHR '':'' \<notin> set u"
  shows "chain_of cfg Q (rows k')"
proof (cases "checkRule ip port pr")
  case None
  let ?c = "commentFor (n_prefix cfg) u g" and ?es = "matchExpr ip port pr @ [accept_stmt]"
  have "allow_row cfg (h, ?c, ?es)" for h unfolding allow_row_def using None assms(4) by blast
  with runJSON_cases [OF assms(1), of "[insert_cmd cfg ?c ?es]" e k'] assms(2,3) None show ?thesis
    by (auto simp: nft_AddRule_def steps_Cons step_insert chain_of_def split: if_splits)
qed (use assms(2,3) in \<open>simp add: nft_AddRule_def\<close>)

lemma RemoveRule_subset:
  assumes "ok k" and "nft_RemoveRule n ip port u pr g k = (e, k')"
  shows "set (rows k') \<subseteq> set (rows k)"
proof -
  obtain x t where l: "nft_ListUserRules n u k = (x, t)" by (cases "nft_ListUserRules n u k")
  note t = listFiltered_run [OF assms(1) l [unfolded ListUserRules_prefix]]
  then show ?thesis
    using l assms(2) DeleteByHandle_run [of t _ e k']
    by (auto simp: nft_RemoveRule_def split: sum.splits option.splits if_splits)
qed

end

text \<open>Without its guard the backend keeps any chain of allow rules and rows of a kind \<open>Q\<close>; with it, the chain
  of allow rules and guard rows.\<close>

sublocale nft_kernel \<subseteq> bare: keyed_store "(nft_backend n)\<lparr>be_SyncGuard := None\<rparr>" "n_prefix cfg"
  "\<lambda>k. nft_store cfg (rows k)" "\<lambda>_ _. None" "\<lambda>k. ok k \<and> chain_of cfg Q (rows k)" for Q
proof (unfold_locales, goal_cases)
  case (1 s)
  then show ?case using kernel.wf by blast
next
  case (2 s eo s')
  then show ?case
    using kernel.ensure [of s eo s'] runJSON_cases [of s "EnsureBase_cmds cfg" eo s']
    by (auto simp: nft_EnsureBase_def steps_base split: if_splits)
next
  case (3 s r s')
  then show ?case
    using kernel.list_managed [of s r s'] listFiltered_run [of s "n_prefix cfg @ '':''" r s'] by (simp add: nft_ListManaged_def)
next
  case (4 s u r s')
  then show ?case
    using kernel.list_user [of s u r s'] listFiltered_run [of s "user_prefix (n_prefix cfg) u" r s'] by (simp add: ListUserRules_prefix)
next
  case (5 s h s')
  then show ?case
    using kernel.delete_ok [of s h s'] DeleteByHandle_run [of s h None s'] chain_of_subset [of cfg Q "rows s" "rows s'"] by auto
next
  case (6 s h e s')
  then show ?case using kernel.delete_err [of s h e s'] DeleteByHandle_run [of s h "Some e" s'] by simp
next
  case (7 s ip port u pr g s')
  then show ?case
    using kernel.remove_ok [of s ip port u pr g s'] RemoveRule_subset [of s ip port u pr g None s']
      chain_of_subset [of cfg Q "rows s" "rows s'"] by auto
next
  case (8 s ip port u pr g e s')
  then show ?case
    using kernel.remove_err [of s ip port u pr g e s'] RemoveRule_subset [of s ip port u pr g "Some e" s']
      chain_of_subset [of cfg Q "rows s" "rows s'"] by auto
next
  case (9 s f ports eo s')
  then show ?case by simp
next
  case (10 s ip port u pr g s')
  then show ?case using kernel.add_ok [of s ip port u pr g s'] AddRule_chain_of [of s Q ip port u pr g None s'] by simp
next
  case (11 s ip port u pr g e s')
  then show ?case using kernel.add_err [of s ip port u pr g e s'] AddRule_chain_of [of s Q ip port u pr g "Some e" s'] by simp
next
  case 12
  show ?case by simp
qed

sublocale nft_kernel \<subseteq> chain: keyed_store "nft_backend n" "n_prefix cfg" "\<lambda>k. nft_store cfg (rows k)" "\<lambda>_ _. None"
  "\<lambda>k. ok k \<and> chain_ok cfg (rows k)"
proof (rule keyed_store_guarded)
  show "keyed_store ((nft_backend n)\<lparr>be_SyncGuard := None\<rparr>) (n_prefix cfg) (\<lambda>k. nft_store cfg (rows k)) (\<lambda>_ _. None)
      (\<lambda>k. ok k \<and> chain_ok cfg (rows k))"
    unfolding chain_ok_def by (rule bare.keyed_store_axioms)
  fix k f ports e k'
  assume "ok k \<and> chain_ok cfg (rows k)" "be_SyncGuard (nft_backend n) = Some f" "f ports k = (e, k')"
  then show "(ok k' \<and> chain_ok cfg (rows k')) \<and> (\<lambda>_. None) = (\<lambda>_. None :: string option) \<and>
      nft_store cfg (rows k') = nft_store cfg (rows k)"
    using kernel.guard [of k f ports e k'] SyncGuard_chain_ok [of k ports e k'] by auto
qed

section \<open>Packets\<close>

record packet =
  pk_in :: string
  pk_src :: string
  pk_proto :: string
  pk_dport :: int
  pk_syn :: bool
  pk_ack :: bool

text \<open>The value the left side of a match has for a packet; \<open>None\<close> where the packet has no such field.\<close>

definition left_value :: "packet \<Rightarrow> json \<Rightarrow> json option" where
  "left_value pk l =
     (if l = payload (if isIPv6 (pk_src pk) then ''ip6'' else ''ip'') ''saddr'' then Some (JStr (pk_src pk))
      else if l = payload (pk_proto pk) ''dport'' then Some (JInt (pk_dport pk))
      else if l = JObj [(''meta'', JObj [(''key'', JStr ''iif'')])] then Some (JStr (pk_in pk))
      else if l = JObj [(''&'', JArr [payload ''tcp'' ''flags'', JArr [JStr ''syn'', JStr ''ack'']])] \<and> pk_proto pk = ''tcp''
      then Some (if pk_syn pk then (if pk_ack pk then JArr [JStr ''syn'', JStr ''ack''] else JStr ''syn'')
                 else (if pk_ack pk then JStr ''ack'' else JInt 0))
      else None)"

definition stmt_holds :: "packet \<Rightarrow> json \<Rightarrow> bool" where
  "stmt_holds pk s = (case s of
      JObj [(mk, JObj [(ok, JStr op), (lk, l), (rk, r)])] \<Rightarrow>
        mk = ''match'' \<and> ok = ''op'' \<and> lk = ''left'' \<and> rk = ''right'' \<and> op = ''=='' \<and> left_value pk l = Some r
    | _ \<Rightarrow> False)"

fun rule_verdict :: "packet \<Rightarrow> json list \<Rightarrow> bool option" where
  "rule_verdict pk [] = None"
| "rule_verdict pk (s # ss) =
     (if s = accept_stmt then Some True else if s = drop_stmt then Some False
      else if stmt_holds pk s then rule_verdict pk ss else None)"

fun chain_accepts :: "packet \<Rightarrow> row list \<Rightarrow> bool" where
  "chain_accepts pk [] = True"
| "chain_accepts pk ((h, c, es) # rs) = (case rule_verdict pk es of Some b \<Rightarrow> b | None \<Rightarrow> chain_accepts pk rs)"

definition new_connection :: "packet \<Rightarrow> bool" where
  "new_connection pk \<longleftrightarrow> pk_proto pk = ''tcp'' \<longrightarrow> pk_syn pk \<and> \<not> pk_ack pk"

section \<open>Verdicts of the rules\<close>

lemma stmt_not_verdict [simp]: "jmatch l r \<noteq> accept_stmt" "jmatch l r \<noteq> drop_stmt" "accept_stmt \<noteq> drop_stmt"
    "drop_stmt \<noteq> accept_stmt"
  by (simp_all add: jmatch_def accept_stmt_def drop_stmt_def)

lemma stmt_holds_jmatch: "stmt_holds pk (jmatch l r) \<longleftrightarrow> left_value pk l = Some r"
  by (simp add: stmt_holds_def jmatch_def)

lemma payload_simps [simp]:
  "payload p f = payload p' f' \<longleftrightarrow> p = p' \<and> f = f'" "payload p f \<noteq> JObj [(''meta'', x)]" "payload p f \<noteq> JObj [(''&'', x)]"
  "JObj [(''meta'', x)] \<noteq> payload p f" "JObj [(''&'', x)] \<noteq> payload p f"
  by (auto simp: payload_def)

lemma verdict_allow:
  "rule_verdict pk (matchExpr ip port proto @ [accept_stmt]) =
     (if (pk_src pk, pk_dport pk, pk_proto pk) = (ip, port, proto) then Some True else None)"
  by (auto simp: matchExpr_def stmt_holds_jmatch left_value_def)

lemma verdict_guard:
  "guard_entry p \<Longrightarrow> rule_verdict pk (guardRule p) =
     (if p = PP 0 [] then (if pk_in pk = ''lo'' then Some True else None)
      else if p = PP (pk_dport pk) (pk_proto pk) \<and> new_connection pk then Some False else None)"
  by (cases p) (auto simp: guard_entry_def guardRule_def guardable_def stmt_holds_jmatch left_value_def new_connection_def)

section \<open>The chain as an allowlist\<close>

lemma accepts_append:
  "chain_accepts pk (xs @ ys) = (case find (\<lambda>r. rule_verdict pk (snd (snd r)) \<noteq> None) xs of
     Some r \<Rightarrow> rule_verdict pk (snd (snd r)) = Some True | None \<Rightarrow> chain_accepts pk ys)"
  by (induction pk xs rule: chain_accepts.induct) (auto split: option.splits)

lemma accepts_allow:
  assumes "\<forall>r \<in> set xs. allow_row cfg r"
  shows "chain_accepts pk (xs @ ys) \<longleftrightarrow>
    (pk_src pk, pk_dport pk, pk_proto pk) \<in> rule_match ` chain_rule ` set xs \<or> chain_accepts pk ys"
  using assms
proof (induction xs)
  case (Cons r xs)
  then have "allow_row cfg r" by simp
  then obtain h ip port proto u g where r: "checkRule ip port proto = None"
    "r = (h, commentFor (n_prefix cfg) u g, matchExpr ip port proto @ [accept_stmt])" "CHR '':'' \<notin> set u"
    unfolding allow_row_def by blast
  from chain_rule_written [OF r(1,3), of "n_prefix cfg" h g] have "rule_match (chain_rule r) = (ip, port, proto)"
    unfolding r(2) by (auto simp: rule_match_def named_rule_def mk_rule_def dest: arg_cong [where f = r_ip]
        arg_cong [where f = r_port] arg_cong [where f = r_proto])
  with Cons r(2) show ?case by (auto simp: verdict_allow)
qed simp

lemma accepts_guard:
  assumes "length hs = length ps" and "\<forall>p \<in> set ps. guard_entry p" and "PP 0 [] \<notin> set ps"
  shows "chain_accepts pk (map (\<lambda>(h, p). (h, c, guardRule p)) (zip hs ps)) \<longleftrightarrow>
    \<not> (PP (pk_dport pk) (pk_proto pk) \<in> set ps \<and> new_connection pk)"
  using assms by (induction hs ps rule: list_induct2) (auto simp: verdict_guard)

text \<open>The guard laid out for a list of ports: loopback passes, a new connection to one of them does not.\<close>

lemma accepts_layout:
  assumes "length hs = length (guardLayout ports)"
  shows "chain_accepts pk (map (\<lambda>(h, p). (h, c, guardRule p)) (zip hs (guardLayout ports))) \<longleftrightarrow>
    pk_in pk = ''lo'' \<or> \<not> (PP (pk_dport pk) (pk_proto pk) \<in> {p \<in> set ports. guardable p} \<and> new_connection pk)"
proof (cases "guardLayout ports")
  case Nil
  then have "{p \<in> set ports. guardable p} = {}" using set_guardLayout [of ports] by (auto simp: filter_empty_conv split: if_splits)
  with Nil show ?thesis by auto
next
  case (Cons p ps)
  have "PP 0 [] \<notin> {p \<in> set ports. guardable p}" by (simp add: guardable_def)
  moreover have "p = PP 0 []" "distinct (p # ps)"
    using Cons by (auto simp: guardLayout_def Let_def guardable_def split: if_splits)
  moreover have "set (p # ps) = insert (PP 0 []) {p \<in> set ports. guardable p}"
    using set_guardLayout [of ports] unfolding Cons by (simp split: if_splits)
  ultimately have ps: "set ps = {p \<in> set ports. guardable p}" "p = PP 0 []" "PP 0 [] \<notin> set ps"
    by (simp_all add: insert_ident)
  obtain h hs' where hs: "hs = h # hs'" "length hs' = length ps" using assms Cons by (cases hs) auto
  have "\<forall>p \<in> set ps. guard_entry p" using ps(1) by (auto simp: guard_entry_def)
  from accepts_guard [OF hs(2) this ps(3)] show ?thesis
    using verdict_guard [of "PP 0 []" pk] by (simp add: Cons hs ps(1,2) guard_entry_def)
qed

lemma guard_rule_parsed: "guard_entry p \<Longrightarrow> r_port (chain_rule (h, c, guardRule p)) = p_port p \<and> r_proto (chain_rule (h, c, guardRule p)) = p_proto p"
  by (auto simp: guard_entry_def guardable_def chain_rule_def rule_of_def parseExpr_def guardRule_def parse_dport)
    (auto simp: parse_stmt_def match_payload_def jmatch_def field_def payload_def)

lemma allow_row_comment: "allow_row cfg r \<Longrightarrow> has_prefix (n_prefix cfg @ '':'') (fst (snd r)) \<and> fst (snd r) \<noteq> guardComment cfg"
  unfolding allow_row_def using guard_not_managed [of cfg] has_prefix_commentFor [of "n_prefix cfg"] by (metis fst_conv snd_conv)

lemma guard_row_comment: "guard_row cfg r \<Longrightarrow> fst (snd r) = guardComment cfg"
  by (auto simp: guard_row_def)

lemma named_match [simp]: "rule_match (named_rule p r) = rule_match r"
  by (simp add: named_rule_def rule_match_def)

lemma store_matches: "chain_ok cfg rs \<Longrightarrow> rule_match ` set (nft_store cfg rs) = rule_match ` chain_rule ` {r \<in> set rs. fst (snd r) \<noteq> guardComment cfg}"
  using allow_row_comment guard_row_comment guard_not_managed [of cfg]
  by (auto simp: nft_store_def chain_ok_def' image_image)

lemma chain_decides:
  assumes "chain_ok cfg rs" and "rs = xs @ map (\<lambda>(h, p). (h, guardComment cfg, guardRule p)) (zip hs (guardLayout ports))"
    and "length hs = length (guardLayout ports)" and "\<forall>r \<in> set xs. fst (snd r) \<noteq> guardComment cfg"
  shows "chain_accepts pk rs \<longleftrightarrow> pk_in pk = ''lo'' \<or>
    (pk_src pk, pk_dport pk, pk_proto pk) \<in> rule_match ` set (nft_store cfg rs) \<or>
    \<not> (PP (pk_dport pk) (pk_proto pk) \<in> {p \<in> set ports. guardable p} \<and> new_connection pk)"
proof -
  have "\<forall>r \<in> set xs. allow_row cfg r" using assms(1,2,4) guard_row_comment by (force simp: chain_ok_def')
  moreover have "{r \<in> set rs. fst (snd r) \<noteq> guardComment cfg} = set xs" using assms(2,4) by auto
  ultimately show ?thesis
    using accepts_allow [of xs cfg pk] accepts_layout [OF assms(3), of pk "guardComment cfg"] store_matches [OF assms(1)] assms(2)
    by auto
qed

lemma tail_layout:
  assumes "chain_ok cfg rs" and "distinct (map fst rs)"
    and "guardAtTail (map chain_rule rs) (filter (\<lambda>r. r_comment r = guardComment cfg) (map chain_rule rs)) want"
  shows "\<exists>xs hs. rs = xs @ map (\<lambda>(h, p). (h, guardComment cfg, guardRule p)) (zip hs want) \<and> length hs = length want \<and>
    (\<forall>r \<in> set xs. fst (snd r) \<noteq> guardComment cfg)"
proof -
  let ?gc = "guardComment cfg" and ?P = "\<lambda>r :: row. fst (snd r) = guardComment cfg"
  let ?k = "length rs - length want" and ?G = "filter ?P rs"
  have G: "filter (\<lambda>r. r_comment r = ?gc) (map chain_rule rs) = map chain_rule ?G" by (simp add: filter_map comp_def)
  let ?xs = "take ?k rs" and ?ys = "drop ?k rs"
  have l: "length ?G = length want" using assms(3) unfolding guardAtTail_def G by simp
  have a: "list_all2 (\<lambda>r (g, p). r_handle r = r_handle g \<and> r_port r = p_port p \<and> r_proto r = p_proto p)
      (map chain_rule ?ys) (zip (map chain_rule ?G) want)"
    using assms(3) unfolding guardAtTail_def G by (simp add: drop_map l)
  have ys: "length ?ys = length want" using a l by (auto dest: list_all2_lengthD)
  have "map fst ?ys = map fst ?G"
    using a l ys by (intro nth_equalityI) (auto simp: list_all2_conv_all_nth)
  then have hs: "fst ` set ?ys = fst ` set ?G" by (metis list.set_map)
  have inj: "inj_on fst (set rs)" and dr: "distinct rs" using assms(2) by (simp_all add: distinct_map)
  have "set ?ys = set ?G"
    using hs inj by (intro inj_on_image_eq_iff [THEN iffD1, OF inj]) (auto dest: in_set_dropD)
  moreover have "set ?xs \<inter> set ?ys = {}"
    using dr by (metis append_take_drop_id distinct_append)
  ultimately have xs: "\<forall>r \<in> set ?xs. fst (snd r) \<noteq> ?gc" and gy: "\<forall>r \<in> set ?ys. ?P r"
    by (auto dest: in_set_takeD)
  have "?ys ! i = (fst (?ys ! i), ?gc, guardRule (want ! i))" if i: "i < length want" for i
  proof -
    have "?ys ! i \<in> set ?ys" by (rule nth_mem) (use i ys in simp)
    then have "?ys ! i \<in> set rs" "?P (?ys ! i)" using gy by (auto dest: in_set_dropD)
    then have "guard_row cfg (?ys ! i)" using assms(1) allow_row_comment unfolding chain_ok_def' by blast
    then obtain h p where p: "guard_entry p" "?ys ! i = (h, ?gc, guardRule p)" by (auto simp: guard_row_def)
    have "r_port (chain_rule (?ys ! i)) = p_port (want ! i) \<and> r_proto (chain_rule (?ys ! i)) = p_proto (want ! i)"
      using a i ys l by (auto simp: list_all2_conv_all_nth)
    with guard_rule_parsed [OF p(1), of h ?gc] p(2) have "p = want ! i" by simp
    with p(2) show ?thesis by simp
  qed
  then have "?ys = map (\<lambda>(h, p). (h, ?gc, guardRule p)) (zip (map fst ?ys) want)"
    using ys by (intro nth_equalityI) simp_all
  then have "rs = ?xs @ map (\<lambda>(h, p). (h, ?gc, guardRule p)) (zip (map fst ?ys) want)" by (metis append_take_drop_id)
  with xs ys show ?thesis by (intro exI [of _ ?xs] exI [of _ "map fst ?ys"]) simp
qed

context nft_kernel begin

lemma is_store: "keyed_store (nft_backend n) (n_prefix cfg) (\<lambda>k. nft_store cfg (rows k)) (\<lambda>_ _. None) ok"
  by (rule kernel.keyed_store_axioms)

lemma is_chain: "keyed_store (nft_backend n) (n_prefix cfg) (\<lambda>k. nft_store cfg (rows k)) (\<lambda>_ _. None)
    (\<lambda>k. ok k \<and> chain_ok cfg (rows k))"
  by (rule chain.keyed_store_axioms)

lemma SyncGuard_store: "ok k \<Longrightarrow> nft_SyncGuard n ports k = (e, k') \<Longrightarrow> nft_store cfg (rows k') = nft_store cfg (rows k)"
  using kernel.guard [of k "nft_SyncGuard n" ports e k'] by simp

lemma SyncGuard_decides:
  assumes "ok k" and "chain_ok cfg (rows k)" and "nft_SyncGuard n ports k = (None, k')"
  shows "chain_accepts pk (rows k') \<longleftrightarrow> pk_in pk = ''lo'' \<or>
    (pk_src pk, pk_dport pk, pk_proto pk) \<in> rule_match ` set (nft_store cfg (rows k)) \<or>
    \<not> (PP (pk_dport pk) (pk_proto pk) \<in> {p \<in> set ports. guardable p} \<and> new_connection pk)"
proof -
  have store: "nft_store cfg (rows k') = nft_store cfg (rows k)"
    using SyncGuard_store [OF assms(1,3)] .
  have ok': "chain_ok cfg (rows k')" using SyncGuard_chain_ok [OF assms] .
  from SyncGuard_run [OF assms(1,3)] consider
    (tail) "rows k' = rows k" "guardAtTail (map chain_rule (rows k))
        (filter (\<lambda>r. r_comment r = guardComment cfg) (map chain_rule (rows k))) (guardLayout ports)"
  | (new) hs where "length hs = length (guardLayout ports)" "rows k' = filter (\<lambda>r. fst (snd r) \<noteq> guardComment cfg) (rows k) @
        map (\<lambda>(h, p). (h, guardComment cfg, guardRule p)) (zip hs (guardLayout ports))" by auto
  then obtain xs hs where "rows k' = xs @ map (\<lambda>(h, p). (h, guardComment cfg, guardRule p)) (zip hs (guardLayout ports))"
    "length hs = length (guardLayout ports)" "\<forall>r \<in> set xs. fst (snd r) \<noteq> guardComment cfg"
  proof cases
    case tail
    with tail_layout [OF assms(2) handles [OF assms(1)] tail(2)] that show thesis by auto
  next
    case (new hs)
    then show thesis by (intro that [of "filter (\<lambda>r. fst (snd r) \<noteq> guardComment cfg) (rows k)" hs]) auto
  qed
  from chain_decides [OF ok' this] show ?thesis unfolding store .
qed

end

end
