(* ===== verification/RefKernel.thy ===== *)
theory RefKernel
  imports Guard
begin

text \<open>
  A reference kernel for the witnesses: the rules of the one chain in a list, a counter of handles, whether
  the chain exists, and which of the next runs of \<open>nft\<close> fail.
\<close>

record kern =
  k_rows :: "row list"
  k_next :: int
  k_base :: bool
  k_faults :: "bool list"

fun cmd_view :: "json \<Rightarrow> (string \<times> string \<times> (string \<times> json) list) option" where
  "cmd_view (JObj [(verb, JObj [(kind, JObj kvs)])]) = Some (verb, kind, kvs)"
| "cmd_view _ = None"

definition kern_new :: "(string \<times> json) list \<Rightarrow> (row list \<Rightarrow> row \<Rightarrow> row list) \<Rightarrow> kern \<Rightarrow> kern option" where
  "kern_new kvs put k = (case (field kvs ''comment'', field kvs ''expr'') of
      (JStr c, JArr es) \<Rightarrow> if k_base k \<and> k_next k < 2 ^ 62
        then Some (k\<lparr>k_rows := put (k_rows k) (k_next k, c, es), k_next := k_next k + 1\<rparr>) else None
    | _ \<Rightarrow> None)"

definition kern_cmd :: "kern \<Rightarrow> json \<Rightarrow> kern option" where
  "kern_cmd k c = (case cmd_view c of
      None \<Rightarrow> None
    | Some (verb, kind, kvs) \<Rightarrow>
        if verb = ''add'' \<and> kind = ''table'' then Some k
        else if verb = ''add'' \<and> kind = ''chain'' then Some (k\<lparr>k_base := True\<rparr>)
        else if verb = ''insert'' \<and> kind = ''rule'' then kern_new kvs (\<lambda>rs r. r # rs) k
        else if verb = ''add'' \<and> kind = ''rule'' then kern_new kvs (\<lambda>rs r. rs @ [r]) k
        else if verb = ''delete'' \<and> kind = ''rule''
        then (case field kvs ''handle'' of
            JNum h e \<Rightarrow> if e = 0 \<and> h \<in> fst ` set (k_rows k)
              then Some (k\<lparr>k_rows := filter (\<lambda>r. fst r \<noteq> h) (k_rows k)\<rparr>) else None
          | _ \<Rightarrow> None)
        else None)"

fun kern_cmds :: "json list \<Rightarrow> kern \<Rightarrow> kern option" where
  "kern_cmds [] k = Some k"
| "kern_cmds (c # cs) k = Option.bind (kern_cmd k c) (kern_cmds cs)"

fun program_cmds :: "json \<Rightarrow> json list option" where
  "program_cmds (JObj [(key, JArr cmds)]) = (if key = ''nftables'' then Some cmds else None)"
| "program_cmds _ = None"

definition kern_run :: "json \<Rightarrow> kern \<Rightarrow> unit proc \<times> kern" where
  "kern_run p k = (let k1 = k\<lparr>k_faults := tl (k_faults k)\<rparr> in
     if k_faults k \<noteq> [] \<and> hd (k_faults k) then (Failed ''exit status 1'' ''Error'', k1)
     else (case Option.bind (program_cmds p) (\<lambda>cmds. kern_cmds cmds k1) of
         Some k' \<Rightarrow> (Done (), k')
       | None \<Rightarrow> (Failed ''exit status 1'' ''Error'', k1)))"

definition kern_item :: "row \<Rightarrow> json" where
  "kern_item r = (case r of (h, c, es) \<Rightarrow> JObj [(''rule'', JObj [(''family'', JStr ''inet''), (''handle'', JInt h),
     (''comment'', JStr c), (''expr'', JArr es)])])"

definition kern_read :: "string list \<Rightarrow> kern \<Rightarrow> nft_out proc \<times> kern" where
  "kern_read args k = (if k_faults k \<noteq> [] \<and> hd (k_faults k) then (TimedOut, k\<lparr>k_faults := tl (k_faults k)\<rparr>)
     else if \<not> k_base k then (Failed ''exit status 1'' ''Error: No such file or directory'', k\<lparr>k_faults := tl (k_faults k)\<rparr>)
     else (Done (Doc (JObj [(''nftables'', JArr (JObj [(''metainfo'', JNull)] # map kern_item (k_rows k)))])),
           k\<lparr>k_faults := tl (k_faults k)\<rparr>))"

definition kern_nft :: "nft_config \<Rightarrow> kern nft" where
  "kern_nft cfg = \<lparr>nft_cfg = cfg, nft_run = kern_run, nft_read = kern_read\<rparr>"

definition below :: "int \<Rightarrow> row list \<Rightarrow> bool" where
  "below m rs \<longleftrightarrow> (\<forall>r \<in> set rs. 0 < fst r \<and> fst r < m)"

definition kern_ok :: "kern \<Rightarrow> bool" where
  "kern_ok k \<longleftrightarrow> distinct (map fst (k_rows k)) \<and> below (k_next k) (k_rows k) \<and>
     0 < k_next k \<and> k_next k \<le> 2 ^ 62 \<and> (\<not> k_base k \<longrightarrow> k_rows k = [])"

section \<open>It meets the interface\<close>

lemma kern_views [simp]:
  "cmd_view (insert_cmd cfg c es) = Some (''insert'', ''rule'', [(''family'', JStr ''inet''), (''table'', JStr (n_table cfg)),
     (''chain'', JStr (n_chain cfg)), (''comment'', JStr c), (''expr'', JArr es)])"
  "cmd_view (add_cmd cfg c es) = Some (''add'', ''rule'', [(''family'', JStr ''inet''), (''table'', JStr (n_table cfg)),
     (''chain'', JStr (n_chain cfg)), (''comment'', JStr c), (''expr'', JArr es)])"
  "cmd_view (delete_cmd cfg h) = Some (''delete'', ''rule'', [(''family'', JStr ''inet''), (''table'', JStr (n_table cfg)),
     (''chain'', JStr (n_chain cfg)), (''handle'', JInt h)])"
  by (simp_all add: insert_cmd_def add_cmd_def delete_cmd_def rule_json_def)

lemma below_simps [simp]: "below m (r # rs) \<longleftrightarrow> 0 < fst r \<and> fst r < m \<and> below m rs" "below m (xs @ ys) \<longleftrightarrow> below m xs \<and> below m ys"
    "below m []"
  by (auto simp: below_def)

lemma below_filter [simp]: "below m rs \<Longrightarrow> below m (filter P rs)"
  by (simp add: below_def)

lemma below_Suc [simp]: "below m rs \<Longrightarrow> below (m + 1) rs"
  unfolding below_def by (metis add_strict_increasing2 less_add_one order_less_trans)

lemma below_fresh: "below m rs \<Longrightarrow> m \<notin> fst ` set rs"
  by (force simp: below_def)

lemma kern_cmd_step:
  assumes "kern_ok k" and "known_cmd cfg c" and "kern_cmd k c = Some k'"
  shows "kern_ok k' \<and> nft_step cfg c (k_rows k) (k_rows k')"
proof -
  have fresh: "k_next k \<notin> fst ` set (k_rows k)" using assms(1) below_fresh by (simp add: kern_ok_def)
  from assms(2) consider (base) "c \<in> set (EnsureBase_cmds cfg)" | (delete) h where "c = delete_cmd cfg h"
    | (insert) m es where "c = insert_cmd cfg m es" | (add) m es where "c = add_cmd cfg m es"
    by (auto simp: known_cmd_def)
  then show ?thesis
  proof cases
    case base
    then have "k_rows k' = k_rows k" "kern_ok k'"
      using assms(1,3) by (auto simp: EnsureBase_cmds_def kern_cmd_def kern_ok_def split: if_splits)
    with base show ?thesis by (simp add: step_base)
  next
    case (delete h)
    then show ?thesis
      using assms(1,3) by (auto simp: kern_cmd_def field_def kern_ok_def step_delete distinct_map_filter split: if_splits)
  next
    case (insert m es)
    then show ?thesis
      using assms(1,3) fresh by (auto simp: kern_cmd_def kern_new_def field_def kern_ok_def step_insert split: if_splits)
  next
    case (add m es)
    then show ?thesis
      using assms(1,3) fresh by (auto simp: kern_cmd_def kern_new_def field_def kern_ok_def step_add split: if_splits)
  qed
qed

lemma kern_cmds_steps:
  "kern_ok k \<Longrightarrow> \<forall>c \<in> set cmds. known_cmd cfg c \<Longrightarrow> kern_cmds cmds k = Some k' \<Longrightarrow>
   kern_ok k' \<and> nft_steps cfg cmds (k_rows k) (k_rows k')"
proof (induction cmds arbitrary: k)
  case (Cons c cmds)
  from Cons.prems(3) obtain k1 where k1: "kern_cmd k c = Some k1" "kern_cmds cmds k1 = Some k'"
    by (auto simp: bind_eq_Some_conv)
  from kern_cmd_step [OF Cons.prems(1) _ k1(1)] Cons.prems(2) have "kern_ok k1" "nft_step cfg c (k_rows k) (k_rows k1)" by auto
  with Cons.IH [OF _ _ k1(2)] Cons.prems(2) show ?case by (auto simp: steps_Cons)
qed simp

lemma kern_faults [simp]: "kern_ok (k\<lparr>k_faults := fs\<rparr>) = kern_ok k"
  by (simp add: kern_ok_def)

lemma kern_item_row:
  assumes "0 < fst r" and "fst r < 2 ^ 62"
  shows "row_item (kern_item r) r" and "\<not> other_item (kern_item r)"
proof -
  obtain h c es where r: "r = (h, c, es)" by (cases r)
  with assms show "row_item (kern_item r) r"
    by (auto simp: row_item_def kern_item_def nftRule_of_def field_def)
  then show "\<not> other_item (kern_item r)" by (rule row_not_other)
qed

lemma kern_shows:
  assumes "kern_ok k"
  shows "shows_rows (Doc (JObj [(''nftables'', JArr (JObj [(''metainfo'', JNull)] # map kern_item (k_rows k)))])) (k_rows k)"
proof -
  have r: "0 < fst r" "fst r < 2 ^ 62" if "r \<in> set (k_rows k)" for r
    using assms that unfolding kern_ok_def below_def by fastforce+
  have o: "other_item (JObj [(''metainfo'', JNull)])" by (simp add: other_item_def)
  have "filter (\<lambda>i. \<not> other_item i) (map kern_item (k_rows k)) = map kern_item (k_rows k)"
    using kern_item_row(2) r by (auto simp: filter_id_conv)
  moreover have "list_all2 row_item (map kern_item (k_rows k)) (k_rows k)"
    using kern_item_row(1) r by (auto simp: list_all2_conv_all_nth)
  moreover have "\<exists>r. row_item i r" if "i \<in> set (map kern_item (k_rows k))" for i
  proof -
    obtain r where "r \<in> set (k_rows k)" "i = kern_item r" using \<open>i \<in> _\<close> unfolding set_map by (rule imageE)
    with kern_item_row(1) r show ?thesis by blast
  qed
  ultimately show ?thesis
    using o by (simp add: shows_rows_def)
qed

interpretation ref: nft_kernel "kern_nft cfg" k_rows kern_ok for cfg
proof (unfold_locales, goal_cases)
  case (1 k)
  then show ?case by (simp add: kern_ok_def)
next
  case (2 k cmds u k')
  then have "kern_cmds cmds (k\<lparr>k_faults := tl (k_faults k)\<rparr>) = Some k'"
    by (auto simp: kern_nft_def kern_run_def nft_program_def Let_def split: if_splits option.splits)
  from kern_cmds_steps [OF _ _ this] 2(1,2) show ?case by (simp add: kern_nft_def)
next
  case (3 k p o' k')
  then show ?case
    by (auto simp: kern_nft_def kern_run_def Let_def split: if_splits option.splits)
next
  case (4 k args o'' k')
  then show ?case by (auto simp: kern_nft_def kern_read_def split: if_splits)
next
  case (5 k out k')
  then show ?case using kern_shows [of k] by (auto simp: kern_nft_def kern_read_def split: if_splits)
next
  case (6 k st err k')
  then show ?case by (auto simp: kern_nft_def kern_read_def kern_ok_def split: if_splits)
qed

section \<open>Runs without faults\<close>

lemma kern_same [simp]: "k_faults k = [] \<Longrightarrow> k\<lparr>k_faults := []\<rparr> = k"
  by (cases k) simp

lemma kern_lists:
  assumes "kern_ok k" and "k_base k" and "k_faults k = []"
  shows "listChain (kern_nft cfg) k = (Inr (map chain_rule (k_rows k)), k)"
proof -
  let ?items = "JObj [(''metainfo'', JNull)] # map kern_item (k_rows k)"
  have sh: "shows_rows (Doc (JObj [(''nftables'', JArr ?items)])) (k_rows k)" using kern_shows [OF assms(1)] .
  then have "\<forall>i \<in> set ?items. other_item i \<or> (\<exists>r. row_item i r)"
    "list_all2 row_item (filter (\<lambda>i. \<not> other_item i) ?items) (k_rows k)" by (simp_all add: shows_rows_def)
  from items_rules [OF this] obtain its where "all_some (map obj_field ?items) = Some its"
    "concat (map item_rules its) = map chain_rule (k_rows k)" by blast
  then show ?thesis
    using assms(2,3) by (auto simp: listChain_def runJSONRead_def kern_nft_def kern_read_def items_of_def field_def)
qed

lemma kern_runs:
  "k_faults k = [] \<Longrightarrow> kern_cmds cmds k = Some k' \<Longrightarrow> runJSON (kern_nft cfg) cmds k = (None, k')"
  by (simp add: runJSON_def kern_nft_def kern_run_def nft_program_def)

lemma kern_inserts: "k_base k \<Longrightarrow> k_next k < 2 ^ 62 \<Longrightarrow> kern_cmd k (insert_cmd cfg c es) =
    Some (k\<lparr>k_rows := (k_next k, c, es) # k_rows k, k_next := k_next k + 1\<rparr>)"
  and kern_adds: "k_base k \<Longrightarrow> k_next k < 2 ^ 62 \<Longrightarrow> kern_cmd k (add_cmd cfg c es) =
    Some (k\<lparr>k_rows := k_rows k @ [(k_next k, c, es)], k_next := k_next k + 1\<rparr>)"
  by (simp_all add: kern_cmd_def kern_new_def field_def)

lemma kern_bases: "kern_cmds (EnsureBase_cmds cfg) k = Some (k\<lparr>k_base := True\<rparr>)"
  by (simp add: EnsureBase_cmds_def kern_cmd_def)

lemma kern_cmds_adds:
  "k_base k \<Longrightarrow> k_next k + int (length ps) < 2 ^ 62 \<Longrightarrow> \<exists>k'. kern_cmds (map (\<lambda>p. add_cmd cfg c (f p)) ps) k = Some k'"
proof (induction ps arbitrary: k)
  case (Cons p ps)
  let ?k = "k\<lparr>k_rows := k_rows k @ [(k_next k, c, f p)], k_next := k_next k + 1\<rparr>"
  have "\<exists>k'. kern_cmds (map (\<lambda>p. add_cmd cfg c (f p)) ps) ?k = Some k'" using Cons.prems by (intro Cons.IH) simp_all
  moreover have "kern_cmd k (add_cmd cfg c (f p)) = Some ?k" using Cons.prems by (intro kern_adds) simp_all
  ultimately show ?case by simp
qed simp

text \<open>The guard goes up on a chain that has none yet.\<close>

lemma kern_guards:
  assumes "kern_ok k" and "k_base k" and "k_faults k = []" and "\<forall>r \<in> set (k_rows k). fst (snd r) \<noteq> guardComment cfg"
    and "guardLayout ports \<noteq> []" and "k_next k + int (length (guardLayout ports)) < 2 ^ 62"
  obtains k' where "nft_SyncGuard (kern_nft cfg) ports k = (None, k')"
proof -
  obtain k' where c: "kern_cmds (map (\<lambda>p. add_cmd cfg (guardComment cfg) (guardRule p)) (guardLayout ports)) k = Some k'"
    using kern_cmds_adds [OF assms(2,6)] by blast
  have g: "filter (\<lambda>r. r_comment r = guardComment cfg) (map chain_rule (k_rows k)) = []"
    using assms(4) by (auto simp: filter_empty_conv)
  have "\<not> guardAtTail (map chain_rule (k_rows k)) [] (guardLayout ports)" using assms(5) by (simp add: guardAtTail_def)
  with kern_lists [OF assms(1-3), of cfg] g kern_runs [OF assms(3) c, of cfg] have "nft_SyncGuard (kern_nft cfg) ports k = (None, k')"
    by (simp add: nft_SyncGuard_def Let_def) (simp add: kern_nft_def)
  with that show thesis .
qed

end
