(* ===== verification/NftLaws.thy ===== *)
theory NftLaws
  imports RefKernel ServerInv
begin

text \<open>
  The nftables backend as a whole: what it reads is what it wrote, its guard makes the chain an allowlist,
  and a maintenance pass makes the packets the host accepts those the database authorises.
\<close>

section \<open>Rules\<close>

definition demo_cfg :: nft_config where
  "demo_cfg = \<lparr>n_prefix = ''ok'', n_table = ''nft_okboy'', n_chain = ''input'', n_priority = -150\<rparr>"

definition demo_kern :: kern where
  "demo_kern = \<lparr>k_rows = [], k_next = 1, k_base = True, k_faults = []\<rparr>"

lemma demo_kern_ok: "kern_ok demo_kern"
  by (simp add: kern_ok_def demo_kern_def)


lemma nft_cfg_kern [simp]: "nft_cfg (kern_nft cfg) = cfg"
  by (simp add: kern_nft_def)

lemma demo_check: "checkRule ''10.0.0.1'' 80 ''tcp'' = None" "CHR '':'' \<notin> set ''ann''"
  by (simp_all add: checkRule_def text_eval)


text \<open>C24. The guard makes the chain an allowlist.  After a successful \<open>SyncGuard\<close> on a chain of rules the backend
  wrote, a packet is accepted exactly if it comes in on loopback, its source, port and protocol have an
  allow rule, or its port is not one of those given or it opens no connection; the allow rules are
  unchanged.  A \<open>SyncGuard\<close> that fails leaves the whole chain as it was.\<close>

theorem nft_guard_decides:
  assumes "nft_kernel n rows ok" and "ok k" and "chain_ok (nft_cfg n) (rows k)" and "nft_SyncGuard n ports k = (e, k')"
  shows "(e = None \<longrightarrow> nft_store (nft_cfg n) (rows k') = nft_store (nft_cfg n) (rows k) \<and>
      (\<forall>pk. chain_accepts pk (rows k') \<longleftrightarrow> pk_in pk = ''lo'' \<or>
        (pk_src pk, pk_dport pk, pk_proto pk) \<in> rule_match ` set (nft_store (nft_cfg n) (rows k)) \<or>
        \<not> (PP (pk_dport pk) (pk_proto pk) \<in> {p \<in> set ports. guardable p} \<and> new_connection pk)))
    \<and> (e \<noteq> None \<longrightarrow> rows k' = rows k)"
proof (cases e)
  case None
  with nft_kernel.SyncGuard_store [OF assms(1,2,4)] nft_kernel.SyncGuard_decides [OF assms(1-3)] assms(4)
  show ?thesis by simp
next
  case (Some x)
  with nft_kernel.SyncGuard_run [OF assms(1,2,4)] show ?thesis by simp
qed

theorem nft_guard_decides_witness:
  "\<exists>k'. nft_SyncGuard (kern_nft demo_cfg) [PP 80 ''tcp''] demo_kern = (None, k') \<and>
     \<not> chain_accepts \<lparr>pk_in = ''eth0'', pk_src = ''10.0.0.9'', pk_proto = ''tcp'', pk_dport = 80, pk_syn = True, pk_ack = False\<rparr> (k_rows k')"
proof -
  let ?n = "kern_nft demo_cfg"
  have w: "guardLayout [PP 80 ''tcp''] = [PP 0 [], PP 80 ''tcp'']" by (simp add: guardLayout_def guardable_def)
  have k: "k_base demo_kern" "k_faults demo_kern = []" "\<forall>r \<in> set (k_rows demo_kern). fst (snd r) \<noteq> guardComment demo_cfg"
    "guardLayout [PP 80 ''tcp''] \<noteq> []" "k_next demo_kern + int (length (guardLayout [PP 80 ''tcp''])) < 2 ^ 62"
    by (simp_all add: w demo_kern_def)
  obtain k' where g: "nft_SyncGuard ?n [PP 80 ''tcp''] demo_kern = (None, k')" using kern_guards [OF demo_kern_ok k] .
  have "chain_ok (nft_cfg ?n) (k_rows demo_kern)" by (simp add: chain_ok_def' demo_kern_def)
  then show ?thesis
    using nft_guard_decides [OF ref.nft_kernel_axioms demo_kern_ok _ g] g
    by (simp add: demo_kern_def nft_store_def guardable_def new_connection_def)
qed

section \<open>The host as an allowlist\<close>

text \<open>The abstract allowlist of a database: who may reach which port from where.\<close>

definition authorised :: "db \<Rightarrow> string \<Rightarrow> int \<Rightarrow> string \<Rightarrow> bool" where
  "authorised d ip port proto \<longleftrightarrow> (\<exists>u \<in> set (users d). \<exists>m \<in> set (members d). \<exists>g \<in> set (grps d).
     u_ip u = Some ip \<and> ip \<noteq> [] \<and> m_user m = u_id u \<and> m_enabled m \<and> m_group m = g_id g \<and> g_port g = port \<and> g_proto g = proto)"

definition allowlist_accepts :: "db \<Rightarrow> packet \<Rightarrow> bool" where
  "allowlist_accepts d pk \<longleftrightarrow> pk_in pk = ''lo'' \<or> authorised d (pk_src pk) (pk_dport pk) (pk_proto pk) \<or>
     \<not> ((\<exists>g \<in> set (grps d). g_port g = pk_dport pk \<and> g_proto g = pk_proto pk) \<and> new_connection pk)"

definition group_ports :: "db \<Rightarrow> portproto list" where
  "group_ports d = map (\<lambda>g. PP (g_port g) (g_proto g)) (grps d)"

definition cleanup_due :: "'s env \<Rightarrow> 's srv \<Rightarrow> bool" where
  "cleanup_due env s \<longleftrightarrow> c_cleanup_days (e_cfg env) > 0 \<and>
     (case sv_cleanup s of None \<Rightarrow> True | Some t \<Rightarrow> e_now env - t \<ge> cleanupEvery)"

lemma expire_stale_not_due: "\<not> cleanup_due env s \<Longrightarrow> expire_stale env s = (Inr (), s)"
  unfolding expire_stale_def cleanup_due_def by (rule if_not_P)

lemma Maintain_run:
  assumes "sv_db s = (d, [])" and "\<not> cleanup_due env s" and "c_nft_guard (e_cfg env)"
    and "be_EnsureBase (e_be env) (sv_fw s) = (None, w1)"
    and "ReconcileAll (e_be env) (map desired_to_rule (desired_local d)) w1 = (added, removed, err, w2)"
    and "manager_SyncGuard (e_be env) (group_ports d) w2 = (e, w3)"
  shows "run (Maintain env) s = (no_answer, s\<lparr>sv_fw := w3\<rparr>)"
proof -
  have s: "sv_db (s\<lparr>sv_fw := w\<rparr>) = (d, [])" "s\<lparr>sv_db := (d, [])\<rparr> = s" "s\<lparr>sv_db := (d, []), sv_fw := w\<rparr> = s\<lparr>sv_fw := w\<rparr>" for w
    using assms(1) by (cases s; simp)+
  have x: "expire_stale env (s\<lparr>sv_fw := w\<rparr>) = (Inr (), s\<lparr>sv_fw := w\<rparr>)" for w
    by (rule expire_stale_not_due) (use assms(2) in \<open>simp add: cleanup_due_def\<close>)
  show ?thesis
    using assms(3-6) s
    by (simp add: Maintain_def run_def hb_def fwcall_def x dbcall_def DesiredStateLocal_def syncGuard_def ListGroups_def
        hret_def group_ports_def)
qed

lemma authorised_desired:
  "(ip, port, proto) \<in> key_match ` rule_key ` set (map desired_to_rule (desired_local d)) \<longleftrightarrow> authorised d ip port proto"
proof -
  have "(ip, port, proto) \<in> key_match ` rule_key ` set (map desired_to_rule (desired_local d)) \<longleftrightarrow>
      (\<exists>r \<in> set (desired_local d). d_ip r = ip \<and> d_port r = port \<and> d_proto r = proto)"
    by (auto simp: image_image key_match_def rule_key_def desired_to_rule_def)
  also have "\<dots> \<longleftrightarrow> authorised d ip port proto"
  proof
    assume "\<exists>r \<in> set (desired_local d). d_ip r = ip \<and> d_port r = port \<and> d_proto r = proto"
    then obtain r m u g where "d_ip r = ip \<and> d_port r = port \<and> d_proto r = proto"
      "m \<in> set (members d)" "u \<in> set (users d)" "g \<in> set (grps d)" "grants r m u g (g_port g) (g_proto g)"
      using in_desired_local by blast
    then show "authorised d ip port proto" unfolding authorised_def grants_def by metis
  next
    assume "authorised d ip port proto"
    then obtain u m g where a: "u \<in> set (users d)" "m \<in> set (members d)" "g \<in> set (grps d)" "u_ip u = Some ip" "ip \<noteq> []"
      "m_user m = u_id u" "m_enabled m" "m_group m = g_id g" "g_port g = port" "g_proto g = proto"
      unfolding authorised_def by blast
    let ?r = "\<lparr>d_ip = ip, d_port = port, d_proto = proto, d_user = u_name u, d_group = g_name g\<rparr>"
    have "grants ?r m u g (g_port g) (g_proto g)" using a by (simp add: grants_def)
    then have "?r \<in> set (desired_local d)" using a in_desired_local by blast
    then show "\<exists>r \<in> set (desired_local d). d_ip r = ip \<and> d_port r = port \<and> d_proto r = proto" by (intro bexI [of _ ?r]) simp_all
  qed
  finally show ?thesis .
qed

text \<open>C1. A maintenance pass implements the allowlist.  On the nftables backend, when the pass meets no error and
  no stale user is due, the packets the chain accepts afterwards are exactly those of the abstract
  allowlist of the database: loopback, the sources the enabled memberships of users with an address
  authorise, and whatever opens no connection to a group's port.\<close>

theorem maintain_refines_allowlist:
  assumes "nft_kernel n rows ok" and "good_env (nft_backend n) (n_prefix (nft_cfg n)) env" and "c_nft_guard (e_cfg env)"
    and "sv_db s = (d, [])" and "server_ok d" and "ok (sv_fw s)" and "chain_ok (nft_cfg n) (rows (sv_fw s))"
    and "\<not> cleanup_due env s" and "nft_EnsureBase n (sv_fw s) = (None, w1)"
    and "ReconcileAll (nft_backend n) (map desired_to_rule (desired_local d)) w1 = (added, removed, None, w2)"
    and "nft_SyncGuard n (group_ports d) w2 = (None, w3)"
  shows "run (Maintain env) s = (no_answer, s\<lparr>sv_fw := w3\<rparr>) \<and>
    (\<forall>pk. chain_accepts pk (rows w3) \<longleftrightarrow> allowlist_accepts d pk)"
proof (intro conjI allI)
  let ?cfg = "nft_cfg n" and ?D = "map desired_to_rule (desired_local d)"
  let ?I = "\<lambda>k. ok k \<and> chain_ok ?cfg (rows k)" and ?st = "\<lambda>k. nft_store ?cfg (rows k)"
  have e: "e_be env = nft_backend n" using assms(2) by (simp add: good_env_def)
  show "run (Maintain env) s = (no_answer, s\<lparr>sv_fw := w3\<rparr>)"
    using assms(9-11) by (intro Maintain_run [OF assms(4,8,3)]) (simp_all add: e manager_SyncGuard_def)
  note be = nft_kernel.is_chain [OF assms(1)]
  have I1: "?I w1"
    using rule_store.ensure [OF keyed_store.axioms(1) [OF be], of "sv_fw s" None w1] assms(6,7,9) by simp
  have I2: "?I w2" using keyed_store.ReconcileAll_run [OF be I1 server_ok_named [OF assms(5)] assms(10)] by blast
  have "mset (map rule_key (?st w2)) = mset_set (rule_key ` set ?D)"
    using reconcile_all_exact [OF be I1 server_ok_named [OF assms(5)] assms(10)] by simp
  then have "rule_key ` set (?st w2) = rule_key ` set ?D"
    by (metis finite_imageI List.finite_set finite_set_mset_mset_set set_map set_mset_mset)
  moreover have "rule_match ` set (?st w2) = key_match ` rule_key ` set (?st w2)" by (simp add: image_image)
  ultimately have "rule_match ` set (?st w2) = key_match ` rule_key ` set ?D" by (simp only:)
  then have m: "(ip, port, pr) \<in> rule_match ` set (?st w2) \<longleftrightarrow> authorised d ip port pr" for ip port pr
    using authorised_desired by simp
  have g: "PP port pr \<in> {p \<in> set (group_ports d). guardable p} \<longleftrightarrow> (\<exists>g \<in> set (grps d). g_port g = port \<and> g_proto g = pr)" for port pr
    using rows_okD(2) [OF assms(5)] by (auto simp: group_ports_def guardable_def grp_ok_def port_ok_def)
  show "chain_accepts pk (rows w3) \<longleftrightarrow> allowlist_accepts d pk" for pk
    using nft_kernel.SyncGuard_decides [OF assms(1) _ _ assms(11), of pk] I2 unfolding m g allowlist_accepts_def by simp
qed

text \<open>A host whose chain already holds the one rule the database asks for.\<close>

definition allow_kern :: kern where
  "allow_kern = demo_kern\<lparr>k_rows := [(1, commentFor ''ok'' ''ann'' ''web'', matchExpr ''10.0.0.1'' 80 ''tcp'' @ [accept_stmt])], k_next := 2\<rparr>"

definition allow_env :: "kern env" where
  "allow_env = \<lparr>e_be = nft_backend (kern_nft demo_cfg), e_cfg = default_config\<lparr>c_prefix := ''ok'', c_cleanup_days := 0\<rparr>, e_now = 1000,
     e_secret = [], e_totp = [], e_version = [], e_index = [], e_order = (\<lambda>xs. xs)\<rparr>"

definition allow_srv :: "kern srv" where
  "allow_srv = \<lparr>sv_db = (demo_db, []), sv_fw = allow_kern, sv_cleanup = None\<rparr>"

lemma allow_kern_facts: "kern_ok allow_kern" "k_base allow_kern" "k_faults allow_kern = []"
    "nft_store demo_cfg (k_rows allow_kern) = [mk_rule ''ok'' 1 ''10.0.0.1'' 80 ''ann'' ''tcp'' ''web'']"
proof -
  show "kern_ok allow_kern" "k_base allow_kern" "k_faults allow_kern = []" by (simp_all add: kern_ok_def allow_kern_def demo_kern_def)
  have "n_prefix demo_cfg = ''ok''" by (simp add: demo_cfg_def)
  then show "nft_store demo_cfg (k_rows allow_kern) = [mk_rule ''ok'' 1 ''10.0.0.1'' 80 ''ann'' ''tcp'' ''web'']"
    using chain_rule_written [OF demo_check, of "''ok''" 1 "''web''"] has_prefix_commentFor [of "''ok''" "''ann''" "''web''"]
    by (simp add: nft_store_def allow_kern_def del: has_prefix_commentFor)
qed

lemma allow_chain: "chain_ok demo_cfg (k_rows allow_kern)"
proof -
  have p: "n_prefix demo_cfg = ''ok''" by (simp add: demo_cfg_def)
  have "allow_row demo_cfg (1, commentFor ''ok'' ''ann'' ''web'', matchExpr ''10.0.0.1'' 80 ''tcp'' @ [accept_stmt])"
    unfolding allow_row_def p using demo_check by blast
  then show ?thesis by (simp add: chain_ok_def') (simp add: allow_kern_def)
qed

lemma allow_base: "nft_EnsureBase (kern_nft demo_cfg) allow_kern = (None, allow_kern)"
  unfolding nft_EnsureBase_def nft_cfg_kern
  by (rule kern_runs) (simp_all add: kern_bases allow_kern_def demo_kern_def)

lemma allow_guard: "\<exists>w. nft_SyncGuard (kern_nft demo_cfg) [PP 80 ''tcp''] allow_kern = (None, w)"
proof -
  have w: "guardLayout [PP 80 ''tcp''] = [PP 0 [], PP 80 ''tcp'']" by (simp add: guardLayout_def guardable_def)
  have "commentFor ''ok'' ''ann'' ''web'' \<noteq> guardComment demo_cfg" by (simp add: commentFor_def guardComment_def demo_cfg_def)
  then have "\<forall>r \<in> set (k_rows allow_kern). fst (snd r) \<noteq> guardComment demo_cfg" "guardLayout [PP 80 ''tcp''] \<noteq> []"
    "k_next allow_kern + int (length (guardLayout [PP 80 ''tcp''])) < 2 ^ 62"
    by (simp_all add: w allow_kern_def)
  from kern_guards [OF allow_kern_facts(1-3) this] show ?thesis by blast
qed

lemma allow_reconcile:
  "ReconcileAll (nft_backend (kern_nft demo_cfg)) (map desired_to_rule (desired_local demo_db)) allow_kern = (0, 0, None, allow_kern)"
proof -
  have "nft_ListManaged (kern_nft demo_cfg) allow_kern = (Inr (nft_store demo_cfg (k_rows allow_kern)), allow_kern)"
    using kern_lists [OF allow_kern_facts(1-3), of demo_cfg] by (simp add: nft_ListManaged_def listFiltered_def nft_store_def)
  moreover have "map desired_to_rule (desired_local demo_db) =
      [\<lparr>r_handle = 0, r_ip = ''10.0.0.1'', r_port = 80, r_proto = ''tcp'', r_user = ''ann'', r_group = ''web'', r_comment = []\<rparr>]"
    by code_simp
  ultimately show ?thesis
    unfolding allow_kern_facts(4) by (simp add: ReconcileAll_def Let_def rule_key_def mk_rule_def)
qed

theorem maintain_refines_allowlist_witness:
  "\<exists>w. run (Maintain allow_env) allow_srv = (no_answer, allow_srv\<lparr>sv_fw := w\<rparr>) \<and>
     chain_accepts \<lparr>pk_in = ''eth0'', pk_src = ''10.0.0.1'', pk_proto = ''tcp'', pk_dport = 80, pk_syn = True, pk_ack = False\<rparr> (k_rows w) \<and>
     \<not> chain_accepts \<lparr>pk_in = ''eth0'', pk_src = ''10.0.0.9'', pk_proto = ''tcp'', pk_dport = 80, pk_syn = True, pk_ack = False\<rparr> (k_rows w)"
proof -
  let ?n = "kern_nft demo_cfg"
  have env: "good_env (nft_backend ?n) (n_prefix (nft_cfg ?n)) allow_env" "c_nft_guard (e_cfg allow_env)"
    "\<not> cleanup_due allow_env allow_srv"
    by (simp_all add: good_env_def allow_env_def demo_cfg_def default_config_def cleanup_due_def)
  have srv: "sv_db allow_srv = (demo_db, [])" "sv_fw allow_srv = allow_kern" by (simp_all add: allow_srv_def)
  have ok: "kern_ok (sv_fw allow_srv)" "chain_ok (nft_cfg ?n) (k_rows (sv_fw allow_srv))"
    using allow_kern_facts(1) allow_chain by (simp_all add: srv)
  have base: "nft_EnsureBase ?n (sv_fw allow_srv) = (None, allow_kern)" unfolding srv by (rule allow_base)
  have gp: "group_ports demo_db = [PP 80 ''tcp'']" by (simp add: group_ports_def demo_db_def)
  obtain w3 where g: "nft_SyncGuard ?n (group_ports demo_db) allow_kern = (None, w3)"
    unfolding gp using allow_guard by blast
  have a: "authorised demo_db ''10.0.0.1'' 80 ''tcp''" "\<not> authorised demo_db ''10.0.0.9'' 80 ''tcp''"
    by (auto simp: authorised_def demo_db_def new_user_def empty_db_def)
  from maintain_refines_allowlist [OF ref.nft_kernel_axioms env(1,2) srv(1) server_ok_demo(1) ok env(3) base allow_reconcile g] a
  show ?thesis by (intro exI [of _ w3]) (simp add: allowlist_accepts_def new_connection_def demo_db_def)
qed

end
