(* ===== verification/Agent.thy ===== *)
theory Agent
  imports NftLaws
begin

text \<open>
  \<open>internal/agent/agent.go\<close>: the loop of an edge node.  A cycle gets what the hub answers to its request
  and whether the state file can be written; the state is the firewall behind the backend, what the
  loop remembers, and the state file.  Log lines are dropped.
\<close>

section \<open>Options, state and the hub's answer\<close>

record options =
  op_hub :: string
  op_token :: string
  op_version :: string
  op_backend :: string
  op_allowed :: "int list"
  op_guard :: bool
  op_file :: string

record hub_rule =
  h_ip :: string
  h_port :: int
  h_proto :: string
  h_user :: string
  h_group :: string

record desiredResp =
  dr_ok :: bool
  dr_node :: string
  dr_rules :: "hub_rule list"
  dr_ports :: "portproto list option"

record agent_state =
  st_revoked :: bool
  st_warned :: bool
  st_unguarded :: string
  st_ports :: "portproto list"
  st_have :: bool
  st_saved :: bool

definition new_state :: agent_state where
  "new_state = \<lparr>st_revoked = False, st_warned = False, st_unguarded = [], st_ports = [], st_have = False, st_saved = False\<rparr>"

text \<open>The state file: absent, unreadable or no JSON, or a document.\<close>

datatype state_file = NoFile | BadFile | Saved json

record 's agent =
  ag_fw :: 's
  ag_st :: agent_state
  ag_file :: state_file

record http_req =
  hq_url :: string
  hq_auth :: string
  hq_version :: "string option"
  hq_backend :: "string option"

datatype http_result = NoReply string | Reply int "json option"

datatype fetch_error = Revoked | FetchFailed string

record cycle =
  cy_hub :: "http_req \<Rightarrow> http_result"
  cy_write :: bool

section \<open>Decoding\<close>

fun bool_field :: "json \<Rightarrow> bool option" where
  "bool_field JNull = Some False"
| "bool_field (JBool b) = Some b"
| "bool_field _ = None"

definition hub_rule_of :: "json \<Rightarrow> hub_rule option" where
  "hub_rule_of j = (case obj_field j of
      None \<Rightarrow> None
    | Some None \<Rightarrow> Some \<lparr>h_ip = [], h_port = 0, h_proto = [], h_user = [], h_group = []\<rparr>
    | Some (Some kvs) \<Rightarrow>
        (case (str_field (field kvs ''ip''), int_field (field kvs ''port''), str_field (field kvs ''proto''),
               str_field (field kvs ''user''), str_field (field kvs ''group'')) of
           (Some ip, Some p, Some pr, Some u, Some g) \<Rightarrow> Some \<lparr>h_ip = ip, h_port = p, h_proto = pr, h_user = u, h_group = g\<rparr>
         | _ \<Rightarrow> None))"

definition port_of :: "string \<Rightarrow> string \<Rightarrow> json \<Rightarrow> portproto option" where
  "port_of pk prk j = (case obj_field j of
      None \<Rightarrow> None
    | Some None \<Rightarrow> Some (PP 0 [])
    | Some (Some kvs) \<Rightarrow> (case (int_field (field kvs pk), str_field (field kvs prk)) of
        (Some p, Some pr) \<Rightarrow> Some (PP p pr) | _ \<Rightarrow> None))"

definition ports_of :: "string \<Rightarrow> string \<Rightarrow> json \<Rightarrow> portproto list option" where
  "ports_of pk prk j = Option.bind (arr_field j) (\<lambda>xs. all_some (map (port_of pk prk) xs))"

definition desiredResp_of :: "json \<Rightarrow> desiredResp option" where
  "desiredResp_of j = (case obj_field j of
      None \<Rightarrow> None
    | Some None \<Rightarrow> Some \<lparr>dr_ok = False, dr_node = [], dr_rules = [], dr_ports = None\<rparr>
    | Some (Some kvs) \<Rightarrow>
        (case (bool_field (field kvs ''ok''), str_field (field kvs ''node''),
               Option.bind (arr_field (field kvs ''rules'')) (\<lambda>xs. all_some (map hub_rule_of xs)),
               (if field kvs ''ports'' = JNull then Some None else map_option Some (ports_of ''port'' ''proto'' (field kvs ''ports'')))) of
           (Some ok, Some nd, Some rs, Some ps) \<Rightarrow> Some \<lparr>dr_ok = ok, dr_node = nd, dr_rules = rs, dr_ports = ps\<rparr>
         | _ \<Rightarrow> None))"

section \<open>The pull\<close>

definition desired_url :: "string \<Rightarrow> string" where
  "desired_url hub = rev (dropWhile (\<lambda>c. c = CHR ''/'') (rev hub)) @ ''/api/v1/node/desired-state''"

definition node_request :: "options \<Rightarrow> http_req" where
  "node_request opts = \<lparr>hq_url = desired_url (op_hub opts), hq_auth = ''Bearer '' @ op_token opts,
     hq_version = (if op_version opts \<noteq> [] then Some (op_version opts) else None),
     hq_backend = (if op_backend opts \<noteq> [] then Some (op_backend opts) else None)\<rparr>"

definition fetch :: "options \<Rightarrow> (http_req \<Rightarrow> http_result) \<Rightarrow> fetch_error + desiredResp" where
  "fetch opts hub = (case hub (node_request opts) of
      NoReply e \<Rightarrow> Inl (FetchFailed e)
    | Reply sc body \<Rightarrow>
        if sc = 401 then Inl Revoked
        else if sc \<noteq> 200 then Inl (FetchFailed (''hub returned HTTP '' @ itoa sc))
        else (case Option.bind body desiredResp_of of
            None \<Rightarrow> Inl (FetchFailed ''decode desired state'')
          | Some dr \<Rightarrow> if dr_ok dr then Inr dr else Inl (FetchFailed ''hub responded ok=false'')))"

definition well_formed :: "hub_rule \<Rightarrow> bool" where
  "well_formed d \<longleftrightarrow> CanonicalIP (h_ip d) \<noteq> [] \<and> 1 \<le> h_port d \<and> h_port d \<le> 65535 \<and>
     (h_proto d = ''tcp'' \<or> h_proto d = ''udp'') \<and> ValidName (h_user d) \<and> ValidName (h_group d)"

definition sanitize :: "hub_rule list \<Rightarrow> hub_rule list" where
  "sanitize desired = map (\<lambda>d. d\<lparr>h_ip := CanonicalIP (h_ip d)\<rparr>) (filter well_formed desired)"

definition filterAllowed :: "hub_rule list \<Rightarrow> int list \<Rightarrow> hub_rule list" where
  "filterAllowed desired allowed =
     (if allowed = [] then desired else filter (\<lambda>d. h_port d \<in> set allowed) desired)"

definition hub_to_rule :: "hub_rule \<Rightarrow> rule" where
  "hub_to_rule d = \<lparr>r_handle = 0, r_ip = h_ip d, r_port = h_port d, r_proto = h_proto d, r_user = h_user d,
     r_group = h_group d, r_comment = []\<rparr>"

definition agent_Reconcile :: "'s backend \<Rightarrow> hub_rule list \<Rightarrow> 's \<Rightarrow> int \<times> int \<times> fwerr option \<times> 's" where
  "agent_Reconcile be desired = ReconcileAll be (map hub_to_rule desired)"

section \<open>The guard\<close>

definition splitAllowed :: "portproto list \<Rightarrow> int list \<Rightarrow> portproto list \<times> portproto list" where
  "splitAllowed ports allowed = (filter (\<lambda>p. p_port p \<in> set allowed) ports, filter (\<lambda>p. p_port p \<notin> set allowed) ports)"

definition portList :: "portproto list \<Rightarrow> string" where
  "portList ports = join '', '' (map (\<lambda>p. itoa (p_port p) @ ''/'' @ p_proto p) ports)"

definition samePorts :: "portproto list \<Rightarrow> portproto list \<Rightarrow> bool" where
  "samePorts a b \<longleftrightarrow> length a = length b \<and> list_all (\<lambda>i. a ! i = b ! i) [0..<length a]"

text \<open>\<open>json.Marshal\<close> of the ports: an empty list is always a nil slice here.\<close>

definition ports_json :: "portproto list \<Rightarrow> json" where
  "ports_json ports = (if ports = [] then JNull
     else JArr (map (\<lambda>p. JObj [(''Port'', JInt (p_port p)), (''Proto'', JStr (p_proto p))]) ports))"

definition writeState :: "bool \<Rightarrow> portproto list \<Rightarrow> state_file \<Rightarrow> bool \<times> state_file" where
  "writeState ok ports f = (if ok then (True, Saved (ports_json ports)) else (False, f))"

definition saveGuard :: "options \<Rightarrow> cycle \<Rightarrow> portproto list \<Rightarrow> 's agent \<Rightarrow> 's agent" where
  "saveGuard opts cy ports a =
     (let st = ag_st a;
          st1 = (if \<not> st_have st \<or> \<not> samePorts (st_ports st) ports
                 then st\<lparr>st_ports := ports, st_have := True, st_saved := False\<rparr> else st);
          a1 = a\<lparr>ag_st := st1\<rparr>
      in if op_file opts = [] \<or> st_saved st1 then a1
         else (case writeState (cy_write cy) ports (ag_file a) of
             (True, f) \<Rightarrow> a1\<lparr>ag_st := st1\<lparr>st_saved := True\<rparr>, ag_file := f\<rparr>
           | (False, f) \<Rightarrow> a1\<lparr>ag_file := f\<rparr>))"

definition loadGuard :: "options \<Rightarrow> 's agent \<Rightarrow> 's agent" where
  "loadGuard opts a =
     (if op_file opts = [] then a
      else (case ag_file a of
          Saved j \<Rightarrow> (case ports_of ''Port'' ''Proto'' j of
              None \<Rightarrow> a
            | Some ports \<Rightarrow> a\<lparr>ag_st := (ag_st a)\<lparr>st_ports := ports, st_have := True, st_saved := True\<rparr>\<rparr>)
        | _ \<Rightarrow> a))"

definition reapplyGuard :: "'s backend \<Rightarrow> options \<Rightarrow> 's agent \<Rightarrow> 's agent" where
  "reapplyGuard be opts a = (case be_SyncGuard be of
      None \<Rightarrow> a
    | Some g \<Rightarrow>
        if \<not> st_have (ag_st a) then a
        else (let ports = (if op_guard opts then fst (splitAllowed (st_ports (ag_st a)) (op_allowed opts)) else [])
              in a\<lparr>ag_fw := snd (g ports (ag_fw a))\<rparr>))"

definition agent_syncGuard :: "'s backend \<Rightarrow> desiredResp \<Rightarrow> options \<Rightarrow> cycle \<Rightarrow> 's agent \<Rightarrow> 's agent" where
  "agent_syncGuard be dr opts cy a = (case be_SyncGuard be of
      None \<Rightarrow> a
    | Some g \<Rightarrow>
        (let apply = (\<lambda>ports a. case g ports (ag_fw a) of
               (Some e, w) \<Rightarrow> a\<lparr>ag_fw := w\<rparr>
             | (None, w) \<Rightarrow> saveGuard opts cy ports (a\<lparr>ag_fw := w\<rparr>))
         in if op_guard opts
            then (case dr_ports dr of
                None \<Rightarrow> a\<lparr>ag_st := (ag_st a)\<lparr>st_warned := True\<rparr>\<rparr>
              | Some hub \<Rightarrow> (case splitAllowed hub (op_allowed opts) of
                  (ports, skipped) \<Rightarrow> apply ports (a\<lparr>ag_st := (ag_st a)\<lparr>st_unguarded := portList skipped\<rparr>\<rparr>)))
            else apply [] a))"

section \<open>The loop\<close>

definition step :: "'s backend \<Rightarrow> options \<Rightarrow> cycle \<Rightarrow> 's agent \<Rightarrow> 's agent" where
  "step be opts cy a = (case be_EnsureBase be (ag_fw a) of
      (Some e, w) \<Rightarrow> a\<lparr>ag_fw := w\<rparr>
    | (None, w) \<Rightarrow>
        (let a1 = reapplyGuard be opts (a\<lparr>ag_fw := w\<rparr>) in
         case fetch opts (cy_hub cy) of
           Inl Revoked \<Rightarrow> (case agent_Reconcile be [] (ag_fw a1) of
               (added, removed, err, w2) \<Rightarrow> a1\<lparr>ag_fw := w2, ag_st := (ag_st a1)\<lparr>st_revoked := True\<rparr>\<rparr>)
         | Inl (FetchFailed e) \<Rightarrow> a1
         | Inr dr \<Rightarrow>
             (case agent_Reconcile be (filterAllowed (sanitize (dr_rules dr)) (op_allowed opts)) (ag_fw a1) of
                (added, removed, err, w2) \<Rightarrow>
                  agent_syncGuard be dr opts cy (a1\<lparr>ag_fw := w2, ag_st := (ag_st a1)\<lparr>st_revoked := False\<rparr>\<rparr>))))"

text \<open>A run until it is cancelled: one step per cycle.\<close>

definition agent_Run :: "'s backend \<Rightarrow> options \<Rightarrow> cycle list \<Rightarrow> 's \<Rightarrow> state_file \<Rightarrow> fwerr + 's agent" where
  "agent_Run be opts cycles w f = (case be_EnsureBase be w of
      (Some e, w1) \<Rightarrow> Inl (Wrapped ''firewall base init'' e)
    | (None, w1) \<Rightarrow> Inr (fold (step be opts) cycles (loadGuard opts \<lparr>ag_fw = w1, ag_st = new_state, ag_file = f\<rparr>)))"

end
