(* ===== verification/AgentRun.thy ===== *)
theory AgentRun
  imports Agent
begin

text \<open>
  Lemmas on the agent's cycle: what the pull lets through, and the contract \<open>agent_inv\<close>: a property of
  the firewall that the base set-up, a pass with rules the pull lets through and a guard on locally
  listed ports all keep is kept by every run, whatever the hub answers.
\<close>

section \<open>What the pull lets through\<close>

definition confined :: "int list \<Rightarrow> rkey \<Rightarrow> bool" where
  "confined allowed = (\<lambda>(ip, port, pr, u, g). parse_ip ip \<noteq> None \<and> CanonicalIP ip = ip \<and> port_ok port pr \<and>
     ValidName u \<and> ValidName g \<and> (allowed = [] \<or> port \<in> set allowed))"

definition pulled :: "options \<Rightarrow> hub_rule list \<Rightarrow> hub_rule list" where
  "pulled opts rs = filterAllowed (sanitize rs) (op_allowed opts)"

lemma pulled_confined:
  "d \<in> set (pulled opts rs) \<Longrightarrow> confined (op_allowed opts) (rule_key (hub_to_rule d))"
  using CanonicalIP_fixed
  by (auto simp: pulled_def filterAllowed_def sanitize_def confined_def rule_key_def hub_to_rule_def well_formed_def
      port_ok_def split: if_splits)

lemma pulled_named: "named (map hub_to_rule (pulled opts rs))"
proof -
  have "CHR '':'' \<notin> set (r_user (hub_to_rule d))" if "d \<in> set (pulled opts rs)" for d
    using pulled_confined [OF that] by (simp add: confined_def rule_key_def ValidName_no_colon)
  then show ?thesis by (auto simp: named_def)
qed

lemma pulled_nothing: "\<exists>rs. [] = pulled opts rs"
  by (rule exI [of _ "[]"]) (simp add: pulled_def sanitize_def filterAllowed_def)

lemma splitAllowed_listed: "splitAllowed ports allowed = (xs, ys) \<Longrightarrow> \<forall>p \<in> set xs. p_port p \<in> set allowed"
  by (auto simp: splitAllowed_def)

section \<open>Runs\<close>

locale agent_inv =
  fixes be :: "'s backend" and opts :: options and inv :: "'s \<Rightarrow> bool"
  assumes base: "inv w \<Longrightarrow> be_EnsureBase be w = (e, w') \<Longrightarrow> inv w'"
    and reconcile: "inv w \<Longrightarrow> agent_Reconcile be (pulled opts rs) w = (added, removed, err, w') \<Longrightarrow> inv w'"
    and guard: "inv w \<Longrightarrow> be_SyncGuard be = Some f \<Longrightarrow> \<forall>p \<in> set ports. p_port p \<in> set (op_allowed opts) \<Longrightarrow>
      f ports w = (e, w') \<Longrightarrow> inv w'"
begin

lemma guard_snd: "inv w \<Longrightarrow> be_SyncGuard be = Some f \<Longrightarrow> \<forall>p \<in> set ports. p_port p \<in> set (op_allowed opts) \<Longrightarrow> inv (snd (f ports w))"
  using guard [of w f ports "fst (f ports w)" "snd (f ports w)"] by simp

lemma saveGuard_fw [simp]: "ag_fw (saveGuard opts cy ports a) = ag_fw a"
  by (simp add: saveGuard_def Let_def writeState_def)

lemma reapplyGuard_inv: "inv (ag_fw a) \<Longrightarrow> inv (ag_fw (reapplyGuard be opts a))"
  using guard_snd [of "ag_fw a"] by (auto simp: reapplyGuard_def Let_def splitAllowed_def split: option.splits)

lemma syncGuard_inv: "inv (ag_fw a) \<Longrightarrow> inv (ag_fw (agent_syncGuard be dr opts cy a))"
proof (cases "be_SyncGuard be")
  case (Some f)
  assume a: "inv (ag_fw a)"
  have g: "inv (ag_fw (case f ports w of (Some e, v) \<Rightarrow> b\<lparr>ag_fw := v\<rparr> | (None, v) \<Rightarrow> saveGuard opts cy ports (b\<lparr>ag_fw := v\<rparr>)))"
    if "inv w" "\<forall>p \<in> set ports. p_port p \<in> set (op_allowed opts)" for ports w b
    using guard_snd [OF that(1) Some that(2)] by (auto split: prod.splits option.splits)
  obtain xs ys where s: "splitAllowed (case dr_ports dr of None \<Rightarrow> [] | Some hub \<Rightarrow> hub) (op_allowed opts) = (xs, ys)" by fastforce
  show ?thesis
    using a g [of "ag_fw a" xs] g [of "ag_fw a" "[]"] splitAllowed_listed [OF s] s Some
    by (auto simp: agent_syncGuard_def Let_def split: option.splits)
qed (simp add: agent_syncGuard_def)

lemma step_inv: "inv (ag_fw a) \<Longrightarrow> inv (ag_fw (step be opts cy a))"
proof -
  assume a: "inv (ag_fw a)"
  obtain e w where b: "be_EnsureBase be (ag_fw a) = (e, w)" by fastforce
  have w: "inv w" using base [OF a b] .
  let ?a1 = "reapplyGuard be opts (a\<lparr>ag_fw := w\<rparr>)"
  have a1: "inv (ag_fw ?a1)" by (rule reapplyGuard_inv) (simp add: w)
  have r: "inv v" if "agent_Reconcile be rs (ag_fw ?a1) = (ad, re, er, v)" "\<exists>hub. rs = pulled opts hub" for rs ad re er v
    using reconcile [OF a1] that by blast
  show ?thesis
  proof (cases e)
    case (Some x)
    with b w show ?thesis by (simp add: step_def)
  next
    case None
    show ?thesis
    proof (cases "fetch opts (cy_hub cy)")
      case (Inl x)
      obtain ad re er v where v: "agent_Reconcile be [] (ag_fw ?a1) = (ad, re, er, v)" using prod_cases4 by blast
      have "inv v" by (rule r [OF v pulled_nothing])
      with None b Inl v a1 show ?thesis by (cases x) (simp_all add: step_def Let_def)
    next
      case (Inr dr)
      obtain ad re er v where v: "agent_Reconcile be (pulled opts (dr_rules dr)) (ag_fw ?a1) = (ad, re, er, v)" using prod_cases4 by blast
      have "inv v" by (rule r [OF v]) blast
      with None b Inr v show ?thesis by (simp add: step_def Let_def pulled_def syncGuard_inv)
    qed
  qed
qed

lemma steps_inv: "inv (ag_fw a) \<Longrightarrow> inv (ag_fw (fold (step be opts) cycles a))"
  by (induction cycles arbitrary: a) (simp_all add: step_inv)

lemma loadGuard_fw [simp]: "ag_fw (loadGuard opts a) = ag_fw a"
  by (auto simp: loadGuard_def split: state_file.splits option.splits)

lemma run_inv: "inv w \<Longrightarrow> agent_Run be opts cycles w f = Inr a \<Longrightarrow> inv (ag_fw a)"
  using base [of w] steps_inv by (auto simp: agent_Run_def split: prod.splits option.splits)

end

section \<open>The store of a keyed backend\<close>

text \<open>Keys the run started with, or that the pull lets through.\<close>

context keyed_store begin

lemma reconcile_keys:
  assumes "inv s" and "named ds" and "ReconcileAll be ds s = (added, removed, err, s')"
  shows "inv s' \<and> rule_key ` set (store s') \<subseteq> rule_key ` set (store s) \<union> rule_key ` set ds"
proof -
  from ReconcileAll_run [OF assms] obtain D A N where r: "inv s'"
    "A \<subseteq> missing ds (rule_key ` set ds \<inter> rule_key ` set (store s)) (host s)"
    "mset (store s') = mset (filter (\<lambda>r. r_handle r \<notin> D) (store s)) + N" "image_mset rule_key N = mset_set A" by blast
  have "finite A" using r(2) finite_missing finite_subset by blast
  then have "rule_key ` set_mset N = A" using r(4) by (metis finite_set_mset_mset_set set_image_mset)
  moreover have "set (store s') = set (filter (\<lambda>r. r_handle r \<notin> D) (store s)) \<union> set_mset N"
    using arg_cong [OF r(3), of set_mset] by simp
  ultimately show ?thesis using r(1,2) by (auto simp: missing_def)
qed

end

sublocale keyed_store \<subseteq> agent: agent_inv be opts
  "\<lambda>s. inv s \<and> rule_key ` set (store s) \<subseteq> K \<union> {k. confined (op_allowed opts) k}" for opts K
proof (unfold_locales, goal_cases)
  case (1 w e w')
  then show ?case using ensure [of w e w'] by simp
next
  case (2 w rs added removed err w')
  let ?ds = "map hub_to_rule (pulled opts rs)" and ?C = "{k. confined (op_allowed opts) k}"
  from 2 have "inv w' \<and> rule_key ` set (store w') \<subseteq> rule_key ` set (store w) \<union> rule_key ` set ?ds"
    unfolding agent_Reconcile_def by (intro reconcile_keys [OF _ pulled_named]) simp_all
  moreover have "rule_key ` set ?ds \<subseteq> ?C" using pulled_confined by auto
  ultimately show ?case using 2(1) by (meson Un_least Un_upper2 order_trans)
next
  case (3 w f ports e w')
  then show ?case using guard [of w f ports e w'] by simp
qed

context keyed_store begin

lemma run_confined:
  "inv w \<Longrightarrow> agent_Run be opts cycles w f = Inr a \<Longrightarrow> inv (ag_fw a) \<and>
    rule_key ` set (store (ag_fw a)) \<subseteq> rule_key ` set (store w) \<union> {k. confined (op_allowed opts) k}"
  by (rule agent.run_inv [where K = "rule_key ` set (store w)"]) simp_all

end

text \<open>Putting the guard back changes no managed rule.\<close>

lemma kept_none: "kept {} hv ms = []"
  by (induction ms arbitrary: hv) simp_all

context rule_store begin

lemma reapply_store:
  assumes "inv (ag_fw a)"
  shows "inv (ag_fw (reapplyGuard be opts a)) \<and> store (ag_fw (reapplyGuard be opts a)) = store (ag_fw a) \<and>
    ag_st (reapplyGuard be opts a) = ag_st a \<and> ag_file (reapplyGuard be opts a) = ag_file a"
proof -
  have "inv (snd (f ports (ag_fw a))) \<and> store (snd (f ports (ag_fw a))) = store (ag_fw a)" if "be_SyncGuard be = Some f" for f ports
    using guard [OF assms that, of ports "fst (f ports (ag_fw a))" "snd (f ports (ag_fw a))"] by simp
  then show ?thesis using assms by (auto simp: reapplyGuard_def Let_def split: option.splits)
qed

lemma step_errors:
  assumes "inv (ag_fw a)" and "step be opts cy a = a'"
  shows "(fst (be_EnsureBase be (ag_fw a)) \<noteq> None \<or> (\<exists>e. fetch opts (cy_hub cy) = Inl (FetchFailed e)) \<longrightarrow>
      inv (ag_fw a') \<and> store (ag_fw a') = store (ag_fw a) \<and> ag_st a' = ag_st a \<and> ag_file a' = ag_file a)
    \<and> (fst (be_EnsureBase be (ag_fw a)) = None \<and> fetch opts (cy_hub cy) = Inl Revoked \<longrightarrow>
      (\<exists>w added removed err v. inv w \<and> store w = store (ag_fw a) \<and> ReconcileAll be [] w = (added, removed, err, v) \<and>
        a' = a\<lparr>ag_fw := v, ag_st := (ag_st a)\<lparr>st_revoked := True\<rparr>\<rparr>))"
proof -
  obtain e w where b: "be_EnsureBase be (ag_fw a) = (e, w)" by fastforce
  note w = ensure [OF assms(1) b]
  let ?a1 = "reapplyGuard be opts (a\<lparr>ag_fw := w\<rparr>)"
  have a1: "inv (ag_fw ?a1)" "store (ag_fw ?a1) = store (ag_fw a)" "ag_st ?a1 = ag_st a" "ag_file ?a1 = ag_file a"
    using reapply_store [of "a\<lparr>ag_fw := w\<rparr>" opts] w by simp_all
  obtain ad re er v where v: "agent_Reconcile be [] (ag_fw ?a1) = (ad, re, er, v)" using prod_cases4 by blast
  then have r: "ReconcileAll be [] (ag_fw ?a1) = (ad, re, er, v)" by (simp add: agent_Reconcile_def)
  have "step be opts cy a = (if e = None then (case fetch opts (cy_hub cy) of
      Inl Revoked \<Rightarrow> a\<lparr>ag_fw := v, ag_st := (ag_st a)\<lparr>st_revoked := True\<rparr>\<rparr> | Inl (FetchFailed x) \<Rightarrow> ?a1
    | Inr dr \<Rightarrow> step be opts cy a) else a\<lparr>ag_fw := w\<rparr>)"
    using b v a1(3,4) by (auto simp: step_def Let_def split: option.splits sum.splits fetch_error.splits intro: agent.equality)
  then have s: "a' = (if e = None then (case fetch opts (cy_hub cy) of
      Inl Revoked \<Rightarrow> a\<lparr>ag_fw := v, ag_st := (ag_st a)\<lparr>st_revoked := True\<rparr>\<rparr> | Inl (FetchFailed x) \<Rightarrow> ?a1
    | Inr dr \<Rightarrow> a') else a\<lparr>ag_fw := w\<rparr>)" unfolding assms(2) .
  show ?thesis
  proof (rule conjI; rule impI)
    assume "fst (be_EnsureBase be (ag_fw a)) \<noteq> None \<or> (\<exists>e. fetch opts (cy_hub cy) = Inl (FetchFailed e))"
    then have "a' = ?a1 \<or> a' = a\<lparr>ag_fw := w\<rparr>" using s b by (auto split: if_splits)
    then show "inv (ag_fw a') \<and> store (ag_fw a') = store (ag_fw a) \<and> ag_st a' = ag_st a \<and> ag_file a' = ag_file a"
      using a1 w by auto
  next
    assume "fst (be_EnsureBase be (ag_fw a)) = None \<and> fetch opts (cy_hub cy) = Inl Revoked"
    then have "a' = a\<lparr>ag_fw := v, ag_st := (ag_st a)\<lparr>st_revoked := True\<rparr>\<rparr>" using s b by simp
    with a1 r show "\<exists>w added removed err v. inv w \<and> store w = store (ag_fw a) \<and> ReconcileAll be [] w = (added, removed, err, v) \<and>
        a' = a\<lparr>ag_fw := v, ag_st := (ag_st a)\<lparr>st_revoked := True\<rparr>\<rparr>" by blast
  qed
qed

end

context keyed_store begin

lemma reconcile_empty:
  assumes "inv s" and "ReconcileAll be [] s = (added, removed, err, s')"
  shows "set (store s') \<subseteq> set (store s) \<and> (err = None \<longrightarrow> store s' = [])"
proof -
  from ReconcileAll_run [OF assms(1) named_simps(1) assms(2)] obtain D A N where
    "A \<subseteq> missing [] {} (host s)" "mset (store s') = mset (filter (\<lambda>r. r_handle r \<notin> D) (store s)) + N"
    "image_mset rule_key N = mset_set A" "err = None \<longrightarrow> filter (\<lambda>r. r_handle r \<notin> D) (store s) = kept {} {} (store s)" by auto
  then have m: "mset (store s') = mset (filter (\<lambda>r. r_handle r \<notin> D) (store s))"
    "err = None \<longrightarrow> filter (\<lambda>r. r_handle r \<notin> D) (store s) = []"
    by (auto simp: missing_simps kept_none)
  have "set (store s') \<subseteq> set (store s)" using mset_eq_setD [OF m(1)] by auto
  moreover have "store s' = []" if "err = None" using m(1) m(2) [rule_format, OF that] by (metis mset.simps(1) mset_zero_iff)
  ultimately show ?thesis by blast
qed

end

section \<open>The chain of a node\<close>

text \<open>The chains an agent builds: allow rules, and guard rows for ports of \<open>A\<close> only.\<close>

definition guards_in :: "nft_config \<Rightarrow> int set \<Rightarrow> row \<Rightarrow> bool" where
  "guards_in cfg A r \<longleftrightarrow> (\<exists>h p. (p = PP 0 [] \<or> guardable p \<and> p_port p \<in> A) \<and> r = (h, guardComment cfg, guardRule p))"

lemma guards_in_layout:
  "\<forall>p \<in> set ports. p_port p \<in> A \<Longrightarrow> p \<in> set (guardLayout ports) \<Longrightarrow> guards_in cfg A (h, guardComment cfg, guardRule p)"
  unfolding guards_in_def using set_guardLayout [of ports] by (auto split: if_splits)

lemma add_missing_no_guard:
  "add_missing (be\<lparr>be_SyncGuard := g\<rparr>) m ds hv cov ad e s = add_missing be m ds hv cov ad e s"
proof (induction ds arbitrary: hv cov ad e s)
  case (Cons d ds)
  show ?case unfolding add_missing.simps no_guard Cons.IH ..
qed simp

lemma delete_extra_no_guard: "delete_extra (be\<lparr>be_SyncGuard := g\<rparr>) hs re e s = delete_extra be hs re e s"
proof (induction hs arbitrary: re e s)
  case (Cons h hs)
  show ?case unfolding delete_extra.simps no_guard Cons.IH ..
qed simp

lemma ReconcileAll_no_guard: "ReconcileAll (be\<lparr>be_SyncGuard := g\<rparr>) ds s = ReconcileAll be ds s"
  unfolding ReconcileAll_def merges_same_match_def no_guard add_missing_no_guard delete_extra_no_guard ..

sublocale nft_kernel \<subseteq> closing: agent_inv "nft_backend n" opts
  "\<lambda>k. ok k \<and> chain_of cfg (guards_in cfg (set (op_allowed opts))) (rows k)" for opts
proof (unfold_locales, goal_cases)
  case (1 w e w')
  then show ?case using bare.ensure [of w "guards_in cfg (set (op_allowed opts))" e w'] by simp
next
  case (2 w rs added removed err w')
  from 2(2) have "ReconcileAll ((nft_backend n)\<lparr>be_SyncGuard := None\<rparr>) (map hub_to_rule (pulled opts rs)) w = (added, removed, err, w')"
    unfolding agent_Reconcile_def ReconcileAll_no_guard .
  from bare.reconcile_keys [OF 2(1) pulled_named this] show ?case by blast
next
  case (3 w f ports e w')
  then have "nft_SyncGuard n ports w = (e, w')" by simp
  with 3 show ?case
    using kernel.guard [of w f ports e w']
      SyncGuard_chain_of [of w "guards_in cfg (set (op_allowed opts))" ports e w', OF _ _ _ guards_in_layout] by simp
qed

text \<open>A packet to a port no guard row names is never dropped.\<close>

lemma not_dropped: "\<forall>r \<in> set rs. rule_verdict pk (snd (snd r)) \<noteq> Some False \<Longrightarrow> chain_accepts pk rs"
  by (induction pk rs rule: chain_accepts.induct) (auto split: option.splits)

lemma chain_of_accepts:
  assumes "chain_of cfg (guards_in cfg A) rs" and "pk_dport pk \<notin> A"
  shows "chain_accepts pk rs"
proof (rule not_dropped, rule ballI)
  fix r assume "r \<in> set rs"
  then consider "allow_row cfg r" | "guards_in cfg A r" using assms(1) by (auto simp: chain_of_def)
  then show "rule_verdict pk (snd (snd r)) \<noteq> Some False"
  proof cases
    case 1
    then show ?thesis by (auto simp: allow_row_def verdict_allow split: if_splits)
  next
    case 2
    then obtain h p where p: "p = PP 0 [] \<or> guardable p \<and> p_port p \<in> A" "r = (h, guardComment cfg, guardRule p)"
      by (auto simp: guards_in_def)
    then have "guard_entry p" by (auto simp: guard_entry_def)
    from verdict_guard [OF this, of pk] p assms(2) show ?thesis by auto
  qed
qed

context nft_kernel begin

lemma run_closing:
  "ok w \<Longrightarrow> chain_of cfg (guards_in cfg (set (op_allowed opts))) (rows w) \<Longrightarrow>
    agent_Run (nft_backend n) opts cycles w f = Inr a \<Longrightarrow> pk_dport pk \<notin> set (op_allowed opts) \<Longrightarrow>
    chain_accepts pk (rows (ag_fw a))"
  using closing.run_inv [of w opts cycles f a] chain_of_accepts by blast

end

end
