(* ===== verification/AgentLaws.thy ===== *)
theory AgentLaws
  imports AgentRun
begin

text \<open>
  The agent of an edge node: whatever the hub answers it opens only what the node admits and closes only
  what the node lists, a hub that cannot be asked changes nothing, a hub that rejects the token empties
  the allowlist, and the guard is back after a restart.
\<close>

section \<open>A hostile hub\<close>

definition node_opts :: options where
  "node_opts = \<lparr>op_hub = ''https://hub'', op_token = ''t'', op_version = [], op_backend = [], op_allowed = [80],
     op_guard = True, op_file = ''guard.json''\<rparr>"

definition answer_of :: "json list \<Rightarrow> json list \<Rightarrow> cycle" where
  "answer_of rules ports = \<lparr>cy_hub = (\<lambda>_. Reply 200 (Some (JObj [(''ok'', JBool True), (''rules'', JArr rules), (''ports'', JArr ports)]))),
     cy_write = True\<rparr>"

definition rule_answer :: "string \<Rightarrow> int \<Rightarrow> json" where
  "rule_answer ip port = JObj [(''ip'', JStr ip), (''port'', JInt port), (''proto'', JStr ''tcp''), (''user'', JStr ''ann''), (''group'', JStr ''web'')]"

definition port_answer :: "int \<Rightarrow> json" where
  "port_answer port = JObj [(''port'', JInt port), (''proto'', JStr ''tcp'')]"

definition answered :: "string \<Rightarrow> int \<Rightarrow> hub_rule" where
  "answered ip port = \<lparr>h_ip = ip, h_port = port, h_proto = ''tcp'', h_user = ''ann'', h_group = ''web''\<rparr>"

text \<open>Evaluation of such a cycle.\<close>

lemma node_opts_simps [simp]: "op_allowed node_opts = [80]" "op_guard node_opts" "op_file node_opts = ''guard.json''"
  by (simp_all add: node_opts_def)

lemma answer_writes [simp]: "cy_write (answer_of rs ps)"
  by (simp add: answer_of_def)

lemma trim_space_printable: "list_all (\<lambda>c. 32 < byte c \<and> byte c < 128) s \<Longrightarrow> trim_space s = s"
  by (rule trim_space_id) (simp_all add: space_codes_def)

lemma all_some_map: "\<forall>x \<in> set xs. f (g x) = Some (h x) \<Longrightarrow> all_some (map f (map g xs)) = Some (map h xs)"
  by (induction xs) simp_all

lemma decode_rule: "- (2 ^ 63) \<le> port \<Longrightarrow> port < 2 ^ 63 \<Longrightarrow> hub_rule_of (rule_answer ip port) = Some (answered ip port)"
  by (simp add: hub_rule_of_def rule_answer_def answered_def field_def)

lemma decode_port: "- (2 ^ 63) \<le> port \<Longrightarrow> port < 2 ^ 63 \<Longrightarrow> port_of ''port'' ''proto'' (port_answer port) = Some (PP port ''tcp'')"
  by (simp add: port_of_def port_answer_def field_def)

lemma fetch_answer:
  assumes "\<forall>(ip, p) \<in> set rs. - (2 ^ 63) \<le> p \<and> p < 2 ^ 63" and "\<forall>p \<in> set ps. - (2 ^ 63) \<le> p \<and> p < 2 ^ 63"
  shows "fetch opts (cy_hub (answer_of (map (\<lambda>(ip, p). rule_answer ip p) rs) (map port_answer ps))) =
    Inr \<lparr>dr_ok = True, dr_node = [], dr_rules = map (\<lambda>(ip, p). answered ip p) rs, dr_ports = Some (map (\<lambda>p. PP p ''tcp'') ps)\<rparr>"
proof -
  have "all_some (map hub_rule_of (map (\<lambda>(ip, p). rule_answer ip p) rs)) = Some (map (\<lambda>(ip, p). answered ip p) rs)"
    by (rule all_some_map) (use assms(1) decode_rule in auto)
  moreover have "all_some (map (port_of ''port'' ''proto'') (map port_answer ps)) = Some (map (\<lambda>p. PP p ''tcp'') ps)"
    by (rule all_some_map) (use assms(2) decode_port in auto)
  ultimately show ?thesis
    by (simp add: fetch_def answer_of_def desiredResp_of_def field_def ports_of_def del: map_map)
qed

lemma answer_text:
  "CanonicalIP ''10.0.0.0/8'' = []" "CanonicalIP ''10.0.0.1'' = ''10.0.0.1''" "ValidName ''ann''" "ValidName ''web''"
  by (simp_all add: CanonicalIP_def trim_space_printable text_eval ip_string_def dec_str_def digits_of.simps digit_char_def char_of_def bit_0)

text \<open>C9. A hostile hub opens nothing the node does not admit.  Whatever the hub answers in any number of
  cycles, and whatever calls of the backend fail, every managed rule of the node was there before the
  agent started or admits one canonical address, at a valid port that the node's own list admits, for a
  well-formed user and group.\<close>

theorem agent_confined:
  assumes "keyed_store be prefix store host I" and "I w" and "agent_Run be opts cycles w f = Inr a"
  shows "I (ag_fw a) \<and>
    rule_key ` set (store (ag_fw a)) \<subseteq> rule_key ` set (store w) \<union> {k. confined (op_allowed opts) k}"
  by (rule keyed_store.run_confined [OF assms])

theorem agent_confined_witness:
  "\<exists>a. agent_Run mock_backend node_opts [answer_of [rule_answer ''10.0.0.0/8'' 80, rule_answer ''10.0.0.1'' 22, rule_answer ''10.0.0.1'' 80] []]
      (NewMockBackend ''ok'') NoFile = Inr a \<and>
    rule_key ` set (mk_rules (ag_fw a)) \<subseteq> {k. confined [80] k} \<and> mk_rules (ag_fw a) \<noteq> []"
proof -
  let ?c = "answer_of [rule_answer ''10.0.0.0/8'' 80, rule_answer ''10.0.0.1'' 22, rule_answer ''10.0.0.1'' 80] []"
  let ?hub = "[answered ''10.0.0.0/8'' 80, answered ''10.0.0.1'' 22, answered ''10.0.0.1'' 80]"
  have f: "fetch node_opts (cy_hub ?c) = Inr \<lparr>dr_ok = True, dr_node = [], dr_rules = ?hub, dr_ports = Some []\<rparr>"
    using fetch_answer [of "[(''10.0.0.0/8'', 80), (''10.0.0.1'', 22), (''10.0.0.1'', 80)]" "[]" node_opts] by simp
  have p: "filterAllowed (sanitize ?hub) [80] = [answered ''10.0.0.1'' 80]"
    by (simp add: sanitize_def filterAllowed_def well_formed_def answered_def answer_text)
  obtain a where a: "agent_Run mock_backend node_opts [?c] (NewMockBackend ''ok'') NoFile = Inr a"
    by (simp add: agent_Run_def mock_defs)
  then have "mk_rules (ag_fw a) \<noteq> []"
    by (auto simp: agent_Run_def step_def f p loadGuard_def reapplyGuard_def new_state_def agent_syncGuard_def
        saveGuard_def writeState_def splitAllowed_def
        agent_Reconcile_def ReconcileAll_def merges_same_match_def hub_to_rule_def NewMockBackend_def mock_defs Let_def)
  with agent_confined [OF mock.keyed_store_axioms mock_inv_new a] a show ?thesis
    by (simp add: NewMockBackend_def)
qed

text \<open>C26. A hostile hub closes nothing the node does not list.  On the nftables backend, whatever the hub
  answers in any number of cycles, the chain drops no packet to a port outside the node's own list.\<close>

theorem agent_never_closes:
  assumes "nft_kernel n rows ok" and "ok w" and "chain_of (nft_cfg n) (guards_in (nft_cfg n) (set (op_allowed opts))) (rows w)"
    and "agent_Run (nft_backend n) opts cycles w f = Inr a" and "pk_dport pk \<notin> set (op_allowed opts)"
  shows "chain_accepts pk (rows (ag_fw a))"
  by (rule nft_kernel.run_closing [OF assms])

theorem agent_never_closes_witness:
  "\<exists>a. agent_Run (nft_backend (kern_nft demo_cfg)) node_opts [answer_of [] [port_answer 22, port_answer 80]] demo_kern NoFile = Inr a \<and>
    chain_accepts \<lparr>pk_in = ''eth0'', pk_src = ''10.0.0.9'', pk_proto = ''tcp'', pk_dport = 22, pk_syn = True, pk_ack = False\<rparr> (k_rows (ag_fw a))"
proof -
  let ?n = "kern_nft demo_cfg"
  have "nft_EnsureBase ?n demo_kern = (None, demo_kern)"
    unfolding nft_EnsureBase_def nft_cfg_kern
    by (rule kern_runs) (simp_all add: kern_bases demo_kern_def)
  then obtain a where a: "agent_Run (nft_backend ?n) node_opts [answer_of [] [port_answer 22, port_answer 80]] demo_kern NoFile = Inr a"
    by (simp add: agent_Run_def)
  have "chain_of (nft_cfg ?n) (guards_in (nft_cfg ?n) (set (op_allowed node_opts))) (k_rows demo_kern)"
    by (simp add: chain_of_def demo_kern_def)
  from agent_never_closes [OF ref.nft_kernel_axioms demo_kern_ok this a] a show ?thesis by simp
qed

section \<open>A hub that cannot be asked, and one that rejects the token\<close>


definition down :: cycle where
  "down = \<lparr>cy_hub = (\<lambda>_. NoReply ''connection refused''), cy_write = True\<rparr>"

definition rejecting :: cycle where
  "rejecting = \<lparr>cy_hub = (\<lambda>_. Reply 401 None), cy_write = True\<rparr>"

lemma fetch_down [simp]: "fetch opts (cy_hub down) = Inl (FetchFailed ''connection refused'')" "fetch opts (cy_hub rejecting) = Inl Revoked"
  by (simp_all add: fetch_def down_def rejecting_def)

definition demo_agent :: "mock agent" where
  "demo_agent = \<lparr>ag_fw = demo_mock, ag_st = new_state, ag_file = NoFile\<rparr>"


section \<open>The guard across a restart\<close>

text \<open>Ports decoded from a document are 64-bit, and the state file gives back what was written to it.\<close>

definition port64 :: "portproto \<Rightarrow> bool" where
  "port64 p \<longleftrightarrow> - (2 ^ 63) \<le> p_port p \<and> p_port p < 2 ^ 63"

lemma int_field_range: "int_field j = Some n \<Longrightarrow> - (2 ^ 63) \<le> n \<and> n < 2 ^ 63"
  by (cases j rule: int_field.cases) (auto split: if_splits)

lemma all_some_Some: "all_some xs = Some ys \<Longrightarrow> y \<in> set ys \<Longrightarrow> Some y \<in> set xs"
  by (induction xs arbitrary: ys) (auto split: option.splits)

lemma ports_of_range:
  assumes "ports_of pk prk j = Some ps" and "p \<in> set ps"
  shows "port64 p"
proof -
  obtain x where "port_of pk prk x = Some p"
    using assms by (auto simp: ports_of_def dest!: all_some_Some split: Option.bind_splits)
  then show ?thesis
    by (auto simp: port_of_def port64_def dest!: int_field_range split: option.splits prod.splits)
qed

lemma fetch_range:
  assumes "fetch opts hub = Inr dr" and "dr_ports dr = Some ps" and "p \<in> set ps"
  shows "port64 p"
proof -
  obtain j where "desiredResp_of j = Some dr"
    using assms(1) by (auto simp: fetch_def split: http_result.splits if_splits option.splits Option.bind_splits)
  then obtain k where "ports_of ''port'' ''proto'' k = Some ps"
    using assms(2) by (auto simp: desiredResp_of_def split: option.splits prod.splits if_splits)
  with assms(3) ports_of_range show ?thesis by blast
qed

lemma ports_roundtrip: "\<forall>p \<in> set ps. port64 p \<Longrightarrow> ports_of ''Port'' ''Proto'' (ports_json ps) = Some ps"
proof -
  assume "\<forall>p \<in> set ps. port64 p"
  then have "all_some (map (port_of ''Port'' ''Proto'') (map (\<lambda>p. JObj [(''Port'', JInt (p_port p)), (''Proto'', JStr (p_proto p))]) ps)) =
      Some (map (\<lambda>p. p) ps)"
    by (intro all_some_map) (auto simp: port_of_def field_def port64_def)
  then show ?thesis by (simp add: ports_of_def ports_json_def)
qed

text \<open>What the agent believes to be in its state file is there, as long as nothing else writes it.\<close>

definition file_ok :: "'s agent \<Rightarrow> bool" where
  "file_ok a \<longleftrightarrow> (st_saved (ag_st a) \<longrightarrow> st_have (ag_st a) \<and>
     (\<exists>j. ag_file a = Saved j \<and> ports_of ''Port'' ''Proto'' j = Some (st_ports (ag_st a))))"

lemma samePorts_eq [simp]: "samePorts a b \<longleftrightarrow> a = b"
  by (auto simp: samePorts_def list_all_iff intro: nth_equalityI)

lemma file_ok_save: "file_ok a \<Longrightarrow> \<forall>p \<in> set ports. port64 p \<Longrightarrow> file_ok (saveGuard opts cy ports a)"
  using ports_roundtrip [of ports] by (auto simp: saveGuard_def writeState_def file_ok_def Let_def)

lemma file_ok_fw [simp]: "file_ok (a\<lparr>ag_fw := w\<rparr>) = file_ok a" "file_ok (a\<lparr>ag_st := (ag_st a)\<lparr>st_warned := b\<rparr>\<rparr>) = file_ok a"
    "file_ok (a\<lparr>ag_st := (ag_st a)\<lparr>st_unguarded := m\<rparr>\<rparr>) = file_ok a" "file_ok (a\<lparr>ag_st := (ag_st a)\<lparr>st_revoked := b\<rparr>\<rparr>) = file_ok a"
    "file_ok (a\<lparr>ag_fw := w, ag_st := (ag_st a)\<lparr>st_revoked := b\<rparr>\<rparr>) = file_ok a"
  by (simp_all add: file_ok_def)

lemma file_ok_reapply [simp]: "file_ok (reapplyGuard be opts a) = file_ok a"
  by (simp add: reapplyGuard_def Let_def split: option.split)

lemma file_ok_load: "file_ok (loadGuard opts \<lparr>ag_fw = w, ag_st = new_state, ag_file = f\<rparr>)"
  by (auto simp: loadGuard_def file_ok_def new_state_def split: state_file.split option.split)

lemma file_ok_sync:
  assumes "file_ok a" and "\<forall>ps. dr_ports dr = Some ps \<longrightarrow> (\<forall>p \<in> set ps. port64 p)"
  shows "file_ok (agent_syncGuard be dr opts cy a)"
proof (cases "be_SyncGuard be")
  case (Some f)
  have "\<forall>p \<in> set xs. port64 p" if "dr_ports dr = Some ps" "splitAllowed ps al = (xs, ys)" for ps al xs ys
    using assms(2) that by (auto simp: splitAllowed_def)
  with assms(1) Some show ?thesis
    by (auto simp: agent_syncGuard_def Let_def split: option.splits prod.splits intro!: file_ok_save)
qed (use assms in \<open>simp add: agent_syncGuard_def\<close>)

lemma file_ok_step: "file_ok a \<Longrightarrow> file_ok (step be opts cy a)"
proof -
  assume a: "file_ok a"
  have "file_ok (agent_syncGuard be dr opts cy b)" if "fetch opts (cy_hub cy) = Inr dr" "file_ok b" for dr b
    using file_ok_sync [OF that(2)] fetch_range [OF that(1)] by blast
  with a show ?thesis
    by (auto simp: step_def Let_def split: prod.splits option.splits sum.splits fetch_error.splits)
qed

lemma file_ok_run: "agent_Run be opts cycles w f = Inr a \<Longrightarrow> file_ok a"
proof -
  have "file_ok b \<Longrightarrow> file_ok (fold (step be opts) cycles b)" for b
    by (induction cycles arbitrary: b) (simp_all add: file_ok_step)
  then show "agent_Run be opts cycles w f = Inr a \<Longrightarrow> file_ok a"
    by (auto simp: agent_Run_def file_ok_load split: prod.splits option.splits)
qed

lemma restart_loads:
  assumes "agent_Run be opts cycles w f = Inr a" and "st_saved (ag_st a)" and "op_file opts \<noteq> []"
  shows "st_ports (ag_st (loadGuard opts \<lparr>ag_fw = v, ag_st = new_state, ag_file = ag_file a\<rparr>)) = st_ports (ag_st a)"
    "st_have (ag_st (loadGuard opts \<lparr>ag_fw = v, ag_st = new_state, ag_file = ag_file a\<rparr>))"
  using file_ok_run [OF assms(1)] assms(2,3) by (auto simp: file_ok_def loadGuard_def)

lemma load_keeps [simp]: "ag_fw (loadGuard opts a) = ag_fw a" "ag_file (loadGuard opts a) = ag_file a"
  by (simp_all add: loadGuard_def split: state_file.split option.split)

text \<open>C28. The guard is back after a restart.  If the state file of a run holds the guard, an agent started on
  it - on whatever the reboot left of the chain, and while the hub cannot be asked - puts that guard
  back in its first cycle: a new connection to a guarded port passes only on loopback or by an allow
  rule, for the ports of the guard that the node still lists.\<close>

theorem guard_survives_restart:
  assumes "nft_kernel n rows ok" and "agent_Run (nft_backend n) opts cycles w f = Inr a" and "st_saved (ag_st a)"
    and "op_file opts \<noteq> []" and "op_guard opts" and "fetch opts (cy_hub cy) = Inl (FetchFailed e)"
    and "ok k0" and "chain_ok (nft_cfg n) (rows k0)" and "nft_EnsureBase n k0 = (None, k1)" and "nft_EnsureBase n k1 = (None, k2)"
    and "nft_SyncGuard n (fst (splitAllowed (st_ports (ag_st a)) (op_allowed opts))) k2 = (None, k3)"
  shows "\<exists>a'. agent_Run (nft_backend n) opts [cy] k0 (ag_file a) = Inr a' \<and> st_ports (ag_st a') = st_ports (ag_st a) \<and>
    (\<forall>pk. chain_accepts pk (rows (ag_fw a')) \<longleftrightarrow> pk_in pk = ''lo'' \<or>
      (pk_src pk, pk_dport pk, pk_proto pk) \<in> rule_match ` set (nft_store (nft_cfg n) (rows k0)) \<or>
      \<not> (PP (pk_dport pk) (pk_proto pk) \<in> {p \<in> set (st_ports (ag_st a)). p_port p \<in> set (op_allowed opts) \<and> guardable p} \<and>
         new_connection pk))"
proof -
  let ?a0 = "loadGuard opts \<lparr>ag_fw = k1, ag_st = new_state, ag_file = ag_file a\<rparr>"
  let ?ps = "fst (splitAllowed (st_ports (ag_st a)) (op_allowed opts))" and ?st = "\<lambda>k. nft_store (nft_cfg n) (rows k)"
  let ?a' = "?a0\<lparr>ag_fw := k3\<rparr>"
  note l = restart_loads [OF assms(2-4), of k1]
  have "step (nft_backend n) opts cy ?a0 = ?a'"
    using assms(5,6,10,11) l by (simp add: step_def reapplyGuard_def Let_def)
  then have r: "agent_Run (nft_backend n) opts [cy] k0 (ag_file a) = Inr ?a'" using assms(9) by (simp add: agent_Run_def)
  have k: "ok k2 \<and> chain_ok (nft_cfg n) (rows k2) \<and> ?st k2 = ?st k0"
    using rule_store.ensure [OF keyed_store.axioms(1) [OF nft_kernel.is_chain [OF assms(1)]], of k0 None k1]
      rule_store.ensure [OF keyed_store.axioms(1) [OF nft_kernel.is_chain [OF assms(1)]], of k1 None k2] assms(7-10) by simp
  have "{p \<in> set ?ps. guardable p} = {p \<in> set (st_ports (ag_st a)). p_port p \<in> set (op_allowed opts) \<and> guardable p}"
    by (auto simp: splitAllowed_def)
  with nft_kernel.SyncGuard_decides [OF assms(1) _ _ assms(11)] k r l(1) show ?thesis by (intro exI [of _ ?a']) simp
qed

text \<open>A first run on an empty chain, which guards port 80 and saves it.\<close>

lemma demo_kern_base: "nft_EnsureBase (kern_nft demo_cfg) demo_kern = (None, demo_kern)"
  unfolding nft_EnsureBase_def nft_cfg_kern by (rule kern_runs) (simp_all add: kern_bases demo_kern_def)

lemma demo_kern_guard: "\<exists>k. nft_SyncGuard (kern_nft demo_cfg) [PP 80 ''tcp''] demo_kern = (None, k)"
proof -
  have "guardLayout [PP 80 ''tcp''] = [PP 0 [], PP 80 ''tcp'']" by (simp add: guardLayout_def guardable_def)
  then show ?thesis
    using kern_guards [OF demo_kern_ok, of demo_cfg "[PP 80 ''tcp'']"] by (auto simp: demo_kern_def)
qed

lemma first_run:
  "\<exists>a. agent_Run (nft_backend (kern_nft demo_cfg)) node_opts [answer_of [] [port_answer 80]] demo_kern NoFile = Inr a \<and>
    st_saved (ag_st a) \<and> st_ports (ag_st a) = [PP 80 ''tcp'']"
proof -
  let ?n = "kern_nft demo_cfg"
  obtain k where g: "nft_SyncGuard ?n [PP 80 ''tcp''] demo_kern = (None, k)" using demo_kern_guard by blast
  have f: "fetch node_opts (cy_hub (answer_of [] [port_answer 80])) = Inr \<lparr>dr_ok = True, dr_node = [], dr_rules = [], dr_ports = Some [PP 80 ''tcp'']\<rparr>"
    using fetch_answer [of "[]" "[80]" node_opts] by simp
  have "listChain ?n demo_kern = (Inr [], demo_kern)"
    using kern_lists [OF demo_kern_ok, of demo_cfg] by (simp add: demo_kern_def)
  then have r: "agent_Reconcile (nft_backend ?n) [] demo_kern = (0, 0, None, demo_kern)"
    by (simp add: agent_Reconcile_def ReconcileAll_def nft_ListManaged_def listFiltered_def)
  show ?thesis
    by (simp add: agent_Run_def demo_kern_base loadGuard_def step_def reapplyGuard_def new_state_def f sanitize_def filterAllowed_def r
        agent_syncGuard_def splitAllowed_def g saveGuard_def writeState_def)
qed

theorem guard_survives_restart_witness:
  "\<exists>a a'. agent_Run (nft_backend (kern_nft demo_cfg)) node_opts [answer_of [] [port_answer 80]] demo_kern NoFile = Inr a \<and>
    agent_Run (nft_backend (kern_nft demo_cfg)) node_opts [down] demo_kern (ag_file a) = Inr a' \<and>
    \<not> chain_accepts \<lparr>pk_in = ''eth0'', pk_src = ''10.0.0.9'', pk_proto = ''tcp'', pk_dport = 80, pk_syn = True, pk_ack = False\<rparr> (k_rows (ag_fw a'))"
proof -
  let ?n = "kern_nft demo_cfg"
  obtain a where a: "agent_Run (nft_backend ?n) node_opts [answer_of [] [port_answer 80]] demo_kern NoFile = Inr a"
    "st_saved (ag_st a)" "st_ports (ag_st a) = [PP 80 ''tcp'']" using first_run by blast
  obtain k where g: "nft_SyncGuard ?n [PP 80 ''tcp''] demo_kern = (None, k)" using demo_kern_guard by blast
  have c: "chain_ok (nft_cfg ?n) (k_rows demo_kern)" by (simp add: chain_ok_def' demo_kern_def)
  have s: "fst (splitAllowed (st_ports (ag_st a)) (op_allowed node_opts)) = [PP 80 ''tcp'']" by (simp add: a(3) splitAllowed_def)
  have o: "op_file node_opts \<noteq> []" "op_guard node_opts" by simp_all
  have "k_rows demo_kern = []" by (simp add: demo_kern_def)
  with guard_survives_restart [OF ref.nft_kernel_axioms a(1,2) o fetch_down(1) demo_kern_ok c demo_kern_base demo_kern_base] s g a
  show ?thesis by (auto simp: nft_store_def guardable_def new_connection_def)
qed

end
