(* ===== verification/FleetLaws.thy ===== *)
theory FleetLaws
  imports AgentLaws CodeUse
begin

text \<open>
  Hub and agent together.  The agent's request is a request of the hub's server, the hub's answer is what
  the agent decodes; one cycle without errors makes the node's firewall the allowlist that the hub's
  database defines for the node, as far as the node's own list of ports lets it.
\<close>

section \<open>The link\<close>

definition node_path :: "string list" where
  "node_path = [''api'', ''v1'', ''node'', ''desired-state'']"

text \<open>The request the hub sees, coming from where \<open>rq0\<close> comes from.\<close>

definition seen_request :: "request \<Rightarrow> http_req \<Rightarrow> request" where
  "seen_request rq0 hq = rq0\<lparr>rq_auth := hq_auth hq, rq_version := (case hq_version hq of None \<Rightarrow> [] | Some v \<Rightarrow> v),
     rq_backend := (case hq_backend hq of None \<Rightarrow> [] | Some b \<Rightarrow> b)\<rparr>"

definition hub_link :: "options \<Rightarrow> 'h env \<Rightarrow> request \<Rightarrow> 'h srv \<Rightarrow> http_req \<Rightarrow> http_result" where
  "hub_link opts env rq0 s hq = (if hq_url hq = desired_url (op_hub opts)
     then (case serve env ''GET'' node_path (seen_request rq0 hq) s of (r, s') \<Rightarrow> Reply (rs_status r) (Some (rs_body r)))
     else NoReply ''no such host'')"

section \<open>What the hub serves\<close>

definition node_ports :: "int \<Rightarrow> db \<Rightarrow> group_port list" where
  "node_ports nid d = sort_key (\<lambda>p. (gp_port p, gp_proto p)) (concat (map (\<lambda>t. map (\<lambda>g.
       \<lparr>gp_group = g_name g, gp_port = t_port t, gp_proto = t_proto t\<rparr>)
     (filter (\<lambda>g. g_id g = t_group t) (grps d))) (filter (\<lambda>t. t_node t = nid) (targets d))))"

definition reported :: "'s env \<Rightarrow> request \<Rightarrow> node \<Rightarrow> db \<Rightarrow> db" where
  "reported env rq nd d = fst (snd (UpdateNodeReport (e_now env) (n_id nd) (rq_version rq) (rq_backend rq) (d, [])))"

lemma authNode_nofault:
  assumes "sv_db s = (d, [])" and "node_of rq d = Some nd"
  shows "authNode env rq s = (Inr nd, s)"
proof -
  have s: "s\<lparr>sv_db := (d, [])\<rparr> = s" using assms(1) by (cases s) simp
  show ?thesis
    using assms s by (simp add: authNode_eq node_of_def hb_def hguard_def dbtry_def dbcall_def GetNodeByTokenHash_def found_def hret_def
        Let_def split: if_splits)
qed

lemma node_served:
  assumes "sv_db s = (d, [])" and "\<not> throttled env rq d" and "node_of rq d = Some nd"
  shows "serve env ''GET'' node_path rq s = (writeJSON 200 [(''ok'', JBool True), (''node'', JStr (n_name nd)), (''prefix'', JStr (c_prefix (e_cfg env))),
     (''rules'', JArr (map (desired_json (e_cfg env)) (desired_node (n_id nd) d))), (''ports'', JArr (map port_json (node_ports (n_id nd) d)))],
     s\<lparr>sv_db := (reported env rq nd d, [])\<rparr>)"
proof -
  have l: "lookup_route route_table ''GET'' node_path = Some (RNodeState, [])"
    by (simp add: route_table_def node_path_def method_ok_def)
  let ?rq = "rq\<lparr>rq_path := path_value []\<rparr>"
  have a: "authNode env ?rq s = (Inr nd, s)" using assms(3) by (intro authNode_nofault [OF assms(1)]) simp
  show ?thesis
    unfolding serve_handler [OF assms(1,2) l]
    by (simp add: handler_def nodeDesiredState_def run_def hb_def a dbdo_def dbtry_def dbcall_def hret_def assms(1)
        UpdateNodeReport_def DesiredStateForNode_def NodeTargetPorts_def reported_def desired_node_def node_ports_def joined_def)
qed

section \<open>What the agent decodes\<close>

definition hub_rule_from :: "desired_rule \<Rightarrow> hub_rule" where
  "hub_rule_from r = \<lparr>h_ip = d_ip r, h_port = d_port r, h_proto = d_proto r, h_user = d_user r, h_group = d_group r\<rparr>"

lemma port_ok_range: "port_ok p pr \<Longrightarrow> - (2 ^ 63) \<le> p \<and> p < 2 ^ 63"
  by (simp add: port_ok_def)

lemma desired_ports_ok: "targets_ok d \<Longrightarrow> r \<in> set (desired_node nid d) \<Longrightarrow> port_ok (d_port r) (d_proto r)"
  by (auto simp: in_desired_node targets_ok_def grants_def)

lemma in_node_ports: "p \<in> set (node_ports nid d) \<longleftrightarrow>
    (\<exists>t \<in> set (targets d). \<exists>g \<in> set (grps d). t_node t = nid \<and> g_id g = t_group t \<and>
      p = \<lparr>gp_group = g_name g, gp_port = t_port t, gp_proto = t_proto t\<rparr>)"
  by (auto simp: node_ports_def)

lemma node_ports_ok: "targets_ok d \<Longrightarrow> p \<in> set (node_ports nid d) \<Longrightarrow> port_ok (gp_port p) (gp_proto p)"
  by (auto simp: in_node_ports targets_ok_def)

text \<open>The answer of \<open>nodeDesiredState\<close>, decoded by the agent, is the desired state the hub computed.\<close>

lemma fetch_served:
  assumes "sv_db s = (d, [])" and "targets_ok d" and "\<not> throttled env (seen_request rq0 (node_request opts)) d"
    and "node_of (seen_request rq0 (node_request opts)) d = Some nd"
  shows "fetch opts (hub_link opts env rq0 s) = Inr \<lparr>dr_ok = True, dr_node = n_name nd,
    dr_rules = map hub_rule_from (desired_node (n_id nd) d),
    dr_ports = Some (map (\<lambda>p. PP (gp_port p) (gp_proto p)) (node_ports (n_id nd) d))\<rparr>"
proof -
  have "all_some (map hub_rule_of (map (desired_json (e_cfg env)) (desired_node (n_id nd) d))) =
      Some (map hub_rule_from (desired_node (n_id nd) d))"
    by (rule all_some_map)
      (use desired_ports_ok [OF assms(2)] port_ok_range in \<open>auto simp: hub_rule_of_def desired_json_def hub_rule_from_def field_def\<close>)
  moreover have "all_some (map (port_of ''port'' ''proto'') (map port_json (node_ports (n_id nd) d))) =
      Some (map (\<lambda>p. PP (gp_port p) (gp_proto p)) (node_ports (n_id nd) d))"
    by (rule all_some_map)
      (use node_ports_ok [OF assms(2)] port_ok_range in \<open>auto simp: port_of_def port_json_def field_def\<close>)
  moreover have "hq_url (node_request opts) = desired_url (op_hub opts)" by (simp add: node_request_def)
  ultimately show ?thesis
    using node_served [OF assms(1,3,4)]
    by (simp add: fetch_def hub_link_def writeJSON_def desiredResp_of_def field_def ports_of_def del: map_map)
qed

section \<open>The allowlist of a node\<close>

definition node_authorised :: "db \<Rightarrow> int \<Rightarrow> string \<Rightarrow> int \<Rightarrow> string \<Rightarrow> bool" where
  "node_authorised d nid ip port proto \<longleftrightarrow> ip \<noteq> [] \<and>
     (\<exists>t \<in> set (targets d). \<exists>u \<in> set (users d). \<exists>m \<in> set (members d). \<exists>g \<in> set (grps d).
       t_node t = nid \<and> t_port t = port \<and> t_proto t = proto \<and> t_group t = g_id g \<and>
       m_user m = u_id u \<and> m_group m = g_id g \<and> m_enabled m \<and> (\<exists>a. u_ip u = Some a \<and> a \<noteq> [] \<and> CanonicalIP a = ip))"

definition node_accepts :: "options \<Rightarrow> db \<Rightarrow> int \<Rightarrow> packet \<Rightarrow> bool" where
  "node_accepts opts d nid pk \<longleftrightarrow> pk_in pk = ''lo'' \<or>
     node_authorised d nid (pk_src pk) (pk_dport pk) (pk_proto pk) \<and> (op_allowed opts = [] \<or> pk_dport pk \<in> set (op_allowed opts)) \<or>
     \<not> ((\<exists>p \<in> set (node_ports nid d). gp_port p = pk_dport pk \<and> gp_proto p = pk_proto pk) \<and> pk_dport pk \<in> set (op_allowed opts) \<and>
        new_connection pk)"

lemma in_pulled: "x \<in> set (pulled opts rs) \<longleftrightarrow> (\<exists>r \<in> set rs. well_formed r \<and>
    (op_allowed opts = [] \<or> h_port r \<in> set (op_allowed opts)) \<and> x = r\<lparr>h_ip := CanonicalIP (h_ip r)\<rparr>)"
  by (auto simp: pulled_def filterAllowed_def sanitize_def)

lemma hub_match: "rule_match (hub_to_rule x) = (h_ip x, h_port x, h_proto x)"
  by (simp add: hub_to_rule_def rule_match_def)

lemma pulled_desired:
  assumes "server_ok d" and "targets_ok d"
  shows "(ip, port, pr) \<in> key_match ` rule_key ` set (map hub_to_rule (pulled opts (map hub_rule_from (desired_node nid d)))) \<longleftrightarrow>
    node_authorised d nid ip port pr \<and> (op_allowed opts = [] \<or> port \<in> set (op_allowed opts))"
proof -
  let ?D = "set (desired_node nid d)" and ?adm = "op_allowed opts = [] \<or> port \<in> set (op_allowed opts)"
  have wf: "well_formed (hub_rule_from r) \<longleftrightarrow> CanonicalIP (d_ip r) \<noteq> []" if "r \<in> ?D" for r
    using that rows_okD [OF assms(1)] desired_ports_ok [OF assms(2) that]
    by (auto simp: in_desired_node grants_def user_ok_def grp_ok_def well_formed_def hub_rule_from_def port_ok_def)
  have "(ip, port, pr) \<in> key_match ` rule_key ` set (map hub_to_rule (pulled opts (map hub_rule_from (desired_node nid d)))) \<longleftrightarrow>
      (\<exists>x \<in> set (pulled opts (map hub_rule_from (desired_node nid d))). (ip, port, pr) = (h_ip x, h_port x, h_proto x))"
    by (auto simp: image_image hub_match)
  also have "\<dots> \<longleftrightarrow> (\<exists>r \<in> ?D. well_formed (hub_rule_from r) \<and> CanonicalIP (d_ip r) = ip \<and> d_port r = port \<and> d_proto r = pr) \<and> ?adm"
    unfolding Bex_def in_pulled by (auto simp: hub_rule_from_def)
  also have "\<dots> \<longleftrightarrow> (ip \<noteq> [] \<and> (\<exists>r \<in> ?D. CanonicalIP (d_ip r) = ip \<and> d_port r = port \<and> d_proto r = pr)) \<and> ?adm"
    using wf by blast
  also have "(\<exists>r \<in> ?D. CanonicalIP (d_ip r) = ip \<and> d_port r = port \<and> d_proto r = pr) \<longleftrightarrow>
      (\<exists>t \<in> set (targets d). \<exists>u \<in> set (users d). \<exists>m \<in> set (members d). \<exists>g \<in> set (grps d).
       t_node t = nid \<and> t_port t = port \<and> t_proto t = pr \<and> t_group t = g_id g \<and>
       m_user m = u_id u \<and> m_group m = g_id g \<and> m_enabled m \<and> (\<exists>a. u_ip u = Some a \<and> a \<noteq> [] \<and> CanonicalIP a = ip))" (is "?L \<longleftrightarrow> ?R")
  proof
    assume ?L
    then obtain r where "r \<in> ?D" "CanonicalIP (d_ip r) = ip \<and> d_port r = port \<and> d_proto r = pr" by blast
    then show ?R unfolding in_desired_node grants_def by metis
  next
    assume ?R
    then obtain t u m g a where x: "t \<in> set (targets d)" "u \<in> set (users d)" "m \<in> set (members d)" "g \<in> set (grps d)"
      "t_node t = nid" "t_port t = port" "t_proto t = pr" "t_group t = g_id g" "m_user m = u_id u" "m_group m = g_id g" "m_enabled m"
      "u_ip u = Some a" "a \<noteq> []" "CanonicalIP a = ip" by blast
    let ?r = "\<lparr>d_ip = a, d_port = port, d_proto = pr, d_user = u_name u, d_group = g_name g\<rparr>"
    have "grants ?r m u g (t_port t) (t_proto t)" using x by (simp add: grants_def)
    moreover have "m_group m = t_group t" using x by simp
    ultimately have "?r \<in> ?D" using x(1-5) in_desired_node by blast
    with x(14) show ?L by (intro bexI [of _ ?r]) simp_all
  qed
  finally show ?thesis unfolding node_authorised_def .
qed

lemma step_served:
  assumes "be_EnsureBase be (ag_fw a) = (None, w1)" and "ag_fw (reapplyGuard be opts (a\<lparr>ag_fw := w1\<rparr>)) = w2"
    and "fetch opts (cy_hub cy) = Inr dr" and "dr_ports dr = Some hub" and "op_guard opts"
    and "agent_Reconcile be (pulled opts (dr_rules dr)) w2 = (added, removed, err, w3)"
    and "be_SyncGuard be = Some g" and "g (fst (splitAllowed hub (op_allowed opts))) w3 = (None, w4)"
  shows "ag_fw (step be opts cy a) = w4"
proof -
  have fw: "ag_fw (saveGuard opts cy ports b) = ag_fw b" for ports b by (simp add: saveGuard_def Let_def writeState_def)
  obtain ps xs where s: "splitAllowed hub (op_allowed opts) = (ps, xs)" by fastforce
  show ?thesis
    using assms by (simp add: step_def Let_def pulled_def agent_syncGuard_def s fw)
qed

text \<open>C2. Hub and agent implement the allowlist of the node.  When the agent's token names a node of the hub's
  database and the cycle meets no error, the packets the node's chain accepts afterwards are exactly
  loopback, the sources that the enabled memberships of users with an address authorise for the node's
  targets, on ports the node's own list admits, and whatever opens no connection to a target's port that
  the node lists.\<close>

theorem fleet_refines_allowlist:
  assumes "sv_db s = (d, [])" and "server_ok d" and "\<not> throttled env (seen_request rq0 (node_request opts)) d"
    and "node_of (seen_request rq0 (node_request opts)) d = Some nd"
    and "nft_kernel n rows ok" and "ok (ag_fw a)" and "chain_ok (nft_cfg n) (rows (ag_fw a))"
    and "op_guard opts" and "cy_hub cy = hub_link opts env rq0 s" and "nft_EnsureBase n (ag_fw a) = (None, w1)"
    and "ag_fw (reapplyGuard (nft_backend n) opts (a\<lparr>ag_fw := w1\<rparr>)) = w2"
    and "agent_Reconcile (nft_backend n) (pulled opts (map hub_rule_from (desired_node (n_id nd) d))) w2 = (added, removed, None, w3)"
    and "nft_SyncGuard n (fst (splitAllowed (map (\<lambda>p. PP (gp_port p) (gp_proto p)) (node_ports (n_id nd) d)) (op_allowed opts))) w3 = (None, w4)"
  shows "ag_fw (step (nft_backend n) opts cy a) = w4 \<and>
    (\<forall>pk. chain_accepts pk (rows w4) \<longleftrightarrow> node_accepts opts d (n_id nd) pk)"
proof (intro conjI allI)
  let ?be = "nft_backend n" and ?cfg = "nft_cfg n" and ?hub = "map (\<lambda>p. PP (gp_port p) (gp_proto p)) (node_ports (n_id nd) d)"
  let ?P = "pulled opts (map hub_rule_from (desired_node (n_id nd) d))" and ?st = "\<lambda>k. nft_store ?cfg (rows k)"
  let ?I = "\<lambda>k. ok k \<and> chain_ok ?cfg (rows k)" and ?g = "fst (splitAllowed ?hub (op_allowed opts))"
  note t = rows_okD(3) [OF assms(2)]
  note f = fetch_served [OF assms(1) t assms(3,4)]
  have e: "be_EnsureBase ?be (ag_fw a) = (None, w1)" "be_SyncGuard ?be = Some (nft_SyncGuard n)" using assms(10) by simp_all
  show "ag_fw (step ?be opts cy a) = w4"
    by (rule step_served [OF e(1) assms(11) _ _ assms(8) _ e(2) assms(13)])
      (unfold assms(9), rule f, simp_all only: desiredResp.simps, rule assms(12))
  note be = nft_kernel.is_chain [OF assms(5)]
  note store = keyed_store.axioms(1) [OF be]
  have "?I w1" using rule_store.ensure [OF store, of "ag_fw a" None w1] assms(6,7,10) by simp
  then have I2: "?I w2" using rule_store.reapply_store [OF store, of "a\<lparr>ag_fw := w1\<rparr>" opts] assms(11) by simp
  note R = assms(12) [unfolded agent_Reconcile_def]
  have I3: "?I w3" using keyed_store.ReconcileAll_run [OF be I2 pulled_named R] by blast
  have "mset (map rule_key (?st w3)) = mset_set (rule_key ` set (map hub_to_rule ?P))"
    using reconcile_all_exact [OF be I2 pulled_named R] by simp
  then have "rule_key ` set (?st w3) = rule_key ` set (map hub_to_rule ?P)"
    by (metis finite_imageI List.finite_set finite_set_mset_mset_set set_map set_mset_mset)
  moreover have "rule_match ` set (?st w3) = key_match ` rule_key ` set (?st w3)" by (simp add: image_image)
  ultimately have "rule_match ` set (?st w3) = key_match ` rule_key ` set (map hub_to_rule ?P)" by (simp only:)
  then have m: "(ip, port, pr) \<in> rule_match ` set (?st w3) \<longleftrightarrow> node_authorised d (n_id nd) ip port pr \<and>
      (op_allowed opts = [] \<or> port \<in> set (op_allowed opts))" for ip port pr
    using pulled_desired [OF assms(2) t] by simp
  have g: "PP port pr \<in> {p \<in> set ?g. guardable p} \<longleftrightarrow>
      (\<exists>p \<in> set (node_ports (n_id nd) d). gp_port p = port \<and> gp_proto p = pr) \<and> port \<in> set (op_allowed opts)" for port pr
    using node_ports_ok [OF t] by (auto simp: splitAllowed_def guardable_def port_ok_def)
  show "chain_accepts pk (rows w4) \<longleftrightarrow> node_accepts opts d (n_id nd) pk" for pk
    using nft_kernel.SyncGuard_decides [OF assms(5) _ _ assms(13), of pk] I3 unfolding m g node_accepts_def by simp
qed

text \<open>A hub with one node, whose token is the agent's, and a node whose chain already has the one rule.\<close>

definition fleet_db :: db where
  "fleet_db = demo_db\<lparr>nodes := [\<lparr>n_id = 1, n_name = ''edge'', n_hash = HashToken ''t'', n_seen = None, n_version = None,
       n_backend = None, n_created = 0\<rparr>],
     targets := [\<lparr>t_id = 1, t_group = 1, t_node = 1, t_port = 80, t_proto = ''tcp''\<rparr>]\<rparr>"

definition fleet_srv :: "mock srv" where
  "fleet_srv = demo_srv\<lparr>sv_db := (fleet_db, [])\<rparr>"

definition fleet_agent :: "kern agent" where
  "fleet_agent = \<lparr>ag_fw = allow_kern, ag_st = new_state, ag_file = NoFile\<rparr>"

definition fleet_cycle :: cycle where
  "fleet_cycle = \<lparr>cy_hub = hub_link node_opts demo_env demo_request fleet_srv, cy_write = True\<rparr>"

lemma fleet_hub:
  "sv_db fleet_srv = (fleet_db, [])" "server_ok fleet_db"
  "\<not> throttled demo_env (seen_request demo_request (node_request node_opts)) fleet_db"
  "node_of (seen_request demo_request (node_request node_opts)) fleet_db = Some (hd (nodes fleet_db))"
  "n_id (hd (nodes fleet_db)) = 1"
  using server_ok_demo(1)
  by (simp_all add: fleet_srv_def fleet_db_def server_ok_def wf_db_def wf_defs rows_ok_def ids_ok_def demo_db_def targets_ok_def port_ok_def
      throttled_def empty_db_def node_of_def seen_request_def node_request_def node_opts_def trim_space_printable)

lemma fleet_desired:
  "desired_node 1 fleet_db = [\<lparr>d_ip = ''10.0.0.1'', d_port = 80, d_proto = ''tcp'', d_user = ''ann'', d_group = ''web''\<rparr>]"
  "node_ports 1 fleet_db = [\<lparr>gp_group = ''web'', gp_port = 80, gp_proto = ''tcp''\<rparr>]"
  by (simp_all add: desired_node_def node_ports_def joined_def with_ip_def fleet_db_def demo_db_def new_user_def empty_db_def)

lemma fleet_reconcile:
  "agent_Reconcile (nft_backend (kern_nft demo_cfg)) (pulled node_opts (map hub_rule_from (desired_node 1 fleet_db))) allow_kern =
    (0, 0, None, allow_kern)"
proof -
  have "nft_ListManaged (kern_nft demo_cfg) allow_kern = (Inr (nft_store demo_cfg (k_rows allow_kern)), allow_kern)"
    using kern_lists [OF allow_kern_facts(1-3), of demo_cfg] by (simp add: nft_ListManaged_def listFiltered_def nft_store_def)
  moreover have "pulled node_opts (map hub_rule_from (desired_node 1 fleet_db)) = [answered ''10.0.0.1'' 80]"
    by (simp add: fleet_desired pulled_def sanitize_def filterAllowed_def well_formed_def hub_rule_from_def answer_text answered_def)
  ultimately show ?thesis
    unfolding agent_Reconcile_def
    by (simp add: allow_kern_facts(4) ReconcileAll_def Let_def rule_key_def mk_rule_def hub_to_rule_def answered_def)
qed

theorem fleet_refines_allowlist_witness:
  "\<exists>w. ag_fw (step (nft_backend (kern_nft demo_cfg)) node_opts fleet_cycle fleet_agent) = w \<and>
     chain_accepts \<lparr>pk_in = ''eth0'', pk_src = ''10.0.0.1'', pk_proto = ''tcp'', pk_dport = 80, pk_syn = True, pk_ack = False\<rparr> (k_rows w) \<and>
     \<not> chain_accepts \<lparr>pk_in = ''eth0'', pk_src = ''10.0.0.9'', pk_proto = ''tcp'', pk_dport = 80, pk_syn = True, pk_ack = False\<rparr> (k_rows w)"
proof -
  let ?n = "kern_nft demo_cfg" and ?nd = "hd (nodes fleet_db)"
  have fw: "ag_fw fleet_agent = allow_kern" "cy_hub fleet_cycle = hub_link node_opts demo_env demo_request fleet_srv"
    by (simp_all add: fleet_agent_def fleet_cycle_def)
  have ok: "kern_ok (ag_fw fleet_agent)" "chain_ok (nft_cfg ?n) (k_rows (ag_fw fleet_agent))"
    using allow_kern_facts(1) allow_chain by (simp_all add: fw)
  have base: "nft_EnsureBase ?n (ag_fw fleet_agent) = (None, allow_kern)" unfolding fw by (rule allow_base)
  have re: "ag_fw (reapplyGuard (nft_backend ?n) node_opts (fleet_agent\<lparr>ag_fw := allow_kern\<rparr>)) = allow_kern"
    by (simp add: reapplyGuard_def fleet_agent_def new_state_def)
  have rec: "agent_Reconcile (nft_backend ?n) (pulled node_opts (map hub_rule_from (desired_node (n_id ?nd) fleet_db))) allow_kern =
    (0, 0, None, allow_kern)" unfolding fleet_hub(5) by (rule fleet_reconcile)
  obtain w where w: "nft_SyncGuard ?n [PP 80 ''tcp''] allow_kern = (None, w)" using allow_guard by blast
  have g: "nft_SyncGuard ?n (fst (splitAllowed (map (\<lambda>p. PP (gp_port p) (gp_proto p)) (node_ports (n_id ?nd) fleet_db)) (op_allowed node_opts))) allow_kern = (None, w)"
    unfolding fleet_hub(5) using w by (simp add: fleet_desired splitAllowed_def)
  have a: "node_authorised fleet_db 1 ''10.0.0.1'' 80 ''tcp''" "\<not> node_authorised fleet_db 1 ''10.0.0.9'' 80 ''tcp''"
    by (auto simp: node_authorised_def fleet_db_def demo_db_def new_user_def empty_db_def answer_text)
  from fleet_refines_allowlist [OF fleet_hub(1-4) ref.nft_kernel_axioms ok node_opts_simps(2) fw(2) base re rec g] a
  show ?thesis by (intro exI [of _ w]) (simp add: node_accepts_def new_connection_def fleet_desired fleet_hub(5))
qed

end
