(* ===== verification/Answers.thy ===== *)
theory Answers
  imports Access
begin

text \<open>
  The type of an answer: every handler, on every branch, sends a JSON object whose first member says whether
  the request succeeded, in agreement with the status.
\<close>

definition envelope :: "resp \<Rightarrow> bool" where
  "envelope r \<longleftrightarrow> (\<exists>ok kvs. rs_body r = JObj ((''ok'', JBool ok) # kvs) \<and>
     (if ok then rs_status r \<in> {200, 201}
      else rs_status r \<in> {400, 401, 403, 404, 409, 429, 500} \<and> (\<exists>msg rest. kvs = (''error'', JStr msg) # rest)))"

lemma envelope_success: "n \<in> {200, 201} \<Longrightarrow> envelope (writeJSON n ((''ok'', JBool True) # kvs))"
  by (auto simp: envelope_def writeJSON_def)

lemma envelope_failure: "n \<in> {400, 401, 403, 404, 409, 429, 500} \<Longrightarrow>
    envelope (writeJSON n ((''ok'', JBool False) # (''error'', JStr msg) # rest))"
  by (auto simp: envelope_def writeJSON_def)

lemma envelope_error: "n \<in> {400, 401, 403, 404, 409, 429, 500} \<Longrightarrow> envelope (errJSON n msg)"
  unfolding errJSON_def by (rule envelope_failure)

lemma envelope_answers [simp]: "envelope (not_found what)" "envelope internal_error" "envelope enabled_required"
    "envelope (toggle_reply w ((''ok'', JBool True) # kvs))"
  by (simp_all add: not_found_def internal_error_def enabled_required_def toggle_reply_def envelope_error envelope_success)

text \<open>Code that answers early only with an envelope, and whose value satisfies \<open>Q\<close>.\<close>

definition answers :: "('a \<Rightarrow> bool) \<Rightarrow> ('s, 'a) hm \<Rightarrow> bool" where
  "answers Q m \<longleftrightarrow> (\<forall>s. case m s of (Inl r, t) \<Rightarrow> envelope r | (Inr a, t) \<Rightarrow> Q a)"

abbreviation early :: "('s, 'a) hm \<Rightarrow> bool" where
  "early \<equiv> answers (\<lambda>_. True)"

named_theorems typed

lemma answers_hb: "early m \<Longrightarrow> (\<And>a. answers Q (f a)) \<Longrightarrow> answers Q (hb m f)"
proof (unfold answers_def hb_def, rule allI)
  fix s assume m: "\<forall>s. case m s of (Inl r, t) \<Rightarrow> envelope r | (Inr a, t) \<Rightarrow> True"
    and f: "\<And>a. \<forall>s. case f a s of (Inl r, t) \<Rightarrow> envelope r | (Inr a, t) \<Rightarrow> Q a"
  show "case (case m s of (Inl r, s') \<Rightarrow> (Inl r, s') | (Inr a, s') \<Rightarrow> f a s') of (Inl r, t) \<Rightarrow> envelope r | (Inr a, t) \<Rightarrow> Q a"
  proof (cases "m s")
    case (Pair x t)
    with m [rule_format, of s] f [rule_format, of _ t] show ?thesis by (cases x) simp_all
  qed
qed

lemma answers_hret: "Q a \<Longrightarrow> answers Q (hret a)"
  by (simp add: answers_def hret_def)

lemma answers_answer: "envelope r \<Longrightarrow> answers Q (answer r)"
  by (simp add: answers_def answer_def)

lemma early_rules [typed]:
  "early (hret a)" "early (dbcall q)" "early (fwcall g)" "envelope r \<Longrightarrow> early (hguard b r)" "envelope r \<Longrightarrow> early (found x r)"
  by (auto simp: answers_def hret_def dbcall_def fwcall_def hguard_def answer_def found_def split: prod.splits option.splits)

lemma early_dbdo [typed]: "early (dbdo q)"
  unfolding dbdo_def by (intro answers_hb typed)

lemma early_dbtry [typed]: "early (dbtry q)"
  unfolding dbtry_def internal_error_def
  by (rule answers_hb [OF early_rules(2)])
    (auto split: sum.split intro: answers_answer answers_hret envelope_error)

lemma answers_if: "(b \<Longrightarrow> answers Q m) \<Longrightarrow> (\<not> b \<Longrightarrow> answers Q n) \<Longrightarrow> answers Q (if b then m else n)"
  by simp

lemma answers_sum: "(\<And>a. answers Q (f a)) \<Longrightarrow> (\<And>b. answers Q (g b)) \<Longrightarrow> answers Q (case x of Inl a \<Rightarrow> f a | Inr b \<Rightarrow> g b)"
  by (simp split: sum.split)

lemma answers_option: "answers Q m \<Longrightarrow> (\<And>b. answers Q (h b)) \<Longrightarrow> answers Q (case y of None \<Rightarrow> m | Some b \<Rightarrow> h b)"
  by (simp split: option.split)

lemma answers_Let: "(\<And>a. answers Q (f a)) \<Longrightarrow> answers Q (Let x f)"
  by (simp add: Let_def)

lemma answers_prod: "(\<And>a b. answers Q (p a b)) \<Longrightarrow> answers Q (case z of (a, b) \<Rightarrow> p a b)"
  by (simp split: prod.split)

lemmas answers_rules = answers_hb answers_if answers_sum answers_option answers_Let answers_prod answers_answer answers_hret

section \<open>The parts of the handlers\<close>

lemma early_authUser [typed]: "early (authUser env rq)"
  unfolding answers_def
proof (rule allI)
  fix s
  show "case authUser env rq s of (Inl r, t) \<Rightarrow> envelope r | (Inr a, t) \<Rightarrow> True"
    using authUser_cases [of env rq s] envelope_error by (cases "authUser env rq s") (auto split: sum.split)
qed

lemma early_requireAdmin [typed]: "early (requireAdmin env rq)"
  unfolding answers_def
proof (rule allI)
  fix s
  show "case requireAdmin env rq s of (Inl r, t) \<Rightarrow> envelope r | (Inr a, t) \<Rightarrow> True"
    using requireAdmin_cases [of env rq s] envelope_error by (cases "requireAdmin env rq s") (auto split: sum.split simp: adminError_def)
qed

lemma early_isAdmin [typed]: "early (isAdmin u)"
  by (simp add: answers_def isAdmin_def split: prod.split)

lemma early_authNode [typed]: "early (authNode env rq)"
  unfolding authNode_def by (intro answers_rules typed envelope_error) simp_all

lemma early_totpAttempt: "early v \<Longrightarrow> early (totpAttempt env rq u code act v)"
  unfolding totpAttempt_def totpLocked_def totpFailed_def
  by (intro answers_rules typed envelope_error) simp_all

lemma early_consumeTOTP [typed]: "early (consumeTOTP env u code)"
  unfolding consumeTOTP_def by (intro answers_rules typed; simp)

declare early_totpAttempt [typed]

lemma early_stepUp [typed]: "early (stepUp env rq u)"
  unfolding stepUp_def by (intro answers_rules typed envelope_error envelope_failure; simp)

lemma early_adminGate [typed]: "early (adminGate env rq)"
  unfolding adminGate_def by (intro answers_rules typed; simp)

section \<open>The handlers\<close>

lemmas envelopes = envelope_success envelope_failure envelope_error

lemma early_rows [typed]: "early (the_user uid)" "early (the_group gid)"
  unfolding the_user_def the_group_def by (intro answers_rules typed; simp)+

lemma early_remove_old_rules [typed]: "early (remove_old_rules env un old gs)"
  by (induction gs) (auto intro!: answers_rules typed)

lemma early_anomalyCheck [typed]: "early (anomalyCheck env un)"
  by (simp add: answers_def anomalyCheck_def split: prod.split)

lemma early_check_reenable [typed]: "early (check_reenable env un gid tg msg)"
  unfolding check_reenable_def by (intro answers_rules typed; simp add: envelope_error)

lemma early_remove_member_rules [typed]: "early (remove_member_rules env g ms errs)"
  by (induction ms arbitrary: errs) (auto intro!: answers_rules typed)

lemma early_syncGuard [typed]: "early (syncGuard env)"
  unfolding syncGuard_def by (intro answers_rules typed; simp)

lemma early_node_views [typed]: "early (node_views env ns out)"
  by (induction ns arbitrary: out) (auto intro!: answers_rules typed)

lemma early_setMembership [typed]: "early (setMembership env uid g enabled)"
  unfolding setMembership_def by (intro answers_rules typed; simp)

lemma early_audit_log [typed]: "early (audit_log env u a tg det)"
  unfolding audit_log_def by (intro answers_rules typed)

lemma answers_knock: "answers envelope (knock env rq)"
  unfolding knock_def
  by (intro answers_rules typed; simp add: envelopes with_warning_def)

lemma answers_status: "answers envelope (status env rq)"
  unfolding status_def Let_def
  by (intro answers_rules typed; simp add: envelopes with_warning_def)

lemma answers_myGroups: "answers envelope (myGroups env rq)"
  unfolding myGroups_def
  by (intro answers_rules typed; simp add: envelopes with_warning_def)

lemma answers_selfToggleMembership: "answers envelope (selfToggleMembership env rq)"
  unfolding selfToggleMembership_def
  by (intro answers_rules typed; simp add: envelopes with_warning_def)

lemma answers_toggleMembership: "answers envelope (toggleMembership env rq)"
  unfolding toggleMembership_def
  by (intro answers_rules typed; simp add: envelopes with_warning_def)

lemma answers_nodeDesiredState: "answers envelope (nodeDesiredState env rq)"
  unfolding nodeDesiredState_def
  by (intro answers_rules typed; simp add: envelopes with_warning_def)

lemma answers_adminListUsers: "answers envelope (adminListUsers env rq)"
  unfolding adminListUsers_def
  by (intro answers_rules typed; simp add: envelopes with_warning_def)

lemma answers_adminCreateUser: "answers envelope (adminCreateUser env rq)"
  unfolding adminCreateUser_def
  by (intro answers_rules typed; simp add: envelopes with_warning_def)

lemma answers_adminDeleteUser: "answers envelope (adminDeleteUser env rq)"
  unfolding adminDeleteUser_def
  by (intro answers_rules typed; simp add: envelopes with_warning_def)

lemma answers_adminSetAdmin: "answers envelope (adminSetAdmin env rq)"
  unfolding adminSetAdmin_def
  by (intro answers_rules typed; simp add: envelopes with_warning_def)

lemma answers_adminUserGroups: "answers envelope (adminUserGroups env rq)"
  unfolding adminUserGroups_def
  by (intro answers_rules typed; simp add: envelopes with_warning_def)

lemma answers_adminAddMembership: "answers envelope (adminAddMembership env rq)"
  unfolding adminAddMembership_def
  by (intro answers_rules typed; simp add: envelopes with_warning_def)

lemma answers_adminRevokeUser: "answers envelope (adminRevokeUser env rq)"
  unfolding adminRevokeUser_def
  by (intro answers_rules typed; simp add: envelopes with_warning_def)

lemma answers_adminRemoveMembership: "answers envelope (adminRemoveMembership env rq)"
  unfolding adminRemoveMembership_def
  by (intro answers_rules typed; simp add: envelopes with_warning_def)

lemma answers_adminListGroups: "answers envelope (adminListGroups env rq)"
  unfolding adminListGroups_def
  by (intro answers_rules typed; simp add: envelopes with_warning_def)

lemma answers_adminCreateGroup: "answers envelope (adminCreateGroup env rq)"
  unfolding adminCreateGroup_def
  by (intro answers_rules typed; simp add: envelopes with_warning_def)

lemma answers_adminDeleteGroup: "answers envelope (adminDeleteGroup env rq)"
  unfolding adminDeleteGroup_def
  by (intro answers_rules typed; simp add: envelopes with_warning_def)

lemma answers_adminListAudit: "answers envelope (adminListAudit env rq)"
  unfolding adminListAudit_def
  by (intro answers_rules typed; simp add: envelopes with_warning_def)

lemma answers_adminListNodes: "answers envelope (adminListNodes env rq)"
  unfolding adminListNodes_def
  by (intro answers_rules typed; simp add: envelopes with_warning_def)

lemma answers_totpEnroll: "answers envelope (totpEnroll env rq)"
  unfolding totpEnroll_def
  by (intro answers_rules typed; simp add: envelopes with_warning_def)

lemma answers_totpActivate: "answers envelope (totpActivate env rq)"
  unfolding totpActivate_def
  by (intro answers_rules typed; simp add: envelopes with_warning_def)

lemma answers_totpDisable: "answers envelope (totpDisable env rq)"
  unfolding totpDisable_def
  by (intro answers_rules typed; simp add: envelopes with_warning_def)

lemma answers_health: "answers envelope (health env rq)"
  unfolding health_def
  by (intro answers_rules typed; simp add: envelopes with_warning_def)

section \<open>The API\<close>

lemma answers_handler: "rt \<noteq> RIndex \<Longrightarrow> answers envelope (handler env rt rq)"
  by (cases rt) (simp_all add: handler_def answers_knock answers_status answers_myGroups answers_selfToggleMembership
      answers_toggleMembership answers_nodeDesiredState answers_adminListUsers answers_adminCreateUser answers_adminDeleteUser
      answers_adminSetAdmin answers_adminUserGroups answers_adminAddMembership answers_adminRevokeUser
      answers_adminRemoveMembership answers_adminListGroups answers_adminCreateGroup answers_adminDeleteGroup
      answers_adminListAudit answers_adminListNodes answers_totpEnroll answers_totpActivate answers_totpDisable answers_health)

lemma answers_gate: "answers envelope h \<Longrightarrow> answers envelope (throttleGate env rq h)"
  unfolding answers_def
proof (rule allI)
  fix s assume h: "\<forall>s. case h s of (Inl r, t) \<Rightarrow> envelope r | (Inr a, t) \<Rightarrow> envelope a"
  obtain x t where g: "throttleGate env rq h s = (x, t)" by fastforce
  from gate_cases [OF g] show "case throttleGate env rq h s of (Inl r, t) \<Rightarrow> envelope r | (Inr a, t) \<Rightarrow> envelope a"
  proof (elim disjE exE conjE)
    fix err assume "x = Inl (errJSON 429 err)"
    then show ?thesis by (simp add: g envelope_error)
  next
    fix d assume "h (s\<lparr>sv_db := d\<rparr>) = (x, t)"
    with h [rule_format, of "s\<lparr>sv_db := d\<rparr>"] show ?thesis by (simp add: g)
  qed
qed

lemma answers_run: "answers envelope h \<Longrightarrow> envelope (fst (run h s))"
  unfolding answers_def run_def by (drule spec [of _ s]) (auto split: prod.splits sum.splits)



end
