(* ===== verification/Flags.thy ===== *)
theory Flags
  imports Prelude
begin

text \<open>
  The command-line arguments.  \<open>flag.FlagSet.Parse\<close> of Go's standard library, as the subcommands use it
  (Boolean, integer and string flags), and \<open>parseFlags\<close> of \<open>internal/cli/cli.go\<close>, which repeats it so that
  flags may also follow positional arguments.  The loop of \<open>parseFlags\<close> has no bound in the code: it is a
  \<open>partial_function\<close>, and that it returns is a theorem.
\<close>

section \<open>Flag values\<close>

datatype flag_val = BoolV bool | IntV int | StrV string

type_synonym flagset = "(string \<times> flag_val) list"

datatype flag_error =
    BadSyntax string
  | NotDefined string
  | NeedsArgument string
  | BadValue string string
  | HelpAsked

definition ParseBool :: "string \<Rightarrow> bool option" where
  "ParseBool s = (if s \<in> {''1'', ''t'', ''T'', ''TRUE'', ''true'', ''True''} then Some True
     else if s \<in> {''0'', ''f'', ''F'', ''FALSE'', ''false'', ''False''} then Some False else None)"

text \<open>\<open>strconv.ParseInt (s, 0, 64)\<close>: a base prefix, and underscores between digits.\<close>

definition lower :: "char \<Rightarrow> char" where
  "lower c = (if is_upper c then char_of (byte c + 32) else c)"

definition digit_in :: "nat \<Rightarrow> char \<Rightarrow> nat option" where
  "digit_in b c = (let v = (if is_digit c then Some (digit_val c)
       else if is_lower (lower c) then Some (byte (lower c) - 87) else None)
     in case v of None \<Rightarrow> None | Some d \<Rightarrow> if d < b then Some d else None)"

definition base_prefix :: "string \<Rightarrow> nat \<times> string" where
  "base_prefix s = (case s of
      c # p # q # r \<Rightarrow> if c = CHR ''0'' \<and> lower p = CHR ''b'' then (2, q # r)
         else if c = CHR ''0'' \<and> lower p = CHR ''o'' then (8, q # r)
         else if c = CHR ''0'' \<and> lower p = CHR ''x'' then (16, q # r)
         else if c = CHR ''0'' then (8, p # q # r) else (10, s)
    | c # r \<Rightarrow> if c = CHR ''0'' then (8, r) else (10, s)
    | [] \<Rightarrow> (10, s))"

fun digits_val :: "nat \<Rightarrow> nat \<Rightarrow> string \<Rightarrow> nat option" where
  "digits_val b acc [] = Some acc"
| "digits_val b acc (c # s) = (if c = CHR ''_'' then digits_val b acc s
     else case digit_in b c of None \<Rightarrow> None | Some d \<Rightarrow> digits_val b (acc * b + d) s)"

text \<open>An underscore stands between digits; a base prefix counts as one.\<close>

fun underscores :: "bool \<Rightarrow> char \<Rightarrow> string \<Rightarrow> bool" where
  "underscores hex saw [] \<longleftrightarrow> saw \<noteq> CHR ''_''"
| "underscores hex saw (c # s) \<longleftrightarrow>
     (if is_digit c \<or> hex \<and> is_hex c then underscores hex CHR ''0'' s
      else if c = CHR ''_'' then saw = CHR ''0'' \<and> underscores hex CHR ''_'' s
      else saw \<noteq> CHR ''_'' \<and> underscores hex CHR ''!'' s)"

definition underscoreOK :: "string \<Rightarrow> bool" where
  "underscoreOK s = (case s of
      c # p # r \<Rightarrow> if c = CHR ''0'' \<and> lower p \<in> {CHR ''b'', CHR ''o'', CHR ''x''}
        then underscores (lower p = CHR ''x'') CHR ''0'' r else underscores False CHR ''^'' s
    | _ \<Rightarrow> underscores False CHR ''^'' s)"

definition ParseInt0 :: "string \<Rightarrow> int option" where
  "ParseInt0 s =
     (let neg = (s \<noteq> [] \<and> hd s = CHR ''-'');
          body = (if s \<noteq> [] \<and> (hd s = CHR ''-'' \<or> hd s = CHR ''+'') then tl s else s);
          (b, ds) = base_prefix body
      in if body = [] \<or> CHR ''_'' \<in> set body \<and> \<not> underscoreOK body then None
         else case digits_val b 0 ds of None \<Rightarrow> None
           | Some n \<Rightarrow> (let v = (if neg then - int n else int n)
               in if - (2 ^ 63) \<le> v \<and> v < 2 ^ 63 then Some v else None))"

text \<open>\<open>Value.Set\<close>: a flag keeps the kind it was declared with.\<close>

definition set_flag :: "flag_val \<Rightarrow> string \<Rightarrow> flag_val option" where
  "set_flag v s = (case v of
      BoolV _ \<Rightarrow> map_option BoolV (ParseBool s)
    | IntV _ \<Rightarrow> map_option IntV (ParseInt0 s)
    | StrV _ \<Rightarrow> Some (StrV s))"

definition put :: "string \<Rightarrow> flag_val \<Rightarrow> flagset \<Rightarrow> flagset" where
  "put name v fs = map (\<lambda>(n, w). if n = name then (n, v) else (n, w)) fs"

text \<open>The flags of a command by name.\<close>

definition bool_flag :: "flagset \<Rightarrow> string \<Rightarrow> bool" where
  "bool_flag fs name = (map_of fs name = Some (BoolV True))"

definition int_flag :: "flagset \<Rightarrow> string \<Rightarrow> int" where
  "int_flag fs name = (case map_of fs name of Some (IntV n) \<Rightarrow> n | _ \<Rightarrow> 0)"

definition str_flag :: "flagset \<Rightarrow> string \<Rightarrow> string" where
  "str_flag fs name = (case map_of fs name of Some (StrV s) \<Rightarrow> s | _ \<Rightarrow> [])"

section \<open>One argument\<close>

text \<open>How \<open>parseOne\<close> reads an argument: a positional one stops the parse, so does \<open>--\<close>; a flag has a name
  and, after the first \<open>=\<close> that is not its first character, a value.\<close>

datatype token = Positional | Stop | Malformed | Flag string "string option"

definition split_flag :: "string \<Rightarrow> token" where
  "split_flag name = (if name = [] \<or> hd name = CHR ''-'' \<or> hd name = CHR ''='' then Malformed
     else case cut_at CHR ''='' (tl name) of
       None \<Rightarrow> Flag name None
     | Some (n, v) \<Rightarrow> Flag (hd name # n) (Some v))"

definition token_of :: "string \<Rightarrow> token" where
  "token_of s = (case s of
      c # d # r \<Rightarrow> if c \<noteq> CHR ''-'' then Positional
         else if d \<noteq> CHR ''-'' then split_flag (d # r)
         else if r = [] then Stop else split_flag r
    | _ \<Rightarrow> Positional)"

datatype taken = Taken flagset | TakenWith flagset | Rejected flag_error

text \<open>A flag of the set, with the argument after it, if any: it takes the value written behind \<open>=\<close>, or
  \<open>true\<close> when it is Boolean, or the next argument (\<open>TakenWith\<close>).\<close>

definition assign :: "flagset \<Rightarrow> string \<Rightarrow> flag_val \<Rightarrow> string \<Rightarrow> flag_error + flagset" where
  "assign fs name old v = (case set_flag old v of
      None \<Rightarrow> Inl (BadValue name v) | Some w \<Rightarrow> Inr (put name w fs))"

definition is_BoolV :: "flag_val \<Rightarrow> bool" where
  "is_BoolV v = (case v of BoolV _ \<Rightarrow> True | _ \<Rightarrow> False)"

definition take_flag :: "flagset \<Rightarrow> string \<Rightarrow> string option \<Rightarrow> string option \<Rightarrow> taken" where
  "take_flag fs name val nxt = (case map_of fs name of
      None \<Rightarrow> Rejected (if name = ''help'' \<or> name = ''h'' then HelpAsked else NotDefined name)
    | Some old \<Rightarrow> (case val of
        Some v \<Rightarrow> (case assign fs name old v of Inl e \<Rightarrow> Rejected e | Inr fs' \<Rightarrow> Taken fs')
      | None \<Rightarrow>
          if is_BoolV old
          then (case assign fs name old ''true'' of Inl e \<Rightarrow> Rejected e | Inr fs' \<Rightarrow> Taken fs')
          else (case nxt of
              None \<Rightarrow> Rejected (NeedsArgument name)
            | Some v \<Rightarrow> (case assign fs name old v of Inl e \<Rightarrow> Rejected e | Inr fs' \<Rightarrow> TakenWith fs'))))"

abbreviation next_of :: "string list \<Rightarrow> string option" where
  "next_of args \<equiv> (case args of [] \<Rightarrow> None | a # _ \<Rightarrow> Some a)"

text \<open>\<open>FlagSet.Parse\<close>: the flags up to the first positional argument; what is left is \<open>Args()\<close>.\<close>

fun fs_parse :: "flagset \<Rightarrow> string list \<Rightarrow> flag_error + (flagset \<times> string list)" where
  "fs_parse fs [] = Inr (fs, [])"
| "fs_parse fs (s # args) = (case token_of s of
      Positional \<Rightarrow> Inr (fs, s # args)
    | Stop \<Rightarrow> Inr (fs, args)
    | Malformed \<Rightarrow> Inl (BadSyntax s)
    | Flag name val \<Rightarrow> (case take_flag fs name val (next_of args) of
        Rejected e \<Rightarrow> Inl e
      | Taken fs' \<Rightarrow> fs_parse fs' args
      | TakenWith fs' \<Rightarrow> fs_parse fs' (tl args)))"

section \<open>The loop of the subcommands\<close>

partial_function (option) parse_loop ::
    "flagset \<Rightarrow> string list \<Rightarrow> string list \<Rightarrow> (flag_error + (flagset \<times> string list)) option" where
  "parse_loop fs args pos = (if args = [] then Some (Inr (fs, pos)) else
     (case fs_parse fs args of
        Inl e \<Rightarrow> Some (Inl e)
      | Inr (fs', rest) \<Rightarrow>
          if rest = [] then Some (Inr (fs', pos))
          else (let n = length args - length rest in
            if 0 < n \<and> args ! (n - 1) = ''--'' then Some (Inr (fs', pos @ rest))
            else parse_loop fs' (tl rest) (pos @ [hd rest]))))"

text \<open>The last line parses \<open>--\<close> and the positional arguments, which leaves the latter as \<open>Args()\<close>.\<close>

definition parseFlags :: "flagset \<Rightarrow> string list \<Rightarrow> (flag_error + (flagset \<times> string list)) option" where
  "parseFlags fs args = (case parse_loop fs args [] of
      None \<Rightarrow> None
    | Some (Inl e) \<Rightarrow> Some (Inl e)
    | Some (Inr (fs', pos)) \<Rightarrow> Some (fs_parse fs' (''--'' # pos)))"

section \<open>It reads one argument after the other\<close>

text \<open>The reference: one pass that sets flags and collects positional arguments.  \<open>dash\<close> is whether the
  argument just read was \<open>--\<close> as the value of a flag: the code then takes a positional argument behind it
  to follow the terminator.\<close>

fun interleaved :: "bool \<Rightarrow> flagset \<Rightarrow> string list \<Rightarrow> flag_error + (flagset \<times> string list)" where
  "interleaved dash fs [] = Inr (fs, [])"
| "interleaved dash fs (s # args) = (case token_of s of
      Positional \<Rightarrow> if dash then Inr (fs, s # args) else map_sum id (\<lambda>(g, pos). (g, s # pos)) (interleaved False fs args)
    | Stop \<Rightarrow> Inr (fs, args)
    | Malformed \<Rightarrow> Inl (BadSyntax s)
    | Flag name val \<Rightarrow> (case take_flag fs name val (next_of args) of
        Rejected e \<Rightarrow> Inl e
      | Taken fs' \<Rightarrow> interleaved False fs' args
      | TakenWith fs' \<Rightarrow> interleaved (next_of args = Some ''--'') fs' (tl args)))"

lemma TakenWith_next: "take_flag fs name val nxt = TakenWith fs' \<Longrightarrow> nxt \<noteq> None"
  by (auto simp: take_flag_def split: option.splits sum.splits if_splits)

lemma token_Stop: "token_of s = Stop \<longleftrightarrow> s = ''--''"
  by (auto simp: token_of_def split_flag_def split: list.splits option.splits if_splits)

text \<open>What one run of \<open>Parse\<close> consumes: the reference goes on where it stops, and the argument before that
  point decides whether the rest is positional.\<close>

definition resume :: "bool \<Rightarrow> flagset \<Rightarrow> string list \<Rightarrow> flag_error + (flagset \<times> string list)" where
  "resume stopped fs rest = (if rest = [] then Inr (fs, [])
     else if stopped then Inr (fs, rest) else map_sum id (\<lambda>(g, pos). (g, hd rest # pos)) (interleaved False fs (tl rest)))"

definition last_dash :: "bool \<Rightarrow> string list \<Rightarrow> bool" where
  "last_dash dash used = (if used = [] then dash else last used = ''--'')"

lemma last_dash_Cons [simp]: "last_dash dash (s # used) = last_dash (s = ''--'') used"
  by (simp add: last_dash_def)

definition runs :: "bool \<Rightarrow> flagset \<Rightarrow> string list \<Rightarrow> string list \<Rightarrow> flag_error + (flagset \<times> string list) \<Rightarrow> bool" where
  "runs dash fs args used r \<longleftrightarrow> (case r of
     Inl e \<Rightarrow> interleaved dash fs args = Inl e
   | Inr (fs', rest) \<Rightarrow> args = used @ rest \<and> interleaved dash fs args = resume (last_dash dash used) fs' rest)"

lemma fs_parse_runs: "\<exists>used. runs dash fs args used (fs_parse fs args)"
proof (induction fs args arbitrary: dash rule: fs_parse.induct)
  case (1 fs)
  show ?case by (auto simp: resume_def runs_def)
next
  case (2 fs s args)
  show ?case
  proof (cases "token_of s")
    case Positional
    then show ?thesis by (auto simp: resume_def last_dash_def runs_def intro!: exI [of _ "[]"])
  next
    case Stop
    then have "s = ''--''" by (simp add: token_Stop)
    with Stop show ?thesis by (auto simp: resume_def last_dash_def runs_def intro!: exI [of _ "[''--'']"])
  next
    case Malformed
    then show ?thesis by (simp add: runs_def)
  next
    case (Flag name val)
    have ns: "s \<noteq> ''--''" using Flag token_Stop [of s] by auto
    show ?thesis
    proof (cases "take_flag fs name val (next_of args)")
      case (Taken fs')
      from "2.IH"(1) [OF Flag Taken, of False] obtain used where "runs False fs' args used (fs_parse fs' args)" by blast
      then have "runs dash fs (s # args) (s # used) (fs_parse fs' args)"
        using Flag Taken ns by (auto simp: runs_def split: sum.splits prod.splits)
      with Flag Taken show ?thesis by auto
    next
      case (TakenWith fs')
      then obtain a as where a: "args = a # as" using TakenWith_next by (fastforce split: list.splits)
      from "2.IH"(2) [OF Flag TakenWith, of "a = ''--''"] obtain used where
        "runs (a = ''--'') fs' as used (fs_parse fs' as)" unfolding a by auto
      then have "runs dash fs (s # a # as) (s # a # used) (fs_parse fs' as)"
        using Flag TakenWith a by (auto simp: runs_def split: sum.splits prod.splits)
      with Flag TakenWith a show ?thesis by auto
    qed (use Flag in \<open>simp add: runs_def\<close>)
  qed
qed

lemma parse_loop_runs:
  "parse_loop fs args pos = Some (map_sum id (\<lambda>(g, ps). (g, pos @ ps)) (interleaved False fs args))"
proof (induction "length args" arbitrary: fs args pos rule: less_induct)
  case less
  show ?case
  proof (cases "args = []")
    case True
    then show ?thesis by (simp add: parse_loop.simps)
  next
    case False
    show ?thesis
    proof (cases "fs_parse fs args")
      case (Inl e)
      with fs_parse_runs [of False fs args] False show ?thesis by (simp add: parse_loop.simps runs_def)
    next
      case (Inr x)
      obtain fs' rest where x: "x = (fs', rest)" by (cases x)
      from fs_parse_runs [of False fs args] Inr x obtain used where
        u: "args = used @ rest" "interleaved False fs args = resume (last_dash False used) fs' rest" by (auto simp: runs_def)
      have last: "0 < length args - length rest \<and> args ! (length args - length rest - 1) = ''--'' \<longleftrightarrow> last_dash False used"
        using u(1) by (auto simp: last_dash_def last_conv_nth nth_append)
      show ?thesis
      proof (cases "rest = []")
        case True
        with Inr x u False show ?thesis by (simp add: parse_loop.simps resume_def)
      next
        case ne: False
        then have "length (tl rest) < length args" using u(1) by (cases rest) auto
        note IH = less [OF this]
        have rest: "hd rest # tl rest = rest" using ne by simp
        show ?thesis
          using Inr x u(2) ne False last rest unfolding parse_loop.simps [of fs args] Let_def
          by (cases "interleaved False fs' (tl rest)") (auto simp: IH resume_def)
      qed
    qed
  qed
qed

lemma parseFlags_run: "parseFlags fs args = Some (interleaved False fs args)"
  by (cases "interleaved False fs args") (auto simp: parseFlags_def parse_loop_runs token_of_def)

text \<open>C32. \<open>parseFlags\<close> always returns, and it reads its arguments in one pass: every flag wherever it stands
  sets its value, the other arguments are the positional ones in their order, and the first error is the
  result.  Everything behind \<open>--\<close> is positional; so is everything from a positional argument on that follows a
  flag whose value was given as a separate \<open>--\<close>.\<close>

theorem parseFlags_returns:
  "parseFlags fs args = Some (interleaved False fs args)"
  by (rule parseFlags_run)

section \<open>Flags may follow the positional arguments\<close>

text \<open>The words of one flag: the flag alone, or with the argument it takes.\<close>

definition sets_flag :: "flagset \<Rightarrow> string list \<Rightarrow> flagset option" where
  "sets_flag fs ws = (case ws of
      [s] \<Rightarrow> (case token_of s of Flag name val \<Rightarrow>
          (case take_flag fs name val None of Taken fs' \<Rightarrow> Some fs' | _ \<Rightarrow> None) | _ \<Rightarrow> None)
    | [s, v] \<Rightarrow> (case token_of s of Flag name val \<Rightarrow>
          (case take_flag fs name val (Some v) of TakenWith fs' \<Rightarrow> if v = ''--'' then None else Some fs' | _ \<Rightarrow> None)
        | _ \<Rightarrow> None)
    | _ \<Rightarrow> None)"

lemma take_flag_alone:
  assumes "take_flag fs name val None = Taken fs'"
  shows "take_flag fs name val nxt = Taken fs'"
proof -
  from assms obtain old where "map_of fs name = Some old" by (cases "map_of fs name") (simp_all add: take_flag_def)
  with assms show ?thesis by (cases val) (simp_all add: take_flag_def split: if_splits)
qed

lemma sets_flag_cases:
  assumes "sets_flag fs ws = Some fs'"
  obtains s name val where "ws = [s]" "token_of s = Flag name val" "take_flag fs name val None = Taken fs'"
  | s v name val where "ws = [s, v]" "token_of s = Flag name val" "v \<noteq> ''--''" "take_flag fs name val (Some v) = TakenWith fs'"
proof (cases ws rule: remdups_adj.cases)
  case 1
  with assms show ?thesis by (simp add: sets_flag_def)
next
  case (2 s)
  with assms that(1) show ?thesis by (simp add: sets_flag_def split: token.splits taken.splits)
next
  case (3 s v vs)
  with assms that(2) show ?thesis
    by (cases vs) (simp_all add: sets_flag_def split: token.splits taken.splits if_splits)
qed

lemma interleaved_flag:
  assumes "sets_flag fs ws = Some fs'"
  shows "interleaved False fs (ws @ args) = interleaved False fs' args"
  using assms
proof (rule sets_flag_cases)
  fix s name val assume "ws = [s]" "token_of s = Flag name val" and t: "take_flag fs name val None = Taken fs'"
  with take_flag_alone [OF t, of "next_of args"] show ?thesis by simp
qed simp

lemma interleaved_positional:
  assumes "\<forall>p \<in> set ps. token_of p = Positional"
  shows "interleaved False fs (ps @ args) = map_sum id (\<lambda>(g, pos). (g, ps @ pos)) (interleaved False fs args)"
  using assms
proof (induction ps)
  case Nil
  show ?case by (cases "interleaved False fs args") simp_all
next
  case (Cons p ps)
  then show ?case by (cases "interleaved False fs args") (simp_all split: prod.splits)
qed

text \<open>What the loop is for: a flag may stand before or behind positional arguments, with the same
  result.\<close>

theorem parseFlags_anywhere:
  assumes "\<forall>p \<in> set ps. token_of p = Positional" and "sets_flag fs ws = Some fs'"
  shows "parseFlags fs (ps @ ws @ args) = parseFlags fs (ws @ ps @ args)"
  using assms(1) by (simp add: parseFlags_run interleaved_positional interleaved_flag [OF assms(2)])

theorem parseFlags_anywhere_witness:
  "parseFlags [(''proto'', StrV ''tcp'')] [''web'', ''8080'', ''--proto'', ''udp'']
     = parseFlags [(''proto'', StrV ''tcp'')] [''--proto'', ''udp'', ''web'', ''8080'']"
  using parseFlags_anywhere [of "[''web'', ''8080'']" "[(''proto'', StrV ''tcp'')]" "[''--proto'', ''udp'']" _ "[]"]
  by (simp add: token_of_def sets_flag_def split_flag_def cut_at_def take_flag_def assign_def set_flag_def is_BoolV_def)

end
