(* ===== verification/Terminal.thy ===== *)
theory Terminal
  imports Flags TotpApi AdminApi Agent Nft
begin

text \<open>
  The ground of \<open>internal/cli\<close>: a command runs on the database, the firewall, the backup directory and
  what it prints, and returns an error or none.  The command monad ends early with \<open>return err\<close>
  (\<open>Inl (Some e)\<close>) or \<open>return nil\<close> (\<open>Inl None\<close>).  An error is a constructor for the message, with
  the values the message shows.  Standard error and the log are not modelled.
\<close>

datatype cli_error =
    Usage string
  | FlagFailed flag_error
  | BadName string string
  | NotInteger string
  | OutOfRange int
  | BadProto string
  | ConfigFailed config_error
  | OpenFailed string string
  | InitFailed dberr
  | RandFailed
  | DbFailed dberr
  | CreateFailed string string dberr
  | FwFailed fwerr
  | BackendInit fwerr
  | BaseFailed fwerr
  | NotFound string string
  | Unknown string string
  | BackupFailed string
  | BadHub string
  | PlainHub string
  | NotHttps string
  | Exclusive
  | CaFailed string
  | BadAllowPort string

record 's "term" =
  tm_db :: "db \<times> bool list"
  tm_fw :: 's
  tm_files :: "string list"
  tm_out :: string

text \<open>The environment: reading and unmarshalling the configuration, \<open>db.Open\<close> and \<open>db.Init\<close> (the error, and
  whether the database was just created), the constructors of the backends, the clock, 32 random bytes,
  \<open>time.Unix(t, 0)\<close> in the host's time zone, and the steps of a backup outside the program.\<close>

record 's cenv =
  ce_read :: "string \<Rightarrow> string option"
  ce_yaml :: "string \<Rightarrow> config \<Rightarrow> config option"
  ce_open :: "string option"
  ce_init :: "dberr option"
  ce_fresh :: bool
  ce_none :: "'s backend"
  ce_ufw :: "string \<Rightarrow> fwerr + 's backend"
  ce_nft :: "nft_config \<Rightarrow> fwerr + 's backend"
  ce_now :: int
  ce_rand :: "nat list option"
  ce_local :: "int \<Rightarrow> string"
  ce_stamp :: string
  ce_mkdir :: "string option"
  ce_vacuum :: "string + string"
  ce_remove :: "string \<Rightarrow> bool"

type_synonym ('s, 'a) cm = "'s term \<Rightarrow> (cli_error option + 'a) \<times> 's term"

definition cret :: "'a \<Rightarrow> ('s, 'a) cm" where
  "cret a s = (Inr a, s)"

definition fail :: "cli_error \<Rightarrow> ('s, 'a) cm" where
  "fail e s = (Inl (Some e), s)"

definition finish :: "('s, 'a) cm" where
  "finish s = (Inl None, s)"

definition cb :: "('s, 'a) cm \<Rightarrow> ('a \<Rightarrow> ('s, 'b) cm) \<Rightarrow> ('s, 'b) cm" where
  "cb m f s = (case m s of (Inl e, s') \<Rightarrow> (Inl e, s') | (Inr a, s') \<Rightarrow> f a s')"

definition check :: "bool \<Rightarrow> cli_error \<Rightarrow> ('s, unit) cm" where
  "check b e = (if b then cret () else fail e)"

definition say :: "string \<Rightarrow> ('s, unit) cm" where
  "say txt s = (Inr (), s\<lparr>tm_out := tm_out s @ txt\<rparr>)"

definition cdb :: "'a dbm \<Rightarrow> ('s, dberr + 'a) cm" where
  "cdb m s = (case m (tm_db s) of (r, d) \<Rightarrow> (Inr r, s\<lparr>tm_db := d\<rparr>))"

text \<open>A database call whose error ends the command.\<close>

definition ctry :: "(dberr \<Rightarrow> cli_error) \<Rightarrow> 'a dbm \<Rightarrow> ('s, 'a) cm" where
  "ctry f m = cb (cdb m) (\<lambda>r. case r of Inl e \<Rightarrow> fail (f e) | Inr a \<Rightarrow> cret a)"

definition cfw :: "('s \<Rightarrow> 'a \<times> 's) \<Rightarrow> ('s, 'a) cm" where
  "cfw f s = (case f (tm_fw s) of (r, w) \<Rightarrow> (Inr r, s\<lparr>tm_fw := w\<rparr>))"

definition run_cli :: "('s, unit) cm \<Rightarrow> 's term \<Rightarrow> cli_error option \<times> 's term" where
  "run_cli h s = (case h s of (Inl r, s') \<Rightarrow> (r, s') | (Inr _, s') \<Rightarrow> (None, s'))"

section \<open>Printing\<close>

abbreviation nl :: string where "nl \<equiv> [CHR 10]"

text \<open>Widths of \<open>%-20s\<close> count runes: \<open>utf8.RuneCountInString\<close>, which takes a byte that begins no valid
  encoding as a rune of its own.\<close>

definition cont :: "string \<Rightarrow> nat \<Rightarrow> nat \<Rightarrow> nat \<Rightarrow> bool" where
  "cont s i lo hi \<longleftrightarrow> i < length s \<and> lo \<le> byte (s ! i) \<and> byte (s ! i) \<le> hi"

definition rune_len :: "string \<Rightarrow> nat" where
  "rune_len s = (if s = [] then 1 else let b = byte (hd s) in
     if 194 \<le> b \<and> b \<le> 223 \<and> cont s 1 128 191 then 2
     else if 224 \<le> b \<and> b \<le> 239 \<and> cont s 1 (if b = 224 then 160 else 128) (if b = 237 then 159 else 191) \<and>
       cont s 2 128 191 then 3
     else if 240 \<le> b \<and> b \<le> 244 \<and> cont s 1 (if b = 240 then 144 else 128) (if b = 244 then 143 else 191) \<and>
       cont s 2 128 191 \<and> cont s 3 128 191 then 4
     else 1)"

function rune_count :: "string \<Rightarrow> nat" where
  "rune_count s = (if s = [] then 0 else 1 + rune_count (drop (rune_len s) s))"
  by pat_completeness auto
termination by (relation "measure length") (auto simp: rune_len_def Let_def)

declare rune_count.simps [simp del]

definition pad_left :: "nat \<Rightarrow> string \<Rightarrow> string" where
  "pad_left n s = replicate (n - rune_count s) CHR '' '' @ s"

definition pad_right :: "nat \<Rightarrow> string \<Rightarrow> string" where
  "pad_right n s = s @ replicate (n - rune_count s) CHR '' ''"

definition bool_text :: "bool \<Rightarrow> string" where
  "bool_text b = (if b then ''true'' else ''false'')"

definition strOr :: "string option \<Rightarrow> string \<Rightarrow> string" where
  "strOr p fallback = (case p of None \<Rightarrow> fallback | Some s \<Rightarrow> if s = [] then fallback else s)"

definition fmtKnock :: "'s cenv \<Rightarrow> int option \<Rightarrow> string" where
  "fmtKnock env ts = (case ts of None \<Rightarrow> ''never'' | Some t \<Rightarrow> ce_local env t)"

fun join_comma_loop :: "bool \<Rightarrow> string list \<Rightarrow> string \<Rightarrow> string" where
  "join_comma_loop first [] out = out"
| "join_comma_loop first (s # ss) out = join_comma_loop False ss ((if first then out else out @ '', '') @ s)"

definition joinComma :: "string list \<Rightarrow> string" where
  "joinComma ss = join_comma_loop True ss []"

lemma joinComma_join: "joinComma ss = join '', '' ss"
proof -
  have *: "join_comma_loop False ss (out @ s) = out @ join '', '' (s # ss)" for ss out s
  proof (induction ss arbitrary: out s)
    case (Cons a ss)
    from Cons.IH [of "out @ s @ '', ''" a] show ?case by simp
  qed simp
  from * [of _ "[]"] show ?thesis by (cases ss) (auto simp: joinComma_def)
qed

section \<open>Shared helpers\<close>

definition with_flags :: "flagset \<Rightarrow> string list \<Rightarrow> (flagset \<Rightarrow> string list \<Rightarrow> ('s, 'a) cm) \<Rightarrow> ('s, 'a) cm" where
  "with_flags fs args k = (case the (parseFlags fs args) of
      Inl e \<Rightarrow> fail (FlagFailed e)
    | Inr (fs', pos) \<Rightarrow> k fs' pos)"

definition cli_genSecret :: "'s cenv \<Rightarrow> ('s, string) cm" where
  "cli_genSecret env = (case ce_rand env of None \<Rightarrow> fail RandFailed | Some b \<Rightarrow> cret (hex_encode b))"

definition minSeedSecret :: nat where
  "minSeedSecret = 32"

fun seed_loop :: "'s cenv \<Rightarrow> (string \<times> string) list \<Rightarrow> ('s, unit) cm" where
  "seed_loop env [] = cret ()"
| "seed_loop env ((name, secret) # us) =
     (if secret = [] then seed_loop env us
      else if \<not> ValidName name then seed_loop env us
      else if length secret < minSeedSecret then seed_loop env us
      else cb (cdb (CreateUser (ce_now env) name secret False)) (\<lambda>_. seed_loop env us))"

definition seedUsers :: "'s cenv \<Rightarrow> config \<Rightarrow> ('s, unit) cm" where
  "seedUsers env cfg = (if c_users cfg = [] \<or> \<not> ce_fresh env then cret () else seed_loop env (c_users cfg))"

definition openDB :: "'s cenv \<Rightarrow> config \<Rightarrow> ('s, unit) cm" where
  "openDB env cfg = (case ce_open env of
      Some e \<Rightarrow> fail (OpenFailed (c_db_path cfg) e)
    | None \<Rightarrow> (case ce_init env of
        Some e \<Rightarrow> fail (InitFailed e)
      | None \<Rightarrow> seedUsers env cfg))"

definition load_config :: "'s cenv \<Rightarrow> string \<Rightarrow> ('s, config) cm" where
  "load_config env path = (case Load (ce_read env) (ce_yaml env) path of
      Inl e \<Rightarrow> fail (ConfigFailed e) | Inr cfg \<Rightarrow> cret cfg)"

definition loadCfgDB :: "'s cenv \<Rightarrow> string \<Rightarrow> ('s, config) cm" where
  "loadCfgDB env path = cb (load_config env path) (\<lambda>cfg. cb (openDB env cfg) (\<lambda>_. cret cfg))"

definition newBackend :: "'s cenv \<Rightarrow> config \<Rightarrow> fwerr + 's backend" where
  "newBackend env cfg =
     (if c_backend cfg = ''none'' then Inr (ce_none env)
      else if c_backend cfg = ''ufw'' then ce_ufw env (c_prefix cfg)
      else ce_nft env \<lparr>n_prefix = c_prefix cfg, n_table = c_nft_table cfg, n_chain = c_nft_chain cfg,
             n_priority = c_nft_priority cfg\<rparr>)"

text \<open>A manager is the backend, the database and the prefix: its construction fails with the backend's.\<close>

definition newManager :: "'s cenv \<Rightarrow> config \<Rightarrow> fwerr + 's backend" where
  "newManager env cfg = newBackend env cfg"

definition cli_audit :: "'s cenv \<Rightarrow> string \<Rightarrow> string \<Rightarrow> string \<Rightarrow> ('s, unit) cm" where
  "cli_audit env action target detail =
     cb (cdb (LogAudit (ce_now env) ''cli'' action (nullStr target) (nullStr detail))) (\<lambda>_. cret ())"

definition fwFailed :: "fwerr option \<Rightarrow> bool" where
  "fwFailed err = (case err of None \<Rightarrow> False | Some e \<Rightarrow> \<not> is_host_rule e)"

text \<open>One call of a manager the command builds for it.\<close>

definition with_manager :: "'s cenv \<Rightarrow> config \<Rightarrow> ('s backend \<Rightarrow> 's \<Rightarrow> fwerr option \<times> 's) \<Rightarrow> ('s, fwerr option) cm" where
  "with_manager env cfg f = (case newManager env cfg of Inl e \<Rightarrow> cret (Some e) | Inr be \<Rightarrow> cfw (f be))"

definition removeUserRules :: "'s cenv \<Rightarrow> config \<Rightarrow> string \<Rightarrow> ('s, bool) cm" where
  "removeUserRules env cfg user =
     cb (with_manager env cfg (\<lambda>be. RemoveUserRules be user)) (\<lambda>err. cret (err \<noteq> None))"

fun members_loop :: "int \<Rightarrow> user list \<Rightarrow> user list \<Rightarrow> user list dbm" where
  "members_loop gid [] out = ret out"
| "members_loop gid (u # us) out =
     (if u_ip u = None \<or> u_ip u = Some [] then members_loop gid us out
      else bnd (GetUserGroups (u_id u) False) (\<lambda>gs.
        members_loop gid us (if \<exists>g \<in> set gs. g_id g = gid then out @ [u] else out)))"

definition groupMembersWithIP :: "int \<Rightarrow> user list dbm" where
  "groupMembersWithIP gid = bnd ListUsers (\<lambda>us. members_loop gid us [])"

text \<open>\<open>filepath.Join\<close> and \<open>filepath.Clean\<close> on Unix.\<close>

fun clean_elems :: "bool \<Rightarrow> string list \<Rightarrow> string list \<Rightarrow> string list" where
  "clean_elems rooted out [] = rev out"
| "clean_elems rooted out (e # es) =
     (if e = [] \<or> e = ''.'' then clean_elems rooted out es
      else if e = ''..'' then
        (if out \<noteq> [] \<and> hd out \<noteq> ''..'' then clean_elems rooted (tl out) es
         else if rooted then clean_elems rooted out es
         else clean_elems rooted (e # out) es)
      else clean_elems rooted (e # out) es)"

definition path_clean :: "string \<Rightarrow> string" where
  "path_clean p = (let rooted = (p \<noteq> [] \<and> hd p = CHR ''/'');
       es = clean_elems rooted [] (split_on CHR ''/'' p)
     in if rooted then CHR ''/'' # join ''/'' es else if es = [] then ''.'' else join ''/'' es)"

definition path_join :: "string \<Rightarrow> string \<Rightarrow> string" where
  "path_join dir name = (if dir = [] then path_clean name else path_clean (dir @ ''/'' @ name))"

end
