(* ===== verification/Cli.thy ===== *)
theory Cli
  imports Terminal
begin

text \<open>
  \<open>internal/cli/cli.go\<close>: the management commands over users, groups, rules and backups.  Each has its flags,
  its checks, and the database and firewall calls in the order of the code.
\<close>

section \<open>Secrets and users\<close>

definition CmdGenSecret :: "'s cenv \<Rightarrow> string list \<Rightarrow> ('s, unit) cm" where
  "CmdGenSecret env args = with_flags [] args (\<lambda>_ pos.
     let username = (if pos \<noteq> [] then pos ! 0 else ''<username>'') in
     cb (cli_genSecret env) (\<lambda>secret.
     say (''Generated secret for '' @ [CHR 39] @ username @ [CHR 39] @ '':'' @ nl @ nl @
          ''  '' @ secret @ nl @ nl @ ''Add to config.yaml:'' @ nl @ nl @ ''  users:'' @ nl @
          ''    '' @ username @ '':'' @ nl @ ''      secret: \"'' @ secret @ ''\"'' @ nl @
          nl @ ''Client config.yaml:'' @ nl @ nl @ ''  username: \"'' @ username @ ''\"'' @ nl @
          ''  secret: \"'' @ secret @ ''\"'' @ nl)))"

text \<open>Text in single quotes, as the messages have it.\<close>

definition sq :: "string \<Rightarrow> string" where
  "sq s = [CHR 39] @ s @ [CHR 39]"

definition CmdUserAdd :: "'s cenv \<Rightarrow> string \<Rightarrow> string list \<Rightarrow> ('s, unit) cm" where
  "CmdUserAdd env path args = with_flags [(''admin'', BoolV False)] args (\<lambda>fs pos.
     cb (check (1 \<le> length pos) (Usage ''user-add <username> [--admin]'')) (\<lambda>_.
     let username = pos ! 0; admin = bool_flag fs ''admin'' in
     cb (check (ValidName username) (BadName ''username'' username)) (\<lambda>_.
     cb (loadCfgDB env path) (\<lambda>_.
     cb (cli_genSecret env) (\<lambda>secret.
     cb (ctry (CreateFailed ''user'' username) (CreateUser (ce_now env) username secret admin)) (\<lambda>_.
     cb (say (''Created user '' @ sq username @ '' with secret: '' @ secret @ nl)) (\<lambda>_.
     cli_audit env ''user_add'' username (''is_admin='' @ bool_text admin))))))))"

definition not_found :: "string \<Rightarrow> string \<Rightarrow> ('s, 'a) cm" where
  "not_found kind name = cb (say (kind @ '' '' @ sq name @ '' not found.'' @ nl)) (\<lambda>_. finish)"

definition cli_user :: "string \<Rightarrow> ('s, user) cm" where
  "cli_user username = cb (ctry DbFailed (GetUserByUsername username)) (\<lambda>u.
     case u of None \<Rightarrow> not_found ''User'' username | Some user \<Rightarrow> cret user)"

definition cli_group :: "string \<Rightarrow> ('s, grp) cm" where
  "cli_group name = cb (ctry DbFailed (GetGroupByName name)) (\<lambda>g.
     case g of None \<Rightarrow> not_found ''Group'' name | Some grp \<Rightarrow> cret grp)"

definition CmdUserDel :: "'s cenv \<Rightarrow> string \<Rightarrow> string list \<Rightarrow> ('s, unit) cm" where
  "CmdUserDel env path args = with_flags [] args (\<lambda>_ pos.
     cb (check (1 \<le> length pos) (Usage ''user-del <username>'')) (\<lambda>_.
     let username = pos ! 0 in
     cb (loadCfgDB env path) (\<lambda>cfg.
     cb (cli_user username) (\<lambda>user.
     cb (removeUserRules env cfg username) (\<lambda>_.
     cb (ctry DbFailed (DeleteUser (u_id user))) (\<lambda>_.
     cb (cli_audit env ''user_del'' username []) (\<lambda>_.
     say (''Deleted user '' @ sq username @ ''.'' @ nl))))))))"

definition user_line :: "'s cenv \<Rightarrow> user \<Rightarrow> string" where
  "user_line env u = pad_left 4 (itoa (u_id u)) @ ''  '' @ pad_right 20 (u_name u) @ ''  '' @
     pad_right 5 (if u_admin u then ''Yes'' else ''No'') @ ''  '' @ pad_right 16 (strOr (u_ip u) ''(none)'') @ ''  '' @
     fmtKnock env (u_knock u) @ nl"

definition CmdUserList :: "'s cenv \<Rightarrow> string \<Rightarrow> string list \<Rightarrow> ('s, unit) cm" where
  "CmdUserList env path args = with_flags [] args (\<lambda>_ pos.
     cb (loadCfgDB env path) (\<lambda>_.
     cb (ctry DbFailed ListUsers) (\<lambda>us.
     if us = [] then say (''No users found.'' @ nl)
     else say (pad_left 4 ''ID'' @ ''  '' @ pad_right 20 ''Username'' @ ''  '' @ pad_right 5 ''Admin'' @ ''  '' @
            pad_right 16 ''Current IP'' @ ''  '' @ ''Last Knock'' @ nl @ concat (map (user_line env) us)))))"

section \<open>Groups\<close>

text \<open>The checks of \<open>group-add\<close> and \<open>group-target add\<close>.\<close>

definition port_arg :: "string \<Rightarrow> ('s, int) cm" where
  "port_arg s = (case parse_int64 s of
      None \<Rightarrow> fail (NotInteger s)
    | Some port \<Rightarrow> cb (check (\<not> (port < 1 \<or> port > 65535)) (OutOfRange port)) (\<lambda>_. cret port))"

definition proto_arg :: "string \<Rightarrow> ('s, unit) cm" where
  "proto_arg proto = check (\<not> (proto \<noteq> ''tcp'' \<and> proto \<noteq> ''udp'')) (BadProto proto)"

definition port_text :: "int \<Rightarrow> string \<Rightarrow> string" where
  "port_text port proto = itoa port @ ''/'' @ proto"

definition CmdGroupAdd :: "'s cenv \<Rightarrow> string \<Rightarrow> string list \<Rightarrow> ('s, unit) cm" where
  "CmdGroupAdd env path args = with_flags [(''proto'', StrV ''tcp'')] args (\<lambda>fs pos.
     cb (check (2 \<le> length pos) (Usage ''group-add <name> <port> [--proto tcp]'')) (\<lambda>_.
     let name = pos ! 0; proto = str_flag fs ''proto'' in
     cb (port_arg (pos ! 1)) (\<lambda>port.
     cb (check (ValidName name) (BadName ''group name'' name)) (\<lambda>_.
     cb (proto_arg proto) (\<lambda>_.
     cb (loadCfgDB env path) (\<lambda>_.
     cb (ctry DbFailed (GetGroupByPortProto port proto)) (\<lambda>dup.
     case dup of
       Some g \<Rightarrow> cb (say (''Port '' @ port_text port proto @ '' is already used by group '' @ sq (g_name g) @ ''.'' @ nl)) (\<lambda>_. finish)
     | None \<Rightarrow>
         cb (ctry (CreateFailed ''group'' name) (CreateGroup (ce_now env) name port proto)) (\<lambda>_.
         cb (say (''Created group '' @ sq name @ '' (port '' @ port_text port proto @ '')'' @ nl)) (\<lambda>_.
         cli_audit env ''group_add'' name (''port='' @ itoa port @ '' proto='' @ proto))))))))))"

text \<open>The rules of the members go one by one; a failure is reported, not fatal.\<close>

fun remove_members :: "'s cenv \<Rightarrow> config \<Rightarrow> grp \<Rightarrow> user list \<Rightarrow> ('s, unit) cm" where
  "remove_members env cfg g [] = cret ()"
| "remove_members env cfg g (m # ms) =
     cb (with_manager env cfg (\<lambda>be. manager_RemoveRule be (the (u_ip m)) (g_port g) (u_name m) (g_proto g) (g_name g))) (\<lambda>_.
     remove_members env cfg g ms)"

definition CmdGroupDel :: "'s cenv \<Rightarrow> string \<Rightarrow> string list \<Rightarrow> ('s, unit) cm" where
  "CmdGroupDel env path args = with_flags [] args (\<lambda>_ pos.
     cb (check (1 \<le> length pos) (Usage ''group-del <name>'')) (\<lambda>_.
     let name = pos ! 0 in
     cb (loadCfgDB env path) (\<lambda>cfg.
     cb (cli_group name) (\<lambda>grp.
     cb (ctry DbFailed (groupMembersWithIP (g_id grp))) (\<lambda>ms.
     cb (remove_members env cfg grp ms) (\<lambda>_.
     cb (ctry DbFailed (DeleteGroup (g_id grp))) (\<lambda>_.
     cb (cli_audit env ''group_del'' name []) (\<lambda>_.
     say (''Deleted group '' @ sq name @ ''.'' @ nl)))))))))"

definition group_line :: "grp \<Rightarrow> string" where
  "group_line g = pad_left 4 (itoa (g_id g)) @ ''  '' @ pad_right 20 (g_name g) @ ''  '' @
     pad_left 5 (itoa (g_port g)) @ ''  '' @ g_proto g @ nl"

definition CmdGroupList :: "'s cenv \<Rightarrow> string \<Rightarrow> string list \<Rightarrow> ('s, unit) cm" where
  "CmdGroupList env path args = with_flags [] args (\<lambda>_ pos.
     cb (loadCfgDB env path) (\<lambda>_.
     cb (ctry DbFailed ListGroups) (\<lambda>gs.
     if gs = [] then say (''No groups found.'' @ nl)
     else say (pad_left 4 ''ID'' @ ''  '' @ pad_right 20 ''Name'' @ ''  '' @ pad_left 5 ''Port'' @ ''  '' @ ''Proto'' @ nl @
            concat (map group_line gs)))))"

section \<open>Memberships and administrators\<close>

definition has_current_ip :: "user \<Rightarrow> bool" where
  "has_current_ip u \<longleftrightarrow> u_ip u \<noteq> None \<and> u_ip u \<noteq> Some []"

definition CmdUserJoin :: "'s cenv \<Rightarrow> string \<Rightarrow> string list \<Rightarrow> ('s, unit) cm" where
  "CmdUserJoin env path args = with_flags [] args (\<lambda>_ pos.
     cb (check (2 \<le> length pos) (Usage ''user-join <username> <groupname>'')) (\<lambda>_.
     let username = pos ! 0; groupname = pos ! 1 in
     cb (loadCfgDB env path) (\<lambda>cfg.
     cb (cli_user username) (\<lambda>user.
     cb (cli_group groupname) (\<lambda>grp.
     cb (ctry DbFailed (AddMembership (ce_now env) (u_id user) (g_id grp) True)) (\<lambda>_.
     cb (if has_current_ip user
         then with_manager env cfg (\<lambda>be. manager_AddRule be (the (u_ip user)) (g_port grp) username (g_proto grp) (g_name grp))
         else cret None) (\<lambda>_.
     cb (cli_audit env ''user_join'' username groupname) (\<lambda>_.
     say (''Added '' @ sq username @ '' to group '' @ sq groupname @ ''.'' @ nl)))))))))"

definition CmdUserLeave :: "'s cenv \<Rightarrow> string \<Rightarrow> string list \<Rightarrow> ('s, unit) cm" where
  "CmdUserLeave env path args = with_flags [] args (\<lambda>_ pos.
     cb (check (2 \<le> length pos) (Usage ''user-leave <username> <groupname>'')) (\<lambda>_.
     let username = pos ! 0; groupname = pos ! 1 in
     cb (loadCfgDB env path) (\<lambda>cfg.
     cb (cli_user username) (\<lambda>user.
     cb (cli_group groupname) (\<lambda>grp.
     cb (if has_current_ip user
         then with_manager env cfg (\<lambda>be. manager_RemoveRule be (the (u_ip user)) (g_port grp) username (g_proto grp) (g_name grp))
         else cret None) (\<lambda>_.
     cb (ctry DbFailed (RemoveMembership (u_id user) (g_id grp))) (\<lambda>_.
     cb (cli_audit env ''user_leave'' username groupname) (\<lambda>_.
     say (''Removed '' @ sq username @ '' from group '' @ sq groupname @ ''.'' @ nl)))))))))"

definition CmdAdminAdd :: "'s cenv \<Rightarrow> string \<Rightarrow> string list \<Rightarrow> ('s, unit) cm" where
  "CmdAdminAdd env path args = with_flags [] args (\<lambda>_ pos.
     cb (check (1 \<le> length pos) (Usage ''admin-add <username>'')) (\<lambda>_.
     let username = pos ! 0 in
     cb (loadCfgDB env path) (\<lambda>_.
     cb (cli_user username) (\<lambda>user.
     cb (ctry DbFailed (SetUserAdmin (u_id user) True)) (\<lambda>_.
     cb (cli_audit env ''admin_add'' username []) (\<lambda>_.
     say (''Granted admin privileges to '' @ sq username @ ''.'' @ nl)))))))"

section \<open>Revocation, listing, cleanup\<close>

definition revoke_text :: "bool \<Rightarrow> string \<Rightarrow> string" where
  "revoke_text left username = (if left
     then ''Revoked '' @ sq username @ '' and cleared its runtime state; a running '' @ sq ''nft-okboy serve'' @
       '' removes the firewall rules above within 30 seconds once the firewall accepts changes.'' @ nl
     else ''Revoked '' @ sq username @ '': its firewall rules removed, runtime state cleared.'' @ nl)"

definition CmdRevoke :: "'s cenv \<Rightarrow> string \<Rightarrow> string list \<Rightarrow> ('s, unit) cm" where
  "CmdRevoke env path args = with_flags [(''no-rotate'', BoolV False)] args (\<lambda>fs pos.
     cb (check (1 \<le> length pos) (Usage ''revoke <username> [--no-rotate]'')) (\<lambda>_.
     let username = pos ! 0; noRotate = bool_flag fs ''no-rotate'' in
     cb (loadCfgDB env path) (\<lambda>cfg.
     cb (cli_user username) (\<lambda>user.
     cb (removeUserRules env cfg username) (\<lambda>left.
     cb (ctry DbFailed (ClearUserState (u_id user))) (\<lambda>_.
     cb (if noRotate then cret []
         else cb (cli_genSecret env) (\<lambda>secret.
              cb (ctry DbFailed (RotateSecret (u_id user) secret)) (\<lambda>_. cret secret))) (\<lambda>newSecret.
     cb (cli_audit env ''revoke'' username (''rotate='' @ bool_text (\<not> noRotate))) (\<lambda>_.
     cb (say (revoke_text left username)) (\<lambda>_.
     if newSecret \<noteq> [] then say (''New secret (deliver to the user out-of-band): '' @ newSecret @ nl)
     else cret ())))))))))"

definition rule_line :: "rule \<Rightarrow> string" where
  "rule_line r = ''  '' @ pad_right 16 (r_ip r) @ '' -> '' @ port_text (r_port r) (r_proto r) @ ''  ['' @ r_comment r @ '']'' @ nl"

definition CmdList :: "'s cenv \<Rightarrow> string \<Rightarrow> string list \<Rightarrow> ('s, unit) cm" where
  "CmdList env path args = with_flags [] args (\<lambda>_ pos.
     cb (loadCfgDB env path) (\<lambda>cfg.
     case newManager env cfg of Inl e \<Rightarrow> fail (FwFailed e) | Inr be \<Rightarrow>
     cb (cfw (be_ListManaged be)) (\<lambda>r.
     case r of Inl e \<Rightarrow> fail (FwFailed e) | Inr rules \<Rightarrow>
     cb (say (''=== Managed Firewall Rules ==='' @ nl)) (\<lambda>_.
     if rules = [] then say (''  (none)'' @ nl) else say (concat (map rule_line rules))))))"

text \<open>\<open>*maxAge*86400\<close> wraps around at 64 bits.\<close>

definition wrap64 :: "int \<Rightarrow> int" where
  "wrap64 n = (n + 2 ^ 63) mod 2 ^ 64 - 2 ^ 63"

definition cli_CleanupStale :: "'s cenv \<Rightarrow> 's backend \<Rightarrow> int \<Rightarrow> (string \<Rightarrow> group_port list) \<Rightarrow> ('s, string list) cm" where
  "cli_CleanupStale env be maxAge ugp s = (case CleanupStale be (ce_now env) maxAge ugp (tm_fw s) (tm_db s) of
      ((removed, err), w, d) \<Rightarrow> (case err of
          Some e \<Rightarrow> (Inl (Some (DbFailed e)), s\<lparr>tm_fw := w, tm_db := d\<rparr>)
        | None \<Rightarrow> (Inr removed, s\<lparr>tm_fw := w, tm_db := d\<rparr>)))"

definition CmdCleanup :: "'s cenv \<Rightarrow> string \<Rightarrow> string list \<Rightarrow> ('s, unit) cm" where
  "CmdCleanup env path args = with_flags [(''max-age'', IntV 7)] args (\<lambda>fs pos.
     cb (loadCfgDB env path) (\<lambda>cfg.
     case newManager env cfg of Inl e \<Rightarrow> fail (FwFailed e) | Inr be \<Rightarrow>
     cb (ctry DbFailed GetAllUserGroupPorts) (\<lambda>ugp.
     cb (cli_CleanupStale env be (wrap64 (int_flag fs ''max-age'' * 86400)) ugp) (\<lambda>removed.
     if removed \<noteq> []
     then say (''Cleaned up '' @ itoa (int (length removed)) @ '' stale user(s): '' @ joinComma removed @ nl)
     else say (''No stale rules found.'' @ nl)))))"

section \<open>Backups\<close>

text \<open>\<open>tm_files\<close> are the names in the backup directory.  \<open>Glob\<close> finds the backups, sorted by name.\<close>

definition is_backup :: "string \<Rightarrow> bool" where
  "is_backup f \<longleftrightarrow> has_prefix ''nft-okboy-'' f \<and> has_prefix (rev ''.db'') (rev (drop (length ''nft-okboy-'') f)) \<and> CHR ''/'' \<notin> set f"

fun prune_loop :: "'s cenv \<Rightarrow> string list \<Rightarrow> ('s, unit) cm" where
  "prune_loop env [] s = (Inr (), s)"
| "prune_loop env (old # olds) s =
     (if ce_remove env old
      then prune_loop env olds (s\<lparr>tm_files := filter (\<lambda>f. f \<noteq> old \<and> \<not> (f = old @ ''.sha256'' \<and> ce_remove env f)) (tm_files s),
             tm_out := tm_out s @ ''Pruned old backup: '' @ old @ nl\<rparr>)
      else prune_loop env olds s)"

definition pruneBackups :: "'s cenv \<Rightarrow> int \<Rightarrow> ('s, unit) cm" where
  "pruneBackups env keep s = (let ms = sort (filter is_backup (tm_files s)) in
     if keep \<le> 0 \<or> int (length ms) \<le> keep then (Inr (), s)
     else prune_loop env (take (length ms - nat keep) ms) s)"

text \<open>\<open>db.Backup\<close>: the file is created, which fails when it exists; the copy (\<open>VACUUM INTO\<close> and the
  reading back, of which the digest is the result) may fail; the checksum file is written beside it.\<close>

definition db_backup :: "'s cenv \<Rightarrow> string \<Rightarrow> ('s, string + string) cm" where
  "db_backup env base s =
     (if base \<in> set (tm_files s) then (Inr (Inl ''file exists''), s)
      else (let s1 = s\<lparr>tm_files := base # tm_files s\<rparr> in
        case ce_vacuum env of
          Inl e \<Rightarrow> (Inr (Inl e), s1)
        | Inr digest \<Rightarrow> (Inr (Inr digest), s1\<lparr>tm_files := List.insert (base @ ''.sha256'') (tm_files s1)\<rparr>)))"

definition CmdBackup :: "'s cenv \<Rightarrow> string \<Rightarrow> string list \<Rightarrow> ('s, unit) cm" where
  "CmdBackup env path args = with_flags [(''dir'', StrV [])] args (\<lambda>fs pos.
     cb (loadCfgDB env path) (\<lambda>cfg.
     let backupDir = (if str_flag fs ''dir'' = [] then c_backup_dir cfg else str_flag fs ''dir'');
         base = ''nft-okboy-'' @ ce_stamp env @ ''.db'';
         dest = path_join backupDir base in
     case ce_mkdir env of Some e \<Rightarrow> fail (BackupFailed e) | None \<Rightarrow>
     cb (db_backup env base) (\<lambda>r.
     case r of Inl e \<Rightarrow> fail (BackupFailed e) | Inr digest \<Rightarrow>
     cb (say (''Backup written: '' @ dest @ nl)) (\<lambda>_.
     cb (say (''  sha256: '' @ digest @ nl)) (\<lambda>_.
     pruneBackups env (c_backup_keep cfg))))))"

definition totpIssuer :: string where
  "totpIssuer = ''nft-okboy''"

definition CmdTOTPURI :: "'s cenv \<Rightarrow> string \<Rightarrow> string list \<Rightarrow> ('s, unit) cm" where
  "CmdTOTPURI env path args = with_flags [] args (\<lambda>_ pos.
     cb (check (1 \<le> length pos) (Usage ''totp-uri <username>'')) (\<lambda>_.
     let username = pos ! 0 in
     cb (loadCfgDB env path) (\<lambda>_.
     cb (cli_user username) (\<lambda>user.
     case u_totp user of
       Some sec \<Rightarrow> if sec = [] then say (''User '' @ sq username @ '' has no TOTP secret enrolled.'' @ nl)
         else say (TOTPURI sec username totpIssuer @ nl)
     | None \<Rightarrow> say (''User '' @ sq username @ '' has no TOTP secret enrolled.'' @ nl)))))"

end
