(* ===== verification/CliNode.thy ===== *)
theory CliNode
  imports Cli
begin

text \<open>
  \<open>internal/cli/node.go\<close> (nodes and group targets), \<open>internal/cli/agent.go\<close> (the agent's arguments) and
  \<open>cmd/nft-okboy/main.go\<close> (the global flags and the dispatch).
\<close>

section \<open>Nodes\<close>

definition node_add_text :: "string \<Rightarrow> string \<Rightarrow> string" where
  "node_add_text name token = ''Created node '' @ sq name @ ''.'' @ nl @ nl @
     ''Enrollment token (shown ONCE '' @ map char_of [226, 128, 148 :: nat] @ '' configure the agent with it):'' @ nl @ nl @ ''  '' @ token @ nl @ nl @
     ''On the node, put it in /etc/nft-okboy/agent.env (mode 0600) and start the agent unit:'' @ nl @
     ''  NFT_OKBOY_HUB=https://<hub>/'' @ nl @ ''  NFT_OKBOY_NODE='' @ name @ nl @ ''  NFT_OKBOY_TOKEN='' @ token @ nl @
     ''(by hand: NFT_OKBOY_TOKEN=<token> nft-okboy agent --hub https://<hub>/ --node '' @ name @ '')'' @ nl"

definition CmdNodeAdd :: "'s cenv \<Rightarrow> string \<Rightarrow> string list \<Rightarrow> ('s, unit) cm" where
  "CmdNodeAdd env path args = with_flags [] args (\<lambda>_ pos.
     cb (check (1 \<le> length pos) (Usage ''node-add <name>'')) (\<lambda>_.
     let name = pos ! 0 in
     cb (check (ValidName name) (BadName ''node name'' name)) (\<lambda>_.
     cb (loadCfgDB env path) (\<lambda>_.
     cb (cli_genSecret env) (\<lambda>token.
     cb (ctry (CreateFailed ''node'' name) (CreateNode (ce_now env) name (HashToken token))) (\<lambda>_.
     cb (cli_audit env ''node_add'' name []) (\<lambda>_.
     say (node_add_text name token))))))))"

definition node_online :: "int \<Rightarrow> node \<Rightarrow> bool" where
  "node_online now n \<longleftrightarrow> (case n_seen n of None \<Rightarrow> False | Some t \<Rightarrow> now - t < 60)"

fun node_lines :: "'s cenv \<Rightarrow> node list \<Rightarrow> ('s, unit) cm" where
  "node_lines env [] = cret ()"
| "node_lines env (n # ns) =
     cb (cdb (DesiredStateForNode (n_id n))) (\<lambda>r.
     let rc = (case r of Inl e \<Rightarrow> 0 | Inr rules \<Rightarrow> length rules) in
     cb (say (pad_left 4 (itoa (n_id n)) @ ''  '' @ pad_right 16 (n_name n) @ ''  '' @
       pad_right 6 (if node_online (ce_now env) n then ''yes'' else ''no'') @ ''  '' @
       pad_right 12 (strOr (n_version n) ''-'') @ ''  '' @ pad_right 8 (strOr (n_backend n) ''-'') @ ''  '' @
       pad_left 5 (itoa (int rc)) @ ''  '' @ fmtKnock env (n_seen n) @ nl)) (\<lambda>_.
     node_lines env ns))"

definition CmdNodeList :: "'s cenv \<Rightarrow> string \<Rightarrow> string list \<Rightarrow> ('s, unit) cm" where
  "CmdNodeList env path args = with_flags [] args (\<lambda>_ pos.
     cb (loadCfgDB env path) (\<lambda>_.
     cb (ctry DbFailed ListNodes) (\<lambda>ns.
     if ns = [] then say (''No nodes registered.'' @ nl)
     else cb (say (pad_left 4 ''ID'' @ ''  '' @ pad_right 16 ''Name'' @ ''  '' @ pad_right 6 ''Online'' @ ''  '' @
            pad_right 12 ''Version'' @ ''  '' @ pad_right 8 ''Backend'' @ ''  '' @ pad_left 5 ''Rules'' @ ''  '' @
            ''Last Seen'' @ nl)) (\<lambda>_. node_lines env ns))))"

definition CmdNodeDel :: "'s cenv \<Rightarrow> string \<Rightarrow> string list \<Rightarrow> ('s, unit) cm" where
  "CmdNodeDel env path args = with_flags [] args (\<lambda>_ pos.
     cb (check (1 \<le> length pos) (Usage ''node-del <name>'')) (\<lambda>_.
     let name = pos ! 0 in
     cb (loadCfgDB env path) (\<lambda>_.
     cb (ctry DbFailed (GetNodeByName name)) (\<lambda>no.
     case no of None \<Rightarrow> not_found ''Node'' name | Some nd \<Rightarrow>
     cb (ctry DbFailed (DeleteNode (n_id nd))) (\<lambda>_.
     cb (cli_audit env ''node_del'' name []) (\<lambda>_.
     say (''Deleted node '' @ sq name @ '' (and its group targets).'' @ nl)))))))"

section \<open>Group targets\<close>

text \<open>The group and the node of a target, errors when they do not exist.\<close>

definition target_of :: "string \<Rightarrow> string \<Rightarrow> ('s, grp \<times> node) cm" where
  "target_of groupName nodeName =
     cb (ctry DbFailed (GetGroupByName groupName)) (\<lambda>go.
     case go of None \<Rightarrow> fail (NotFound ''group'' groupName) | Some grp \<Rightarrow>
     cb (ctry DbFailed (GetNodeByName nodeName)) (\<lambda>no.
     case no of None \<Rightarrow> fail (NotFound ''node'' nodeName) | Some nd \<Rightarrow> cret (grp, nd)))"

definition groupTargetAdd :: "'s cenv \<Rightarrow> string \<Rightarrow> string list \<Rightarrow> ('s, unit) cm" where
  "groupTargetAdd env path args = with_flags [(''proto'', StrV ''tcp'')] args (\<lambda>fs pos.
     cb (check (3 \<le> length pos) (Usage ''group-target add <group> <node> <port> [--proto tcp]'')) (\<lambda>_.
     let groupName = pos ! 0; nodeName = pos ! 1; proto = str_flag fs ''proto'' in
     cb (port_arg (pos ! 2)) (\<lambda>port.
     cb (proto_arg proto) (\<lambda>_.
     cb (loadCfgDB env path) (\<lambda>_.
     cb (target_of groupName nodeName) (\<lambda>(grp, nd).
     cb (ctry DbFailed (AddGroupTarget (g_id grp) (n_id nd) port proto)) (\<lambda>_.
     cb (cli_audit env ''group_target_add'' (groupName @ ''@'' @ nodeName) (''port='' @ itoa port @ '' proto='' @ proto)) (\<lambda>_.
     say (''Group '' @ sq groupName @ '' now targets node '' @ sq nodeName @ '' at '' @ port_text port proto @ ''.'' @ nl)))))))))"

definition target_line :: "group_target_view \<Rightarrow> string" where
  "target_line t = pad_right 20 (v_node t) @ ''  '' @ pad_right 20 (v_group t) @ ''  '' @
     pad_left 5 (itoa (v_port t)) @ ''  '' @ v_proto t @ nl"

definition groupTargetList :: "'s cenv \<Rightarrow> string \<Rightarrow> string list \<Rightarrow> ('s, unit) cm" where
  "groupTargetList env path args = with_flags [] args (\<lambda>_ pos.
     cb (loadCfgDB env path) (\<lambda>_.
     cb (ctry DbFailed ListGroupTargets) (\<lambda>ts.
     if ts = [] then say (''No group targets defined.'' @ nl)
     else say (pad_right 20 ''Node'' @ ''  '' @ pad_right 20 ''Group'' @ ''  '' @ pad_left 5 ''Port'' @ ''  '' @ ''Proto'' @ nl @
            concat (map target_line ts)))))"

definition groupTargetDel :: "'s cenv \<Rightarrow> string \<Rightarrow> string list \<Rightarrow> ('s, unit) cm" where
  "groupTargetDel env path args = with_flags [] args (\<lambda>_ pos.
     cb (check (2 \<le> length pos) (Usage ''group-target del <group> <node>'')) (\<lambda>_.
     let groupName = pos ! 0; nodeName = pos ! 1 in
     cb (loadCfgDB env path) (\<lambda>_.
     cb (target_of groupName nodeName) (\<lambda>(grp, nd).
     cb (ctry DbFailed (RemoveGroupTarget (g_id grp) (n_id nd))) (\<lambda>_.
     cb (cli_audit env ''group_target_del'' (groupName @ ''@'' @ nodeName) []) (\<lambda>_.
     say (''Removed target: group '' @ sq groupName @ '' no longer targets node '' @ sq nodeName @ ''.'' @ nl)))))))"

definition CmdGroupTarget :: "'s cenv \<Rightarrow> string \<Rightarrow> string list \<Rightarrow> ('s, unit) cm" where
  "CmdGroupTarget env path args = (case args of
      [] \<Rightarrow> fail (Usage ''group-target <add|list|del> ...'')
    | sub # rest \<Rightarrow>
        if sub = ''add'' then groupTargetAdd env path rest
        else if sub = ''list'' then groupTargetList env path rest
        else if sub = ''del'' \<or> sub = ''rm'' \<or> sub = ''remove'' then groupTargetDel env path rest
        else fail (Unknown ''group-target subcommand'' sub))"

section \<open>The agent's arguments\<close>

text \<open>\<open>url.Parse\<close> is an argument: scheme, host and host name of the URL, or \<open>None\<close>.\<close>

type_synonym url_parser = "string \<Rightarrow> (string \<times> string \<times> string) option"

definition loopback_host :: "string \<Rightarrow> bool" where
  "loopback_host h \<longleftrightarrow> h = ''localhost'' \<or> (case parse_ip h of None \<Rightarrow> False | Some g \<Rightarrow> is_loopback g)"

definition checkHubURL :: "url_parser \<Rightarrow> string \<Rightarrow> bool \<Rightarrow> cli_error option" where
  "checkHubURL parse raw allowHTTP = (case parse raw of
      None \<Rightarrow> Some (BadHub raw)
    | Some (scheme, host, hostname) \<Rightarrow>
        if host = [] then Some (BadHub raw)
        else if scheme = ''https'' then None
        else if scheme = ''http''
        then (if allowHTTP \<or> loopback_host hostname then None else Some (PlainHub raw))
        else Some (NotHttps raw))"

fun allow_ports :: "string list \<Rightarrow> int list \<Rightarrow> cli_error + int list" where
  "allow_ports [] allowed = Inr allowed"
| "allow_ports (p # ps) allowed =
     (if trim_space p = [] then allow_ports ps allowed
      else (case parse_int64 (trim_space p) of
          None \<Rightarrow> Inl (BadAllowPort (trim_space p))
        | Some n \<Rightarrow> allow_ports ps (allowed @ [n])))"

definition agent_flags :: flagset where
  "agent_flags = [(''hub'', StrV []), (''token'', StrV []), (''node'', StrV []), (''interval'', IntV 15), (''ca'', StrV []),
     (''insecure'', BoolV False), (''allow-http'', BoolV False), (''state'', StrV ''/var/lib/nft-okboy/agent-guard.json''),
     (''allow-ports'', StrV [])]"

text \<open>The environment variables, and whether the \<open>--ca\<close> file holds a PEM certificate.  The result is what
  \<open>agent.Run\<close> is called with.\<close>

record 's aenv =
  ae_cli :: "'s cenv"
  ae_url :: url_parser
  ae_token :: string
  ae_http :: string
  ae_ca :: "string \<Rightarrow> bool"
  ae_version :: string

definition agent_start :: "'s aenv \<Rightarrow> string \<Rightarrow> flagset \<Rightarrow> cli_error + ('s backend \<times> options)" where
  "agent_start ae path fs =
     (let token = (if str_flag fs ''token'' = [] then ae_token ae else str_flag fs ''token'');
          hub = str_flag fs ''hub''; caFile = str_flag fs ''ca'';
          allowHTTP = (bool_flag fs ''allow-http'' \<or> ae_http ae = ''1'') in
      if hub = [] \<or> token = [] then Inl (Usage ''agent --hub <url>'')
      else (case checkHubURL (ae_url ae) hub allowHTTP of Some e \<Rightarrow> Inl e | None \<Rightarrow>
        if bool_flag fs ''insecure'' \<and> caFile \<noteq> [] then Inl Exclusive
        else if caFile \<noteq> [] \<and> \<not> ae_ca ae caFile then Inl (CaFailed caFile)
        else (case Load (ce_read (ae_cli ae)) (ce_yaml (ae_cli ae)) path of Inl e \<Rightarrow> Inl (ConfigFailed e) | Inr cfg \<Rightarrow>
        (case newBackend (ae_cli ae) cfg of Inl e \<Rightarrow> Inl (BackendInit e) | Inr be \<Rightarrow>
        (case (if str_flag fs ''allow-ports'' = [] then Inr (c_agent_allowed_ports cfg)
               else allow_ports (split_on CHR '','' (str_flag fs ''allow-ports'')) []) of
           Inl e \<Rightarrow> Inl e
         | Inr allowed \<Rightarrow> Inr (be, \<lparr>op_hub = hub, op_token = token, op_version = ae_version ae, op_backend = c_backend cfg,
               op_allowed = allowed, op_guard = c_nft_guard cfg, op_file = str_flag fs ''state''\<rparr>))))))"

definition CmdAgent :: "'s aenv \<Rightarrow> string \<Rightarrow> string list \<Rightarrow> cli_error + ('s backend \<times> options)" where
  "CmdAgent ae path args = (case the (parseFlags agent_flags args) of
      Inl e \<Rightarrow> Inl (FlagFailed e) | Inr (fs, pos) \<Rightarrow> agent_start ae path fs)"

section \<open>The global flags and the dispatch\<close>

text \<open>\<open>os.Executable\<close> and \<open>os.Stat\<close>: the program's path, and whether a path is a file.\<close>

fun last_sep :: "string \<Rightarrow> string" where
  "last_sep [] = ''.''"
| "last_sep (c # rs) = (if c = CHR ''/'' \<or> c = CHR 92 then rev rs else last_sep rs)"

definition dir_of :: "string \<Rightarrow> string" where
  "dir_of p = last_sep (rev p)"

definition defaultConfigPath :: string where
  "defaultConfigPath = ''/etc/nft-okboy/config.yaml''"

definition resolveDefaultConfig :: "string option \<Rightarrow> (string \<Rightarrow> bool) \<Rightarrow> string" where
  "resolveDefaultConfig exe isFile = (case exe of
      None \<Rightarrow> defaultConfigPath
    | Some p \<Rightarrow> if isFile (dir_of p @ ''/config.yaml'') then dir_of p @ ''/config.yaml'' else defaultConfigPath)"

fun parseGlobal :: "string \<Rightarrow> string list \<Rightarrow> string \<times> string \<times> string list" where
  "parseGlobal cfgPath [] = (cfgPath, [], [])"
| "parseGlobal cfgPath (a # argv) =
     (if a = ''-c'' \<or> a = ''--config''
      then (case argv of [] \<Rightarrow> parseGlobal cfgPath [] | p # rest \<Rightarrow> parseGlobal p rest)
      else if length a > 3 \<and> take 3 a = ''-c='' then parseGlobal (drop 3 a) argv
      else if length a > 9 \<and> take 9 a = ''--config='' then parseGlobal (drop 9 a) argv
      else (cfgPath, a, argv))"

text \<open>The commands that end; \<open>serve\<close>, \<open>agent\<close> and \<open>upgrade\<close> are passed to their own functions.\<close>

definition dispatch_cli :: "'s cenv \<Rightarrow> string \<Rightarrow> string \<Rightarrow> string \<Rightarrow> string list \<Rightarrow> ('s, unit) cm \<Rightarrow> ('s, unit) cm" where
  "dispatch_cli env version path cmd rest other =
     (if cmd \<in> {[], ''-h'', ''--help'', ''help''} then cret ()
      else if cmd \<in> {''-V'', ''--version'', ''version''} then say (''nft-okboy '' @ version @ nl)
      else if cmd = ''gen-secret'' then CmdGenSecret env rest
      else if cmd = ''user-add'' then CmdUserAdd env path rest
      else if cmd = ''user-del'' then CmdUserDel env path rest
      else if cmd = ''user-list'' then CmdUserList env path rest
      else if cmd = ''group-add'' then CmdGroupAdd env path rest
      else if cmd = ''group-del'' then CmdGroupDel env path rest
      else if cmd = ''group-list'' then CmdGroupList env path rest
      else if cmd = ''node-add'' then CmdNodeAdd env path rest
      else if cmd = ''node-list'' then CmdNodeList env path rest
      else if cmd = ''node-del'' then CmdNodeDel env path rest
      else if cmd = ''group-target'' then CmdGroupTarget env path rest
      else if cmd = ''user-join'' then CmdUserJoin env path rest
      else if cmd = ''user-leave'' then CmdUserLeave env path rest
      else if cmd = ''admin-add'' then CmdAdminAdd env path rest
      else if cmd = ''revoke'' then CmdRevoke env path rest
      else if cmd = ''list'' then CmdList env path rest
      else if cmd = ''cleanup'' then CmdCleanup env path rest
      else if cmd = ''backup'' then CmdBackup env path rest
      else if cmd = ''totp-uri'' then CmdTOTPURI env path rest
      else if cmd \<in> {''serve'', ''agent'', ''upgrade''} then other
      else fail (Unknown ''command'' cmd))"

definition main_run :: "'s cenv \<Rightarrow> string \<Rightarrow> string \<Rightarrow> string list \<Rightarrow> ('s, unit) cm \<Rightarrow> ('s, unit) cm" where
  "main_run env version defpath argv other = (case parseGlobal defpath argv of (path, cmd, rest) \<Rightarrow>
     dispatch_cli env version path cmd rest other)"

section \<open>The server's start\<close>

text \<open>\<open>CmdServe\<close> up to the first maintenance pass; the requests it then serves and the passes of its ticker
  are the steps of \<open>ServerInv\<close>.  \<open>maintain\<close> is \<open>srv.Maintain\<close> on the state.\<close>

definition CmdServe :: "'s cenv \<Rightarrow> ('s backend \<Rightarrow> config \<Rightarrow> ('s, unit) cm) \<Rightarrow> string \<Rightarrow> string list \<Rightarrow> ('s, unit) cm" where
  "CmdServe env maintain path args = with_flags [(''debug'', BoolV False)] args (\<lambda>_ _.
     cb (load_config env path) (\<lambda>cfg.
     cb (openDB env cfg) (\<lambda>_.
     case newBackend env cfg of Inl e \<Rightarrow> fail (BackendInit e) | Inr be \<Rightarrow>
     cb (cfw (be_EnsureBase be)) (\<lambda>err.
     case err of Some e \<Rightarrow> fail (BaseFailed e) | None \<Rightarrow> maintain be cfg))))"

end
