(* ===== verification/CliOps.thy ===== *)
theory CliOps
  imports AdminOps CliNode
begin

text \<open>
  What the commands keep.  A rule per construct of the command monad, and the locale \<open>cli_ops\<close>: on top of
  what \<open>server_ops\<close> asks of a pair of predicates, the writes only a command makes.  Every command is shown
  once.
\<close>

section \<open>Rules\<close>

definition ckeeps :: "(db \<Rightarrow> bool) \<Rightarrow> ('s \<Rightarrow> bool) \<Rightarrow> ('s, 'a) cm \<Rightarrow> ('a \<Rightarrow> bool) \<Rightarrow> bool" where
  "ckeeps J K m F \<longleftrightarrow> (\<forall>s. J (fst (tm_db s)) \<and> K (tm_fw s) \<longrightarrow>
     (case m s of (r, s') \<Rightarrow> J (fst (tm_db s')) \<and> K (tm_fw s') \<and> (\<forall>a. r = Inr a \<longrightarrow> F a)))"

lemma ckeepsI:
  "(\<And>s r s'. J (fst (tm_db s)) \<Longrightarrow> K (tm_fw s) \<Longrightarrow> m s = (r, s') \<Longrightarrow>
     J (fst (tm_db s')) \<and> K (tm_fw s') \<and> (\<forall>a. r = Inr a \<longrightarrow> F a)) \<Longrightarrow> ckeeps J K m F"
  by (auto simp: ckeeps_def split: prod.splits)

lemma ckeepsD:
  "ckeeps J K m F \<Longrightarrow> J (fst (tm_db s)) \<Longrightarrow> K (tm_fw s) \<Longrightarrow> m s = (r, s') \<Longrightarrow>
     J (fst (tm_db s')) \<and> K (tm_fw s') \<and> (\<forall>a. r = Inr a \<longrightarrow> F a)"
  unfolding ckeeps_def by (drule spec [where x = s]) simp

lemma ckeeps_weaken: "ckeeps J K m F \<Longrightarrow> (\<And>a. F a \<Longrightarrow> G a) \<Longrightarrow> ckeeps J K m G"
  by (rule ckeepsI) (use ckeepsD [of J K m F] in blast)

lemma ckeeps_cb:
  assumes "ckeeps J K m F" and "\<And>a. F a \<Longrightarrow> ckeeps J K (f a) G"
  shows "ckeeps J K (cb m f) G"
proof (rule ckeepsI)
  fix s r s' assume s: "J (fst (tm_db s))" "K (tm_fw s)" and run: "cb m f s = (r, s')"
  obtain x t where m: "m s = (x, t)" by (cases "m s")
  note k = ckeepsD [OF assms(1) s m]
  show "J (fst (tm_db s')) \<and> K (tm_fw s') \<and> (\<forall>a. r = Inr a \<longrightarrow> G a)"
  proof (cases x)
    case (Inl e)
    with run m k show ?thesis by (auto simp: cb_def)
  next
    case (Inr a)
    with run m have "f a t = (r, s')" by (simp add: cb_def)
    with ckeepsD [OF assms(2) [of a], of t r s'] k Inr show ?thesis by simp
  qed
qed

lemma ckeeps_cret: "F a \<Longrightarrow> ckeeps J K (cret a) F"
  by (auto simp: ckeeps_def cret_def)

lemma ckeeps_fail: "ckeeps J K (fail e) F" "ckeeps J K finish F"
  by (simp_all add: ckeeps_def fail_def finish_def)

lemma ckeeps_check: "(b \<Longrightarrow> F ()) \<Longrightarrow> ckeeps J K (check b e) F"
  by (simp add: check_def ckeeps_fail ckeeps_cret)

lemma ckeeps_say: "F () \<Longrightarrow> ckeeps J K (say txt) F"
  by (simp add: ckeeps_def say_def)

lemma ckeeps_cdb:
  assumes "preserves J m" and "yields J m F"
  shows "ckeeps J K (cdb m) (\<lambda>r. \<forall>b. r = Inr b \<longrightarrow> F b)"
proof (rule ckeepsI)
  fix s r s' assume s: "J (fst (tm_db s))" "K (tm_fw s)" and run: "cdb m s = (r, s')"
  have "J (fst (snd (m (tm_db s))))" by (rule preservesD [OF assms(1) s(1)])
  moreover have "F a" if "fst (m (tm_db s)) = Inr a" for a using assms(2) s(1) that unfolding yields_def by blast
  ultimately show "J (fst (tm_db s')) \<and> K (tm_fw s') \<and> (\<forall>a. r = Inr a \<longrightarrow> (\<forall>b. a = Inr b \<longrightarrow> F b))"
    using run s(2) by (auto simp: cdb_def split: prod.splits)
qed

lemma ckeeps_ctry:
  assumes "preserves J m" and "yields J m F"
  shows "ckeeps J K (ctry f m) F"
  unfolding ctry_def
  by (rule ckeeps_cb [OF ckeeps_cdb [OF assms]]) (auto split: sum.split intro: ckeeps_fail ckeeps_cret)

lemma ckeeps_cfw: "(\<And>w. K w \<Longrightarrow> K (snd (f w))) \<Longrightarrow> ckeeps J K (cfw f) (\<lambda>_. True)"
  by (auto simp: ckeeps_def cfw_def split: prod.splits) (metis snd_conv)

lemma ckeeps_if: "(b \<Longrightarrow> ckeeps J K m F) \<Longrightarrow> (\<not> b \<Longrightarrow> ckeeps J K n F) \<Longrightarrow> ckeeps J K (if b then m else n) F"
  by simp

lemma ckeeps_option:
  "(x = None \<Longrightarrow> ckeeps J K m F) \<Longrightarrow> (\<And>a. x = Some a \<Longrightarrow> ckeeps J K (f a) F) \<Longrightarrow>
   ckeeps J K (case x of None \<Rightarrow> m | Some a \<Rightarrow> f a) F"
  by (cases x) auto

lemma ckeeps_sum:
  "(\<And>e. x = Inl e \<Longrightarrow> ckeeps J K (g e) F) \<Longrightarrow> (\<And>a. x = Inr a \<Longrightarrow> ckeeps J K (f a) F) \<Longrightarrow>
   ckeeps J K (case x of Inl e \<Rightarrow> g e | Inr a \<Rightarrow> f a) F"
  by (cases x) auto

lemma ckeeps_pair: "(\<And>a b. x = (a, b) \<Longrightarrow> ckeeps J K (f a b) F) \<Longrightarrow> ckeeps J K (case x of (a, b) \<Rightarrow> f a b) F"
  by (cases x) auto

lemma ckeeps_Let: "ckeeps J K (f x) F \<Longrightarrow> ckeeps J K (Let x f) F"
  by simp

lemma ckeeps_flags: "(\<And>fs pos. ckeeps J K (k fs pos) F) \<Longrightarrow> ckeeps J K (with_flags fl args k) F"
  by (auto simp: with_flags_def intro!: ckeeps_fail split: sum.split prod.split)

lemma ckeeps_cb_check: "(b \<Longrightarrow> ckeeps J K (f ()) G) \<Longrightarrow> ckeeps J K (cb (check b e) f) G"
  by (rule ckeeps_cb [OF ckeeps_check]) auto

lemma ckeeps_cb_any: "ckeeps J K m (\<lambda>_. True) \<Longrightarrow> (\<And>a. ckeeps J K (f a) G) \<Longrightarrow> ckeeps J K (cb m f) G"
  by (rule ckeeps_cb)

lemmas ckeeps_rules = ckeeps_flags ckeeps_check ckeeps_say ckeeps_fail ckeeps_cret ckeeps_if ckeeps_option ckeeps_sum
  ckeeps_pair ckeeps_Let ckeeps_cb_check

lemma run_ckeeps:
  assumes "ckeeps J K h F" and "J (fst (tm_db s))" and "K (tm_fw s)" and "run_cli h s = (r, s')"
  shows "J (fst (tm_db s')) \<and> K (tm_fw s')"
  using ckeepsD [OF assms(1-3), of "fst (h s)" "snd (h s)"] assms(4)
  by (auto simp: run_cli_def split: prod.splits sum.splits)

section \<open>Every command\<close>

locale cli_ops = server_ops env rq J K okU okG okA okT okE okIP okAdm
  for env :: "'s env" and rq J K okU okG okA okT okE okIP okAdm +
  fixes cenv :: "'s cenv" and path :: string
  assumes drives: "Load (ce_read cenv) (ce_yaml cenv) path = Inr cfg \<Longrightarrow> newBackend cenv cfg = Inr b \<Longrightarrow> b = e_be env"
    and k_list: "K w \<Longrightarrow> K (snd (be_ListManaged (e_be env) w))"
    and clock: "ce_now cenv = e_now env"
    and w_node: "preserves J (CreateNode now nm h)" "preserves J (DeleteNode i)" "preserves J (RemoveGroupTarget gi i)"
    and w_target: "1 \<le> p \<Longrightarrow> p \<le> 65535 \<Longrightarrow> pr = ''tcp'' \<or> pr = ''udp'' \<Longrightarrow> preserves J (AddGroupTarget gi i p pr)"
begin

abbreviation ck :: "('s, 'a) cm \<Rightarrow> ('a \<Rightarrow> bool) \<Rightarrow> bool" where
  "ck \<equiv> ckeeps J K"

text \<open>The configuration the command runs under: the backends it can build are the one of \<open>env\<close>.\<close>

definition cfg_ok :: "config \<Rightarrow> bool" where
  "cfg_ok cfg \<longleftrightarrow> (\<forall>b. newBackend cenv cfg = Inr b \<longrightarrow> b = e_be env)"

lemma ck_any: "preserves J m \<Longrightarrow> ck (ctry f m) (\<lambda>_. True)" "preserves J m \<Longrightarrow> ck (cdb m) (\<lambda>_. True)"
  by (erule ckeeps_ctry [OF _ yields_True], rule ckeeps_weaken [OF ckeeps_cdb [OF _ yields_True]]) simp_all

lemma ck_seed: "ck (seedUsers cenv cfg) (\<lambda>_. True)"
proof -
  have "ck (seed_loop cenv us) (\<lambda>_. True)" for us
  proof (induction us)
    case Nil
    show ?case by (simp add: ckeeps_cret)
  next
    case (Cons u us)
    have c: "ValidName (fst u) \<Longrightarrow> ck (cdb (CreateUser (ce_now cenv) (fst u) (snd u) False)) (\<lambda>_. True)"
      by (rule ck_any(2) [OF w_create_user])
    then show ?case using c Cons
      by (cases u, simp only: seed_loop.simps) (intro ckeeps_if ckeeps_cb_any; simp)
  qed
  then show ?thesis by (auto simp: seedUsers_def intro!: ckeeps_rules)
qed

lemma ck_open: "ck (openDB cenv cfg) (\<lambda>_. True)"
  unfolding openDB_def by (intro ckeeps_rules ck_seed)

lemma ck_load: "ck (loadCfgDB cenv path) cfg_ok"
  unfolding loadCfgDB_def load_config_def
  by (rule ckeeps_cb [where F = cfg_ok], rule ckeeps_sum)
    (auto intro!: ckeeps_rules ckeeps_cb [OF ck_open] simp: cfg_ok_def drives)

lemma ck_audit: "ck (cli_audit cenv a t d) (\<lambda>_. True)"
  unfolding cli_audit_def by (intro ckeeps_cb_any ckeeps_cret ck_any w_audit TrueI)

lemma ck_secret: "ck (cli_genSecret cenv) (\<lambda>_. True)"
  unfolding cli_genSecret_def by (intro ckeeps_rules TrueI)

lemma ck_manager: "cfg_ok cfg \<Longrightarrow> (\<And>w. K w \<Longrightarrow> K (snd (f (e_be env) w))) \<Longrightarrow> ck (with_manager cenv cfg f) (\<lambda>_. True)"
  unfolding with_manager_def newManager_def
  by (intro ckeeps_sum ckeeps_cret TrueI ckeeps_cfw) (auto simp: cfg_ok_def)

lemma ck_user: "ck (cli_user un) (\<lambda>u. okU u \<and> u_name u = un)"
proof -
  have "ck (ctry DbFailed (GetUserByUsername un)) (\<lambda>uo. \<forall>u. uo = Some u \<longrightarrow> okU u \<and> u_name u = un)"
    by (rule ckeeps_ctry)
      (auto simp: GetUserByUsername_def intro!: yields_query row_user dest: find_Some_iff')
  then show ?thesis unfolding cli_user_def not_found_def
    by (rule ckeeps_cb) (auto intro!: ckeeps_rules ckeeps_cb_any)
qed

lemma ck_group_row: "ck (ctry DbFailed (GetGroupByName nm)) (\<lambda>go. \<forall>g. go = Some g \<longrightarrow> okG g \<and> g_name g = nm)"
  by (rule ckeeps_ctry) (auto simp: GetGroupByName_def intro!: yields_query row_group dest: find_Some_iff')

lemma ck_group: "ck (cli_group nm) (\<lambda>g. okG g \<and> g_name g = nm)"
  unfolding cli_group_def not_found_def
  by (rule ckeeps_cb [OF ck_group_row]) (auto intro!: ckeeps_rules ckeeps_cb_any)

lemma ck_remove_user: "cfg_ok cfg \<Longrightarrow> okU u \<and> u_name u = un \<Longrightarrow> ck (removeUserRules cenv cfg un) (\<lambda>_. True)"
  unfolding removeUserRules_def by (elim conjE, drule sym) (simp, intro ckeeps_cb_any ck_manager ckeeps_cret k_remove_user TrueI)

lemma ck_remove_rule: "cfg_ok cfg \<Longrightarrow> okU u \<and> u_name u = un \<Longrightarrow> okG g \<and> g_name g = nm \<Longrightarrow>
    ck (if has_current_ip u then with_manager cenv cfg (\<lambda>be. manager_RemoveRule be (the (u_ip u)) (g_port g) un (g_proto g) (g_name g))
      else cret None) (\<lambda>_. True)"
  by (intro ckeeps_if ckeeps_cret TrueI ck_manager) (auto dest: k_remove)

lemma ck_add_rule: "cfg_ok cfg \<Longrightarrow> okU u \<and> u_name u = un \<Longrightarrow> okG g \<and> g_name g = nm \<Longrightarrow>
    ck (if has_current_ip u then with_manager cenv cfg (\<lambda>be. manager_AddRule be (the (u_ip u)) (g_port g) un (g_proto g) (g_name g))
      else cret None) (\<lambda>_. True)"
  by (intro ckeeps_if ckeeps_cret TrueI ck_manager) (auto simp: has_current_ip_def has_ip_def intro!: k_add own_ip)

lemmas cli_calls = ckeeps_cb [OF ck_load] ckeeps_cb [OF ck_user] ckeeps_cb [OF ck_group]
  ckeeps_cb_any [OF ck_any(1)] ckeeps_cb_any [OF ck_any(2)] ckeeps_cb_any [OF ck_audit] ckeeps_cb_any [OF ck_secret]
  ckeeps_cb_any [OF ckeeps_say]

lemma ck_say: "ck (say txt) (\<lambda>_. True)"
  by (simp add: ckeeps_say)

lemmas cli_steps = ckeeps_flags ckeeps_cb_check cli_calls ckeeps_Let ck_say ckeeps_fail ckeeps_if ckeeps_option ckeeps_sum ckeeps_pair

lemma ck_gen_secret: "ck (CmdGenSecret cenv args) (\<lambda>_. True)"
  unfolding CmdGenSecret_def by (intro cli_steps)

lemma ck_user_add: "ck (CmdUserAdd cenv path args) (\<lambda>_. True)"
  unfolding CmdUserAdd_def by (intro cli_steps ck_audit w_create_user TrueI)

lemma ck_user_del: "ck (CmdUserDel cenv path args) (\<lambda>_. True)"
  unfolding CmdUserDel_def
  by (intro cli_steps ckeeps_cb_any [OF ck_remove_user] w_delete_user; assumption?)

lemma ck_user_list: "ck (CmdUserList cenv path args) (\<lambda>_. True)"
  unfolding CmdUserList_def by (intro cli_steps preserves_reads)

lemma ck_group_list: "ck (CmdGroupList cenv path args) (\<lambda>_. True)"
  unfolding CmdGroupList_def by (intro cli_steps preserves_reads)

lemma ck_totp_uri: "ck (CmdTOTPURI cenv path args) (\<lambda>_. True)"
  unfolding CmdTOTPURI_def by (intro cli_steps)

lemma ck_admin_add: "ck (CmdAdminAdd cenv path args) (\<lambda>_. True)"
  unfolding CmdAdminAdd_def by (intro cli_steps w_user)

lemma ck_port: "ck (port_arg s) (\<lambda>p. 1 \<le> p \<and> p \<le> 65535)"
  unfolding port_arg_def by (intro ckeeps_rules) auto

lemma ck_proto: "ck (proto_arg pr) (\<lambda>_. pr = ''tcp'' \<or> pr = ''udp'')"
  unfolding proto_arg_def by (intro ckeeps_check) blast

lemmas cli_args = ckeeps_cb [OF ck_port] ckeeps_cb [OF ck_proto]

lemma ck_group_add: "ck (CmdGroupAdd cenv path args) (\<lambda>_. True)"
  unfolding CmdGroupAdd_def
  by (intro cli_args cli_steps preserves_reads ck_audit w_create_group) simp_all

lemma ck_leave: "ck (CmdUserLeave cenv path args) (\<lambda>_. True)"
  unfolding CmdUserLeave_def
  by (intro cli_steps ckeeps_cb_any [OF ck_remove_rule] w_member; assumption?)

lemma ck_join: "ck (CmdUserJoin cenv path args) (\<lambda>_. True)"
  unfolding CmdUserJoin_def
  by (intro cli_steps ckeeps_cb_any [OF ck_add_rule] w_member; assumption?)

lemma ck_revoke: "ck (CmdRevoke cenv path args) (\<lambda>_. True)"
  unfolding CmdRevoke_def
  by (intro cli_steps ckeeps_cb_any [OF ck_remove_user] ckeeps_cb_any [OF ckeeps_if] w_user ckeeps_cret TrueI; assumption?)

lemma ck_list: "ck (CmdList cenv path args) (\<lambda>_. True)"
  unfolding CmdList_def newManager_def
  by (intro cli_steps ckeeps_cb_any [OF ckeeps_cfw]) (auto simp: cfg_ok_def k_list)

lemma ck_members: "ck (ctry DbFailed (groupMembersWithIP gid)) (\<lambda>ms. \<forall>u \<in> set ms. okU u)"
proof (rule ckeeps_ctry)
  show "preserves J (groupMembersWithIP gid)"
  proof -
    have "preserves J (members_loop gid us out)" for us out
      by (induction us arbitrary: out) (auto intro!: preserves_ret preserves_bnd preserves_reads)
    then show ?thesis by (auto simp: groupMembersWithIP_def intro!: preserves_bnd preserves_reads)
  qed
  have loop: "set ms \<subseteq> set us \<union> set out" if "fst (members_loop gid us out s) = Inr ms" for us out ms s
    using that
  proof (induction us arbitrary: out s)
    case (Cons u us)
    from Cons.prems show ?case
      by (auto simp: bnd_def split: if_splits prod.splits sum.splits dest!: Cons.IH)
  qed (simp add: ret_def)
  show "yields J (groupMembersWithIP gid) (\<lambda>ms. \<forall>u \<in> set ms. okU u)"
    unfolding yields_def
  proof (intro allI impI, elim conjE)
    fix s ms assume s: "J (fst s)" and ms: "fst (groupMembersWithIP gid s) = Inr ms"
    then have "set ms \<subseteq> set (users (fst s))"
      by (auto simp: groupMembersWithIP_def bnd_def ListUsers_def query_def stmt_def split: prod.splits sum.splits if_splits
          dest!: loop)
    with row_user [OF s] show "\<forall>u \<in> set ms. okU u" by blast
  qed
qed

lemma ck_remove_members: "cfg_ok cfg \<Longrightarrow> \<forall>u \<in> set ms. okU u \<Longrightarrow> okG g \<Longrightarrow> ck (remove_members cenv cfg g ms) (\<lambda>_. True)"
proof (induction ms)
  case (Cons m ms)
  then have "ck (remove_members cenv cfg g ms) (\<lambda>_. True)" by simp
  then show ?case unfolding remove_members.simps
    by (intro ckeeps_cb_any ck_manager) (use Cons.prems in \<open>auto intro: k_remove\<close>)
qed (simp add: ckeeps_cret)

lemma ck_group_del: "ck (CmdGroupDel cenv path args) (\<lambda>_. True)"
  unfolding CmdGroupDel_def
  by (intro ckeeps_cb [OF ck_members] cli_steps ckeeps_cb_any [OF ck_remove_members] w_delete_group; (elim conjE)?; assumption?)

lemma ck_cleanup_stale:
  assumes "cfg_ok cfg" and "newBackend cenv cfg = Inr be" and k: "\<And>r. ck (k r) (\<lambda>_. True)"
  shows "ck (cb (ctry DbFailed GetAllUserGroupPorts) (\<lambda>ugp. cb (cli_CleanupStale cenv be age ugp) k)) (\<lambda>_. True)"
proof (rule ckeepsI)
  fix s r s' assume s: "J (fst (tm_db s))" "K (tm_fw s)"
    and run: "cb (ctry DbFailed GetAllUserGroupPorts) (\<lambda>ugp. cb (cli_CleanupStale cenv be age ugp) k) s = (r, s')"
  have be: "be = e_be env" using assms by (simp add: cfg_ok_def)
  obtain d0 fs where db: "tm_db s = (d0, fs)" by (cases "tm_db s")
  obtain x d1 fs1 where g: "GetAllUserGroupPorts (d0, fs) = (x, d1, fs1)" by (metis surj_pair)
  then have "fst (d1, fs1) = fst (d0, fs)" unfolding GetAllUserGroupPorts_def by (rule query_fst)
  then have g: "GetAllUserGroupPorts (d0, fs) = (x, d0, fs1)" using g by simp
  show "J (fst (tm_db s')) \<and> K (tm_fw s') \<and> (\<forall>a. r = Inr a \<longrightarrow> True)"
  proof (cases x)
    case (Inl e)
    with run g db s show ?thesis by (auto simp: cb_def ctry_def cdb_def fail_def)
  next
    case (Inr ugp)
    let ?t = "s\<lparr>tm_db := (d0, fs1)\<rparr>"
    obtain rem err w d' where c: "CleanupStale (e_be env) (e_now env) age ugp (tm_fw s) (d0, fs1) = ((rem, err), w, d')"
      by (metis surj_pair)
    have K': "K w" using k_cleanup [of "tm_fw s" d0 fs ugp age fs1] g Inr c s db by simp
    have J': "J (fst d')" using J_CleanupStale [of "(d0, fs1)" "e_be env" "e_now env" age ugp "tm_fw s"] c s(1) db by simp
    show ?thesis
    proof (cases err)
      case (Some e)
      with run g db Inr c J' K' be clock show ?thesis
        by (auto simp: cb_def ctry_def cdb_def cret_def cli_CleanupStale_def)
    next
      case None
      with run g db Inr c be clock have "k rem (?t\<lparr>tm_fw := w, tm_db := d'\<rparr>) = (r, s')"
        by (auto simp: cb_def ctry_def cdb_def cret_def cli_CleanupStale_def)
      from ckeepsD [OF k _ _ this] J' K' show ?thesis by simp
    qed
  qed
qed

lemma ck_cleanup: "ck (CmdCleanup cenv path args) (\<lambda>_. True)"
  unfolding CmdCleanup_def newManager_def by (intro cli_steps ck_cleanup_stale; assumption?)

lemma ck_backup: "ck (CmdBackup cenv path args) (\<lambda>_. True)"
proof -
  have b: "ck (db_backup cenv base) (\<lambda>_. True)" for base
    by (auto simp: ckeeps_def db_backup_def Let_def split: sum.splits)
  have l: "ck (prune_loop cenv fs) (\<lambda>_. True)" for fs
  proof (induction fs)
    case (Cons f fs)
    then show ?case by (auto simp: ckeeps_def)
  qed (simp add: ckeeps_def)
  have p: "ck (pruneBackups cenv keep) (\<lambda>_. True)" for keep
    using l by (auto simp: ckeeps_def pruneBackups_def Let_def)
  show ?thesis unfolding CmdBackup_def by (intro cli_steps ckeeps_cb_any [OF b] p TrueI)
qed

section \<open>Nodes and targets\<close>

lemma node_reads: "preserves J (GetNodeByName nm)" "preserves J ListGroupTargets"
  unfolding GetNodeByName_def ListGroupTargets_def by (rule preserves_query)+

lemma ck_node_add: "ck (CmdNodeAdd cenv path args) (\<lambda>_. True)"
  unfolding CmdNodeAdd_def by (intro cli_steps w_node TrueI)

lemma ck_node_list: "ck (CmdNodeList cenv path args) (\<lambda>_. True)"
proof -
  have "ck (node_lines cenv ns) (\<lambda>_. True)" for ns
  proof (induction ns)
    case (Cons n ns)
    then show ?case unfolding node_lines.simps by (intro cli_steps preserves_reads TrueI)
  qed (simp add: ckeeps_cret)
  then show ?thesis unfolding CmdNodeList_def by (intro cli_steps preserves_reads TrueI)
qed

lemma ck_node_del: "ck (CmdNodeDel cenv path args) (\<lambda>_. True)"
  unfolding CmdNodeDel_def not_found_def by (intro cli_steps node_reads w_node TrueI)

lemma ck_target: "ck (target_of gn nn) (\<lambda>_. True)"
  unfolding target_of_def by (intro cli_steps node_reads preserves_reads ckeeps_cret TrueI)

lemma ck_target_add: "ck (groupTargetAdd cenv path args) (\<lambda>_. True)"
  unfolding groupTargetAdd_def
  by (intro cli_args cli_steps ckeeps_cb_any [OF ck_target] w_target; (elim conjE)?; assumption?)

lemma ck_target_list: "ck (groupTargetList cenv path args) (\<lambda>_. True)"
  unfolding groupTargetList_def by (intro cli_steps node_reads)

lemma ck_target_del: "ck (groupTargetDel cenv path args) (\<lambda>_. True)"
  unfolding groupTargetDel_def by (intro cli_steps ckeeps_cb_any [OF ck_target] w_node)

lemma ck_group_target: "ck (CmdGroupTarget cenv path args) (\<lambda>_. True)"
  unfolding CmdGroupTarget_def
  by (auto intro!: ckeeps_fail ckeeps_if ck_target_add ck_target_list ck_target_del split: list.split)

lemmas cli_commands = ck_gen_secret ck_user_add ck_user_del ck_user_list ck_group_add ck_group_del ck_group_list
  ck_node_add ck_node_list ck_node_del ck_group_target ck_join ck_leave ck_admin_add ck_revoke ck_list ck_cleanup ck_backup
  ck_totp_uri

lemma ck_dispatch: "ck other (\<lambda>_. True) \<Longrightarrow> ck (dispatch_cli cenv version path cmd args other) (\<lambda>_. True)"
  unfolding dispatch_cli_def by (intro ckeeps_if ckeeps_cret TrueI ck_say ckeeps_fail cli_commands)

lemma ck_main:
  assumes "fst (parseGlobal defpath argv) = path" and "ck other (\<lambda>_. True)"
  shows "ck (main_run cenv version defpath argv other) (\<lambda>_. True)"
  using assms by (auto simp: main_run_def intro!: ck_dispatch split: prod.split)

end

end
