(* ===== verification/NonAdmin.thy ===== *)
theory NonAdmin
  imports Access
begin

text \<open>
  The confinement of a user who is no administrator, as an instance of \<open>client_ops\<close>: \<open>own_db\<close> relates
  the tables before to those after, \<open>own_key\<close> are the rules the request may add.
\<close>

definition fixed_user :: "user \<Rightarrow> user" where
  "fixed_user u = u\<lparr>u_ip := None, u_knock := None\<rparr>"

definition fixed_member :: "membership \<Rightarrow> membership" where
  "fixed_member m = m\<lparr>m_enabled := False\<rparr>"

definition fixed_node :: "node \<Rightarrow> node" where
  "fixed_node n = n\<lparr>n_seen := None, n_version := None, n_backend := None\<rparr>"

text \<open>Only the address, the knock time and the enabled flags of user \<open>i\<close>, the node reports and the logs may
  differ; the address is the old one or \<open>ip\<close>.\<close>

definition own_db :: "int \<Rightarrow> string \<Rightarrow> db \<Rightarrow> db \<Rightarrow> bool" where
  "own_db i ip d d' \<longleftrightarrow> grps d' = grps d \<and> targets d' = targets d \<and>
     map fixed_user (users d') = map fixed_user (users d) \<and>
     filter (\<lambda>u. u_id u \<noteq> i) (users d') = filter (\<lambda>u. u_id u \<noteq> i) (users d) \<and>
     (\<forall>u \<in> set (users d'). u_id u = i \<longrightarrow> u_ip u = Some ip \<or> (\<exists>v \<in> set (users d). u_id v = i \<and> u_ip v = u_ip u)) \<and>
     map fixed_member (members d') = map fixed_member (members d) \<and>
     filter (\<lambda>m. m_user m \<noteq> i) (members d') = filter (\<lambda>m. m_user m \<noteq> i) (members d) \<and>
     map fixed_node (nodes d') = map fixed_node (nodes d)"

definition member_of :: "db \<Rightarrow> int \<Rightarrow> grp \<Rightarrow> bool" where
  "member_of d i g \<longleftrightarrow> g \<in> set (grps d) \<and> (\<exists>m \<in> set (members d). is_row i (g_id g) m)"

definition own_key :: "db \<Rightarrow> user \<Rightarrow> string \<Rightarrow> rkey \<Rightarrow> bool" where
  "own_key d row ip = (\<lambda>(a, port, pr, u, gn). u = u_name row \<and> (a = ip \<or> Some a = u_ip row) \<and>
     (\<exists>g. member_of d (u_id row) g \<and> (port, pr, gn) = (g_port g, g_proto g, g_name g)))"

section \<open>Writes\<close>

lemma own_db_refl: "own_db i ip d d"
  by (auto simp: own_db_def)

lemma own_db_logs: "own_db i ip d d' \<Longrightarrow> own_db i ip d (d'\<lparr>failed := fl\<rparr>)"
  "own_db i ip d d' \<Longrightarrow> own_db i ip d (d'\<lparr>audits := al, audits_seq := n\<rparr>)"
  "own_db i ip d d' \<Longrightarrow> own_db i ip d (d'\<lparr>oplog := ol\<rparr>)"
  by (simp_all add: own_db_def)

lemma own_db_report: "own_db i ip d d' \<Longrightarrow>
    own_db i ip d (d'\<lparr>nodes := upd_where P (\<lambda>n. n\<lparr>n_seen := a, n_version := b, n_backend := c\<rparr>) (nodes d')\<rparr>)"
  by (simp add: own_db_def fixed_node_def [abs_def])

lemma filter_upd_other: "(\<And>x. f (h x) = f x) \<Longrightarrow> (\<And>x. P x \<Longrightarrow> f x = i) \<Longrightarrow>
    filter (\<lambda>x. f x \<noteq> i) (upd_where P h xs) = filter (\<lambda>x. f x \<noteq> i) xs"
  by (induction xs) (auto simp: upd_where_def)

lemma own_db_enable: "own_db i ip d d' \<Longrightarrow>
    own_db i ip d (d'\<lparr>members := upd_where (is_row i gi) (\<lambda>m. m\<lparr>m_enabled := en\<rparr>) (members d')\<rparr>)"
  using filter_upd_other [of m_user "\<lambda>m. m\<lparr>m_enabled := en\<rparr>" "is_row i gi" i "members d'"]
  by (simp add: own_db_def fixed_member_def [abs_def]) (simp add: is_row_def)

lemma own_db_ip: "own_db i ip d d' \<Longrightarrow> a = ip \<or> (\<exists>v \<in> set (users d). u_id v = i \<and> u_ip v = Some a) \<Longrightarrow>
    own_db i ip d (upd_user i (\<lambda>u. u\<lparr>u_ip := Some a, u_knock := t\<rparr>) d')"
  by (auto simp: own_db_def upd_user_def fixed_user_def [abs_def] filter_upd_other dest!: set_upd_where)

section \<open>Rows\<close>

lemma map_fixed_mem: "map f xs = map f ys \<Longrightarrow> x \<in> set xs \<Longrightarrow> \<exists>y \<in> set ys. f x = f y"
  by (metis image_iff list.set_map)

lemma own_db_user:
  assumes "own_db i ip d d'" and "u \<in> set (users d')"
  shows "\<exists>v \<in> set (users d). fixed_user u = fixed_user v"
  using map_fixed_mem [of fixed_user "users d'" "users d" u] assms by (auto simp: own_db_def)

lemma fixed_userD: "fixed_user u = fixed_user v \<Longrightarrow> u_id u = u_id v \<and> u_name u = u_name v \<and> u_admin u = u_admin v \<and>
    u_secret u = u_secret v"
  unfolding fixed_user_def by (drule arg_cong [where f = "\<lambda>u. (u_id u, u_name u, u_admin u, u_secret u)"]) simp

lemma own_db_member: "own_db i ip d d' \<Longrightarrow> g \<in> set (grps d') \<Longrightarrow> m \<in> set (members d') \<Longrightarrow> is_row uid (g_id g) m \<Longrightarrow>
    member_of d uid g"
  using map_fixed_mem [of fixed_member "members d'" "members d" m]
  by (auto simp: own_db_def member_of_def is_row_def fixed_member_def)
    (metis (no_types, lifting) membership.select_convs(1,2) membership.surjective membership.update_convs(3))

section \<open>The instance of the client interface\<close>

lemma signer_unique:
  assumes "distinct (map u_name us)" and "accepts now ttl us h row" and "v \<in> set us" and "u_name v = u_name row"
  shows "v = row"
  using accepts_user [OF assms(2)] assms(1,3,4) by (metis distinct_map inj_onD)

lemma client_ops_own:
  assumes be: "keyed_store be prefix store host I" and env: "good_env be prefix env" and ok: "server_ok d0"
    and row: "signed_by env rq d0 row" and adm: "\<not> u_admin row"
    and R: "none_of (u_name row) R" and P: "\<And>k. own_key d0 row (clientIP (e_cfg env) rq) k \<Longrightarrow> P k"
  shows "client_ops env rq (own_db (u_id row) (clientIP (e_cfg env) rq) d0) (fw_inv I store P R)
    (\<lambda>u. (\<exists>v \<in> set (users d0). fixed_user u = fixed_user v) \<and>
       (u_id u = u_id row \<longrightarrow> u_ip u = Some (clientIP (e_cfg env) rq) \<or> u_ip u = u_ip row))
    (\<lambda>g. g \<in> set (grps d0)) (\<lambda>un. un = u_name row) (\<lambda>i. i = u_id row) (\<lambda>i g. member_of d0 i g)
    (\<lambda>un ip. un = u_name row \<and> (ip = clientIP (e_cfg env) rq \<or> Some ip = u_ip row)) False"
proof -
  let ?ip = "clientIP (e_cfg env) rq" and ?i = "u_id row"
  let ?J = "own_db ?i ?ip d0"
  have e: "e_be env = be" "c_prefix (e_cfg env) = prefix" using env by (simp_all add: good_env_def)
  have mem: "row \<in> set (users d0)" using accepts_user row by (auto simp: signed_by_def)
  have wf: "wf_users d0" using ok by (simp add: server_ok_def wf_db_def)
  have same: "v = row" if "v \<in> set (users d0)" "u_id v = ?i \<or> u_name v = u_name row" for v
    using that mem wf ids_ok_inj [of u_id "users_seq d0" "users d0" v row]
    by (auto simp: wf_users_def distinct_map dest: inj_onD)
  have user: "(\<exists>v \<in> set (users d0). fixed_user u = fixed_user v) \<and> (u_id u = ?i \<longrightarrow> u_ip u = Some ?ip \<or> u_ip u = u_ip row)"
    if d: "?J d" "u \<in> set (users d)" for d u
    using own_db_user [OF d] that same by (auto simp: own_db_def) metis
  have name: "u_name u = u_name row \<longleftrightarrow> u_id u = ?i" if "\<exists>v \<in> set (users d0). fixed_user u = fixed_user v" for u
    using that same fixed_userD by metis
  have auth: "u_name row' = u_name row" if "?J d" "signed_by env rq d row'" for d row'
    using accepts_user [of _ _ _ _ row] accepts_user [of _ _ _ _ row'] row that
    unfolding signed_by_def by (metis option.inject)
  have nm: "CHR '':'' \<notin> set (u_name row)" using rows_okD(1) [OF ok mem] ValidName_facts by (simp add: user_ok_iff)
  have gn: "g_name g \<noteq> []" if "g \<in> set (grps d0)" for g
    using rows_okD(2) [OF ok that] ValidName_facts by (simp add: grp_ok_def)
  have opens: "opens_ok P ip (u_name row) (e_order env (portMap gs))"
    if "ip = ?ip \<or> Some ip = u_ip row" "\<forall>g \<in> set gs. g \<in> set (grps d0) \<and> member_of d0 ?i g" for ip gs
    using that unfolding opens_ok_def set_order [OF env]
    by (auto simp: portMap_def own_key_def intro!: P) blast+
  have adm': "\<not> u_admin u" if "\<exists>v \<in> set (users d0). fixed_user u = fixed_user v" "u_name u = u_name row" for u
    using that same fixed_userD adm by metis
  have w_ip: "preserves ?J (RecordIPChange now ?i un a)" if a: "a = ?ip \<or> Some a = u_ip row" for now un a
  proof -
    have a': "a = ?ip \<or> (\<exists>v \<in> set (users d0). u_id v = ?i \<and> u_ip v = Some a)" using a mem by auto
    show ?thesis
      unfolding RecordIPChange_def query_row_def log_op_def
      by (intro preserves_txn preserves_bnd preserves_stmt preserves_exec preserves_ret)
        (auto intro!: own_db_ip [OF _ a'] own_db_logs preserves_exec preserves_ret split: option.splits)
  qed
  have logs: "preserves ?J (RecordFailedAttempt now uo ipo rs)" "preserves ?J (LogAudit now x b tg dt)"
    "preserves ?J (UpdateNodeReport now n v bk)" "preserves ?J (SetMembershipEnabled ?i gi en)"
    for now uo ipo rs x b tg dt n v bk gi en
    unfolding RecordFailedAttempt_def LogAudit_def UpdateNodeReport_def SetMembershipEnabled_def
    by (intro preserves_exec own_db_logs own_db_report own_db_enable; assumption)+
  show ?thesis
    apply unfold_locales
    apply (simp_all add: e w_ip logs nm gn opens R keyed_store.fw_RemoveRule [OF be] keyed_store.fw_Reconcile [OF be])
    subgoal using user by blast
    subgoal by (simp add: own_db_def)
    subgoal by (rule own_db_member)
    subgoal using auth by (simp add: signed_by_def)
    subgoal using name by blast
    subgoal using adm' by blast
    subgoal using name by blast
    subgoal for w u g ip using name [of u] keyed_store.fw_RemoveRule [OF be _ nm gn R] by auto
    done
qed

lemma clientIP_path [simp]: "clientIP cfg (rq\<lparr>rq_path := f\<rparr>) = clientIP cfg rq"
  by (simp add: clientIP_def Let_def)

lemma non_admin_Routes:
  assumes "keyed_store be prefix store host I" and "good_env be prefix env" and "server_ok d0"
    and "signed_by env rq d0 row" and "\<not> u_admin row" and "none_of (u_name row) R"
    and "\<And>k. own_key d0 row (clientIP (e_cfg env) rq) k \<Longrightarrow> P k"
  shows "keeps (own_db (u_id row) (clientIP (e_cfg env) rq) d0) (fw_inv I store P R) (Routes env m path rq) (\<lambda>_. True)"
proof (rule keeps_Routes)
  fix rt ps
  let ?rq = "rq\<lparr>rq_path := path_value ps\<rparr>"
  have ops: "client_ops env ?rq (own_db (u_id row) (clientIP (e_cfg env) ?rq) d0) (fw_inv I store P R)
    (\<lambda>u. (\<exists>v \<in> set (users d0). fixed_user u = fixed_user v) \<and>
       (u_id u = u_id row \<longrightarrow> u_ip u = Some (clientIP (e_cfg env) ?rq) \<or> u_ip u = u_ip row))
    (\<lambda>g. g \<in> set (grps d0)) (\<lambda>un. un = u_name row) (\<lambda>i. i = u_id row) (\<lambda>i g. member_of d0 i g)
    (\<lambda>un ip. un = u_name row \<and> (ip = clientIP (e_cfg env) ?rq \<or> Some ip = u_ip row)) False"
    using assms(4,7) by (intro client_ops_own [OF assms(1-3) _ assms(5,6)]) simp_all
  show "keeps (own_db (u_id row) (clientIP (e_cfg env) rq) d0) (fw_inv I store P R) (handler env rt ?rq) (\<lambda>_. True)"
  proof (cases "rt \<in> client_routes")
    case True
    from client_ops.keeps_client [OF ops this] show ?thesis by simp
  next
    case False
    obtain k where k: "handler env rt ?rq = hb (requireAdmin env ?rq) k" using head_admin [OF False] by blast
    show ?thesis unfolding k
      using keeps_hb [OF client_ops.keeps_requireAdmin [OF ops], of k "\<lambda>_. True"] by simp
  qed
qed (rule client_ops.keeps_throttle [OF client_ops_own [OF assms(1-7)]], assumption+)

text \<open>C4. Who is no administrator stays in one's own: a request signed by such a user, to whatever endpoint
  and under whatever faults, changes of the tables at most the address, the knock time and the enabled
  flags of that user (and the logs and node reports); it creates no membership, no account, group, or
  node, and touches no one else's row.  Every firewall rule of another user stays, and each rule it adds
  carries the user's name, the port of a group an administrator made the user a member of, and the
  address of this request or the one on record.\<close>

theorem non_admin_confined:
  assumes "keyed_store be prefix store host I" and "good_env be prefix env" and "server_ok (db_of s)" and "I (sv_fw s)"
    and "serve env m path rq s = (r, s')" and "signed_by env rq (db_of s) row" and "\<not> u_admin row"
  shows "own_db (u_id row) (clientIP (e_cfg env) rq) (db_of s) (db_of s')
    \<and> (\<forall>x \<in> set (store (sv_fw s)). r_user x \<noteq> u_name row \<longrightarrow> x \<in> set (store (sv_fw s')))
    \<and> (\<forall>x \<in> set (store (sv_fw s')). rule_key x \<in> rule_key ` set (store (sv_fw s)) \<or>
        own_key (db_of s) row (clientIP (e_cfg env) rq) (rule_key x))"
proof -
  let ?R = "{x \<in> set (store (sv_fw s)). r_user x \<noteq> u_name row}"
  let ?P = "\<lambda>k. k \<in> rule_key ` set (store (sv_fw s)) \<or> own_key (db_of s) row (clientIP (e_cfg env) rq) k"
  have "none_of (u_name row) ?R" by (simp add: none_of_def)
  from serve_keeps [OF non_admin_Routes [OF assms(1-3,6,7) this, of ?P] assms(5)] assms(4)
  show ?thesis by (auto simp: own_db_refl fw_inv_def)
qed

definition ann_request :: request where
  "ann_request = demo_request\<lparr>rq_auth := signed_header demo_ann ''1000''\<rparr>"

lemma ann_signs: "signed_by demo_env ann_request (db_of demo_srv) demo_ann" "\<not> u_admin demo_ann"
proof -
  have "u_name demo_ann = ''ann''" "find (\<lambda>u. u_name u = u_name demo_ann) (users demo_db) = Some demo_ann"
    by (simp_all add: demo_ann_def demo_db_def new_user_def)
  moreover have "parse_int64 ''1000'' = Some 1000" "\<not> expired 1000 300 1000" by code_simp+
  ultimately show "signed_by demo_env ann_request (db_of demo_srv) demo_ann"
    by (auto simp: signed_by_def accepts_def demo_srv_def demo_env_def default_config_def ann_request_def)
  show "\<not> u_admin demo_ann" by (simp add: demo_ann_def demo_db_def new_user_def)
qed

theorem non_admin_confined_witness:
  "map fixed_member (members (db_of (snd (serve demo_env ''POST'' [''api'', ''knock''] ann_request demo_srv)))) =
   map fixed_member (members demo_db)"
proof -
  obtain r s' where s: "serve demo_env ''POST'' [''api'', ''knock''] ann_request demo_srv = (r, s')"
    by (cases "serve demo_env ''POST'' [''api'', ''knock''] ann_request demo_srv")
  have ok: "server_ok (db_of demo_srv)" "mock_inv ''ok'' (sv_fw demo_srv)"
    using server_ok_demo demo_mock_inv by (simp_all add: demo_srv_def)
  from non_admin_confined [OF mock.keyed_store_axioms good_demo_env ok s ann_signs] s
  show ?thesis by (simp add: own_db_def demo_srv_def)
qed

end
