(* ===== verification/CliInv.thy ===== *)
theory CliInv
  imports CliOps NonAdmin
begin

text \<open>
  The hub: a server whose database and firewall the commands of an administrator's shell change as well.
  The invariant of \<open>ServerInv\<close> holds however requests, maintenance passes and commands interleave.
\<close>

definition drives_with :: "'s backend \<Rightarrow> 's cenv \<Rightarrow> string \<Rightarrow> bool" where
  "drives_with be cenv path \<longleftrightarrow>
     (\<forall>cfg b. Load (ce_read cenv) (ce_yaml cenv) path = Inr cfg \<and> newBackend cenv cfg = Inr b \<longrightarrow> b = be)"

text \<open>What a server on this host would run with.\<close>

definition host_env :: "'s backend \<Rightarrow> string \<Rightarrow> 's cenv \<Rightarrow> 's env" where
  "host_env be prefix cenv = \<lparr>e_be = be, e_cfg = default_config\<lparr>c_prefix := prefix\<rparr>, e_now = ce_now cenv, e_secret = [],
     e_totp = [], e_version = [], e_index = [], e_order = (\<lambda>xs. xs)\<rparr>"

lemma good_host_env: "good_env be prefix (host_env be prefix cenv)"
  by (simp add: good_env_def host_env_def)

lemma cli_ops_ok:
  assumes be: "keyed_store be prefix store host I" and "drives_with be cenv path"
  shows "cli_ops (host_env be prefix cenv) rq server_ok (fw_inv I store key_ok {}) user_ok grp_ok (\<lambda>_. True) (\<lambda>_. True)
    (\<lambda>_ _. True) (\<lambda>_ ip. allowlistable ip) True cenv path"
proof (rule cli_ops.intro [OF server_ops_ok [OF be good_host_env]], unfold_locales)
  fix w assume w: "fw_inv I store key_ok {} w"
  show "fw_inv I store key_ok {} (snd (be_ListManaged (e_be (host_env be prefix cenv)) w))"
    using w rule_store.list_managed [OF keyed_store.axioms(1) [OF be], of w "fst (be_ListManaged be w)" "snd (be_ListManaged be w)"]
    by (auto simp: fw_inv_def host_env_def split: sum.splits)
qed (use assms(2) in \<open>auto simp: drives_with_def host_env_def port_ok_def intro: server_ok_writes\<close>)

text \<open>A shell on a host whose backend is the mock.\<close>

definition with_mocks :: "'s cenv \<Rightarrow> mock cenv" where
  "with_mocks cenv = \<lparr>ce_read = ce_read cenv, ce_yaml = ce_yaml cenv, ce_open = ce_open cenv, ce_init = ce_init cenv,
     ce_fresh = ce_fresh cenv, ce_none = mock_backend, ce_ufw = (\<lambda>_. Inr mock_backend), ce_nft = (\<lambda>_. Inr mock_backend),
     ce_now = ce_now cenv, ce_rand = ce_rand cenv, ce_local = ce_local cenv, ce_stamp = ce_stamp cenv,
     ce_mkdir = ce_mkdir cenv, ce_vacuum = ce_vacuum cenv, ce_remove = ce_remove cenv\<rparr>"

lemma drives_with_mocks: "drives_with mock_backend (with_mocks cenv) path"
  by (auto simp: drives_with_def with_mocks_def newBackend_def split: if_splits)

interpretation mock_cli: cli_ops "host_env mock_backend prefix (with_mocks cenv)" rq server_ok "fw_inv (mock_inv prefix) mk_rules key_ok {}"
  user_ok grp_ok "\<lambda>_. True" "\<lambda>_. True" "\<lambda>_ _. True" "\<lambda>_ ip. allowlistable ip" True "with_mocks cenv" path
  for prefix cenv rq path
  by (rule cli_ops_ok [OF mock.keyed_store_axioms drives_with_mocks])

text \<open>A command line on the state of the hub; \<open>serve\<close>, \<open>agent\<close> and \<open>upgrade\<close> are no steps of this kind.\<close>

definition term_of :: "'s srv \<Rightarrow> string list \<Rightarrow> 's term" where
  "term_of s files = \<lparr>tm_db = sv_db s, tm_fw = sv_fw s, tm_files = files, tm_out = []\<rparr>"

inductive hub_step :: "'s backend \<Rightarrow> string \<Rightarrow> 's srv \<Rightarrow> 's srv \<Rightarrow> bool" for be prefix where
  server: "srv_step be prefix s s' \<Longrightarrow> hub_step be prefix s s'"
| command: "drives_with be cenv (fst (parseGlobal defpath argv)) \<Longrightarrow>
    run_cli (main_run cenv version defpath argv finish) (term_of s files) = (r, t) \<Longrightarrow>
    hub_step be prefix s (s\<lparr>sv_db := tm_db t, sv_fw := tm_fw t\<rparr>)"

lemma command_keeps:
  assumes "keyed_store be prefix store host I" and "drives_with be cenv (fst (parseGlobal defpath argv))"
    and "run_cli (main_run cenv version defpath argv finish) s = (r, t)"
    and "server_ok (fst (tm_db s))" and "fw_inv I store key_ok {} (tm_fw s)"
  shows "server_ok (fst (tm_db t)) \<and> fw_inv I store key_ok {} (tm_fw t)"
  by (rule run_ckeeps [OF cli_ops.ck_main [OF cli_ops_ok [OF assms(1,2)] refl ckeeps_fail(2)] assms(4,5,3)])

lemma hub_steps_ok:
  assumes "(hub_step be prefix)\<^sup>*\<^sup>* s0 s" and "keyed_store be prefix store host I"
    and "server_ok (fst (sv_db s0))" and "fw_inv I store key_ok {} (sv_fw s0)"
  shows "server_ok (fst (sv_db s)) \<and> fw_inv I store key_ok {} (sv_fw s)"
  using assms
proof (induction rule: rtranclp_induct)
  case (step s s')
  from step.hyps(2) step.IH [OF step.prems] show ?case
  proof cases
    case server
    with srv_step_ok [OF step.prems(1)] step.IH [OF step.prems] show ?thesis by blast
  next
    case (command cenv defpath argv version files r t)
    from command_keeps [OF step.prems(1) command(2,3)] step.IH [OF step.prems] command(1) show ?thesis
      by (simp add: term_of_def)
  qed
qed simp

text \<open>C3. However requests with whatever content, maintenance passes and command lines with whatever arguments
  interleave, and whatever database statement or firewall call fails: the tables stay well formed; the names
  of users and groups are valid; the ports and protocols of groups and of node targets are in range; a
  recorded address is a single, non-loopback, specified IP address; and the firewall never holds a managed
  rule for any other name, port, protocol or address.\<close>

theorem hub_reachable_ok:
  assumes "keyed_store be prefix store host I" and "(hub_step be prefix)\<^sup>*\<^sup>* s0 s"
    and "server_ok (fst (sv_db s0))" and "I (sv_fw s0)" and "\<forall>r \<in> set (store (sv_fw s0)). key_ok (rule_key r)"
  shows "server_ok (fst (sv_db s)) \<and> I (sv_fw s) \<and> (\<forall>r \<in> set (store (sv_fw s)). key_ok (rule_key r))"
  using hub_steps_ok [OF assms(2,1,3)] assms(4,5) by (simp add: fw_inv_def)

text \<open>A shell on the demonstration host.\<close>

definition demo_cenv :: "mock cenv" where
  "demo_cenv = \<lparr>ce_read = (\<lambda>_. Some []), ce_yaml = (\<lambda>_ c. Some (c\<lparr>c_prefix := ''ok''\<rparr>)), ce_open = None, ce_init = None,
     ce_fresh = False, ce_none = mock_backend, ce_ufw = (\<lambda>_. Inr mock_backend), ce_nft = (\<lambda>_. Inr mock_backend),
     ce_now = 1000, ce_rand = Some (replicate 32 7), ce_local = (\<lambda>_. ''2025-01-01 00:00:00''), ce_stamp = ''20250101'',
     ce_mkdir = None, ce_vacuum = Inr ''d'', ce_remove = (\<lambda>_. True)\<rparr>"

lemma drives_demo: "drives_with mock_backend demo_cenv path"
  by (auto simp: drives_with_def demo_cenv_def newBackend_def split: if_splits)

theorem hub_reachable_ok_witness:
  "server_ok (fst (tm_db (snd (run_cli (main_run demo_cenv ''dev'' ''/etc/x'' [''revoke'', ''ann''] finish) (term_of demo_srv [])))))"
proof -
  obtain r t where t: "run_cli (main_run demo_cenv ''dev'' ''/etc/x'' [''revoke'', ''ann''] finish) (term_of demo_srv []) = (r, t)"
    by (cases "run_cli (main_run demo_cenv ''dev'' ''/etc/x'' [''revoke'', ''ann''] finish) (term_of demo_srv [])")
  then have "(hub_step mock_backend ''ok'')\<^sup>*\<^sup>* demo_srv (demo_srv\<lparr>sv_db := tm_db t, sv_fw := tm_fw t\<rparr>)"
    by (intro r_into_rtranclp hub_step.command [OF drives_demo])
  from hub_reachable_ok [OF mock.keyed_store_axioms this] server_ok_demo demo_mock_inv t
  show ?thesis by (simp add: demo_srv_def)
qed

end
