(* ===== verification/Upgrade.thy ===== *)
theory Upgrade
  imports CliInv
begin

text \<open>
  \<open>internal/cli/upgrade.go\<close>: the self-upgrade.  The replies of the GitHub API and the downloads are
  arguments (\<open>ghGet\<close>'s transfer with its watchdog is one of them: a URL's bytes or an error), and so are the
  commands run (the new binary's \<open>--version\<close>, \<open>systemctl\<close>).  The state is that of a command, for the
  backup, and the files that hold binaries; a file operation takes one entry of a fault schedule, and a write
  that fails may leave anything behind.
\<close>

section \<open>The world\<close>

record releaseAsset =
  ra_name :: string
  ra_digest :: string

record release =
  rl_tag :: string
  rl_assets :: "releaseAsset list"

datatype api_reply = ApiDown | ApiReply int "release option"

record 's uenv =
  ue_cli :: "'s cenv"
  ue_os :: string
  ue_arch :: string
  ue_euid :: int
  ue_exe :: "string option"
  ue_api :: "string \<Rightarrow> api_reply"
  ue_get :: "string \<Rightarrow> nat list option"
  ue_runs :: "nat list option \<Rightarrow> bool"
  ue_systemctl :: bool
  ue_enabled :: "string \<Rightarrow> bool"
  ue_restart :: "string \<Rightarrow> bool"
  ue_unit :: "nat \<Rightarrow> string \<Rightarrow> string \<Rightarrow> string"

datatype fault = Works | Breaks "nat list option"

record 's up =
  up_term :: "'s term"
  up_files :: "string \<Rightarrow> nat list option"
  up_faults :: "fault list"

datatype upgrade_error =
    UFlags flag_error
  | NoPrebuilt string string
  | NoLatest
  | NotRoot
  | NoSelf
  | Untrusted
  | DownloadFailed
  | Mismatch
  | StageFailed
  | KeepFailed
  | InstallFailed
  | DoesNotRun
  | NotHealthy

text \<open>The next entry of the schedule; none means that the operation works.\<close>

definition next_fault :: "'s up \<Rightarrow> fault \<times> 's up" where
  "next_fault u = (case up_faults u of [] \<Rightarrow> (Works, u) | f # fs \<Rightarrow> (f, u\<lparr>up_faults := fs\<rparr>))"

definition put_file :: "string \<Rightarrow> nat list option \<Rightarrow> 's up \<Rightarrow> 's up" where
  "put_file p c u = u\<lparr>up_files := (up_files u)(p := c)\<rparr>"

definition file_write :: "string \<Rightarrow> nat list \<Rightarrow> 's up \<Rightarrow> bool \<times> 's up" where
  "file_write p data u = (case next_fault u of
      (Works, v) \<Rightarrow> (True, put_file p (Some data) v)
    | (Breaks c, v) \<Rightarrow> (False, put_file p c v))"

definition file_rename :: "string \<Rightarrow> string \<Rightarrow> 's up \<Rightarrow> bool \<times> 's up" where
  "file_rename src dst u = (case next_fault u of
      (Works, v) \<Rightarrow> (case up_files v src of
          None \<Rightarrow> (False, v)
        | Some data \<Rightarrow> (True, put_file dst (Some data) (put_file src None v)))
    | (Breaks _, v) \<Rightarrow> (False, v))"

definition copyFile :: "string \<Rightarrow> string \<Rightarrow> 's up \<Rightarrow> bool \<times> 's up" where
  "copyFile src dst u = (case next_fault u of
      (Works, v) \<Rightarrow> (case up_files v src of None \<Rightarrow> (False, v) | Some data \<Rightarrow> file_write dst data v)
    | (Breaks _, v) \<Rightarrow> (False, v))"

definition file_remove :: "string \<Rightarrow> 's up \<Rightarrow> 's up" where
  "file_remove p u = (case next_fault u of (Works, v) \<Rightarrow> put_file p None v | (Breaks _, v) \<Rightarrow> v)"

definition up_say :: "string \<Rightarrow> 's up \<Rightarrow> 's up" where
  "up_say line u = u\<lparr>up_term := (up_term u)\<lparr>tm_out := tm_out (up_term u) @ line\<rparr>\<rparr>"

section \<open>Versions and assets\<close>

definition upgradeRepo :: string where
  "upgradeRepo = ''lvusyy/nft-okboy-fleet''"

definition ghMirrors :: "string list" where
  "ghMirrors = [[], ''https://ghfast.top/'', ''https://gh-proxy.com/'']"

definition trim_prefix :: "string \<Rightarrow> string \<Rightarrow> string" where
  "trim_prefix p s = (if has_prefix p s then drop (length p) s else s)"

definition displayVersion :: "string \<Rightarrow> string" where
  "displayVersion v = (if v = [] \<or> v = ''dev'' then ''dev'' else ''v'' @ trim_prefix ''v'' v)"

definition sameVersion :: "string \<Rightarrow> string \<Rightarrow> bool" where
  "sameVersion version tag = (if version = [] \<or> version = ''dev'' then False
     else trim_prefix ''v'' version = trim_prefix ''v'' tag)"

definition assetForHost :: "string \<Rightarrow> string \<Rightarrow> string" where
  "assetForHost os arch = (if os \<noteq> ''linux'' then []
     else if arch \<in> {''amd64'', ''arm64'', ''386'', ''loong64'', ''ppc64le'', ''riscv64'', ''s390x''}
     then ''nft-okboy-linux-'' @ arch else [])"

text \<open>\<open>url.PathEscape\<close>.\<close>

definition path_plain :: "char \<Rightarrow> bool" where
  "path_plain c \<longleftrightarrow> is_upper c \<or> is_lower c \<or> is_digit c \<or> c \<in> set ''-_.~$&+:=@''"

definition upper_hex :: "nat \<Rightarrow> char" where
  "upper_hex n = (if n < 10 then char_of (48 + n) else char_of (55 + n))"

definition path_escape :: "string \<Rightarrow> string" where
  "path_escape s = concat (map (\<lambda>c. if path_plain c then [c]
     else [CHR ''%'', upper_hex (byte c div 16), upper_hex (byte c mod 16)]) s)"

definition api_url :: "string \<Rightarrow> string \<Rightarrow> string" where
  "api_url repo tag = (if tag = [] then ''https://api.github.com/repos/'' @ repo @ ''/releases/latest''
     else ''https://api.github.com/repos/'' @ repo @ ''/releases/tags/'' @ path_escape tag)"

definition fetchRelease :: "'s uenv \<Rightarrow> string \<Rightarrow> string \<Rightarrow> release option" where
  "fetchRelease env repo tag = (case ue_api env (api_url repo tag) of
      ApiDown \<Rightarrow> None
    | ApiReply st r \<Rightarrow> if st \<noteq> 200 then None
        else (case r of None \<Rightarrow> None | Some rel \<Rightarrow> if rl_tag rel = [] then None else Some rel))"

definition download_url :: "string \<Rightarrow> string \<Rightarrow> string \<Rightarrow> string" where
  "download_url repo tag file = ''https://github.com/'' @ repo @ ''/releases/download/'' @ tag @ ''/'' @ file"

fun download_loop :: "'s uenv \<Rightarrow> string \<Rightarrow> string list \<Rightarrow> nat list option" where
  "download_loop env path [] = None"
| "download_loop env path (m # ms) = (case ue_get env (m @ path) of
      None \<Rightarrow> download_loop env path ms | Some b \<Rightarrow> Some b)"

definition ghDownload :: "'s uenv \<Rightarrow> string \<Rightarrow> string \<Rightarrow> string \<Rightarrow> nat list option" where
  "ghDownload env repo tag asset = download_loop env (download_url repo tag asset) ghMirrors"

section \<open>The checksum\<close>

definition isSHA256Hex :: "string \<Rightarrow> bool" where
  "isSHA256Hex s \<longleftrightarrow> length s = 64 \<and> list_all is_hex s"

text \<open>\<open>strings.Fields\<close>.\<close>

function fields :: "string \<Rightarrow> string \<Rightarrow> string list" where
  "fields cur s = (if s = [] then (if cur = [] then [] else [cur])
     else if lead_space s = 0 then fields (cur @ [hd s]) (tl s)
     else (if cur = [] then id else (#) cur) (fields [] (drop (lead_space s) s)))"
  by pat_completeness auto
termination by (relation "measure (\<lambda>(cur, s). length s)") auto

declare fields.simps [simp del]

fun sums_loop :: "string list \<Rightarrow> string \<Rightarrow> string option" where
  "sums_loop [] asset = None"
| "sums_loop (line # ls) asset = (case fields [] line of
      [h, f] \<Rightarrow> if trim_prefix ''*'' f = asset \<and> isSHA256Hex h then Some (map lower h) else sums_loop ls asset
    | _ \<Rightarrow> sums_loop ls asset)"

definition digestFromSums :: "nat list \<Rightarrow> string \<Rightarrow> string option" where
  "digestFromSums sums asset = sums_loop (split_on (CHR 10) (map char_of sums)) asset"

fun asset_loop :: "releaseAsset list \<Rightarrow> string \<Rightarrow> string option" where
  "asset_loop [] asset = None"
| "asset_loop (a # as) asset =
     (if has_prefix ''sha256:'' (ra_digest a) \<and> ra_name a = asset \<and> isSHA256Hex (drop 7 (ra_digest a))
      then Some (map lower (drop 7 (ra_digest a))) else asset_loop as asset)"

definition trustedDigest :: "'s uenv \<Rightarrow> release option \<Rightarrow> string \<Rightarrow> string \<Rightarrow> string \<Rightarrow> string option" where
  "trustedDigest env rel repo tag asset =
     (case (case rel of None \<Rightarrow> None | Some r \<Rightarrow> asset_loop (rl_assets r) asset) of
        Some h \<Rightarrow> Some h
      | None \<Rightarrow> (case ue_get env (download_url repo tag ''SHA256SUMS'') of
          None \<Rightarrow> None | Some sums \<Rightarrow> digestFromSums sums asset))"

definition checkDigest :: "nat list \<Rightarrow> string \<Rightarrow> bool" where
  "checkDigest data want \<longleftrightarrow> hex_encode (sha256 data) = want"

section \<open>The service\<close>

definition unitProp :: "'s uenv \<Rightarrow> nat \<Rightarrow> string \<Rightarrow> string \<Rightarrow> string" where
  "unitProp env n name prop = trim_space (ue_unit env n name prop)"

definition serviceHealthy :: "'s uenv \<Rightarrow> string \<Rightarrow> bool" where
  "serviceHealthy env name \<longleftrightarrow> unitProp env 1 name ''NRestarts'' = unitProp env 0 name ''NRestarts'' \<and>
     unitProp env 2 name ''ActiveState'' = ''active''"

definition restartService :: "'s uenv \<Rightarrow> string \<Rightarrow> bool" where
  "restartService env name \<longleftrightarrow> ue_systemctl env \<and> ue_enabled env name \<and> ue_restart env name"

section \<open>The upgrade\<close>

definition path_dir :: "string \<Rightarrow> string" where
  "path_dir p = path_clean (rev (dropWhile (\<lambda>c. c \<noteq> CHR ''/'') (rev p)))"

definition staged :: "string \<Rightarrow> string" where
  "staged exe = path_join (path_dir exe) ''.nft-okboy.upgrade.tmp''"

definition kept :: "string \<Rightarrow> string" where
  "kept exe = exe @ ''.bak''"

definition upgrade_flags :: flagset where
  "upgrade_flags = [(''check'', BoolV False), (''version'', StrV []), (''no-restart'', BoolV False),
     (''no-backup'', BoolV False), (''service'', StrV ''nft-okboy'')]"

definition ellipsis :: string where
  "ellipsis = map char_of [226, 128, 166 :: nat]"

definition arrow :: string where
  "arrow = map char_of [226, 134, 146 :: nat]"

definition roll_back :: "string \<Rightarrow> 's up \<Rightarrow> 's up" where
  "roll_back exe u = snd (file_rename (kept exe) exe u)"

definition upgraded_text :: "string \<Rightarrow> string \<Rightarrow> string \<Rightarrow> string" where
  "upgraded_text version want exe = ''Upgraded nft-okboy '' @ displayVersion version @ '' '' @ arrow @ '' '' @ want @
     ''.  Previous binary kept at '' @ kept exe @ nl"

text \<open>The swap, from the copy of the old binary to the health check.\<close>

definition swap :: "'s uenv \<Rightarrow> string \<Rightarrow> flagset \<Rightarrow> string \<Rightarrow> string \<Rightarrow> 's up \<Rightarrow> upgrade_error option \<times> 's up" where
  "swap env version fs want exe u = (case copyFile exe (kept exe) u of
      (False, u1) \<Rightarrow> (Some KeepFailed, u1)
    | (True, u1) \<Rightarrow> (case file_rename (staged exe) exe u1 of
        (False, u2) \<Rightarrow> (Some InstallFailed, u2)
      | (True, u2) \<Rightarrow>
          if \<not> ue_runs env (up_files u2 exe) then (Some DoesNotRun, roll_back exe u2)
          else if bool_flag fs ''no-restart'' \<or> \<not> restartService env (str_flag fs ''service'')
          then (None, up_say (upgraded_text version want exe) u2)
          else if \<not> serviceHealthy env (str_flag fs ''service'') then (Some NotHealthy, roll_back exe u2)
          else (None, up_say (upgraded_text version want exe)
                 (up_say (''Service '' @ quote (str_flag fs ''service'') @ '' restarted and healthy.'' @ nl) u2))))"

definition install :: "'s uenv \<Rightarrow> string \<Rightarrow> flagset \<Rightarrow> string \<Rightarrow> string \<Rightarrow> nat list \<Rightarrow> 's up \<Rightarrow> upgrade_error option \<times> 's up" where
  "install env version fs want exe data u = (case file_write (staged exe) data u of
      (False, u1) \<Rightarrow> (Some StageFailed, u1)
    | (True, u1) \<Rightarrow> (case swap env version fs want exe u1 of (r, u2) \<Rightarrow> (r, file_remove (staged exe) u2)))"

text \<open>A backup that fails is a warning.\<close>

definition upgrade_backup :: "'s uenv \<Rightarrow> string \<Rightarrow> flagset \<Rightarrow> 's up \<Rightarrow> 's up" where
  "upgrade_backup env path fs u = (if bool_flag fs ''no-backup'' then u
     else (let v = up_say (''Backing up database'' @ ellipsis @ nl) u in
           v\<lparr>up_term := snd (run_cli (CmdBackup (ue_cli env) path []) (up_term v))\<rparr>))"

definition fetch_and_install :: "'s uenv \<Rightarrow> string \<Rightarrow> string \<Rightarrow> flagset \<Rightarrow> release option \<Rightarrow> string \<Rightarrow> string \<Rightarrow> string \<Rightarrow> 's up \<Rightarrow>
    upgrade_error option \<times> 's up" where
  "fetch_and_install env version path fs rel want asset exe u =
     (case trustedDigest env rel upgradeRepo want asset of None \<Rightarrow> (Some Untrusted, u) | Some digest \<Rightarrow>
      let u1 = up_say (''Downloading '' @ asset @ '' '' @ want @ ellipsis @ nl) (upgrade_backup env path fs u) in
      (case ghDownload env upgradeRepo want asset of None \<Rightarrow> (Some DownloadFailed, u1) | Some data \<Rightarrow>
        if \<not> checkDigest data digest then (Some Mismatch, u1)
        else install env version fs want exe data (up_say (''Checksum verified against GitHub.'' @ nl) u1)))"

definition upgrade_run :: "'s uenv \<Rightarrow> string \<Rightarrow> string \<Rightarrow> flagset \<Rightarrow> 's up \<Rightarrow> upgrade_error option \<times> 's up" where
  "upgrade_run env version path fs u =
     (let asset = assetForHost (ue_os env) (ue_arch env); target = str_flag fs ''version'';
          rel = fetchRelease env upgradeRepo target;
          want = (if target = [] then (case rel of None \<Rightarrow> [] | Some r \<Rightarrow> rl_tag r) else target) in
      if asset = [] then (Some (NoPrebuilt (ue_os env) (ue_arch env)), u)
      else if target = [] \<and> rel = None then (Some NoLatest, u)
      else let u1 = up_say (''Current: '' @ displayVersion version @ ''   Target: '' @ want @ nl) u in
        if bool_flag fs ''check''
        then (None, up_say (if sameVersion version want then ''Already up to date.'' @ nl
                            else ''A newer release is available: '' @ want @ nl) u1)
        else if target = [] \<and> sameVersion version want then (None, up_say (''Already up to date.'' @ nl) u1)
        else if ue_euid env \<noteq> 0 then (Some NotRoot, u1)
        else (case ue_exe env of None \<Rightarrow> (Some NoSelf, u1) | Some exe \<Rightarrow>
          fetch_and_install env version path fs rel want asset exe u1))"

definition CmdUpgrade :: "'s uenv \<Rightarrow> string \<Rightarrow> string \<Rightarrow> string list \<Rightarrow> 's up \<Rightarrow> upgrade_error option \<times> 's up" where
  "CmdUpgrade env version path args u = (case the (parseFlags upgrade_flags args) of
      Inl e \<Rightarrow> (Some (UFlags e), u)
    | Inr (fs, _) \<Rightarrow> upgrade_run env version path fs u)"

end
