(* ===== verification/CliLaws.thy ===== *)
theory CliLaws
  imports CliInv
begin

text \<open>
  What single commands achieve: \<open>revoke\<close> shuts a user out, the token \<open>node-add\<close> prints is the one the hub
  accepts, \<open>backup\<close> keeps the newest backups, and \<open>agent\<close> sends no token over an unprotected link.
\<close>

section \<open>Commands that end without an error\<close>

lemma cb_success:
  assumes "run_cli (cb m f) s = (None, t)"
  obtains "m s = (Inl None, t)" | a u where "m s = (Inr a, u)" "run_cli (f a) u = (None, t)"
  using assms by (cases "m s", cases "fst (m s)") (auto simp: run_cli_def cb_def)

lemma cb_check_success:
  assumes "run_cli (cb (check b e) f) s = (None, t)"
  shows "b \<and> run_cli (f ()) s = (None, t)"
  using assms by (auto simp: run_cli_def cb_def check_def cret_def fail_def split: if_splits)

lemma ctry_success: "ctry g m s = (Inr a, u) \<Longrightarrow> \<exists>d. m (tm_db s) = (Inr a, d) \<and> u = s\<lparr>tm_db := d\<rparr>"
  by (auto simp: ctry_def cb_def cdb_def cret_def fail_def split: prod.splits sum.splits)

lemma ctry_no_end: "ctry g m s \<noteq> (Inl None, u)"
  by (auto simp: ctry_def cb_def cdb_def cret_def fail_def split: prod.splits sum.splits)

lemma cb_ctry_success:
  assumes "run_cli (cb (ctry g m) f) s = (None, t)"
  obtains a d where "m (tm_db s) = (Inr a, d)" "run_cli (f a) (s\<lparr>tm_db := d\<rparr>) = (None, t)"
  using assms
proof (rule cb_success)
  assume "ctry g m s = (Inl None, t)"
  then show thesis using ctry_no_end by metis
next
  fix a u assume c: "ctry g m s = (Inr a, u)" and r: "run_cli (f a) u = (None, t)"
  from ctry_success [OF c] obtain d where d: "m (tm_db s) = (Inr a, d)" "u = s\<lparr>tm_db := d\<rparr>" by blast
  show thesis by (rule that [OF d(1)]) (use r d(2) in simp)
qed

lemma cb_cret: "cb (cret a) f = f a"
  by (simp add: fun_eq_iff cb_def cret_def)

lemma cb_assoc: "cb (cb m f) g = cb m (\<lambda>a. cb (f a) g)"
  by (simp add: fun_eq_iff cb_def split: prod.splits sum.splits)

lemma cb_say: "run_cli (cb (say txt) f) s = run_cli (f ()) (s\<lparr>tm_out := tm_out s @ txt\<rparr>)"
  by (simp add: run_cli_def cb_def say_def)

lemma run_say: "run_cli (say txt) s = (None, s\<lparr>tm_out := tm_out s @ txt\<rparr>)"
  by (simp add: run_cli_def say_def)

lemma cb_ctry: "run_cli (cb (ctry g m) f) s = (case m (tm_db s) of
    (Inl e, d) \<Rightarrow> (Some (g e), s\<lparr>tm_db := d\<rparr>) | (Inr a, d) \<Rightarrow> run_cli (f a) (s\<lparr>tm_db := d\<rparr>))"
  by (simp add: ctry_def cb_def cdb_def cret_def fail_def run_cli_def split: prod.splits sum.splits)

lemma cb_cdb: "run_cli (cb (cdb m) f) s = (case m (tm_db s) of (r, d) \<Rightarrow> run_cli (f r) (s\<lparr>tm_db := d\<rparr>))"
  by (simp add: cb_def cdb_def run_cli_def split: prod.splits)

lemmas cli_eval = cb_ctry cb_cdb cb_say run_say cb_cret cb_assoc check_def

lemma run_cret: "run_cli (cret a) s = (None, s)"
  by (simp add: run_cli_def cret_def)

text \<open>The database but for the audit log, which a command writes at best.\<close>

definition core :: "db \<Rightarrow> db" where
  "core d = d\<lparr>audits := [], audits_seq := 0\<rparr>"

lemma cb_audit:
  "\<exists>d. core (fst d) = core (fst (tm_db s)) \<and> run_cli (cb (cli_audit env a b c) f) s = run_cli (f ()) (s\<lparr>tm_db := d\<rparr>)"
proof -
  define q where "q = LogAudit (ce_now env) ''cli'' a (nullStr b) (nullStr c) (tm_db s)"
  have "core (fst (snd q)) = core (fst (tm_db s))"
    unfolding q_def by (cases "tm_db s") (auto simp: LogAudit_def exec_def stmt_def core_def)
  moreover have "run_cli (cb (cli_audit env a b c) f) s = run_cli (f ()) (s\<lparr>tm_db := snd q\<rparr>)"
    by (cases q) (simp add: run_cli_def cb_def cli_audit_def cdb_def cret_def flip: q_def)
  ultimately show ?thesis by blast
qed

text \<open>A database that exists already is opened as it is.\<close>

definition opens :: "'s cenv \<Rightarrow> string \<Rightarrow> config \<Rightarrow> bool" where
  "opens env path cfg \<longleftrightarrow> Load (ce_read env) (ce_yaml env) path = Inr cfg \<and> ce_open env = None \<and> ce_init env = None \<and>
     \<not> ce_fresh env"

lemma cb_load: "opens env path cfg \<Longrightarrow> run_cli (cb (loadCfgDB env path) f) s = run_cli (f cfg) s"
  by (simp add: opens_def loadCfgDB_def load_config_def openDB_def seedUsers_def run_cli_def cb_def cret_def)

lemma cb_user:
  assumes "run_cli (cb (cli_user un) f) s = (None, t)" and "find (\<lambda>u. u_name u = un) (users (fst (tm_db s))) = Some u"
  obtains d where "fst d = fst (tm_db s)" "run_cli (f u) (s\<lparr>tm_db := d\<rparr>) = (None, t)"
proof -
  have q: "fst (GetUserByUsername un (tm_db s)) = Inr (Some u) \<or> (\<exists>e. fst (GetUserByUsername un (tm_db s)) = Inl e)"
    "fst (snd (GetUserByUsername un (tm_db s))) = fst (tm_db s)"
    using assms(2) by (cases "tm_db s", auto simp: GetUserByUsername_def query_def stmt_def)+
  show thesis
    using assms(1) q that [of "snd (GetUserByUsername un (tm_db s))"]
    by (auto simp: cli_user_def ctry_def cb_def cdb_def cret_def fail_def run_cli_def split: prod.splits sum.splits)
qed

section \<open>revoke\<close>

definition revoked :: "int \<Rightarrow> string option \<Rightarrow> db \<Rightarrow> db" where
  "revoked i sec d = upd_user i (\<lambda>u. u\<lparr>u_ip := None, u_knock := None, u_secret := (case sec of None \<Rightarrow> u_secret u | Some x \<Rightarrow> x)\<rparr>) d"

lemma removeUserRules_run:
  assumes "newBackend env cfg = Inr be"
  shows "run_cli (cb (removeUserRules env cfg un) f) s =
    run_cli (f (fst (RemoveUserRules be un (tm_fw s)) \<noteq> None)) (s\<lparr>tm_fw := snd (RemoveUserRules be un (tm_fw s))\<rparr>)"
  by (cases "RemoveUserRules be un (tm_fw s)")
    (simp add: removeUserRules_def with_manager_def newManager_def assms cb_def cfw_def cret_def run_cli_def)

lemma upd_user_twice: "(\<And>u. u_id (g u) = u_id u) \<Longrightarrow> upd_user i f (upd_user i g d) = upd_user i (\<lambda>u. f (g u)) d"
  by (auto simp: upd_user_def upd_where_def)

lemma core_upd_user: "core (upd_user i f d) = upd_user i f (core d)"
  by (simp add: core_def upd_user_def)


text \<open>No desired state of the revoked database names the user.\<close>

lemma revoked_desired:
  assumes "wf_db d" and "u \<in> set (users d)"
  shows "r \<in> set (desired_local (revoked (u_id u) sec d)) \<Longrightarrow> d_user r \<noteq> u_name u"
    and "r \<in> set (desired_node nid (revoked (u_id u) sec d)) \<Longrightarrow> d_user r \<noteq> u_name u"
proof -
  have same: "u_id v = u_id u" if "v \<in> set (users d)" "u_name v = u_name u" for v
    using assms that by (auto simp: wf_db_def wf_defs distinct_map dest: inj_onD)
  have none: "u_ip v = None" if "v \<in> set (users (revoked (u_id u) sec d))" "u_name v = u_name u" for v
    using that same by (auto simp: revoked_def upd_user_def upd_where_def split: if_splits)
  show "r \<in> set (desired_local (revoked (u_id u) sec d)) \<Longrightarrow> d_user r \<noteq> u_name u"
    by (auto simp: in_desired_local grants_def dest: none)
  show "r \<in> set (desired_node nid (revoked (u_id u) sec d)) \<Longrightarrow> d_user r \<noteq> u_name u"
    by (auto simp: in_desired_node grants_def dest: none)
qed

lemma report_run:
  assumes "run_cli (cb (cli_audit env a b c) (\<lambda>_. cb (say txt) (\<lambda>_. if p then say txt2 else cret ()))) s = (None, t)"
  shows "core (fst (tm_db t)) = core (fst (tm_db s)) \<and> tm_fw t = tm_fw s \<and> (\<exists>more. tm_out t = tm_out s @ txt @ more)"
proof -
  let ?f = "\<lambda>_ :: unit. cb (say txt) (\<lambda>_. if p then say txt2 else cret ())"
  obtain d where d: "core (fst d) = core (fst (tm_db s))"
    "run_cli (cb (cli_audit env a b c) ?f) s = run_cli (?f ()) (s\<lparr>tm_db := d\<rparr>)" using cb_audit by metis
  have "run_cli (?f ()) (s\<lparr>tm_db := d\<rparr>) = (None, t)" using assms d(2) by simp
  then show ?thesis using d(1) by (cases p) (auto simp: cb_say run_say run_cret)
qed

lemma revoke_run:
  assumes "run_cli (CmdRevoke env path args) s = (None, t)"
    and "parseFlags [(''no-rotate'', BoolV False)] args = Some (Inr (fs, un # rest))" and "opens env path cfg"
    and "newBackend env cfg = Inr be" and "find (\<lambda>u. u_name u = un) (users (fst (tm_db s))) = Some u"
  defines "sec \<equiv> if bool_flag fs ''no-rotate'' then None else map_option hex_encode (ce_rand env)"
  shows "core (fst (tm_db t)) = revoked (u_id u) sec (core (fst (tm_db s)))
    \<and> tm_fw t = snd (RemoveUserRules be un (tm_fw s))
    \<and> (\<exists>more. tm_out t = tm_out s @ revoke_text (fst (RemoveUserRules be un (tm_fw s)) \<noteq> None) un @ more)
    \<and> (\<not> bool_flag fs ''no-rotate'' \<longrightarrow> sec \<noteq> None)"
proof -
  let ?no = "bool_flag fs ''no-rotate''" and ?left = "fst (RemoveUserRules be un (tm_fw s)) \<noteq> None"
    and ?w = "snd (RemoveUserRules be un (tm_fw s))"
  note r = assms(1) [unfolded CmdRevoke_def with_flags_def assms(2) option.sel sum.case prod.case Let_def nth_Cons_0]
  note r = cb_check_success [OF r, THEN conjunct2, unfolded cb_load [OF assms(3)]]
  obtain d1 where d1: "fst d1 = fst (tm_db s)" and r1: "run_cli (cb (removeUserRules env cfg un) (\<lambda>left.
     cb (ctry DbFailed (ClearUserState (u_id u))) (\<lambda>_.
     cb (if ?no then cret [] else cb (cli_genSecret env) (\<lambda>secret.
              cb (ctry DbFailed (RotateSecret (u_id u) secret)) (\<lambda>_. cret secret))) (\<lambda>newSecret.
     cb (cli_audit env ''revoke'' un (''rotate='' @ bool_text (\<not> ?no))) (\<lambda>_.
     cb (say (revoke_text left un)) (\<lambda>_.
     if newSecret \<noteq> [] then say (''New secret (deliver to the user out-of-band): '' @ newSecret @ nl)
     else cret ())))))) (s\<lparr>tm_db := d1\<rparr>) = (None, t)"
    by (rule cb_user [OF r assms(5)])
  define rest where "rest = (\<lambda>newSecret. cb (cli_audit env ''revoke'' un (''rotate='' @ bool_text (\<not> ?no))) (\<lambda>_.
     cb (say (revoke_text ?left un)) (\<lambda>_.
     if newSecret \<noteq> [] then say (''New secret (deliver to the user out-of-band): '' @ newSecret @ nl) else cret ())) :: ('a, unit) cm)"
  have r2: "run_cli (cb (ctry DbFailed (ClearUserState (u_id u))) (\<lambda>_.
     cb (if ?no then cret [] else cb (cli_genSecret env) (\<lambda>secret.
              cb (ctry DbFailed (RotateSecret (u_id u) secret)) (\<lambda>_. cret secret))) rest))
       (s\<lparr>tm_db := d1, tm_fw := ?w\<rparr>) = (None, t)"
    using r1 by (simp add: removeUserRules_run [OF assms(4)] rest_def)
  obtain a d2 where d2: "ClearUserState (u_id u) d1 = (Inr a, d2)" and r3: "run_cli (cb (if ?no then cret []
      else cb (cli_genSecret env) (\<lambda>secret. cb (ctry DbFailed (RotateSecret (u_id u) secret)) (\<lambda>_. cret secret))) rest)
       (s\<lparr>tm_fw := ?w, tm_db := d2\<rparr>) = (None, t)"
    by (rule cb_ctry_success [OF r2]) simp
  have u2: "fst d2 = upd_user (u_id u) (\<lambda>u. u\<lparr>u_ip := None, u_knock := None\<rparr>) (fst (tm_db s))"
    using exec_InrD [OF d2 [unfolded ClearUserState_def]] d1 by simp
  have "\<exists>d3 ns. fst d3 = revoked (u_id u) sec (fst (tm_db s)) \<and> (\<not> ?no \<longrightarrow> sec \<noteq> None) \<and>
      run_cli (rest ns) (s\<lparr>tm_fw := ?w, tm_db := d3\<rparr>) = (None, t)"
  proof (cases ?no)
    case True
    with r3 u2 show ?thesis
      by (intro exI [of _ d2] exI [of _ "[]"]) (simp add: sec_def revoked_def cb_cret)
  next
    case False
    then have r4: "run_cli (cb (cli_genSecret env) (\<lambda>secret. cb (ctry DbFailed (RotateSecret (u_id u) secret)) (\<lambda>_. rest secret)))
        (s\<lparr>tm_fw := ?w, tm_db := d2\<rparr>) = (None, t)" using r3 by (simp add: cb_assoc cb_cret)
    then obtain b where b: "ce_rand env = Some b" "run_cli (cb (ctry DbFailed (RotateSecret (u_id u) (hex_encode b)))
        (\<lambda>_. rest (hex_encode b))) (s\<lparr>tm_fw := ?w, tm_db := d2\<rparr>) = (None, t)"
      by (cases "ce_rand env") (simp_all add: cli_genSecret_def cb_def cret_def fail_def run_cli_def)
    obtain a d3 where d3: "RotateSecret (u_id u) (hex_encode b) d2 = (Inr a, d3)"
      "run_cli (rest (hex_encode b)) (s\<lparr>tm_fw := ?w, tm_db := d3\<rparr>) = (None, t)"
      by (rule cb_ctry_success [OF b(2)]) simp
    have "fst d3 = revoked (u_id u) sec (fst (tm_db s))"
      using exec_InrD [OF d3(1) [unfolded RotateSecret_def]] u2 b(1) False
      by (simp add: upd_user_twice sec_def revoked_def)
    with d3(2) b(1) False show ?thesis
      by (intro exI [of _ d3] exI [of _ "hex_encode b"]) (simp add: sec_def)
  qed
  then obtain d3 ns where d3: "fst d3 = revoked (u_id u) sec (fst (tm_db s))" "\<not> ?no \<longrightarrow> sec \<noteq> None"
    and r5: "run_cli (rest ns) (s\<lparr>tm_fw := ?w, tm_db := d3\<rparr>) = (None, t)" by blast
  show ?thesis using report_run [OF r5 [unfolded rest_def]] d3 by (auto simp: revoked_def core_upd_user)
qed

text \<open>C29. A revocation that reports no error shuts the user out, whatever statements and firewall calls failed on
  the way: the database is the one before with the user's address and last knock cleared, the secret replaced
  by the fresh one unless \<open>--no-rotate\<close> was given, and at most an audit entry more; neither the hub nor any
  node has a desired rule for the user; the rules of other users stay; and when the command says that the
  user's firewall rules are removed, there are none.\<close>

theorem revoke_shuts_out:
  assumes "rule_store be prefix store host I" and "I (tm_fw s)" and "wf_db (fst (tm_db s))"
    and "find (\<lambda>u. u_name u = un) (users (fst (tm_db s))) = Some u" and "opens env path cfg" and "newBackend env cfg = Inr be"
    and "parseFlags [(''no-rotate'', BoolV False)] args = Some (Inr (fs, un # rest))"
    and "run_cli (CmdRevoke env path args) s = (None, t)"
  shows "core (fst (tm_db t)) =
      revoked (u_id u) (if bool_flag fs ''no-rotate'' then None else map_option hex_encode (ce_rand env)) (core (fst (tm_db s)))
    \<and> (bool_flag fs ''no-rotate'' \<or> ce_rand env \<noteq> None)
    \<and> (\<forall>r \<in> set (desired_local (fst (tm_db t))). d_user r \<noteq> un)
    \<and> (\<forall>nid. \<forall>r \<in> set (desired_node nid (fst (tm_db t))). d_user r \<noteq> un)
    \<and> filter (\<lambda>r. r_user r \<noteq> un) (store (tm_fw t)) = filter (\<lambda>r. r_user r \<noteq> un) (store (tm_fw s))
    \<and> ((\<exists>txt. tm_out t = tm_out s @ revoke_text False un @ txt) \<longrightarrow> (\<forall>r \<in> set (store (tm_fw t)). r_user r \<noteq> un))"
proof -
  note R = revoke_run [OF assms(8,7,5,6,4)]
  obtain e w where rm: "RemoveUserRules be un (tm_fw s) = (e, w)" by (cases "RemoveUserRules be un (tm_fw s)")
  have u: "u \<in> set (users (core (fst (tm_db s))))" "u_name u = un"
    using find_Some_iff' [OF assms(4)] by (simp_all add: core_def)
  have wf: "wf_db (core (fst (tm_db s)))" using assms(3) by (simp add: core_def wf_users_tables)
  have cored: "desired_local (core d) = desired_local d" "desired_node nid (core d) = desired_node nid d" for d nid
    by (simp_all add: core_def desired_local_def desired_node_def joined_def)
  note des = revoked_desired [OF wf u(1), unfolded u(2)]
  have left: "left = False" if "tm_out s @ revoke_text left un @ a = tm_out s @ revoke_text False un @ b" for left a b
    using that by (cases left) (simp_all add: revoke_text_def)
  have st: "filter (\<lambda>r. r_user r \<noteq> un) (store w) = filter (\<lambda>r. r_user r \<noteq> un) (store (tm_fw s))"
    "e = None \<Longrightarrow> \<forall>r \<in> set (store w). r_user r \<noteq> un"
    using remove_user_complete [OF assms(1,2) rm] by auto
  obtain a where out: "tm_out t = tm_out s @ revoke_text (e \<noteq> None) un @ a" using R rm by auto
  have said: "e = None" if "tm_out t = tm_out s @ revoke_text False un @ b" for b
    using left [of "e \<noteq> None" a b] out that by simp
  have l: "desired_local (fst (tm_db t)) = desired_local (core (fst (tm_db t)))"
    "desired_node nid (fst (tm_db t)) = desired_node nid (core (fst (tm_db t)))" for nid
    using cored by simp_all
  have c: "core (fst (tm_db t)) = revoked (u_id u)
      (if bool_flag fs ''no-rotate'' then None else map_option hex_encode (ce_rand env)) (core (fst (tm_db s)))"
    and w: "tm_fw t = w" and sec: "bool_flag fs ''no-rotate'' \<or> ce_rand env \<noteq> None"
    using R rm by auto
  show ?thesis unfolding l c w
    by (intro conjI ballI allI impI refl sec st(1); (elim exE)?) (use des st(2) said in blast)+
qed

lemma demo_opens: "\<exists>cfg. opens demo_cenv path cfg \<and> newBackend demo_cenv cfg = Inr mock_backend"
  by (auto simp: opens_def demo_cenv_def Load_def default_config_def newBackend_def)

lemma demo_rand: "ce_rand demo_cenv = Some (replicate 32 7)"
  by (simp add: demo_cenv_def)

lemma demo_revoke: "fst (run_cli (CmdRevoke demo_cenv ''/etc/x'' [''ann'']) (term_of demo_srv [])) = None"
proof -
  obtain cfg where cfg: "opens demo_cenv ''/etc/x'' cfg" "newBackend demo_cenv cfg = Inr mock_backend" using demo_opens by blast
  have flags: "the (parseFlags [(''no-rotate'', BoolV False)] [''ann'']) = Inr ([(''no-rotate'', BoolV False)], [''ann''])"
    by (simp add: parseFlags_run token_of_def)
  obtain e w where rm: "RemoveUserRules mock_backend ''ann'' demo_mock = (e, w)" by fastforce
  show ?thesis
    unfolding CmdRevoke_def with_flags_def flags sum.case prod.case Let_def
    by (simp add: cli_eval cb_load [OF cfg(1)] removeUserRules_run [OF cfg(2)] bool_flag_def cli_user_def
       GetUserByUsername_def ClearUserState_def RotateSecret_def LogAudit_def cli_audit_def run_cret
       cli_genSecret_def demo_rand demo_srv_def term_of_def demo_db_def new_user_def)
qed

theorem revoke_shuts_out_witness:
  "\<exists>t. run_cli (CmdRevoke demo_cenv ''/etc/x'' [''ann'']) (term_of demo_srv []) = (None, t) \<and>
     (\<forall>r \<in> set (desired_local (fst (tm_db t))). d_user r \<noteq> ''ann'') \<and> (\<exists>r \<in> set (desired_local demo_db). d_user r = ''ann'')"
proof -
  obtain cfg where cfg: "opens demo_cenv ''/etc/x'' cfg" "newBackend demo_cenv cfg = Inr mock_backend" using demo_opens by blast
  obtain t where t: "run_cli (CmdRevoke demo_cenv ''/etc/x'' [''ann'']) (term_of demo_srv []) = (None, t)"
    using demo_revoke by (metis prod.collapse)
  have flags: "parseFlags [(''no-rotate'', BoolV False)] [''ann''] = Some (Inr ([(''no-rotate'', BoolV False)], ''ann'' # []))"
    by (simp add: parseFlags_run token_of_def)
  have s: "mock_inv ''ok'' (tm_fw (term_of demo_srv []))" "wf_db (fst (tm_db (term_of demo_srv [])))"
    "\<exists>u. find (\<lambda>u. u_name u = ''ann'') (users (fst (tm_db (term_of demo_srv [])))) = Some u"
    using demo_mock_inv wf_demo_db by (simp_all add: term_of_def demo_srv_def demo_db_def new_user_def)
  then obtain u where u: "find (\<lambda>u. u_name u = ''ann'') (users (fst (tm_db (term_of demo_srv [])))) = Some u" by blast
  have "\<exists>r \<in> set (desired_local demo_db). d_user r = ''ann''"
    by (simp add: desired_local_def joined_def demo_db_def new_user_def with_ip_def)
  with revoke_shuts_out [OF mock.rule_store_axioms s(1,2) u cfg flags t] t show ?thesis by blast
qed

section \<open>node-add\<close>

lemma hex_encode_chars: "(\<forall>x \<in> set b. x < 256) \<Longrightarrow> list_all is_hex (hex_encode b)"
  by (induction b) (auto simp: hex_encode_def)

lemma find_snoc: "\<forall>y \<in> set xs. \<not> P y \<Longrightarrow> P x \<Longrightarrow> find P (xs @ [x]) = Some x"
  by (induction xs) auto

lemma hex_codes: "\<forall>e \<in> set space_codes. e \<noteq> [] \<and> \<not> is_hex (hd e) \<and> \<not> is_hex (last e)"
  by (simp add: space_codes_def is_hex_def is_digit_def)

text \<open>C30. The token \<open>node-add\<close> prints is the node's: the command prints it once, stores its hash with the new
  node, and a request that presents it as its bearer token is from then on a request of that node, and of
  no other.\<close>

theorem node_add_enrolls:
  assumes "opens env path cfg" and "parseFlags [] args = Some (Inr (fs, name # rest))"
    and "ce_rand env = Some b" and "b \<noteq> []" and "\<forall>x \<in> set b. x < 256"
    and "run_cli (CmdNodeAdd env path args) s = (None, t)" and "rq_auth rq = ''Bearer '' @ hex_encode b"
  shows "\<exists>nd. node_of rq (fst (tm_db t)) = Some nd \<and> n_name nd = name \<and> ValidName name
    \<and> nd \<notin> set (nodes (fst (tm_db s))) \<and> core (fst (tm_db t)) =
      core (fst (tm_db s))\<lparr>nodes := nodes (fst (tm_db s)) @ [nd], nodes_seq := n_id nd\<rparr>
    \<and> tm_out t = tm_out s @ node_add_text name (hex_encode b)"
proof -
  let ?tok = "hex_encode b" and ?d = "fst (tm_db s)"
  note r = assms(6) [unfolded CmdNodeAdd_def with_flags_def assms(2) option.sel sum.case prod.case Let_def nth_Cons_0]
  note r = cb_check_success [OF r, THEN conjunct2]
  note valid = cb_check_success [OF r, THEN conjunct1]
  note r = cb_check_success [OF r, THEN conjunct2, unfolded cb_load [OF assms(1)] cli_genSecret_def assms(3) option.case cb_cret]
  obtain i d where d: "CreateNode (ce_now env) name (HashToken ?tok) (tm_db s) = (Inr i, d)"
    and r1: "run_cli (cb (cli_audit env ''node_add'' name []) (\<lambda>_. say (node_add_text name ?tok))) (s\<lparr>tm_db := d\<rparr>) = (None, t)"
    by (rule cb_ctry_success [OF r]) simp
  obtain d' where d': "core (fst d') = core (fst d)"
    "run_cli (cb (cli_audit env ''node_add'' name []) (\<lambda>_. say (node_add_text name ?tok))) (s\<lparr>tm_db := d\<rparr>) =
     run_cli (say (node_add_text name ?tok)) (s\<lparr>tm_db := d'\<rparr>)"
    using cb_audit [of "s\<lparr>tm_db := d\<rparr>" env "''node_add''" name "[]" "\<lambda>_. say (node_add_text name ?tok)"] by auto
  define nd where "nd = \<lparr>n_id = nodes_seq ?d + 1, n_name = name, n_hash = HashToken ?tok, n_seen = None, n_version = None,
    n_backend = None, n_created = ce_now env\<rparr>"
  have new: "\<forall>n \<in> set (nodes ?d). n_hash n \<noteq> HashToken ?tok"
    and fd: "fst d = ?d\<lparr>nodes := nodes ?d @ [nd], nodes_seq := nodes_seq ?d + 1\<rparr>"
    using d by (cases "tm_db s", auto simp: CreateNode_def stmt_def nd_def split: if_splits)+
  have t: "t = s\<lparr>tm_db := d', tm_out := tm_out s @ node_add_text name ?tok\<rparr>"
    using r1 d'(2) by (simp add: run_say)
  have c: "core (fst (tm_db t)) = core ?d\<lparr>nodes := nodes ?d @ [nd], nodes_seq := n_id nd\<rparr>"
    using d'(1) fd by (simp add: t core_def nd_def)
  have ns: "nodes (fst (tm_db t)) = nodes ?d @ [nd]" using arg_cong [OF c, of nodes] by (simp add: core_def)
  have "find (\<lambda>n. n_hash n = HashToken ?tok) (nodes ?d @ [nd]) = Some nd"
    by (rule find_snoc) (use new in \<open>simp_all add: nd_def\<close>)
  moreover have "trim_space ?tok = ?tok" by (rule trim_space_id [OF hex_codes hex_encode_chars [OF assms(5)]])
  moreover have "?tok \<noteq> []" using assms(4) by (cases b) (simp_all add: hex_encode_def)
  ultimately have "node_of rq (fst (tm_db t)) = Some nd" by (simp add: node_of_def assms(7) ns)
  then show ?thesis using c t valid new by (intro exI [of _ nd]) (auto simp: nd_def)
qed

definition new_term :: "mock term" where
  "new_term = \<lparr>tm_db = (empty_db, []), tm_fw = demo_mock, tm_files = [], tm_out = []\<rparr>"

theorem node_add_enrolls_witness:
  "\<exists>t nd. run_cli (CmdNodeAdd demo_cenv ''/etc/x'' [''berlin'']) new_term = (None, t) \<and>
     node_of (demo_request\<lparr>rq_auth := ''Bearer '' @ hex_encode (replicate 32 7)\<rparr>) (fst (tm_db t)) = Some nd \<and> n_name nd = ''berlin''"
proof -
  obtain cfg where cfg: "opens demo_cenv ''/etc/x'' cfg" using demo_opens by blast
  have flags: "parseFlags [] [''berlin''] = Some (Inr ([], ''berlin'' # []))" by (simp add: parseFlags_run token_of_def)
  have name: "ValidName ''berlin''" by (simp add: text_eval)
  have "fst (run_cli (CmdNodeAdd demo_cenv ''/etc/x'' [''berlin'']) new_term) = None"
    unfolding CmdNodeAdd_def with_flags_def flags option.sel sum.case prod.case Let_def
    by (auto simp: cli_eval cb_load [OF cfg] name cli_genSecret_def demo_rand CreateNode_def LogAudit_def cli_audit_def
       new_term_def empty_db_def)
  then obtain t where t: "run_cli (CmdNodeAdd demo_cenv ''/etc/x'' [''berlin'']) new_term = (None, t)"
    by (metis prod.collapse)
  from node_add_enrolls [OF cfg flags demo_rand _ _ t, of "demo_request\<lparr>rq_auth := ''Bearer '' @ hex_encode (replicate 32 7)\<rparr>"] t
  show ?thesis by auto
qed

section \<open>backup\<close>

lemma prune_loop_files:
  "\<exists>out2. prune_loop env olds s = (Inr (), s\<lparr>tm_files := filter (\<lambda>f. \<not> (\<exists>old \<in> set olds. ce_remove env old \<and>
      (f = old \<or> f = old @ ''.sha256'' \<and> ce_remove env f))) (tm_files s), tm_out := out2\<rparr>)"
proof (induction olds arbitrary: s)
  case Nil
  show ?case by (intro exI [of _ "tm_out s"]) simp
next
  case (Cons old olds)
  show ?case
  proof (cases "ce_remove env old")
    case True
    from Cons.IH [of "s\<lparr>tm_files := filter (\<lambda>f. f \<noteq> old \<and> \<not> (f = old @ ''.sha256'' \<and> ce_remove env f)) (tm_files s),
        tm_out := tm_out s @ ''Pruned old backup: '' @ old @ nl\<rparr>"]
    show ?thesis using True by (auto simp: conj_commute intro!: arg_cong2 [where f = filter])
  next
    case False
    with Cons.IH [of s] show ?thesis by simp
  qed
qed

text \<open>C31. Pruning keeps the newest \<open>keep\<close> backups: the last ones by name, which begins with the time; they and
  every file that is no backup and no checksum of an older one stay, and the older backups are gone where the
  system lets them be removed.  A limit of zero or less keeps everything.\<close>

theorem prune_keeps_newest:
  assumes "distinct (tm_files s)" and "pruneBackups env keep s = (r, t)"
  defines "ms \<equiv> sort (filter is_backup (tm_files s))"
  defines "new \<equiv> (if keep \<le> 0 then ms else drop (length ms - nat keep) ms)"
  shows "r = Inr () \<and> set new \<subseteq> set (tm_files t) \<and> set (tm_files t) \<subseteq> set (tm_files s)
    \<and> length new = (if keep \<le> 0 then length ms else min (nat keep) (length ms))
    \<and> (\<forall>f \<in> set (tm_files t). is_backup f \<and> ce_remove env f \<longrightarrow> f \<in> set new)
    \<and> (\<forall>f \<in> set (tm_files s). \<not> is_backup f \<and> (\<forall>old \<in> set ms - set new. f \<noteq> old @ ''.sha256'') \<longrightarrow> f \<in> set (tm_files t))
    \<and> (\<forall>f \<in> set ms - set new. \<forall>g \<in> set new. f < g)"
proof -
  define olds where "olds = (if keep \<le> 0 then [] else take (length ms - nat keep) ms)"
  have dist: "distinct ms" and sorted: "sorted ms" using assms(1) by (simp_all add: ms_def)
  have split: "ms = olds @ new" by (simp add: olds_def new_def)
  then have olds: "set ms - set new = set olds" "set olds \<inter> set new = {}" using dist by auto
  have side: "\<not> is_backup (old @ ''.sha256'')" if "is_backup old" for old
    using that by (auto simp: is_backup_def has_prefix_iff [of "''nft-okboy-''"] has_prefix_def)
  have bk: "set ms = {f \<in> set (tm_files s). is_backup f}" by (simp add: ms_def)
  have files: "r = Inr () \<and> tm_files t = filter (\<lambda>f. \<not> (\<exists>old \<in> set olds. ce_remove env old \<and>
      (f = old \<or> f = old @ ''.sha256'' \<and> ce_remove env f))) (tm_files s)"
  proof (cases "keep \<le> 0 \<or> int (length ms) \<le> keep")
    case True
    then have "olds = []" by (auto simp: olds_def)
    with True assms(2) show ?thesis by (auto simp: pruneBackups_def Let_def ms_def)
  next
    case False
    then have "pruneBackups env keep s = prune_loop env olds s" by (simp add: pruneBackups_def Let_def ms_def olds_def)
    with prune_loop_files [of env olds s] assms(2) show ?thesis by auto
  qed
  have "f < g" if "f \<in> set olds" "g \<in> set new" for f g
    using sorted that olds(2) unfolding split sorted_append by (auto simp: order.strict_iff_order)
  then have older: "\<forall>f \<in> set olds. \<forall>g \<in> set new. f < g" by blast
  have mem: "f \<in> set (tm_files t) \<longleftrightarrow> f \<in> set (tm_files s) \<and>
      \<not> (\<exists>old \<in> set olds. ce_remove env old \<and> (f = old \<or> f = old @ ''.sha256'' \<and> ce_remove env f))" for f
    using files by simp
  have ms: "f \<in> set olds \<or> f \<in> set new \<longleftrightarrow> f \<in> set (tm_files s) \<and> is_backup f" for f
    using bk split by auto
  have 1: "set new \<subseteq> set (tm_files t)"
  proof
    fix f assume f: "f \<in> set new"
    then have "f \<notin> set olds" "is_backup f" "f \<in> set (tm_files s)" using olds(2) ms by blast+
    moreover have "f \<noteq> old @ ''.sha256''" if "old \<in> set olds" for old using side ms that \<open>is_backup f\<close> by blast
    ultimately show "f \<in> set (tm_files t)" unfolding mem by blast
  qed
  have 2: "f \<in> set new" if "f \<in> set (tm_files t)" "is_backup f \<and> ce_remove env f" for f
    using that ms unfolding mem by blast
  have 3: "f \<in> set (tm_files t)" if "f \<in> set (tm_files s)" "\<not> is_backup f \<and> (\<forall>old \<in> set olds. f \<noteq> old @ ''.sha256'')" for f
    using that ms unfolding mem by blast
  have 4: "length new = (if keep \<le> 0 then length ms else min (nat keep) (length ms))" by (auto simp: new_def)
  show ?thesis unfolding olds(1) using files 1 2 3 4 older mem by blast
qed

lemma demo_backups: "is_backup ''nft-okboy-1.db''" "is_backup ''nft-okboy-2.db''" "\<not> is_backup ''notes''"
  by (simp_all add: is_backup_def has_prefix_def)

theorem prune_keeps_newest_witness:
  "''nft-okboy-2.db'' \<in> set (tm_files (snd (pruneBackups demo_cenv 1 (new_term\<lparr>tm_files := [''nft-okboy-2.db'', ''notes'', ''nft-okboy-1.db'']\<rparr>))))"
proof -
  let ?s = "new_term\<lparr>tm_files := [''nft-okboy-2.db'', ''notes'', ''nft-okboy-1.db'']\<rparr>"
  obtain r t where t: "pruneBackups demo_cenv 1 ?s = (r, t)" by (cases "pruneBackups demo_cenv 1 ?s")
  have "sort [''nft-okboy-2.db'', ''nft-okboy-1.db''] = [''nft-okboy-1.db'', ''nft-okboy-2.db'']"
    by (simp add: less_char_def less_eq_char_def)
  with prune_keeps_newest [OF _ t] show ?thesis using t by (simp add: demo_backups)
qed

section \<open>agent\<close>

text \<open>An agent that starts has a token, and a hub behind TLS, on this host, or explicitly allowed over plain
  http.\<close>

lemma agent_link:
  assumes "parseFlags agent_flags args = Some (Inr (fs, pos))" and "CmdAgent ae path args = Inr (be, op)"
  shows "op_token op \<noteq> [] \<and> (\<exists>scheme host name. ae_url ae (op_hub op) = Some (scheme, host, name) \<and>
    (scheme = ''https'' \<or> scheme = ''http'' \<and> (loopback_host name \<or> bool_flag fs ''allow-http'' \<or> ae_http ae = ''1'')))"
proof -
  have "agent_start ae path fs = Inr (be, op)" using assms by (simp add: CmdAgent_def)
  then show ?thesis
    by (auto simp: agent_start_def Let_def checkHubURL_def split: if_splits option.splits sum.splits prod.splits)
qed

end
