(* ===== verification/UpgradeLaws.thy ===== *)
theory UpgradeLaws
  imports Upgrade CliLaws
begin

text \<open>
  Whatever the mirrors serve and whichever file operation, download or health check fails, an upgrade
  leaves the old binary or one whose checksum GitHub itself vouches for.
\<close>

section \<open>File operations\<close>

lemma next_fault_spec: "next_fault u = (f, v) \<Longrightarrow> up_files v = up_files u \<and> (up_faults u = [] \<longrightarrow> f = Works \<and> up_faults v = [])"
  by (auto simp: next_fault_def split: list.splits)

lemma put_file_simps [simp]: "up_files (put_file p c u) = (up_files u)(p := c)" "up_faults (put_file p c u) = up_faults u"
  by (simp_all add: put_file_def)

lemma up_say_simps [simp]: "up_files (up_say l u) = up_files u" "up_faults (up_say l u) = up_faults u"
  by (simp_all add: up_say_def)

lemma file_write_spec:
  "file_write p data u = (b, v) \<Longrightarrow> (\<forall>q. q \<noteq> p \<longrightarrow> up_files v q = up_files u q) \<and> (b \<longrightarrow> up_files v p = Some data) \<and>
     (up_faults u = [] \<longrightarrow> b \<and> up_faults v = [])"
  by (auto simp: file_write_def split: prod.splits fault.splits dest!: next_fault_spec)

lemma file_rename_spec:
  "file_rename src dst u = (b, v) \<Longrightarrow>
     up_files v = (if b then ((up_files u)(src := None))(dst := up_files u src) else up_files u) \<and>
     (b \<longrightarrow> up_files u src \<noteq> None) \<and> (up_faults u = [] \<longrightarrow> up_faults v = [] \<and> b = (up_files u src \<noteq> None))"
  by (auto simp: file_rename_def split: prod.splits fault.splits option.splits dest!: next_fault_spec)

lemma copyFile_spec:
  "copyFile src dst u = (b, v) \<Longrightarrow> (\<forall>q. q \<noteq> dst \<longrightarrow> up_files v q = up_files u q) \<and>
     (b \<longrightarrow> up_files u src \<noteq> None \<and> up_files v dst = up_files u src) \<and>
     (up_faults u = [] \<longrightarrow> up_faults v = [] \<and> b = (up_files u src \<noteq> None))"
  by (auto simp: copyFile_def split: prod.splits fault.splits option.splits dest!: next_fault_spec file_write_spec)

lemma file_remove_other: "q \<noteq> p \<Longrightarrow> up_files (file_remove p u) q = up_files u q"
  by (auto simp: file_remove_def split: prod.splits fault.splits dest!: next_fault_spec)

lemma roll_back_spec:
  assumes "exe \<noteq> kept exe"
  shows "up_files (roll_back exe u) exe = up_files u exe \<and> up_files (roll_back exe u) (kept exe) = up_files u (kept exe) \<or>
      up_files (roll_back exe u) exe = up_files u (kept exe)"
    and "up_faults u = [] \<Longrightarrow> up_files u (kept exe) \<noteq> None \<Longrightarrow> up_files (roll_back exe u) exe = up_files u (kept exe)"
  using assms by (cases "file_rename (kept exe) exe u", auto simp: roll_back_def dest!: file_rename_spec)+

text \<open>What a swap does to the binary.\<close>

definition swapped :: "'s uenv \<Rightarrow> string \<Rightarrow> nat list \<Rightarrow> 's up \<Rightarrow> upgrade_error option \<times> 's up \<Rightarrow> bool" where
  "swapped env exe data u = (\<lambda>(r, v).
     (up_files v exe = up_files u exe \<or> up_files v exe = Some data \<and> up_files v (kept exe) = up_files u exe) \<and>
     (r = None \<longrightarrow> up_files v exe = Some data \<and> up_files v (kept exe) = up_files u exe \<and> ue_runs env (Some data)) \<and>
     (up_faults u = [] \<and> r \<noteq> None \<longrightarrow> up_files v exe = up_files u exe))"

lemma swap_swapped:
  assumes "distinct [exe, staged exe, kept exe]" and "up_files u (staged exe) = Some data"
  shows "swapped env exe data u (swap env version fs want exe u)"
proof -
  obtain b u1 where c: "copyFile exe (kept exe) u = (b, u1)" by (cases "copyFile exe (kept exe) u")
  note c' = copyFile_spec [OF c]
  show ?thesis
  proof (cases b)
    case False
    then show ?thesis using c c' assms by (simp add: swap_def swapped_def)
  next
    case True
    obtain b2 u2 where r: "file_rename (staged exe) exe u1 = (b2, u2)" by (cases "file_rename (staged exe) exe u1")
    note r' = file_rename_spec [OF r]
    show ?thesis
    proof (cases b2)
      case False
      then show ?thesis using True c c' r r' assms by (simp add: swap_def swapped_def)
    next
      case b2: True
      have u2: "up_files u2 exe = Some data" "up_files u2 (kept exe) = up_files u exe" "up_files u exe \<noteq> None"
        "up_faults u = [] \<Longrightarrow> up_faults u2 = []"
        using True b2 c' r' assms by auto
      note roll = roll_back_spec [of exe u2]
      have "exe \<noteq> kept exe" using assms(1) by simp
      with roll u2 show ?thesis
        using True b2 c r by (auto simp: swap_def swapped_def)
    qed
  qed
qed

lemma install_swapped:
  assumes "distinct [exe, staged exe, kept exe]"
  shows "swapped env exe data u (install env version fs want exe data u)"
proof -
  obtain b u1 where w: "file_write (staged exe) data u = (b, u1)" by (cases "file_write (staged exe) data u")
  note w' = file_write_spec [OF w]
  show ?thesis
  proof (cases b)
    case False
    then show ?thesis using w w' assms by (simp add: install_def swapped_def)
  next
    case True
    obtain r u2 where s: "swap env version fs want exe u1 = (r, u2)" by (cases "swap env version fs want exe u1")
    have "swapped env exe data u1 (r, u2)" using swap_swapped [OF assms, of u1 data env version fs want] True w' s by simp
    moreover have "up_files u1 exe = up_files u exe" "up_faults u = [] \<Longrightarrow> up_faults u1 = []" using w' assms by auto
    moreover have "up_files (file_remove (staged exe) u2) exe = up_files u2 exe"
      "up_files (file_remove (staged exe) u2) (kept exe) = up_files u2 (kept exe)"
      using assms by (auto intro!: file_remove_other)
    ultimately show ?thesis using True w s assms by (simp add: install_def swapped_def)
  qed
qed

section \<open>Who vouches\<close>

text \<open>GitHub vouches for a checksum of an asset of a release: its API lists it for the asset, in the latest
  release, which then is the one wanted, or in the release with the wanted tag; or the release's
  \<open>SHA256SUMS\<close>, downloaded from github.com, has it.  No mirror occurs.\<close>

definition vouched :: "'s uenv \<Rightarrow> string \<Rightarrow> string \<Rightarrow> string \<Rightarrow> bool" where
  "vouched env tag asset d \<longleftrightarrow>
     (\<exists>rel h. (ue_api env (api_url upgradeRepo []) = ApiReply 200 (Some rel) \<and> rl_tag rel = tag \<or>
           ue_api env (api_url upgradeRepo tag) = ApiReply 200 (Some rel)) \<and>
        (\<exists>a \<in> set (rl_assets rel). ra_name a = asset \<and> ra_digest a = ''sha256:'' @ h) \<and> d = map lower h) \<or>
     (\<exists>sums line h f. ue_get env (download_url upgradeRepo tag ''SHA256SUMS'') = Some sums \<and>
        line \<in> set (split_on (CHR 10) (map char_of sums)) \<and> fields [] line = [h, f] \<and> trim_prefix ''*'' f = asset \<and>
        d = map lower h)"

lemma asset_loop_listed:
  "asset_loop as asset = Some d \<Longrightarrow> \<exists>h. (\<exists>a \<in> set as. ra_name a = asset \<and> ra_digest a = ''sha256:'' @ h) \<and> d = map lower h"
proof (induction as)
  case (Cons a as)
  show ?case
  proof (cases "has_prefix ''sha256:'' (ra_digest a) \<and> ra_name a = asset \<and> isSHA256Hex (drop 7 (ra_digest a))")
    case True
    then obtain h where h: "ra_digest a = ''sha256:'' @ h" by (auto simp: has_prefix_iff [of "''sha256:''"])
    then show ?thesis using Cons.prems True by (intro exI [of _ h]) simp
  next
    case False
    then have "asset_loop as asset = Some d" using Cons.prems by (auto simp only: asset_loop.simps if_False)
    from Cons.IH [OF this] show ?thesis by auto
  qed
qed simp

lemma sums_loop_listed:
  "sums_loop ls asset = Some d \<Longrightarrow> \<exists>line \<in> set ls. \<exists>h f. fields [] line = [h, f] \<and> trim_prefix ''*'' f = asset \<and> d = map lower h"
  by (induction ls) (auto split: list.splits if_splits)

lemma trusted_vouched:
  assumes "trustedDigest env rel upgradeRepo want asset = Some d"
    and "\<And>r. rel = Some r \<Longrightarrow> ue_api env (api_url upgradeRepo []) = ApiReply 200 (Some r) \<and> rl_tag r = want \<or>
           ue_api env (api_url upgradeRepo want) = ApiReply 200 (Some r)"
  shows "vouched env want asset d"
proof (cases "case rel of None \<Rightarrow> None | Some r \<Rightarrow> asset_loop (rl_assets r) asset")
  case None
  then show ?thesis using assms(1) sums_loop_listed
    by (fastforce simp: trustedDigest_def digestFromSums_def vouched_def split: option.splits)
next
  case (Some h)
  then obtain r where r: "rel = Some r" "asset_loop (rl_assets r) asset = Some d"
    using assms(1) by (auto simp: trustedDigest_def split: option.splits)
  from asset_loop_listed [OF r(2)] assms(2) [OF r(1)] show ?thesis unfolding vouched_def by blast
qed

lemma fetched:
  assumes "fetchRelease env repo tag = Some r"
  shows "ue_api env (api_url repo tag) = ApiReply 200 (Some r) \<and> rl_tag r \<noteq> []"
  using assms by (auto simp: fetchRelease_def split: api_reply.splits option.splits if_splits)

lemma run_cli_files: "up_files (upgrade_backup env path fs u) = up_files u" "up_faults (upgrade_backup env path fs u) = up_faults u"
  by (simp_all add: upgrade_backup_def Let_def)

text \<open>How a run ends: without a change of the binaries, or with an installation of vouched data.\<close>

lemma fetch_and_install_ends:
  assumes "fetch_and_install env version path fs rel want asset exe u = (r, v)"
    and "\<And>d. trustedDigest env rel upgradeRepo want asset = Some d \<Longrightarrow> vouched env want asset d"
  shows "up_files v = up_files u \<and> r \<noteq> None \<or> (\<exists>data w. vouched env want asset (hex_encode (sha256 data)) \<and>
    up_files w = up_files u \<and> up_faults w = up_faults u \<and> (r, v) = install env version fs want exe data w)"
proof (cases "trustedDigest env rel upgradeRepo want asset")
  case None
  then show ?thesis using assms(1) by (auto simp: fetch_and_install_def)
next
  case (Some d)
  let ?u1 = "up_say (''Downloading '' @ asset @ '' '' @ want @ ellipsis @ nl) (upgrade_backup env path fs u)"
  have u1: "up_files ?u1 = up_files u" "up_faults ?u1 = up_faults u" by (simp_all add: run_cli_files)
  show ?thesis
  proof (cases "ghDownload env upgradeRepo want asset")
    case None
    then have "v = ?u1 \<and> r = Some DownloadFailed" using assms(1) Some by (auto simp: fetch_and_install_def Let_def)
    then show ?thesis using u1 by auto
  next
    case data: (Some data)
    show ?thesis
    proof (cases "checkDigest data d")
      case False
      then have "v = ?u1 \<and> r = Some Mismatch" using assms(1) Some data by (auto simp: fetch_and_install_def Let_def)
      then show ?thesis using u1 by auto
    next
      case True
      define w where "w = up_say (''Checksum verified against GitHub.'' @ nl) ?u1"
      have w: "up_files w = up_files u" "up_faults w = up_faults u" unfolding w_def up_say_simps by (rule run_cli_files)+
      have "(r, v) = install env version fs want exe data w"
        using True assms(1) Some data unfolding w_def by (auto simp: fetch_and_install_def Let_def)
      moreover have "vouched env want asset (hex_encode (sha256 data))" using assms(2) [OF Some] True by (simp add: checkDigest_def)
      ultimately show ?thesis using w by blast
    qed
  qed
qed

lemma upgrade_run_ends:
  assumes "upgrade_run env version path fs u = (r, v)"
  shows "up_files v = up_files u \<or> (\<exists>exe want data w. ue_exe env = Some exe \<and> ue_euid env = 0 \<and> \<not> bool_flag fs ''check'' \<and>
    vouched env want (assetForHost (ue_os env) (ue_arch env)) (hex_encode (sha256 data)) \<and>
    up_files w = up_files u \<and> up_faults w = up_faults u \<and> (r, v) = install env version fs want exe data w)"
proof -
  let ?asset = "assetForHost (ue_os env) (ue_arch env)" and ?target = "str_flag fs ''version''"
  let ?rel = "fetchRelease env upgradeRepo ?target"
  let ?want = "if ?target = [] then (case ?rel of None \<Rightarrow> [] | Some r \<Rightarrow> rl_tag r) else ?target"
  let ?u1 = "up_say (''Current: '' @ displayVersion version @ ''   Target: '' @ ?want @ nl) u"
  have api: "ue_api env (api_url upgradeRepo []) = ApiReply 200 (Some r) \<and> rl_tag r = ?want \<or>
      ue_api env (api_url upgradeRepo ?want) = ApiReply 200 (Some r)" if "?rel = Some r" for r
    using fetched [OF that] that by auto
  note v = trusted_vouched [of env ?rel ?want ?asset, OF _ api]
  show ?thesis
  proof (cases "\<exists>exe. ue_exe env = Some exe \<and> ue_euid env = 0 \<and> \<not> bool_flag fs ''check'' \<and>
      (r, v) = fetch_and_install env version path fs ?rel ?want ?asset exe ?u1")
    case True
    then obtain exe where e: "ue_exe env = Some exe" "ue_euid env = 0" "\<not> bool_flag fs ''check''"
      and f: "fetch_and_install env version path fs ?rel ?want ?asset exe ?u1 = (r, v)" by metis
    from fetch_and_install_ends [OF f v] e show ?thesis unfolding up_say_simps by blast
  next
    case False
    then show ?thesis using assms unfolding upgrade_run_def Let_def
      by (simp split: if_splits option.splits) (metis up_say_simps(1))+
  qed
qed

text \<open>C34. An upgrade installs only what GitHub vouches for.  Whatever the mirrors serve, whatever the flags, and
  whichever download, file operation, test run or restart fails: afterwards the binary is the old one, or data
  whose SHA-256 is the checksum GitHub itself publishes for this host's asset of the wanted release, with the
  old binary kept beside it.  While no file operation fails, an error leaves the old binary; a new binary that
  stays has passed its test run; and only root changes anything.\<close>

theorem upgrade_installs_only_vouched:
  assumes "ue_exe env = Some exe" and "distinct [exe, staged exe, kept exe]"
    and "CmdUpgrade env version path args u = (r, v)"
  shows "(up_files v exe = up_files u exe \<or> up_files v (kept exe) = up_files u exe \<and>
      (\<exists>want data. up_files v exe = Some data \<and>
        vouched env want (assetForHost (ue_os env) (ue_arch env)) (hex_encode (sha256 data))))
    \<and> (up_faults u = [] \<and> r \<noteq> None \<longrightarrow> up_files v exe = up_files u exe)
    \<and> (r = None \<and> up_files v exe \<noteq> up_files u exe \<longrightarrow> ue_runs env (up_files v exe))
    \<and> (ue_euid env \<noteq> 0 \<longrightarrow> up_files v = up_files u)"
proof (cases "the (parseFlags upgrade_flags args)")
  case (Inl e)
  then show ?thesis using assms(3) by (simp add: CmdUpgrade_def)
next
  case (Inr x)
  obtain fs pos where x: "x = (fs, pos)" by (cases x)
  have run: "upgrade_run env version path fs u = (r, v)" using assms(3) Inr x by (simp add: CmdUpgrade_def)
  from upgrade_run_ends [OF run] show ?thesis
  proof
    assume "up_files v = up_files u"
    then show ?thesis by simp
  next
    assume "\<exists>exe want data w. ue_exe env = Some exe \<and> ue_euid env = 0 \<and> \<not> bool_flag fs ''check'' \<and>
      vouched env want (assetForHost (ue_os env) (ue_arch env)) (hex_encode (sha256 data)) \<and>
      up_files w = up_files u \<and> up_faults w = up_faults u \<and> (r, v) = install env version fs want exe data w"
    then obtain want data w where i: "vouched env want (assetForHost (ue_os env) (ue_arch env)) (hex_encode (sha256 data))"
      "ue_euid env = 0" "up_files w = up_files u" "up_faults w = up_faults u" "(r, v) = install env version fs want exe data w"
      using assms(1) by auto
    have "swapped env exe data w (r, v)" unfolding i(5) by (rule install_swapped [OF assms(2)])
    then show ?thesis using i(1-4) by (auto simp: swapped_def)
  qed
qed

section \<open>A host that upgrades\<close>

lemma sha256_length: "length (sha256 m) = 32"
proof -
  have r: "length st = 8 \<Longrightarrow> length (sha256_round st x) = 8" for st x
    by (cases "(st, x)" rule: sha256_round.cases) (auto simp: Let_def)
  have rs: "length st = 8 \<Longrightarrow> length (foldl sha256_round st xs) = 8" for st xs
    by (induction xs arbitrary: st) (simp_all add: r)
  have bs: "length st = 8 \<Longrightarrow> length (foldl sha256_block st bs) = 8" for st bs
    by (induction bs arbitrary: st) (simp_all add: sha256_block_def rs)
  have m: "p \<in> set small_primes \<longleftrightarrow> 2 \<le> p \<and> p < 312 \<and> (\<forall>d \<in> set [2..<p]. p mod d \<noteq> 0)" for p
    unfolding small_primes_def set_filter set_upt mem_Collect_eq atLeastLessThan_iff by blast
  have "{2, 3, 5, 7, 11, 13, 17, 19} \<subseteq> set small_primes" by (simp add: m)
  from card_mono [OF finite_set this] have "8 \<le> card (set small_primes)" by simp
  also have "\<dots> \<le> length small_primes" by (rule card_length)
  finally have "8 \<le> length small_primes" .
  then have h: "length sha256_H = 8" by (simp add: sha256_H_def)
  have c: "length (concat (map word_bytes xs)) = 4 * length xs" for xs by (induction xs) simp_all
  show ?thesis unfolding sha256_def c bs [OF h] by simp
qed

lemma sha256_hex_digest: "isSHA256Hex (hex_encode (sha256 m))" "map lower (hex_encode (sha256 m)) = hex_encode (sha256 m)"
proof -
  have b: "\<forall>x \<in> set (sha256 m). x < 256" using word_bytes_range by (auto simp: sha256_def)
  have l: "length (hex_encode xs) = 2 * length xs" for xs by (induction xs) (simp_all add: hex_encode_def)
  show "isSHA256Hex (hex_encode (sha256 m))" using hex_encode_chars [OF b] by (simp add: isSHA256Hex_def l sha256_length)
  have h: "lower (hex_char n) = hex_char n" if "n < 16" for n
    using that by (auto simp: lower_def is_upper_def byte_hex_char)
  have "(\<forall>x \<in> set xs. x < 256) \<Longrightarrow> map lower (hex_encode xs) = hex_encode xs" for xs
    by (induction xs) (auto simp: hex_encode_def h)
  from this [OF b] show "map lower (hex_encode (sha256 m)) = hex_encode (sha256 m)" .
qed

definition new_binary :: "nat list" where
  "new_binary = [127, 69, 76, 70]"

definition demo_release :: release where
  "demo_release = \<lparr>rl_tag = ''v2'', rl_assets = [\<lparr>ra_name = ''nft-okboy-linux-amd64'',
     ra_digest = ''sha256:'' @ hex_encode (sha256 new_binary)\<rparr>]\<rparr>"

definition demo_uenv :: "mock uenv" where
  "demo_uenv = \<lparr>ue_cli = demo_cenv, ue_os = ''linux'', ue_arch = ''amd64'', ue_euid = 0, ue_exe = Some ''/usr/bin/nft-okboy'',
     ue_api = (\<lambda>_. ApiReply 200 (Some demo_release)),
     ue_get = (\<lambda>_. Some new_binary), ue_runs = (\<lambda>_. True), ue_systemctl = False, ue_enabled = (\<lambda>_. False),
     ue_restart = (\<lambda>_. False), ue_unit = (\<lambda>_ _ _. [])\<rparr>"

definition demo_up :: "mock up" where
  "demo_up = \<lparr>up_term = new_term, up_files = (\<lambda>p. if p = ''/usr/bin/nft-okboy'' then Some [1] else None), up_faults = []\<rparr>"

lemma demo_paths: "distinct [''/usr/bin/nft-okboy'', staged ''/usr/bin/nft-okboy'', kept ''/usr/bin/nft-okboy'']"
  by code_simp

lemma demo_flags: "parseFlags upgrade_flags [''--no-backup'', ''--no-restart''] =
    Some (Inr ([(''check'', BoolV False), (''version'', StrV []), (''no-restart'', BoolV True),
      (''no-backup'', BoolV True), (''service'', StrV ''nft-okboy'')], []))"
  by (simp add: parseFlags_run upgrade_flags_def token_of_def split_flag_def cut_at_def take_flag_def assign_def set_flag_def is_BoolV_def ParseBool_def put_def)

lemma demo_trusted:
  "fetchRelease demo_uenv upgradeRepo [] = Some demo_release"
  "trustedDigest demo_uenv (Some demo_release) upgradeRepo ''v2'' ''nft-okboy-linux-amd64''
   = Some (hex_encode (sha256 new_binary))"
  "ghDownload demo_uenv upgradeRepo ''v2'' ''nft-okboy-linux-amd64'' = Some new_binary"
  "rl_tag demo_release = ''v2''"
  by (simp_all add: fetchRelease_def demo_uenv_def demo_release_def trustedDigest_def has_prefix_def sha256_hex_digest ghDownload_def ghMirrors_def)

lemma demo_fields [simp]: "ue_os demo_uenv = ''linux''" "ue_arch demo_uenv = ''amd64''" "ue_euid demo_uenv = 0"
  "ue_exe demo_uenv = Some ''/usr/bin/nft-okboy''" "ue_runs demo_uenv x" "up_faults demo_up = []"
  "up_files demo_up ''/usr/bin/nft-okboy'' = Some [1]"
  by (simp_all add: demo_uenv_def demo_up_def)

lemma demo_install:
  assumes "distinct [exe, staged exe, kept exe]" and "ue_exe demo_uenv = Some exe" and "up_files demo_up exe = Some [1]"
  shows "\<exists>v. CmdUpgrade demo_uenv ''1'' ''/etc/x'' [''--no-backup'', ''--no-restart''] demo_up = (None, v) \<and>
     up_files v exe = Some new_binary"
  using assms
  by (simp add: CmdUpgrade_def demo_flags upgrade_run_def Let_def demo_trusted bool_flag_def str_flag_def
     assetForHost_def sameVersion_def trim_prefix_def has_prefix_def fetch_and_install_def upgrade_backup_def checkDigest_def
     install_def swap_def file_write_def copyFile_def file_rename_def file_remove_def next_fault_def up_say_def put_file_def
     del: demo_fields(4))

theorem upgrade_installs_only_vouched_witness:
  "\<exists>v. CmdUpgrade demo_uenv ''1'' ''/etc/x'' [''--no-backup'', ''--no-restart''] demo_up = (None, v) \<and>
     up_files v ''/usr/bin/nft-okboy'' = Some new_binary \<and> up_files v (kept ''/usr/bin/nft-okboy'') = Some [1] \<and>
     ue_runs demo_uenv (Some new_binary)"
proof -
  obtain v where v: "CmdUpgrade demo_uenv ''1'' ''/etc/x'' [''--no-backup'', ''--no-restart''] demo_up = (None, v)"
    "up_files v ''/usr/bin/nft-okboy'' = Some new_binary" using demo_install [OF demo_paths] by auto
  have "new_binary \<noteq> [1]" by (simp add: new_binary_def)
  with upgrade_installs_only_vouched [OF demo_fields(4) demo_paths v(1)] v show ?thesis by (auto intro!: exI [of _ v])
qed

end
