(* ===== verification/Ufw.thy ===== *)
theory Ufw
  imports Nft
begin

unbundle bit_operations_syntax

text \<open>
  \<open>internal/firewall/ufw.go\<close>: the ufw backend.  It runs the \<open>ufw\<close> command and reads its numbered listing
  back with three regular expressions, each written out as a scanner.  The command and the firewall behind it
  are \<open>ufw_exec\<close>; the lock file is \<open>ufw_flock\<close>, the text of an error or none.  Every call holds the lock from
  its start to its end, so it is one step.  Of the backend's own memory the warnings already given are kept.
\<close>

section \<open>The listing\<close>

text \<open>A regular expression's white space, \<open>\s*\<close>, \<open>\s+\<close> and a literal.\<close>

definition re_space :: "char \<Rightarrow> bool" where
  "re_space c \<longleftrightarrow> byte c \<in> {9, 10, 12, 13, 32}"

definition skip_spaces :: "string \<Rightarrow> string" where
  "skip_spaces s = dropWhile re_space s"

definition some_spaces :: "string \<Rightarrow> string option" where
  "some_spaces s = (if s \<noteq> [] \<and> re_space (hd s) then Some (skip_spaces s) else None)"

definition literal :: "string \<Rightarrow> string \<Rightarrow> string option" where
  "literal w s = (if has_prefix w s then Some (drop (length w) s) else None)"

definition trim_end :: "(char \<Rightarrow> bool) \<Rightarrow> string \<Rightarrow> string" where
  "trim_end P s = rev (dropWhile P (rev s))"

definition non_space :: "string \<Rightarrow> string" where
  "non_space s = takeWhile (\<lambda>c. \<not> re_space c) s"

definition word_char :: "char \<Rightarrow> bool" where
  "word_char c \<longleftrightarrow> is_upper c \<or> is_lower c \<or> is_digit c \<or> c = CHR ''_''"

text \<open>\<open>^\s*\[\s*(\d+)\s*\]\s+(.*\S)\s*$\<close>\<close>

definition ufwNumRe :: "string \<Rightarrow> (string \<times> string) option" where
  "ufwNumRe raw = Option.bind (literal ''['' (skip_spaces raw)) (\<lambda>a.
     let num = takeWhile is_digit (skip_spaces a); rest = dropWhile is_digit (skip_spaces a) in
     if num = [] then None
     else Option.bind (literal '']'' (skip_spaces rest)) (\<lambda>b. Option.bind (some_spaces b) (\<lambda>c.
       if trim_end re_space c = [] then None else Some (num, trim_end re_space c))))"

text \<open>\<open>^(\d+)/(\w+)(?:\s+\(v6\))?\s+\<close>, with what is behind it.\<close>

definition re_head :: "string \<Rightarrow> (string \<times> string \<times> string) option" where
  "re_head body = (let num = takeWhile is_digit body in
     if num = [] then None
     else Option.bind (literal ''/'' (dropWhile is_digit body)) (\<lambda>a. let proto = takeWhile word_char a in
       if proto = [] then None
       else Option.bind (some_spaces (dropWhile word_char a)) (\<lambda>b.
         Some (num, proto, (case Option.bind (literal ''(v6)'' b) some_spaces of Some c \<Rightarrow> c | None \<Rightarrow> b)))))"

text \<open>\<open>^(\d+)/(\w+)(?:\s+\(v6\))?\s+ALLOW\s+IN\s+(\S+)\<close>\<close>

definition ufwBodyRe :: "string \<Rightarrow> (string \<times> string \<times> string) option" where
  "ufwBodyRe body = Option.bind (re_head body) (\<lambda>(num, proto, a).
     Option.bind (Option.bind (literal ''ALLOW'' a) some_spaces) (\<lambda>b.
     Option.bind (Option.bind (literal ''IN'' b) some_spaces) (\<lambda>src.
       if non_space src = [] then None else Some (num, proto, non_space src))))"

text \<open>\<open>^(\d+)/(tcp|udp)(?:\s+\(v6\))?\s+(ALLOW|DENY|REJECT|LIMIT)\s+IN\s+(\S+)(?:\s+\(log(?:-all)?\))?$\<close>\<close>

definition log_end :: "string \<Rightarrow> bool" where
  "log_end s \<longleftrightarrow> s = [] \<or> some_spaces s = Some ''(log)'' \<or> some_spaces s = Some ''(log-all)''"

definition ufwMatchRe :: "string \<Rightarrow> (string \<times> string \<times> string \<times> string) option" where
  "ufwMatchRe body = Option.bind (re_head body) (\<lambda>(num, proto, a). let action = non_space a in
     if proto \<notin> {''tcp'', ''udp''} \<or> action \<notin> {''ALLOW'', ''DENY'', ''REJECT'', ''LIMIT''} then None
     else Option.bind (Option.bind (some_spaces (drop (length action) a)) (literal ''IN'')) (\<lambda>b.
       Option.bind (some_spaces b) (\<lambda>src.
         if non_space src = [] \<or> \<not> log_end (drop (length (non_space src)) src) then None
         else Some (num, proto, action, non_space src))))"

definition splitUfwComment :: "string \<Rightarrow> string \<times> string" where
  "splitUfwComment body = (case cut_at CHR ''#'' body of
      Some (r, c) \<Rightarrow> (trim_end (\<lambda>x. byte x = 32 \<or> byte x = 9) r, trim_space c)
    | None \<Rightarrow> (body, []))"

text \<open>FNV-1a on 64 bits.\<close>

definition fnv1a :: "nat list \<Rightarrow> 64 word" where
  "fnv1a bs = foldl (\<lambda>h b. (h XOR of_nat b) * 0x100000001b3) 0xcbf29ce484222325 bs"

definition synthHandle :: "string \<Rightarrow> string \<Rightarrow> int \<Rightarrow> string \<Rightarrow> int" where
  "synthHandle comment ip port proto =
     uint (fnv1a (bytes (comment @ ''|'' @ ip @ ''|'' @ itoa port @ ''|'' @ proto)) AND 0x7fffffffffffffff)"

section \<open>Reading it back\<close>

type_synonym ufwLine = "int \<times> rule"

definition ufw_rule :: "string \<Rightarrow> string \<Rightarrow> string \<Rightarrow> int \<Rightarrow> string \<Rightarrow> rule" where
  "ufw_rule prefix comment ip port proto = (case splitComment prefix comment of (user, grp) \<Rightarrow>
     \<lparr>r_handle = synthHandle comment ip port proto, r_ip = ip, r_port = port, r_proto = proto,
      r_user = user, r_group = grp, r_comment = comment\<rparr>)"

text \<open>A rule's text and comment: the rule, when it is managed.\<close>

definition managed :: "string \<Rightarrow> string \<times> string \<Rightarrow> rule option" where
  "managed prefix row = (case row of (body, comment) \<Rightarrow>
     if \<not> has_prefix (prefix @ '':'') comment then None
     else Option.bind (ufwBodyRe body) (\<lambda>(num, proto, ip).
       Option.bind (parse_int64 num) (\<lambda>port. Some (ufw_rule prefix comment ip port proto))))"

definition ufw_line :: "string \<Rightarrow> string \<Rightarrow> ufwLine option" where
  "ufw_line prefix raw = Option.bind (ufwNumRe raw) (\<lambda>(num, body).
     Option.bind (parse_int64 num) (\<lambda>n. Option.bind (managed prefix (splitUfwComment body)) (\<lambda>r. Some (n, r))))"

definition parseUfwStatus :: "string \<Rightarrow> string \<Rightarrow> ufwLine list" where
  "parseUfwStatus prefix output = List.map_filter (ufw_line prefix) (split_on (CHR 10) output)"

text \<open>A rule that is not managed by nft-okboy but has the match of an allow rule: its action.\<close>

definition host_row :: "string \<Rightarrow> string \<Rightarrow> int \<Rightarrow> string \<Rightarrow> string \<times> string \<Rightarrow> string option" where
  "host_row prefix ip port proto row = (case row of (body, comment) \<Rightarrow>
     if has_prefix (prefix @ '':'') comment \<and> ufwBodyRe body \<noteq> None then None
     else Option.bind (ufwMatchRe body) (\<lambda>(num, pr, action, src).
       if num \<noteq> itoa port \<or> pr \<noteq> proto then None
       else if parse_ip src = None \<or> parse_ip src \<noteq> parse_ip ip \<or> (CHR '':'' \<in> set src) \<noteq> (CHR '':'' \<in> set ip) then None
       else Some action))"

definition host_line :: "string \<Rightarrow> string \<Rightarrow> int \<Rightarrow> string \<Rightarrow> string \<Rightarrow> string option" where
  "host_line prefix ip port proto raw = Option.bind (ufwNumRe raw) (\<lambda>(_, body).
     host_row prefix ip port proto (splitUfwComment body))"

fun first_some :: "('a \<Rightarrow> 'b option) \<Rightarrow> 'a list \<Rightarrow> 'b option" where
  "first_some f [] = None"
| "first_some f (x # xs) = (case f x of None \<Rightarrow> first_some f xs | Some y \<Rightarrow> Some y)"

definition hostRuleFor :: "string \<Rightarrow> string \<Rightarrow> string \<Rightarrow> int \<Rightarrow> string \<Rightarrow> string option" where
  "hostRuleFor output prefix ip port proto = (if parse_ip ip = None then None
     else first_some (host_line prefix ip port proto) (split_on (CHR 10) output))"

definition ufwInactive :: "string \<Rightarrow> bool" where
  "ufwInactive output \<longleftrightarrow> has_prefix ''Status: inactive'' (trim_space output)"

section \<open>The backend\<close>

record 's ufw =
  uw_prefix :: string
  uw_flock :: "'s \<Rightarrow> string option \<times> 's"
  uw_exec :: "string list \<Rightarrow> 's \<Rightarrow> string proc \<times> 's"

record 's ufw_state =
  us_host :: 's
  us_warnedInactive :: bool
  us_warnedHost :: "string list"

definition ufwLockPath :: string where
  "ufwLockPath = ''/run/nft-okboy.ufw.lock''"

definition ufwTimeout :: string where
  "ufwTimeout = ''30s''"

definition NewUfwBackend :: "(string \<Rightarrow> string + unit) \<Rightarrow> 's ufw \<Rightarrow> fwerr + 's ufw" where
  "NewUfwBackend lookPath u =
     (let u1 = (if uw_prefix u = [] then u\<lparr>uw_prefix := ''ufw-okboy''\<rparr> else u)
      in case lookPath ''ufw'' of
           Inl e \<Rightarrow> Inl (Wrapped ''ufw binary not found in PATH'' (Opaque e))
         | Inr _ \<Rightarrow> Inr u1)"

text \<open>\<open>lock\<close>, with the rest of the call behind it; \<open>err\<close> makes the call's result of an error.\<close>

definition ufw_locked :: "'s ufw \<Rightarrow> (fwerr \<Rightarrow> 'r) \<Rightarrow> ('s ufw_state \<Rightarrow> 'r \<times> 's ufw_state) \<Rightarrow> 's ufw_state \<Rightarrow> 'r \<times> 's ufw_state" where
  "ufw_locked u err body s = (case uw_flock u (us_host s) of
      (Some e, h) \<Rightarrow> (err (Wrapped (''ufw: cannot take the host-wide lock '' @ ufwLockPath @
         '' (needed to change ufw rules safely)'') (Opaque e)), s\<lparr>us_host := h\<rparr>)
    | (None, h) \<Rightarrow> body (s\<lparr>us_host := h\<rparr>))"

definition ufw_run :: "'s ufw \<Rightarrow> string list \<Rightarrow> 's ufw_state \<Rightarrow> (fwerr + string) \<times> 's ufw_state" where
  "ufw_run u args s = (case uw_exec u args (us_host s) of
      (Done out, h) \<Rightarrow> (Inr out, s\<lparr>us_host := h\<rparr>)
    | (TimedOut, h) \<Rightarrow> (Inl (Opaque (''ufw timed out after '' @ ufwTimeout)), s\<lparr>us_host := h\<rparr>)
    | (Failed st err, h) \<Rightarrow> (Inl (Opaque (''ufw '' @ join '' '' args @ '' failed: '' @ st @ '': '' @ trim_space err)),
        s\<lparr>us_host := h\<rparr>))"

definition ufw_EnsureBase :: "'s ufw \<Rightarrow> 's ufw_state \<Rightarrow> fwerr option \<times> 's ufw_state" where
  "ufw_EnsureBase u = ufw_locked u Some (\<lambda>s. case ufw_run u [''status''] s of
      (Inl e, s1) \<Rightarrow> (Some e, s1)
    | (Inr out, s1) \<Rightarrow> (None, s1\<lparr>us_warnedInactive := \<not> contains out ''Status: active''\<rparr>))"

definition host_key :: "string \<Rightarrow> int \<Rightarrow> string \<Rightarrow> string" where
  "host_key ip port proto = ip @ ''|'' @ itoa port @ ''|'' @ proto"

definition allow_args :: "string \<Rightarrow> int \<Rightarrow> string \<Rightarrow> string \<Rightarrow> string list" where
  "allow_args ip port proto comment =
     [''allow'', ''from'', ip, ''to'', ''any'', ''port'', itoa port, ''proto'', proto, ''comment'', comment]"

definition ufw_AddRule :: "'s ufw \<Rightarrow> string \<Rightarrow> int \<Rightarrow> string \<Rightarrow> string \<Rightarrow> string \<Rightarrow> 's ufw_state \<Rightarrow> fwerr option \<times> 's ufw_state" where
  "ufw_AddRule u ip port user proto grp = ufw_locked u Some (\<lambda>s. case checkRule ip port proto of
      Some e \<Rightarrow> (Some e, s)
    | None \<Rightarrow> (case ufw_run u [''status'', ''numbered''] s of
        (Inl e, s1) \<Rightarrow> (Some e, s1)
      | (Inr out, s1) \<Rightarrow>
          if ufwInactive out then (Some ErrInactive, s1)
          else (case hostRuleFor out (uw_prefix u) ip port proto of
              Some action \<Rightarrow> (Some (HostRuleError action),
                s1\<lparr>us_warnedHost := List.insert (host_key ip port proto) (us_warnedHost s1)\<rparr>)
            | None \<Rightarrow> (case ufw_run u (allow_args ip port proto (commentFor (uw_prefix u) user grp)) s1 of
                (Inl e, s2) \<Rightarrow> (Some e, s2) | (Inr _, s2) \<Rightarrow> (None, s2)))))"

definition listManagedLines :: "'s ufw \<Rightarrow> 's ufw_state \<Rightarrow> (fwerr + ufwLine list) \<times> 's ufw_state" where
  "listManagedLines u s = (case ufw_run u [''status'', ''numbered''] s of
      (Inl e, s1) \<Rightarrow> (Inl e, s1)
    | (Inr out, s1) \<Rightarrow> if ufwInactive out then (Inl ErrInactive, s1) else (Inr (parseUfwStatus (uw_prefix u) out), s1))"

definition deleteNumber :: "'s ufw \<Rightarrow> int \<Rightarrow> 's ufw_state \<Rightarrow> fwerr option \<times> 's ufw_state" where
  "deleteNumber u n s = (case ufw_run u [''--force'', ''delete'', itoa n] s of
      (Inl e, s1) \<Rightarrow> (Some e, s1) | (Inr _, s1) \<Rightarrow> (None, s1))"

text \<open>The loop of \<open>RemoveRule\<close> and \<open>DeleteByHandle\<close>: the first line that fits is deleted by its number.\<close>

definition delete_first :: "'s ufw \<Rightarrow> (rule \<Rightarrow> bool) \<Rightarrow> 's ufw_state \<Rightarrow> fwerr option \<times> 's ufw_state" where
  "delete_first u fits = ufw_locked u Some (\<lambda>s. case listManagedLines u s of
      (Inl e, s1) \<Rightarrow> (Some e, s1)
    | (Inr ls, s1) \<Rightarrow> (case find (\<lambda>(n, r). fits r) ls of None \<Rightarrow> (None, s1) | Some (n, r) \<Rightarrow> deleteNumber u n s1))"

definition ufw_RemoveRule :: "'s ufw \<Rightarrow> string \<Rightarrow> int \<Rightarrow> string \<Rightarrow> string \<Rightarrow> string \<Rightarrow> 's ufw_state \<Rightarrow> fwerr option \<times> 's ufw_state" where
  "ufw_RemoveRule u ip port user proto grp = delete_first u (remove_matches (uw_prefix u) ip port user proto grp)"

definition ufw_DeleteByHandle :: "'s ufw \<Rightarrow> int \<Rightarrow> 's ufw_state \<Rightarrow> fwerr option \<times> 's ufw_state" where
  "ufw_DeleteByHandle u handle = delete_first u (\<lambda>r. r_handle r = handle)"

definition ufw_listed :: "'s ufw \<Rightarrow> (rule \<Rightarrow> bool) \<Rightarrow> 's ufw_state \<Rightarrow> (fwerr + rule list) \<times> 's ufw_state" where
  "ufw_listed u fits = ufw_locked u Inl (\<lambda>s. case listManagedLines u s of
      (Inl e, s1) \<Rightarrow> (Inl e, s1) | (Inr ls, s1) \<Rightarrow> (Inr (filter fits (map snd ls)), s1))"

definition ufw_ListUserRules :: "'s ufw \<Rightarrow> string \<Rightarrow> 's ufw_state \<Rightarrow> (fwerr + rule list) \<times> 's ufw_state" where
  "ufw_ListUserRules u user = ufw_listed u (\<lambda>r. has_prefix (user_prefix (uw_prefix u) user) (r_comment r))"

definition ufw_ListManaged :: "'s ufw \<Rightarrow> 's ufw_state \<Rightarrow> (fwerr + rule list) \<times> 's ufw_state" where
  "ufw_ListManaged u = ufw_listed u (\<lambda>_. True)"

definition ufw_backend :: "'s ufw \<Rightarrow> 's ufw_state backend" where
  "ufw_backend u = \<lparr>be_EnsureBase = ufw_EnsureBase u, be_AddRule = ufw_AddRule u, be_RemoveRule = ufw_RemoveRule u,
     be_ListUserRules = ufw_ListUserRules u, be_DeleteByHandle = ufw_DeleteByHandle u, be_ListManaged = ufw_ListManaged u,
     be_SyncGuard = None, be_MergesSameMatch = Some True\<rparr>"

lemma ufw_backend_simps [simp]:
  "be_EnsureBase (ufw_backend u) = ufw_EnsureBase u" "be_AddRule (ufw_backend u) = ufw_AddRule u"
  "be_RemoveRule (ufw_backend u) = ufw_RemoveRule u" "be_ListUserRules (ufw_backend u) = ufw_ListUserRules u"
  "be_DeleteByHandle (ufw_backend u) = ufw_DeleteByHandle u" "be_ListManaged (ufw_backend u) = ufw_ListManaged u"
  "be_SyncGuard (ufw_backend u) = None" "be_MergesSameMatch (ufw_backend u) = Some True"
  by (simp_all add: ufw_backend_def)

end
