(* ===== verification/UfwHost.thy ===== *)
theory UfwHost
  imports Ufw
begin

text \<open>
  What the ufw backend relies on: the firewall keeps a list of rules, each a text with a comment; the numbered
  listing shows them in order, one line each; \<open>ufw --force delete n\<close> removes the \<open>n\<close>-th; and \<open>ufw allow\<close>
  keeps one rule per source, port and protocol: it replaces a rule that has the match, whatever that rule's
  action, and inserts one otherwise.  A run of \<open>ufw\<close> that fails changes no rule.  Under these laws the
  backend is a \<open>rule_store\<close>, and no call touches a rule it does not manage.
\<close>

section \<open>What ufw prints\<close>

type_synonym ufw_row = "string \<times> string"

definition blanks :: "nat \<Rightarrow> string" where
  "blanks k = replicate k (CHR '' '')"

definition wf_row :: "ufw_row \<Rightarrow> bool" where
  "wf_row row = (case row of (b, c) \<Rightarrow> b \<noteq> [] \<and> \<not> re_space (hd b) \<and> \<not> re_space (last b) \<and> CHR ''#'' \<notin> set b \<and>
     CHR 10 \<notin> set b \<and> CHR 10 \<notin> set c \<and> trim_space c = c \<and> (c \<noteq> [] \<longrightarrow> \<not> re_space (last c)))"

definition row_text :: "nat \<Rightarrow> ufw_row \<Rightarrow> string" where
  "row_text k row = (case row of (b, c) \<Rightarrow> if c = [] then b @ blanks k else b @ blanks (Suc k) @ ''# '' @ c)"

definition shows_line :: "nat \<Rightarrow> ufw_row \<Rightarrow> string \<Rightarrow> bool" where
  "shows_line n row line \<longleftrightarrow> (\<exists>j k. line = ''['' @ blanks j @ dec_str n @ ''] '' @ row_text k row)"

fun shows_lines :: "nat \<Rightarrow> ufw_row list \<Rightarrow> string list \<Rightarrow> bool" where
  "shows_lines n [] ls = (\<forall>l \<in> set ls. CHR ''['' \<notin> set l)"
| "shows_lines n (row # rows) ls = (\<exists>l ls'. ls = l # ls' \<and> shows_line n row l \<and> shows_lines (Suc n) rows ls')"

definition shows_ufw :: "string \<Rightarrow> ufw_row list \<Rightarrow> bool" where
  "shows_ufw out rows \<longleftrightarrow> has_prefix ''Status: active'' out \<and>
     (\<exists>heads ls. split_on (CHR 10) out = heads @ ls \<and> (\<forall>l \<in> set heads. CHR ''['' \<notin> set l) \<and> shows_lines 1 rows ls)"

section \<open>The scanners on it\<close>

lemma byte_lit: "byte (CHR '' '') = 32" "byte (CHR ''['') = 91" "byte (CHR '']'') = 93" "byte (CHR ''#'') = 35" "byte (CHR ''/'') = 47"
  "byte (CHR ''('') = 40" "byte (CHR ''A'') = 65" "byte (CHR ''I'') = 73" "byte (CHR ''L'') = 76"
  by simp_all

lemma re_space_blank [simp]: "re_space (CHR '' '')"
  by (simp add: re_space_def)

lemma skip_blanks [simp]: "skip_spaces (blanks k @ s) = skip_spaces s"
  by (induction k) (simp_all add: skip_spaces_def blanks_def)

lemma skip_none: "s = [] \<or> \<not> re_space (hd s) \<Longrightarrow> skip_spaces s = s"
  by (cases s) (simp_all add: skip_spaces_def)

lemma some_blanks [simp]: "some_spaces (blanks (Suc k) @ s) = Some (skip_spaces s)"
  using skip_blanks [of "Suc k" s] by (simp add: some_spaces_def blanks_def)

lemma some_blank [simp]: "some_spaces (CHR '' '' # s) = Some (skip_spaces s)"
  by (simp add: some_spaces_def skip_spaces_def)

lemma literal_append [simp]: "literal w (w @ s) = Some s"
  by (simp add: literal_def)

lemma literal_Cons [simp]: "literal [c] (c # s) = Some s"
  by (simp add: literal_def)

lemma trim_end_blanks: "s \<noteq> [] \<Longrightarrow> \<not> P (last s) \<Longrightarrow> P (CHR '' '') \<Longrightarrow> trim_end P (s @ blanks k) = s"
  by (cases s rule: rev_cases) (simp_all add: trim_end_def blanks_def dropWhile_append)

lemma digits_span:
  assumes "s = [] \<or> \<not> is_digit (hd s)"
  shows "takeWhile is_digit (dec_str n @ s) = dec_str n" "dropWhile is_digit (dec_str n @ s) = s"
proof -
  have d: "x \<in> set (dec_str n) \<Longrightarrow> is_digit x" for x using dec_str_digits [of n] by (simp add: list_all_iff)
  show "takeWhile is_digit (dec_str n @ s) = dec_str n" using d assms by (cases s) (auto simp: takeWhile_append)
  show "dropWhile is_digit (dec_str n @ s) = s" using d assms by (cases s) (auto simp: dropWhile_append)
qed

lemma skip_digits: "skip_spaces (dec_str n @ s) = dec_str n @ s"
proof (rule skip_none)
  have "is_digit (hd (dec_str n @ s))" using dec_str_digits [of n] by (cases "dec_str n") auto
  then show "dec_str n @ s = [] \<or> \<not> re_space (hd (dec_str n @ s))" by (auto simp: re_space_def is_digit_def)
qed

text \<open>A line of the listing is read as its number and its text.\<close>

lemma num_line:
  assumes "wf_row row" and "shows_line n row line"
  shows "\<exists>body. ufwNumRe line = Some (dec_str n, body) \<and> splitUfwComment body = row"
proof -
  obtain b c where row: "row = (b, c)" by (cases row)
  from assms(2) obtain j k where line: "line = ''['' @ blanks j @ dec_str n @ ''] '' @ row_text k row" by (auto simp: shows_line_def)
  let ?t = "row_text k row"
  define body where "body = (if c = [] then b else ?t)"
  have ends: "b \<noteq> []" "\<not> re_space (hd b)" "\<not> re_space (last b)" "CHR ''#'' \<notin> set b" "trim_space c = c" "c \<noteq> [] \<Longrightarrow> \<not> re_space (last c)"
    using assms(1) by (auto simp: wf_row_def row)
  have t: "trim_end re_space ?t = body"
  proof (cases "c = []")
    case True
    then show ?thesis using ends by (simp add: row_text_def row body_def trim_end_blanks)
  next
    case False
    have "trim_end re_space (?t @ blanks 0) = ?t" using False ends by (intro trim_end_blanks) (simp_all add: row_text_def row)
    then show ?thesis using False by (simp add: body_def blanks_def)
  qed
  have sk: "skip_spaces ?t = ?t" by (rule skip_none) (use ends in \<open>simp add: row_text_def row hd_append\<close>)
  have "body \<noteq> []" using ends(1) by (simp add: body_def row_text_def row)
  then have "ufwNumRe line = Some (dec_str n, body)"
    unfolding line ufwNumRe_def by (simp add: skip_none re_space_def skip_digits digits_span is_digit_def Let_def sk t)
  moreover have "splitUfwComment body = row"
  proof (cases "c = []")
    case True
    then show ?thesis using ends by (simp add: splitUfwComment_def body_def cut_at_None row)
  next
    case False
    have "cut_at (CHR ''#'') ((b @ blanks (Suc k)) @ CHR ''#'' # '' '' @ c) = Some (b @ blanks (Suc k), '' '' @ c)"
      by (rule cut_at_append) (use ends(4) in \<open>auto simp: blanks_def\<close>)
    moreover have "trim_end (\<lambda>x. byte x = 32 \<or> byte x = 9) (b @ blanks (Suc k)) = b"
      by (rule trim_end_blanks) (use ends in \<open>auto simp: re_space_def\<close>)
    moreover have "trim_space ('' '' @ c) = c"
    proof -
      have "lead_space ('' '' @ c) = 1" by (simp add: lead_space_def space_codes_def char_of_eq_iff take_bit_eq_mod)
      then have "trim_left ('' '' @ c) = trim_left c" by (subst trim_left.simps) simp
      then show ?thesis using ends(5) by (simp add: trim_space_def)
    qed
    ultimately show ?thesis using False by (simp add: splitUfwComment_def body_def row_text_def row)
  qed
  ultimately show ?thesis by blast
qed

lemma no_num_line: "CHR ''['' \<notin> set line \<Longrightarrow> ufwNumRe line = None"
proof -
  assume "CHR ''['' \<notin> set line"
  then have "CHR ''['' \<notin> set (skip_spaces line)" by (auto simp: skip_spaces_def dest: set_dropWhileD)
  then have "literal ''['' (skip_spaces line) = None" by (cases "skip_spaces line") (auto simp: literal_def)
  then show ?thesis by (simp add: ufwNumRe_def)
qed

text \<open>How ufw prints a rule \<open>from src to any port port proto proto\<close> with its action.\<close>

definition v6_tag :: "string \<Rightarrow> bool" where
  "v6_tag t \<longleftrightarrow> t = [] \<or> (\<exists>i. t = blanks (Suc i) @ ''(v6)'')"

definition log_tag :: "string \<Rightarrow> bool" where
  "log_tag t \<longleftrightarrow> t = [] \<or> (\<exists>i. t = blanks (Suc i) @ ''(log)'' \<or> t = blanks (Suc i) @ ''(log-all)'')"

definition plain :: "string \<Rightarrow> int \<Rightarrow> string \<Rightarrow> string \<Rightarrow> string \<Rightarrow> bool" where
  "plain b port proto action src \<longleftrightarrow> (\<exists>v6 j k lg. v6_tag v6 \<and> log_tag lg \<and> 0 \<le> port \<and> proto \<in> {''tcp'', ''udp''} \<and>
     action \<in> {''ALLOW'', ''DENY'', ''REJECT'', ''LIMIT''} \<and> src \<noteq> [] \<and> (\<forall>c \<in> set src. \<not> re_space c) \<and>
     b = itoa port @ ''/'' @ proto @ v6 @ blanks (Suc j) @ action @ '' IN'' @ blanks (Suc k) @ src @ lg)"

lemma span_until:
  assumes "\<forall>c \<in> set p. P c" and "s = [] \<or> \<not> P (hd s)"
  shows "takeWhile P (p @ s) = p" "dropWhile P (p @ s) = s"
  using assms by (cases s; simp add: takeWhile_append2 dropWhile_append2)+

lemma head_of_plain:
  assumes "v6_tag v6" and "0 \<le> port" and "proto \<in> {''tcp'', ''udp''}" and "hd rest \<in> set ''ADRL''" and "rest \<noteq> []"
  shows "re_head (itoa port @ ''/'' @ proto @ v6 @ blanks (Suc j) @ rest) = Some (itoa port, proto, rest)"
proof -
  have i: "itoa port = dec_str (nat port)" using assms(2) by (simp add: itoa_def)
  have w: "\<forall>c \<in> set proto. word_char c" using assms(3) by (auto simp: word_char_def is_lower_def)
  have sp: "\<not> re_space (hd rest)" using assms(4) by (auto simp: re_space_def)
  have r: "skip_spaces rest = rest" by (rule skip_none) (simp add: sp)
  have n: "literal ''(v6)'' rest = None" using assms(4,5) by (cases rest) (auto simp: literal_def)
  let ?t = "v6 @ blanks (Suc j) @ rest"
  have nw: "\<not> word_char (CHR '' '')" by (simp add: word_char_def is_upper_def is_lower_def is_digit_def)
  have t: "takeWhile word_char (proto @ ?t) = proto" "dropWhile word_char (proto @ ?t) = ?t"
    using span_until [OF w, of ?t] assms(1) nw by (auto simp: v6_tag_def blanks_def)
  have v: "\<exists>b. some_spaces ?t = Some b \<and> (case Option.bind (literal ''(v6)'' b) some_spaces of Some c \<Rightarrow> c | None \<Rightarrow> b) = rest"
    using assms(1) unfolding v6_tag_def
  proof (elim disjE exE)
    assume "v6 = []"
    then show ?thesis using n r by simp
  next
    fix i assume i: "v6 = blanks (Suc i) @ ''(v6)''"
    have "skip_spaces (''(v6)'' @ blanks (Suc j) @ rest) = ''(v6)'' @ blanks (Suc j) @ rest"
      by (rule skip_none) (simp add: re_space_def)
    then show ?thesis using r i literal_append [of "''(v6)''" "blanks (Suc j) @ rest"] by simp
  qed
  have d: "takeWhile is_digit (itoa port @ ''/'' @ proto @ ?t) = itoa port" "dropWhile is_digit (itoa port @ ''/'' @ proto @ ?t) = ''/'' @ proto @ ?t"
    using digits_span [of "''/'' @ proto @ ?t" "nat port"] by (simp_all add: i is_digit_def)
  have "itoa port \<noteq> []" by (simp add: i)
  moreover have "proto \<noteq> []" using assms(3) by auto
  ultimately show ?thesis unfolding re_head_def Let_def d literal_append Option.bind.simps t using v by auto
qed

lemma plain_scans:
  assumes "plain b port proto action src"
  shows "ufwMatchRe b = Some (itoa port, proto, action, src)"
    and "action = ''ALLOW'' \<Longrightarrow> ufwBodyRe b = Some (itoa port, proto, src)"
proof -
  obtain v6 j k lg where p: "v6_tag v6" "log_tag lg" "0 \<le> port" "proto \<in> {''tcp'', ''udp''}"
    "action \<in> {''ALLOW'', ''DENY'', ''REJECT'', ''LIMIT''}" "src \<noteq> []" "\<forall>c \<in> set src. \<not> re_space c"
    and b: "b = itoa port @ ''/'' @ proto @ v6 @ blanks (Suc j) @ action @ '' IN'' @ blanks (Suc k) @ src @ lg"
    using assms unfolding plain_def by blast
  let ?s = "src @ lg" and ?r = "action @ '' IN'' @ blanks (Suc k) @ src @ lg"
  have h: "re_head b = Some (itoa port, proto, ?r)" unfolding b by (rule head_of_plain [OF p(1,3,4)]) (use p(5) in auto)
  have sk: "skip_spaces ?s = ?s" by (rule skip_none) (use p(6,7) in \<open>simp add: hd_append\<close>)
  have ends: "lg = [] \<or> re_space (hd lg)" using p(2) by (auto simp: log_tag_def blanks_def)
  have ns: "non_space ?s = src" unfolding non_space_def by (rule span_until) (use p(7) ends in auto)
  have act: "\<forall>c \<in> set action. \<not> re_space c" using p(5) by (auto simp: re_space_def)
  have na: "non_space ?r = action" unfolding non_space_def by (rule span_until) (use act in auto)
  have lg: "log_end lg" using p(2) by (auto simp: log_tag_def log_end_def skip_spaces_def re_space_def)
  have in1: "skip_spaces (''IN'' @ blanks (Suc k) @ ?s) = ''IN'' @ blanks (Suc k) @ ?s" by (rule skip_none) (simp add: re_space_def)
  have lit: "literal ''IN'' (''IN'' @ blanks (Suc k) @ ?s) = Some (blanks (Suc k) @ ?s)" by (rule literal_append)
  have sp: "some_spaces ('' IN'' @ blanks (Suc k) @ ?s) = Some (''IN'' @ blanks (Suc k) @ ?s)" using in1 by simp
  show "ufwMatchRe b = Some (itoa port, proto, action, src)"
    unfolding ufwMatchRe_def h Option.bind.simps prod.case Let_def na
    using p(4-6) lg sp lit ns sk by (simp del: append_Cons)
  assume a: "action = ''ALLOW''"
  have "literal ''ALLOW'' ?r = Some ('' IN'' @ blanks (Suc k) @ ?s)" unfolding a by (rule literal_append)
  then show "ufwBodyRe b = Some (itoa port, proto, src)"
    unfolding ufwBodyRe_def h Option.bind.simps prod.case
    using p(6) sp lit ns sk by (simp del: append_Cons)
qed

section \<open>The listing read back\<close>

text \<open>The managed rules with their numbers.\<close>

fun numbered :: "string \<Rightarrow> nat \<Rightarrow> ufw_row list \<Rightarrow> ufwLine list" where
  "numbered prefix n [] = []"
| "numbered prefix n (row # rows) = (case managed prefix row of None \<Rightarrow> numbered prefix (Suc n) rows
     | Some r \<Rightarrow> (int n, r) # numbered prefix (Suc n) rows)"

definition ufw_store :: "string \<Rightarrow> ufw_row list \<Rightarrow> rule list" where
  "ufw_store prefix rows = List.map_filter (managed prefix) rows"

definition host_rows :: "string \<Rightarrow> ufw_row list \<Rightarrow> ufw_row list" where
  "host_rows prefix rows = filter (\<lambda>row. managed prefix row = None) rows"

definition host_action :: "string \<Rightarrow> ufw_row list \<Rightarrow> rmatch \<Rightarrow> string option" where
  "host_action prefix rows m = (case m of (ip, port, proto) \<Rightarrow> first_some (host_row prefix ip port proto) rows)"

lemma map_filter_none: "\<forall>x \<in> set xs. f x = None \<Longrightarrow> List.map_filter f xs = []"
  by (induction xs) (simp_all add: List.map_filter_simps)

lemma first_some_none: "\<forall>x \<in> set xs. f x = None \<Longrightarrow> first_some f xs = None"
  by (induction xs) simp_all

lemma map_filter_append: "List.map_filter f (xs @ ys) = List.map_filter f xs @ List.map_filter f ys"
  by (simp add: List.map_filter_def)

lemma first_some_append: "first_some f (xs @ ys) = (case first_some f xs of None \<Rightarrow> first_some f ys | Some y \<Rightarrow> Some y)"
  by (induction xs) (auto split: option.splits)

lemma numbered_store: "map snd (numbered prefix n rows) = ufw_store prefix rows"
  by (induction rows arbitrary: n) (auto simp: ufw_store_def List.map_filter_simps split: option.splits)

lemma lines_read:
  assumes "shows_lines n rows ls" and "\<forall>row \<in> set rows. wf_row row" and "int n + int (length rows) < 2 ^ 63"
  shows "List.map_filter (ufw_line prefix) ls = numbered prefix n rows \<and>
    first_some (host_line prefix ip port proto) ls = first_some (host_row prefix ip port proto) rows"
  using assms
proof (induction n rows ls rule: shows_lines.induct)
  case (1 n ls)
  have "\<forall>l \<in> set ls. ufw_line prefix l = None \<and> host_line prefix ip port proto l = None"
    using 1 by (auto simp: ufw_line_def host_line_def no_num_line)
  then show ?case by (simp_all add: map_filter_none first_some_none)
next
  case (2 n row rows ls)
  then obtain l ls' where l: "ls = l # ls'" "shows_line n row l" "shows_lines (Suc n) rows ls'" by auto
  obtain body where b: "ufwNumRe l = Some (dec_str n, body)" "splitUfwComment body = row"
    using num_line [OF _ l(2)] 2(3) by auto
  have "parse_int64 (itoa (int n)) = Some (int n)" using 2(4) by (intro parse_int64_itoa) auto
  then have p: "parse_int64 (dec_str n) = Some (int n)" by (simp add: itoa_def)
  have "ufw_line prefix l = (case managed prefix row of None \<Rightarrow> None | Some r \<Rightarrow> Some (int n, r))"
    by (cases "managed prefix row") (simp_all add: ufw_line_def b p)
  moreover have "host_line prefix ip port proto l = host_row prefix ip port proto row" by (simp add: host_line_def b)
  moreover have "List.map_filter (ufw_line prefix) ls' = numbered prefix (Suc n) rows \<and>
      first_some (host_line prefix ip port proto) ls' = first_some (host_row prefix ip port proto) rows"
    using 2(1) [OF l(3)] 2(3,4) by simp
  ultimately show ?case unfolding l(1) by (auto simp: List.map_filter_simps split: option.splits)
qed

lemma listing_read:
  assumes "shows_ufw out rows" and "\<forall>row \<in> set rows. wf_row row" and "int (length rows) < 2 ^ 63 - 1"
  shows "parseUfwStatus prefix out = numbered prefix 1 rows"
    and "parse_ip ip \<noteq> None \<Longrightarrow> hostRuleFor out prefix ip port proto = host_action prefix rows (ip, port, proto)"
    and "\<not> ufwInactive out"
proof -
  obtain heads ls where s: "split_on (CHR 10) out = heads @ ls" "\<forall>l \<in> set heads. CHR ''['' \<notin> set l" "shows_lines 1 rows ls"
    and a: "has_prefix ''Status: active'' out" using assms(1) unfolding shows_ufw_def by blast
  have b: "int 1 + int (length rows) < 2 ^ 63" using assms(3) by simp
  note r = lines_read [OF s(3) assms(2) b, THEN conjunct1] lines_read [OF s(3) assms(2) b, THEN conjunct2]
  have h: "\<forall>l \<in> set heads. ufw_line prefix l = None \<and> host_line prefix ip port proto l = None"
    using s(2) by (auto simp: ufw_line_def host_line_def no_num_line)
  show "parseUfwStatus prefix out = numbered prefix 1 rows" using h r(1) by (simp add: parseUfwStatus_def s(1) map_filter_append map_filter_none)
  show "parse_ip ip \<noteq> None \<Longrightarrow> hostRuleFor out prefix ip port proto = host_action prefix rows (ip, port, proto)"
    using h r(2) by (auto simp: hostRuleFor_def host_action_def s(1) first_some_append first_some_none)
  obtain rest where out: "out = ''Status: active'' @ rest" using a by (auto simp: has_prefix_iff)
  have "lead_space out = 0" by (simp add: out lead_space_def space_codes_def char_of_eq_iff take_bit_eq_mod)
  then have l: "trim_left out = out" by (subst trim_left.simps) simp
  have "\<exists>t. trim_right s = take t s" for s
  proof (induction s rule: trim_right.induct)
    case (1 s)
    show ?case
    proof (cases "trail_space s = 0 \<or> s = []")
      case True
      then have "trim_right s = take (length s) s" by (subst trim_right.simps) simp
      then show ?thesis by blast
    next
      case False
      with 1 obtain t where "trim_right (take (length s - trail_space s) s) = take t (take (length s - trail_space s) s)" by blast
      then have "trim_right s = take (min t (length s - trail_space s)) s" using False by (subst trim_right.simps) simp
      then show ?thesis by blast
    qed
  qed
  then obtain t where "trim_space out = take t out" using l by (auto simp: trim_space_def)
  then show "\<not> ufwInactive out" by (auto simp: ufwInactive_def out has_prefix_def take_Cons' split: if_splits)
qed

lemma inactive_text: "ufwInactive (''Status: inactive'' @ [CHR 10])"
proof -
  note codes = space_codes_def char_of_eq_iff take_bit_eq_mod
  have "lead_space (''Status: inactive'' @ [CHR 10]) = 0" by (simp add: lead_space_def codes)
  then have l: "trim_left (''Status: inactive'' @ [CHR 10]) = ''Status: inactive'' @ [CHR 10]" by (subst trim_left.simps) simp
  have t: "trail_space (''Status: inactive'' @ [CHR 10]) = 1" "trail_space ''Status: inactive'' = 0"
    by (simp_all add: trail_space_def codes)
  have "trim_right (''Status: inactive'' @ [CHR 10]) = trim_right ''Status: inactive''" using t(1) by (subst trim_right.simps) simp
  also have "\<dots> = ''Status: inactive''" using t(2) by (subst trim_right.simps) simp
  finally show ?thesis unfolding ufwInactive_def trim_space_def l by simp
qed

text \<open>Deleting the number of the first managed rule that fits.\<close>

definition delete_row :: "nat \<Rightarrow> 'a list \<Rightarrow> 'a list" where
  "delete_row k xs = take k xs @ drop (Suc k) xs"

lemma delete_found:
  assumes "find (\<lambda>(n, r). fits r) (numbered prefix m rows) = Some (n, r)"
  shows "\<exists>k < length rows. n = int (m + k) \<and> ufw_store prefix (delete_row k rows) = drop_first fits (ufw_store prefix rows) \<and>
    host_rows prefix (delete_row k rows) = host_rows prefix rows"
  using assms
proof (induction rows arbitrary: m)
  case Nil
  then show ?case by simp
next
  case (Cons row rows)
  show ?case
  proof (cases "\<exists>q. managed prefix row = Some q \<and> fits q")
    case True
    then show ?thesis using Cons.prems
      by (intro exI [of _ 0]) (auto simp: delete_row_def ufw_store_def host_rows_def List.map_filter_simps)
  next
    case False
    then have "find (\<lambda>(n, r). fits r) (numbered prefix (Suc m) rows) = Some (n, r)" using Cons.prems by (auto split: option.splits)
    from Cons.IH [OF this] obtain k where k: "k < length rows" "n = int (Suc m + k)"
      "ufw_store prefix (delete_row k rows) = drop_first fits (ufw_store prefix rows)"
      "host_rows prefix (delete_row k rows) = host_rows prefix rows" by blast
    then show ?thesis using False
      by (intro exI [of _ "Suc k"]) (auto simp: delete_row_def ufw_store_def host_rows_def List.map_filter_simps split: option.splits)
  qed
qed

lemma none_fits:
  "find (\<lambda>(n, r). fits r) (numbered prefix m rows) = None \<Longrightarrow> \<forall>r \<in> set (ufw_store prefix rows). \<not> fits r"
  unfolding numbered_store [of prefix m rows, symmetric] by (auto simp: find_None_iff)

lemma host_action_rows:
  assumes "host_rows prefix rows = host_rows prefix rows'"
  shows "host_action prefix rows = host_action prefix rows'"
proof -
  have none: "managed prefix row \<noteq> None \<Longrightarrow> host_row prefix ip port proto row = None" for row ip port proto
    by (cases row, cases "ufwBodyRe (fst row)") (auto simp: managed_def host_row_def split: if_splits)
  have "first_some (host_row prefix ip port proto) rows = first_some (host_row prefix ip port proto) (host_rows prefix rows)" for rows ip port proto
  proof (induction rows)
    case (Cons row rows)
    then show ?case using none [of row ip port proto] by (auto simp: host_rows_def split: option.splits)
  qed (simp add: host_rows_def)
  then have "first_some (host_row prefix ip port proto) rows = first_some (host_row prefix ip port proto) rows'" for ip port proto
    by (metis assms)
  then show ?thesis by (auto simp: host_action_def fun_eq_iff)
qed

section \<open>The firewall\<close>

definition same_source :: "string \<Rightarrow> string \<Rightarrow> bool" where
  "same_source src ip \<longleftrightarrow> parse_ip src \<noteq> None \<and> parse_ip src = parse_ip ip \<and> (CHR '':'' \<in> set src \<longleftrightarrow> CHR '':'' \<in> set ip)"

definition hits :: "string \<Rightarrow> int \<Rightarrow> string \<Rightarrow> ufw_row \<Rightarrow> bool" where
  "hits ip port proto row \<longleftrightarrow> (\<exists>action src. plain (fst row) port proto action src \<and> same_source src ip)"

definition allow_rule :: "string \<Rightarrow> int \<Rightarrow> string \<Rightarrow> string \<Rightarrow> ufw_row \<Rightarrow> bool" where
  "allow_rule ip port proto c row \<longleftrightarrow> snd row = c \<and>
     (\<exists>src. plain (fst row) port proto ''ALLOW'' src \<and> same_source src ip \<and> (CanonicalIP ip = ip \<longrightarrow> src = ip))"

definition ufw_allows :: "string \<Rightarrow> int \<Rightarrow> string \<Rightarrow> string \<Rightarrow> ufw_row list \<Rightarrow> ufw_row list \<Rightarrow> bool" where
  "ufw_allows ip port proto c rows rows' \<longleftrightarrow> (\<exists>row. allow_rule ip port proto c row \<and>
     ((\<exists>xs old ys. rows = xs @ old # ys \<and> hits ip port proto old \<and> rows' = xs @ row # ys) \<or>
      (\<forall>row \<in> set rows. \<not> hits ip port proto row) \<and> (\<exists>xs ys. rows = xs @ ys \<and> rows' = xs @ row # ys)))"

definition clean_comment :: "string \<Rightarrow> bool" where
  "clean_comment c \<longleftrightarrow> c \<noteq> [] \<and> list_all (\<lambda>x. 32 < byte x \<and> byte x < 128) c"

locale ufw_tool =
  fixes u :: "'s ufw" and rows :: "'s \<Rightarrow> ufw_row list" and ok :: "'s \<Rightarrow> bool"
  assumes texts: "ok h \<Longrightarrow> row \<in> set (rows h) \<Longrightarrow> wf_row row"
    and count: "ok h \<Longrightarrow> int (length (rows h)) < 2 ^ 63 - 1"
    and flock: "ok h \<Longrightarrow> uw_flock u h = (e, h') \<Longrightarrow> ok h' \<and> rows h' = rows h"
    and failed: "ok h \<Longrightarrow> uw_exec u args h = (x, h') \<Longrightarrow> \<forall>out. x \<noteq> Done out \<Longrightarrow> ok h' \<and> rows h' = rows h"
    and status: "ok h \<Longrightarrow> uw_exec u (''status'' # opts) h = (Done out, h') \<Longrightarrow> ok h' \<and> rows h' = rows h"
    and listing: "ok h \<Longrightarrow> uw_exec u [''status'', ''numbered''] h = (Done out, h') \<Longrightarrow>
      shows_ufw out (rows h) \<or> out = ''Status: inactive'' @ [CHR 10]"
    and deleted: "ok h \<Longrightarrow> k < length (rows h) \<Longrightarrow> uw_exec u [''--force'', ''delete'', itoa (int (Suc k))] h = (Done out, h') \<Longrightarrow>
      ok h' \<and> rows h' = delete_row k (rows h)"
    and allowed: "ok h \<Longrightarrow> checkRule ip port proto = None \<Longrightarrow> clean_comment c \<Longrightarrow>
      uw_exec u (allow_args ip port proto c) h = (Done out, h') \<Longrightarrow> ok h' \<and> ufw_allows ip port proto c (rows h) (rows h')"
begin

abbreviation kept_rows :: "'s ufw_state \<Rightarrow> ufw_row list" where
  "kept_rows s \<equiv> rows (us_host s)"

abbreviation fine :: "'s ufw_state \<Rightarrow> bool" where
  "fine s \<equiv> ok (us_host s)"

abbreviation same_rows :: "'s ufw_state \<Rightarrow> 's ufw_state \<Rightarrow> bool" where
  "same_rows s s' \<equiv> fine s' \<and> kept_rows s' = kept_rows s"

abbreviation pre :: string where
  "pre \<equiv> uw_prefix u"

lemma locked:
  assumes "fine s" and "ufw_locked u err body s = (r, s')"
  shows "(\<exists>m x. r = err (Wrapped m (Opaque x)) \<and> same_rows s s') \<or> (\<exists>s1. same_rows s s1 \<and> body s1 = (r, s'))"
  using assms flock [of "us_host s"]
  by (cases "uw_flock u (us_host s)", cases "fst (uw_flock u (us_host s))") (auto simp: ufw_locked_def)

lemma run_failed:
  assumes "fine s" and "ufw_run u args s = (Inl e, s')"
  shows "same_rows s s' \<and> host_rule e = None"
  using assms failed [of "us_host s" args]
  by (cases "uw_exec u args (us_host s)", cases "fst (uw_exec u args (us_host s))") (auto simp: ufw_run_def)

lemma run_done:
  assumes "ufw_run u args s = (Inr out, s')"
  shows "uw_exec u args (us_host s) = (Done out, us_host s')"
  using assms by (cases "uw_exec u args (us_host s)", cases "fst (uw_exec u args (us_host s))") (auto simp: ufw_run_def)

lemma listed_run:
  assumes "fine s" and "ufw_run u [''status'', ''numbered''] s = (Inr out, s')"
  shows "same_rows s s'" and "\<not> ufwInactive out \<Longrightarrow> shows_ufw out (kept_rows s)"
proof -
  note x = run_done [OF assms(2)]
  show "same_rows s s'" using status [OF assms(1) x] by simp
  show "\<not> ufwInactive out \<Longrightarrow> shows_ufw out (kept_rows s)" using listing [OF assms(1) x] inactive_text by auto
qed

lemmas read_rows = listing_read [OF _ _ count]

lemma lines_run:
  assumes "fine s" and "listManagedLines u s = (x, s')"
  shows "same_rows s s' \<and> (\<forall>ls. x = Inr ls \<longrightarrow> ls = numbered pre 1 (kept_rows s))"
proof -
  obtain y s1 where run: "ufw_run u [''status'', ''numbered''] s = (y, s1)" by (cases "ufw_run u [''status'', ''numbered''] s")
  show ?thesis
  proof (cases y)
    case (Inl e)
    with assms(2) run run_failed [OF assms(1)] show ?thesis by (auto simp: listManagedLines_def)
  next
    case (Inr out)
    note l = listed_run [OF assms(1) run [unfolded Inr]]
    have "\<not> ufwInactive out \<Longrightarrow> parseUfwStatus pre out = numbered pre 1 (kept_rows s)"
      using read_rows(1) [OF l(2) _ assms(1)] texts [OF assms(1)] by blast
    with assms(2) run Inr l(1) show ?thesis by (auto simp: listManagedLines_def split: if_splits)
  qed
qed

lemma delete_first_run:
  assumes "fine s" and "delete_first u fits s = (e, s')"
  shows "fine s' \<and> host_rows pre (kept_rows s') = host_rows pre (kept_rows s) \<and>
    ufw_store pre (kept_rows s') = (if e = None then drop_first fits (ufw_store pre (kept_rows s)) else ufw_store pre (kept_rows s))"
proof -
  consider (refused) "e \<noteq> None" "same_rows s s'" |
    (held) s1 where "same_rows s s1" "(case listManagedLines u s1 of (Inl e, s2) \<Rightarrow> (Some e, s2)
      | (Inr ls, s2) \<Rightarrow> (case find (\<lambda>(n, r). fits r) ls of None \<Rightarrow> (None, s2) | Some (n, r) \<Rightarrow> deleteNumber u n s2)) = (e, s')"
    using locked [OF assms(1) assms(2) [unfolded delete_first_def]] by blast
  then show ?thesis
  proof cases
    case refused
    then show ?thesis by auto
  next
    case held
    obtain x s2 where l: "listManagedLines u s1 = (x, s2)" by (cases "listManagedLines u s1")
    have r: "same_rows s s2" "\<And>ls. x = Inr ls \<Longrightarrow> ls = numbered pre 1 (kept_rows s)"
      using lines_run [OF _ l] held(1) by auto
    show ?thesis
    proof (cases x)
      case (Inl f)
      then have "e = Some f \<and> s' = s2" using held(2) l by simp
      then show ?thesis using r(1) by simp
    next
      case (Inr ls)
      note ls = r(2) [OF Inr]
      show ?thesis
      proof (cases "find (\<lambda>(n, r). fits r) ls")
        case None
        then have "e = None \<and> s' = s2" using held(2) l Inr by simp
        then show ?thesis using r(1) none_fits [OF None [unfolded ls]] by simp
      next
        case (Some nr)
        then obtain n q where found: "find (\<lambda>(n, r). fits r) ls = Some (n, q)" by (cases nr) simp
        have del: "deleteNumber u n s2 = (e, s')" using held(2) l Inr found by simp
      from delete_found [OF found [unfolded ls]] obtain k where k: "k < length (kept_rows s)" "n = int (Suc k)"
        "ufw_store pre (delete_row k (kept_rows s)) = drop_first fits (ufw_store pre (kept_rows s))"
        "host_rows pre (delete_row k (kept_rows s)) = host_rows pre (kept_rows s)" by auto
      obtain y s3 where run: "ufw_run u [''--force'', ''delete'', itoa n] s2 = (y, s3)" by (cases "ufw_run u [''--force'', ''delete'', itoa n] s2")
      show ?thesis
      proof (cases y)
        case (Inl f)
        then show ?thesis using del run run_failed [of s2 _ f s3] r(1) by (auto simp: deleteNumber_def)
      next
        case (Inr out)
        from deleted [of "us_host s2" k out "us_host s3"] run_done [OF run [unfolded Inr]] k(1,2) r(1)
        have "fine s3 \<and> kept_rows s3 = delete_row k (kept_rows s)" by simp
        then show ?thesis using del run Inr k(3,4) by (simp add: deleteNumber_def)
      qed
      qed
    qed
  qed
qed

lemma listed:
  assumes "fine s" and "ufw_listed u fits s = (x, s')"
  shows "same_rows s s' \<and> (\<forall>rs. x = Inr rs \<longrightarrow> rs = filter fits (ufw_store pre (kept_rows s)))"
proof -
  consider (refused) f where "x = Inl f" "same_rows s s'" |
    (held) s1 where "same_rows s s1" "(case listManagedLines u s1 of (Inl e, s2) \<Rightarrow> (Inl e, s2)
      | (Inr ls, s2) \<Rightarrow> (Inr (filter fits (map snd ls)), s2)) = (x, s')"
    using locked [OF assms(1) assms(2) [unfolded ufw_listed_def]] by blast
  then show ?thesis
  proof cases
    case refused
    then show ?thesis by simp
  next
    case held
    obtain y s2 where l: "listManagedLines u s1 = (y, s2)" by (cases "listManagedLines u s1")
    have "same_rows s s2" "\<And>ls. y = Inr ls \<Longrightarrow> ls = numbered pre 1 (kept_rows s)" using lines_run [OF _ l] held(1) by auto
    then show ?thesis using held(2) l numbered_store [of pre 1 "kept_rows s"] by (auto split: sum.splits)
  qed
qed

lemma ensured:
  assumes "fine s" and "ufw_EnsureBase u s = (e, s')"
  shows "same_rows s s'"
proof -
  have "same_rows s1 s2" if "fine s1" "ufw_run u [''status''] s1 = (x, s2)" for s1 x s2
    using that run_failed [OF that(1)] run_done [of "[''status'']" s1 _ s2] status [OF that(1)] by (cases x) (auto 0 4)
  then show ?thesis using locked [OF assms(1) assms(2) [unfolded ufw_EnsureBase_def]]
    by (fastforce split: sum.splits prod.splits)
qed

lemma managed_allow:
  assumes "allow_rule ip port proto (commentFor pre user grp) row" and "checkRule ip port proto = None"
  shows "\<exists>src. same_source src ip \<and> (CanonicalIP ip = ip \<longrightarrow> src = ip) \<and>
    managed pre row = Some (ufw_rule pre (commentFor pre user grp) src port proto)"
proof -
  obtain src where p: "plain (fst row) port proto ''ALLOW'' src" "same_source src ip" "CanonicalIP ip = ip \<longrightarrow> src = ip"
    and c: "snd row = commentFor pre user grp" using assms(1) by (auto simp: allow_rule_def)
  have "parse_int64 (itoa port) = Some port" using assms(2) by (intro parse_int64_itoa) (auto simp: checkRule_None)
  then have "managed pre row = Some (ufw_rule pre (commentFor pre user grp) src port proto)"
    using plain_scans(2) [OF p(1)] c by (cases row) (simp add: managed_def)
  with p show ?thesis by blast
qed

lemma body_match:
  assumes "ufwMatchRe b = Some (n, pr, act, src)" and "ufwBodyRe b = Some (n', pr', src')"
  shows "n' = n \<and> pr' = pr \<and> src' = src"
proof -
  obtain a where h: "re_head b = Some (n', pr', a)" "Option.bind (Option.bind (literal ''ALLOW'' a) some_spaces) (\<lambda>b.
      Option.bind (Option.bind (literal ''IN'' b) some_spaces) (\<lambda>src.
        if non_space src = [] then None else Some (n', pr', non_space src))) = Some (n', pr', src')"
    using assms(2) by (auto simp: ufwBodyRe_def split: bind_splits if_splits)
  then obtain c d e where l: "literal ''ALLOW'' a = Some c" "some_spaces c = Some d" "Option.bind (literal ''IN'' d) some_spaces = Some e"
      "src' = non_space e" by (auto split: bind_splits if_splits)
  have a: "a = ''ALLOW'' @ c" using l(1) by (auto simp: literal_def has_prefix_iff split: if_splits)
  have "c = [] \<or> re_space (hd c)" using l(2) by (auto simp: some_spaces_def split: if_splits)
  then have "non_space a = ''ALLOW''" unfolding non_space_def a by (intro span_until) (auto simp: re_space_def)
  moreover have "drop (length ''ALLOW'') a = c" by (simp add: a)
  ultimately show ?thesis using assms(1) h(1) l by (auto simp: ufwMatchRe_def Let_def split: bind_splits if_splits)
qed

lemma hit_managed:
  assumes "hits ip port proto row" and "checkRule ip port proto = None" and "host_row pre ip port proto row = None"
  shows "\<exists>r. managed pre row = Some r \<and> r_port r = port \<and> r_proto r = proto \<and> same_source (r_ip r) ip"
proof -
  obtain action src where p: "plain (fst row) port proto action src" "same_source src ip" using assms(1) by (auto simp: hits_def)
  note m = plain_scans(1) [OF p(1)]
  have b: "has_prefix (pre @ '':'') (snd row) \<and> ufwBodyRe (fst row) \<noteq> None"
    using assms(3) m p(2) by (cases row) (auto simp: host_row_def same_source_def split: if_splits)
  then obtain n pr ip' where re: "ufwBodyRe (fst row) = Some (n, pr, ip')" by auto
  moreover have "n = itoa port \<and> pr = proto \<and> ip' = src" using body_match [OF m re] by simp
  moreover have "parse_int64 (itoa port) = Some port" using assms(2) by (intro parse_int64_itoa) (auto simp: checkRule_None)
  ultimately show ?thesis using b p(2) by (cases row) (simp add: managed_def ufw_rule_def split: prod.splits)
qed

text \<open>What \<open>ufw allow\<close> does once no rule of the host has the match: a rule with the match is one of ours.\<close>

lemma allow_effect:
  assumes "ufw_allows ip port proto (commentFor pre user grp) rs rs'" and "checkRule ip port proto = None"
    and "host_action pre rs (ip, port, proto) = None"
  shows "\<exists>r xs old ys. ufw_store pre rs = xs @ old @ ys \<and> ufw_store pre rs' = xs @ r # ys \<and> length old \<le> 1 \<and>
      r_port r = port \<and> r_proto r = proto \<and> r_comment r = commentFor pre user grp \<and> same_source (r_ip r) ip \<and>
      (r_user r, r_group r) = splitComment pre (commentFor pre user grp) \<and> (CanonicalIP ip = ip \<longrightarrow> r_ip r = ip) \<and>
      (CanonicalIP ip = ip \<longrightarrow> r = ufw_rule pre (commentFor pre user grp) ip port proto) \<and>
      (\<forall>q \<in> set old. r_port q = port \<and> r_proto q = proto \<and> same_source (r_ip q) ip)"
    and "host_rows pre rs' = host_rows pre rs"
proof -
  have none: "host_row pre ip port proto row = None" if "row \<in> set rs" for row
  proof -
    have "first_some f qs = None \<Longrightarrow> \<forall>q \<in> set qs. f q = None" for f :: "ufw_row \<Rightarrow> string option" and qs
      by (induction qs) (auto split: option.splits)
    then show ?thesis using that assms(3) by (auto simp: host_action_def)
  qed
  obtain row where row: "allow_rule ip port proto (commentFor pre user grp) row"
    and cases: "(\<exists>xs old ys. rs = xs @ old # ys \<and> hits ip port proto old \<and> rs' = xs @ row # ys) \<or> (\<exists>xs ys. rs = xs @ ys \<and> rs' = xs @ row # ys)"
    using assms(1) unfolding ufw_allows_def by blast
  obtain src where src: "same_source src ip" "CanonicalIP ip = ip \<longrightarrow> src = ip"
    "managed pre row = Some (ufw_rule pre (commentFor pre user grp) src port proto)" using managed_allow [OF row assms(2)] by blast
  let ?r = "ufw_rule pre (commentFor pre user grp) src port proto"
  have "\<exists>xs old ys. rs = xs @ old @ ys \<and> rs' = xs @ row # ys \<and> length old \<le> 1 \<and>
      (\<forall>q \<in> set old. \<exists>r. managed pre q = Some r \<and> r_port r = port \<and> r_proto r = proto \<and> same_source (r_ip r) ip)"
    using cases
  proof (elim disjE exE conjE)
    fix xs old ys assume e: "rs = xs @ old # ys" "hits ip port proto old" "rs' = xs @ row # ys"
    then have "\<exists>r. managed pre old = Some r \<and> r_port r = port \<and> r_proto r = proto \<and> same_source (r_ip r) ip"
      using hit_managed [OF e(2) assms(2)] none by simp
    with e show ?thesis by (intro exI [of _ xs] exI [of _ "[old]"] exI [of _ ys]) simp
  next
    fix xs ys assume "rs = xs @ ys" "rs' = xs @ row # ys"
    then show ?thesis by (intro exI [of _ xs] exI [of _ "[]"] exI [of _ ys]) simp
  qed
  then obtain xs old ys where e: "rs = xs @ old @ ys" "rs' = xs @ row # ys" "length old \<le> 1"
    "\<forall>q \<in> set old. \<exists>r. managed pre q = Some r \<and> r_port r = port \<and> r_proto r = proto \<and> same_source (r_ip r) ip" by blast
  show "host_rows pre rs' = host_rows pre rs" using e(4) src(3) by (auto simp: e(1,2) host_rows_def filter_empty_conv)
  have "length (ufw_store pre old) \<le> 1" using e(3) by (cases old) (auto simp: ufw_store_def List.map_filter_simps split: option.splits)
  moreover have "ufw_store pre rs = ufw_store pre xs @ ufw_store pre old @ ufw_store pre ys" "ufw_store pre rs' = ufw_store pre xs @ ?r # ufw_store pre ys"
    using src(3) by (simp_all add: e(1,2) ufw_store_def map_filter_append List.map_filter_simps)
  moreover have "\<forall>q \<in> set (ufw_store pre old). r_port q = port \<and> r_proto q = proto \<and> same_source (r_ip q) ip"
    using e(4) by (fastforce simp: ufw_store_def List.map_filter_def)
  ultimately show "\<exists>r xs old ys. ufw_store pre rs = xs @ old @ ys \<and> ufw_store pre rs' = xs @ r # ys \<and> length old \<le> 1 \<and>
      r_port r = port \<and> r_proto r = proto \<and> r_comment r = commentFor pre user grp \<and> same_source (r_ip r) ip \<and>
      (r_user r, r_group r) = splitComment pre (commentFor pre user grp) \<and> (CanonicalIP ip = ip \<longrightarrow> r_ip r = ip) \<and>
      (CanonicalIP ip = ip \<longrightarrow> r = ufw_rule pre (commentFor pre user grp) ip port proto) \<and>
      (\<forall>q \<in> set old. r_port q = port \<and> r_proto q = proto \<and> same_source (r_ip q) ip)"
    using src(1,2) by (intro exI [of _ ?r] exI [of _ "ufw_store pre xs"] exI [of _ "ufw_store pre old"] exI [of _ "ufw_store pre ys"])
      (auto simp: ufw_rule_def split: prod.splits)
qed

lemma add_run:
  assumes "fine s" and "clean_comment (commentFor pre user grp)" and "ufw_AddRule u ip port user proto grp s = (e, s')"
  shows "fine s'"
    and "e = None \<Longrightarrow> checkRule ip port proto = None \<and> host_action pre (kept_rows s) (ip, port, proto) = None \<and>
      ufw_allows ip port proto (commentFor pre user grp) (kept_rows s) (kept_rows s')"
    and "e \<noteq> None \<Longrightarrow> kept_rows s' = kept_rows s"
    and "Option.bind e host_rule = Some a \<Longrightarrow> host_action pre (kept_rows s) (ip, port, proto) = Some a"
proof -
  let ?c = "commentFor pre user grp"
  let ?ends = "fine s' \<and> (case e of
      None \<Rightarrow> checkRule ip port proto = None \<and> host_action pre (kept_rows s) (ip, port, proto) = None \<and> ufw_allows ip port proto ?c (kept_rows s) (kept_rows s')
    | Some x \<Rightarrow> kept_rows s' = kept_rows s \<and> (\<forall>a. host_rule x = Some a \<longrightarrow> host_action pre (kept_rows s) (ip, port, proto) = Some a))"
  consider (refused) m x where "e = Some (Wrapped m (Opaque x))" "same_rows s s'" |
    (held) s1 where "same_rows s s1" "(case checkRule ip port proto of
      Some e \<Rightarrow> (Some e, s1)
    | None \<Rightarrow> (case ufw_run u [''status'', ''numbered''] s1 of
        (Inl e, s1) \<Rightarrow> (Some e, s1)
      | (Inr out, s1) \<Rightarrow>
          if ufwInactive out then (Some ErrInactive, s1)
          else (case hostRuleFor out (uw_prefix u) ip port proto of
              Some action \<Rightarrow> (Some (HostRuleError action),
                s1\<lparr>us_warnedHost := List.insert (host_key ip port proto) (us_warnedHost s1)\<rparr>)
            | None \<Rightarrow> (case ufw_run u (allow_args ip port proto ?c) s1 of
                (Inl e, s2) \<Rightarrow> (Some e, s2) | (Inr _, s2) \<Rightarrow> (None, s2))))) = (e, s')"
    using locked [OF assms(1) assms(3) [unfolded ufw_AddRule_def]] by blast
  then have ends: ?ends
  proof cases
    case refused
    then show ?thesis by simp
  next
    case held
    show ?thesis
    proof (cases "checkRule ip port proto")
      case (Some x)
      then have "host_rule x = None" by (auto simp: checkRule_def split: if_splits)
      moreover have "e = Some x \<and> s' = s1" using Some held(2) by simp
      ultimately show ?thesis using held(1) by simp
    next
      case check: None
      obtain y s2 where run: "ufw_run u [''status'', ''numbered''] s1 = (y, s2)" by (cases "ufw_run u [''status'', ''numbered''] s1")
      show ?thesis
      proof (cases y)
        case (Inl f)
        then show ?thesis using held check run run_failed [of s1 _ f s2] by auto
      next
        case (Inr out)
        have l: "same_rows s s2" "\<not> ufwInactive out \<Longrightarrow> shows_ufw out (kept_rows s)"
          using listed_run [OF _ run [unfolded Inr]] held(1) by auto
        show ?thesis
        proof (cases "ufwInactive out")
          case True
          then show ?thesis using held(2) check run Inr l(1) by auto
        next
          case False
          have h: "hostRuleFor out pre ip port proto = host_action pre (kept_rows s) (ip, port, proto)"
            using read_rows(2) [OF l(2) [OF False] _ assms(1)] texts [OF assms(1)] check by (auto simp: checkRule_None)
          show ?thesis
          proof (cases "host_action pre (kept_rows s) (ip, port, proto)")
            case (Some action)
            then show ?thesis using held(2) check run Inr l(1) False h by auto
          next
            case None
            obtain z s3 where add: "ufw_run u (allow_args ip port proto ?c) s2 = (z, s3)" by (cases "ufw_run u (allow_args ip port proto ?c) s2")
            show ?thesis
            proof (cases z)
              case (Inl f)
              then show ?thesis using held(2) check run Inr l(1) False h None add run_failed [of s2 _ f s3] by auto
            next
              case z: (Inr o')
              note allowed [OF _ check assms(2) run_done [OF add [unfolded z]]]
              then show ?thesis using held(2) check run Inr l(1) False h None add z by auto
            qed
          qed
        qed
      qed
    qed
  qed
  show "fine s'" using ends by simp
  show "e = None \<Longrightarrow> checkRule ip port proto = None \<and> host_action pre (kept_rows s) (ip, port, proto) = None \<and>
      ufw_allows ip port proto ?c (kept_rows s) (kept_rows s')" using ends by simp
  show "e \<noteq> None \<Longrightarrow> kept_rows s' = kept_rows s" using ends by auto
  show "Option.bind e host_rule = Some a \<Longrightarrow> host_action pre (kept_rows s) (ip, port, proto) = Some a" using ends by (cases e) auto
qed

lemma add_keeps_host:
  assumes "fine s" and "clean_comment (commentFor pre user grp)" and "ufw_AddRule u ip port user proto grp s = (e, s')"
  shows "fine s' \<and> host_rows pre (kept_rows s') = host_rows pre (kept_rows s)"
  using add_run [OF assms] allow_effect(2) by (cases e) auto

end

text \<open>The backend is a rule store while the handles of its rules are different.\<close>

sublocale ufw_tool \<subseteq> ufws: rule_store "ufw_backend u" "uw_prefix u" "\<lambda>s. ufw_store (uw_prefix u) (rows (us_host s))"
  "\<lambda>s. host_action (uw_prefix u) (rows (us_host s))"
  "\<lambda>s. ok (us_host s) \<and> distinct (map r_handle (ufw_store (uw_prefix u) (rows (us_host s))))"
proof (unfold_locales, goal_cases)
  case (1 s)
  have "wf_rule pre r" if "managed pre row = Some r" for row r
    using that by (cases row) (auto simp: managed_def wf_rule_def ufw_rule_def split: if_splits bind_splits prod.splits)
  then have "\<forall>r \<in> set (ufw_store pre (kept_rows s)). wf_rule pre r" by (auto simp: ufw_store_def List.map_filter_def)
  with 1 show ?case by (simp add: wf_store_def)
next
  case (2 s eo s')
  then show ?case using ensured [of s eo s'] by simp
next
  case (3 s r s')
  then show ?case using listed [of s "\<lambda>_. True" r s'] by (simp add: ufw_ListManaged_def)
next
  case (4 s u' r s')
  then show ?case using listed [of s _ r s'] by (simp add: ufw_ListUserRules_def)
next
  case (5 s h s')
  then have d: "delete_first u (\<lambda>r. r_handle r = h) s = (None, s')" by (simp add: ufw_DeleteByHandle_def)
  with 5 delete_first_run [OF _ d] show ?case
    using drop_first_by_handle [of r_handle "ufw_store pre (kept_rows s)" h]
      distinct_map_drop_first [of r_handle "ufw_store pre (kept_rows s)" "\<lambda>r. r_handle r = h"]
    by (simp add: host_action_rows [of pre "kept_rows s'" "kept_rows s"])
next
  case (6 s h e s')
  then have d: "delete_first u (\<lambda>r. r_handle r = h) s = (Some e, s')" by (simp add: ufw_DeleteByHandle_def)
  with 6 delete_first_run [OF _ d] show ?case by (simp add: host_action_rows [of pre "kept_rows s'" "kept_rows s"])
next
  case (7 s ip port us pr g s')
  then have d: "delete_first u (remove_matches pre ip port us pr g) s = (None, s')" by (simp add: ufw_RemoveRule_def)
  with 7 delete_first_run [OF _ d] show ?case
    by (simp add: host_action_rows [of pre "kept_rows s'" "kept_rows s"] distinct_map_drop_first)
next
  case (8 s ip port us pr g e s')
  then have d: "delete_first u (remove_matches pre ip port us pr g) s = (Some e, s')" by (simp add: ufw_RemoveRule_def)
  with 8 delete_first_run [OF _ d] show ?case by (simp add: host_action_rows [of pre "kept_rows s'" "kept_rows s"])
next
  case (9 s f ports eo s')
  then show ?case by simp
qed

end
