(* ===== verification/UfwLaws.thy ===== *)
theory UfwLaws
  imports UfwHost ServerInv
begin

text \<open>
  What the ufw backend promises on every ufw that meets the interface \<open>ufw_tool\<close>, and a reference ufw.
\<close>

section \<open>Sequences of calls\<close>

datatype fw_call =
    CallEnsure
  | CallAdd string int string string string
  | CallRemove string int string string string
  | CallDelete int
  | CallUser string
  | CallList

definition fw_do :: "'s backend \<Rightarrow> fw_call \<Rightarrow> 's \<Rightarrow> 's" where
  "fw_do be c s = (case c of
      CallEnsure \<Rightarrow> snd (be_EnsureBase be s)
    | CallAdd ip port user proto grp \<Rightarrow> snd (be_AddRule be ip port user proto grp s)
    | CallRemove ip port user proto grp \<Rightarrow> snd (be_RemoveRule be ip port user proto grp s)
    | CallDelete h \<Rightarrow> snd (be_DeleteByHandle be h s)
    | CallUser user \<Rightarrow> snd (be_ListUserRules be user s)
    | CallList \<Rightarrow> snd (be_ListManaged be s))"

definition clean_call :: "string \<Rightarrow> fw_call \<Rightarrow> bool" where
  "clean_call prefix c = (case c of CallAdd ip port user proto grp \<Rightarrow> clean_comment (commentFor prefix user grp) | _ \<Rightarrow> True)"

context ufw_tool begin

lemma call_keeps_host:
  assumes "fine s" and "clean_call pre c"
  shows "fine (fw_do (ufw_backend u) c s) \<and> host_rows pre (kept_rows (fw_do (ufw_backend u) c s)) = host_rows pre (kept_rows s)"
proof (cases c)
  case CallEnsure
  then show ?thesis using ensured [OF assms(1), of "fst (ufw_EnsureBase u s)"] by (simp add: fw_do_def)
next
  case (CallAdd ip port user proto grp)
  then show ?thesis using add_keeps_host [OF assms(1), of user grp ip port proto "fst (ufw_AddRule u ip port user proto grp s)"] assms(2)
    by (simp add: fw_do_def clean_call_def)
next
  case (CallRemove ip port user proto grp)
  then show ?thesis using delete_first_run [OF assms(1), of "remove_matches pre ip port user proto grp" "fst (ufw_RemoveRule u ip port user proto grp s)"]
    by (simp add: fw_do_def ufw_RemoveRule_def)
next
  case (CallDelete h)
  then show ?thesis using delete_first_run [OF assms(1), of "\<lambda>r. r_handle r = h" "fst (ufw_DeleteByHandle u h s)"]
    by (simp add: fw_do_def ufw_DeleteByHandle_def)
next
  case (CallUser user)
  then show ?thesis using listed [OF assms(1), of _ "fst (ufw_ListUserRules u user s)"] by (simp add: fw_do_def ufw_ListUserRules_def)
next
  case CallList
  then show ?thesis using listed [OF assms(1), of _ "fst (ufw_ListManaged u s)"] by (simp add: fw_do_def ufw_ListManaged_def)
qed

lemma calls_keep_host:
  assumes "fine s" and "\<forall>c \<in> set calls. clean_call pre c"
  shows "fine (fold (fw_do (ufw_backend u)) calls s) \<and>
    host_rows pre (kept_rows (fold (fw_do (ufw_backend u)) calls s)) = host_rows pre (kept_rows s)"
  using assms
proof (induction calls arbitrary: s)
  case (Cons c calls)
  then show ?case using call_keeps_host [OF Cons.prems(1), of c] by simp
qed simp

end

section \<open>A reference ufw\<close>

text \<open>Its rules are all of the plain form; an entry of \<open>bx_faults\<close> that is true makes a run fail.\<close>

record box_rule =
  bx_port :: int
  bx_proto :: string
  bx_action :: string
  bx_src :: string
  bx_comment :: string

record box =
  bx_rules :: "box_rule list"
  bx_active :: bool
  bx_faults :: "bool list"

definition box_row :: "box_rule \<Rightarrow> ufw_row" where
  "box_row r = (itoa (bx_port r) @ ''/'' @ bx_proto r @ blanks 20 @ bx_action r @ '' IN'' @ blanks 4 @ bx_src r, bx_comment r)"

definition box_rows :: "box \<Rightarrow> ufw_row list" where
  "box_rows b = map box_row (bx_rules b)"

definition box_line :: "nat \<Rightarrow> ufw_row \<Rightarrow> string" where
  "box_line n row = ''['' @ blanks 1 @ dec_str n @ ''] '' @ row_text 12 row"

definition box_listing :: "box \<Rightarrow> string" where
  "box_listing b = (if \<not> bx_active b then ''Status: inactive'' @ [CHR 10]
     else join [CHR 10] ([''Status: active'', [], ''     To                         Action      From''] @
       map2 box_line [1..<Suc (length (bx_rules b))] (box_rows b) @ [[], []]))"

definition box_hit :: "string \<Rightarrow> int \<Rightarrow> string \<Rightarrow> box_rule \<Rightarrow> bool" where
  "box_hit ip port proto r \<longleftrightarrow> bx_port r = port \<and> bx_proto r = proto \<and> same_source (bx_src r) ip"

fun put_rule :: "(box_rule \<Rightarrow> bool) \<Rightarrow> box_rule \<Rightarrow> box_rule list \<Rightarrow> box_rule list" where
  "put_rule hit r [] = [r]"
| "put_rule hit r (q # qs) = (if hit q then r # qs else q # put_rule hit r qs)"

definition box_allow :: "string \<Rightarrow> int \<Rightarrow> string \<Rightarrow> string \<Rightarrow> box \<Rightarrow> box" where
  "box_allow ip port proto c b = b\<lparr>bx_rules := put_rule (box_hit ip port proto)
     \<lparr>bx_port = port, bx_proto = proto, bx_action = ''ALLOW'', bx_src = ip, bx_comment = c\<rparr> (bx_rules b)\<rparr>"

definition box_command :: "string list \<Rightarrow> box \<Rightarrow> (string \<times> box) option" where
  "box_command args b =
     (if args = [''status''] \<or> args = [''status'', ''numbered''] then Some (box_listing b, b)
      else if length args = 3 \<and> take 2 args = [''--force'', ''delete'']
      then (case parse_int64 (args ! 2) of None \<Rightarrow> None | Some n \<Rightarrow>
        if n < 1 \<or> int (length (bx_rules b)) < n then None
        else Some (''Rule deleted'', b\<lparr>bx_rules := delete_row (nat (n - 1)) (bx_rules b)\<rparr>))
      else if length args = 11
      then (case parse_int64 (args ! 6) of None \<Rightarrow> None | Some port \<Rightarrow>
        if args \<noteq> allow_args (args ! 2) port (args ! 8) (args ! 10) \<or> checkRule (args ! 2) port (args ! 8) \<noteq> None \<or>
           \<not> clean_comment (args ! 10) \<or> 1000 \<le> length (bx_rules b) \<or> \<not> list_all addr_char (args ! 2) then None
        else Some (''Rule added'', box_allow (args ! 2) port (args ! 8) (args ! 10) b))
      else None)"

definition box_exec :: "string list \<Rightarrow> box \<Rightarrow> string proc \<times> box" where
  "box_exec args b = (let b1 = b\<lparr>bx_faults := tl (bx_faults b)\<rparr> in
     if bx_faults b \<noteq> [] \<and> hd (bx_faults b) then (Failed ''exit status 1'' ''ERROR'', b1)
     else (case box_command args b1 of None \<Rightarrow> (Failed ''exit status 1'' ''ERROR'', b1) | Some (out, b2) \<Rightarrow> (Done out, b2)))"

definition box_ufw :: "string \<Rightarrow> box ufw" where
  "box_ufw prefix = \<lparr>uw_prefix = prefix, uw_flock = (\<lambda>b. (None, b)), uw_exec = box_exec\<rparr>"

definition box_rule_ok :: "box_rule \<Rightarrow> bool" where
  "box_rule_ok r \<longleftrightarrow> 0 \<le> bx_port r \<and> bx_proto r \<in> {''tcp'', ''udp''} \<and> bx_action r \<in> {''ALLOW'', ''DENY'', ''REJECT'', ''LIMIT''} \<and>
     bx_src r \<noteq> [] \<and> list_all addr_char (bx_src r) \<and> (bx_comment r = [] \<or> clean_comment (bx_comment r))"

definition box_ok :: "box \<Rightarrow> bool" where
  "box_ok b \<longleftrightarrow> list_all box_rule_ok (bx_rules b) \<and> length (bx_rules b) \<le> 1000"

section \<open>It meets the interface\<close>

lemma addr_char_plain: "addr_char c \<Longrightarrow> \<not> re_space c \<and> c \<noteq> CHR ''#'' \<and> c \<noteq> CHR 10"
  by (auto simp: addr_char_def re_space_def is_hex_def is_digit_def)

lemma box_row_plain:
  assumes "box_rule_ok r"
  shows "plain (fst (box_row r)) (bx_port r) (bx_proto r) (bx_action r) (bx_src r)"
  unfolding plain_def box_row_def fst_conv using assms addr_char_plain
  by (intro exI [of _ "[]"] exI [of _ 19] exI [of _ 3])
    (auto simp: v6_tag_def log_tag_def box_rule_ok_def list_all_iff blanks_def numeral_eq_Suc)

lemma box_row_wf:
  assumes "box_rule_ok r"
  shows "wf_row (box_row r)"
proof -
  let ?b = "itoa (bx_port r) @ ''/'' @ bx_proto r @ blanks 20 @ bx_action r @ '' IN'' @ blanks 4 @ bx_src r"
  have i: "itoa (bx_port r) = dec_str (nat (bx_port r))" using assms by (simp add: box_rule_ok_def itoa_def)
  have d: "c \<in> set (dec_str n) \<Longrightarrow> is_digit c" for c n using dec_str_digits [of n] by (simp add: list_all_iff)
  have nd: "CHR ''#'' \<notin> set (dec_str n)" "CHR 10 \<notin> set (dec_str n)" for n
    using d [of "CHR ''#''" n] d [of "CHR 10" n] by (auto simp: is_digit_def)
  have src: "c \<in> set (bx_src r) \<Longrightarrow> \<not> re_space c \<and> c \<noteq> CHR ''#'' \<and> c \<noteq> CHR 10" for c
    using assms addr_char_plain by (simp add: box_rule_ok_def list_all_iff)
  have s: "bx_src r \<noteq> []" using assms by (simp add: box_rule_ok_def)
  have "is_digit (hd ?b)" using d [OF hd_in_set [OF dec_str_nonempty]] by (simp add: i hd_append)
  then have "\<not> re_space (hd ?b)" by (auto simp: re_space_def is_digit_def)
  moreover have "last ?b = last (bx_src r)" using s by simp
  then have "\<not> re_space (last ?b)" using src [of "last (bx_src r)"] s by simp
  moreover have "CHR ''#'' \<notin> set ?b" "CHR 10 \<notin> set ?b"
    using assms src nd by (auto simp: i box_rule_ok_def blanks_def)
  moreover have "CHR 10 \<notin> set (bx_comment r) \<and> trim_space (bx_comment r) = bx_comment r \<and> (bx_comment r \<noteq> [] \<longrightarrow> \<not> re_space (last (bx_comment r)))"
  proof (cases "bx_comment r = []")
    case True
    then show ?thesis by (simp add: trim_space_digits)
  next
    case False
    then have c: "list_all (\<lambda>x. 32 < byte x \<and> byte x < 128) (bx_comment r)" using assms by (auto simp: box_rule_ok_def clean_comment_def)
    have "trim_space (bx_comment r) = bx_comment r" by (rule trim_space_id [OF _ c]) (simp add: space_codes_def)
    moreover have "32 < byte (last (bx_comment r))" using c False by (simp add: list_all_iff)
    ultimately show ?thesis using c by (auto simp: list_all_iff re_space_def)
  qed
  ultimately show ?thesis using s by (simp add: wf_row_def box_row_def)
qed

lemma box_texts: "box_ok b \<Longrightarrow> row \<in> set (box_rows b) \<Longrightarrow> wf_row row"
  using box_row_wf by (auto simp: box_ok_def box_rows_def list_all_iff)

lemma box_line_shows: "shows_line n row (box_line n row)"
  by (auto simp: shows_line_def box_line_def)

lemma box_line_chars:
  assumes "wf_row row"
  shows "CHR 10 \<notin> set (box_line n row)"
proof -
  have "CHR 10 \<notin> set (dec_str n)" using dec_str_digits [of n] by (auto simp: list_all_iff is_digit_def)
  then show ?thesis using assms by (cases row) (auto simp: box_line_def row_text_def wf_row_def blanks_def)
qed

lemma box_shows_lines: "shows_lines n rows (map2 box_line [n..<n + length rows] rows @ [[], []])"
  by (induction rows arbitrary: n) (simp_all add: upt_conv_Cons box_line_shows del: upt_Suc, metis Suc_eq_plus1 add_Suc add_Suc_right)

lemma box_listing_shows:
  assumes "box_ok b" and "bx_active b"
  shows "shows_ufw (box_listing b) (box_rows b)"
proof -
  let ?heads = "[''Status: active'', [], ''     To                         Action      From'']"
  let ?ls = "map2 box_line [1..<Suc (length (bx_rules b))] (box_rows b) @ [[], []]"
  have "\<forall>l \<in> set (?heads @ ?ls). CHR 10 \<notin> set l"
    using box_line_chars box_texts [OF assms(1)] by (auto dest: set_zip_rightD)
  then have "split_on (CHR 10) (box_listing b) = ?heads @ ?ls" unfolding box_listing_def if_not_P [OF assms(2) [THEN not_not [THEN iffD2]]]
    if_P using assms(2) by (subst split_on_join) simp_all
  moreover have "shows_lines 1 (box_rows b) ?ls" using box_shows_lines [of 1 "box_rows b"] by (simp add: box_rows_def)
  moreover have "has_prefix ''Status: active'' (box_listing b)" using assms(2) by (simp add: box_listing_def)
  ultimately show ?thesis unfolding shows_ufw_def by (intro conjI exI [of _ ?heads] exI [of _ ?ls]) simp_all
qed

lemma delete_row_map: "delete_row k (map f xs) = map f (delete_row k xs)"
  by (simp add: delete_row_def take_map drop_map)

lemma set_delete_row: "set (delete_row k xs) \<subseteq> set xs"
  by (auto simp: delete_row_def dest: in_set_takeD in_set_dropD)

lemma put_rule_cases:
  "(\<exists>xs q ys. qs = xs @ q # ys \<and> hit q \<and> put_rule hit r qs = xs @ r # ys) \<or> (\<forall>q \<in> set qs. \<not> hit q) \<and> put_rule hit r qs = qs @ [r]"
proof (induction qs)
  case (Cons q qs)
  show ?case
  proof (cases "hit q")
    case True
    then show ?thesis by (intro disjI1 exI [of _ "[]"]) simp
  next
    case False
    from Cons show ?thesis
    proof (elim disjE exE conjE)
      fix xs p ys assume e: "qs = xs @ p # ys" "hit p" "put_rule hit r qs = xs @ r # ys"
      then show ?thesis using False by (intro disjI1 exI [of _ "q # xs"] exI [of _ p] exI [of _ ys]) simp
    next
      assume "\<forall>q \<in> set qs. \<not> hit q" "put_rule hit r qs = qs @ [r]"
      then show ?thesis using False by simp
    qed
  qed
qed simp

lemma box_hits:
  assumes "box_rule_ok q"
  shows "hits ip port proto (box_row q) \<longleftrightarrow> box_hit ip port proto q"
proof
  note p = box_row_plain [OF assms]
  show "box_hit ip port proto q \<Longrightarrow> hits ip port proto (box_row q)" using p by (auto simp: box_hit_def hits_def)
  assume "hits ip port proto (box_row q)"
  then obtain action src where h: "plain (fst (box_row q)) port proto action src" "same_source src ip" by (auto simp: hits_def)
  from plain_scans(1) [OF h(1)] plain_scans(1) [OF p] show "box_hit ip port proto q" using h(2) by (auto simp: box_hit_def itoa_inj)
qed

lemma box_allow_ok:
  assumes "box_ok b" and "checkRule ip port proto = None" and "clean_comment c" and "list_all addr_char ip"
  shows "ufw_allows ip port proto c (box_rows b) (box_rows (box_allow ip port proto c b))"
    and "length (bx_rules b) < 1000 \<Longrightarrow> box_ok (box_allow ip port proto c b)"
proof -
  let ?r = "\<lparr>bx_port = port, bx_proto = proto, bx_action = ''ALLOW'', bx_src = ip, bx_comment = c\<rparr>"
  let ?qs = "put_rule (box_hit ip port proto) ?r (bx_rules b)"
  have "ip \<noteq> []" using assms(2) by (auto simp: checkRule_None)
  then have r: "box_rule_ok ?r" using assms(2-4) by (auto simp: box_rule_ok_def checkRule_None)
  have a: "allow_rule ip port proto c (box_row ?r)"
    using box_row_plain [OF r] assms(2) by (auto simp: allow_rule_def same_source_def checkRule_None box_row_def)
  have ok: "\<forall>q \<in> set (bx_rules b). box_rule_ok q" using assms(1) by (simp add: box_ok_def list_all_iff)
  from put_rule_cases [of "bx_rules b" "box_hit ip port proto" ?r]
  have "((\<exists>xs old ys. box_rows b = xs @ old # ys \<and> hits ip port proto old \<and> map box_row ?qs = xs @ box_row ?r # ys) \<or>
      (\<forall>row \<in> set (box_rows b). \<not> hits ip port proto row) \<and> (\<exists>xs ys. box_rows b = xs @ ys \<and> map box_row ?qs = xs @ box_row ?r # ys)) \<and>
      length ?qs \<le> Suc (length (bx_rules b)) \<and> (\<forall>q \<in> set ?qs. box_rule_ok q)"
  proof (elim disjE exE conjE)
    fix xs q ys assume e: "bx_rules b = xs @ q # ys" "box_hit ip port proto q" "?qs = xs @ ?r # ys"
    have "length ?qs \<le> Suc (length (bx_rules b)) \<and> (\<forall>q \<in> set ?qs. box_rule_ok q)" unfolding e(3) using e(1) ok r by auto
    moreover have "box_rows b = map box_row xs @ box_row q # map box_row ys" by (simp add: box_rows_def e(1))
    moreover have "hits ip port proto (box_row q)" using e(1,2) ok box_hits [of q] by simp
    moreover have "map box_row ?qs = map box_row xs @ box_row ?r # map box_row ys" unfolding e(3) by simp
    ultimately show ?thesis by blast
  next
    assume e: "\<forall>q \<in> set (bx_rules b). \<not> box_hit ip port proto q" "?qs = bx_rules b @ [?r]"
    then have "length ?qs \<le> Suc (length (bx_rules b)) \<and> (\<forall>q \<in> set ?qs. box_rule_ok q)" using ok r by auto
    moreover have "map box_row ?qs = box_rows b @ box_row ?r # []" unfolding e(2) by (simp add: box_rows_def)
    moreover have "\<forall>row \<in> set (box_rows b). \<not> hits ip port proto row" using e(1) ok box_hits by (auto simp: box_rows_def)
    ultimately show ?thesis by (intro conjI disjI2 exI [of _ "box_rows b"] exI [of _ "[]"]) simp_all
  qed
  moreover have "box_rows (box_allow ip port proto c b) = map box_row ?qs" by (simp add: box_rows_def box_allow_def)
  ultimately show "ufw_allows ip port proto c (box_rows b) (box_rows (box_allow ip port proto c b))"
      "length (bx_rules b) < 1000 \<Longrightarrow> box_ok (box_allow ip port proto c b)"
    unfolding ufw_allows_def using a by (metis, auto simp: box_allow_def box_ok_def list_all_iff)
qed

lemma box_command_cases:
  assumes "box_command args b = Some (out, b')"
  obtains (status) "args = [''status''] \<or> args = [''status'', ''numbered'']" "out = box_listing b" "b' = b"
  | (delete) n where "args = [''--force'', ''delete'', args ! 2]" "parse_int64 (args ! 2) = Some n" "1 \<le> n" "n \<le> int (length (bx_rules b))"
      "b' = b\<lparr>bx_rules := delete_row (nat (n - 1)) (bx_rules b)\<rparr>"
  | (allow) ip port proto c where "args = allow_args ip port proto c" "checkRule ip port proto = None" "clean_comment c"
      "length (bx_rules b) < 1000" "list_all addr_char ip" "b' = box_allow ip port proto c b"
proof -
  have three: "length args = 3 \<Longrightarrow> take 2 args = [x, y] \<Longrightarrow> args = [x, y, args ! 2]" for x y :: string
    by (auto simp: length_Suc_conv numeral_3_eq_3 numeral_2_eq_2)
  consider "args = [''status''] \<or> args = [''status'', ''numbered'']"
    | "\<not> (args = [''status''] \<or> args = [''status'', ''numbered''])" "length args = 3 \<and> take 2 args = [''--force'', ''delete'']"
    | "\<not> (args = [''status''] \<or> args = [''status'', ''numbered''])" "\<not> (length args = 3 \<and> take 2 args = [''--force'', ''delete''])" by blast
  then show thesis
  proof cases
    case 1
    show thesis using assms by (intro status [OF 1]) (auto simp: box_command_def if_P [OF 1])
  next
    case 2
    have "\<exists>n. parse_int64 (args ! 2) = Some n \<and> 1 \<le> n \<and> n \<le> int (length (bx_rules b)) \<and>
        b' = b\<lparr>bx_rules := delete_row (nat (n - 1)) (bx_rules b)\<rparr>"
      using assms unfolding box_command_def if_not_P [OF 2(1)] if_P [OF 2(2)] by (simp split: option.splits if_splits)
    then show thesis using three [OF conjunct1 [OF 2(2)] conjunct2 [OF 2(2)]] delete by blast
  next
    case 3
    have "\<exists>port. args = allow_args (args ! 2) port (args ! 8) (args ! 10) \<and> checkRule (args ! 2) port (args ! 8) = None \<and>
        clean_comment (args ! 10) \<and> length (bx_rules b) < 1000 \<and> list_all addr_char (args ! 2) \<and>
        b' = box_allow (args ! 2) port (args ! 8) (args ! 10) b"
      using assms unfolding box_command_def if_not_P [OF 3(1)] if_not_P [OF 3(2)]
      by (simp split: option.splits if_splits) (use not_le in blast)
    then show thesis using allow by blast
  qed
qed

lemma box_exec_cases:
  assumes "box_exec args b = (x, b')"
  obtains (fails) st err where "x = Failed st err" "b' = b\<lparr>bx_faults := tl (bx_faults b)\<rparr>"
  | (runs) out where "x = Done out" "box_command args (b\<lparr>bx_faults := tl (bx_faults b)\<rparr>) = Some (out, b')"
  using assms by (auto simp: box_exec_def Let_def split: if_splits option.splits)

lemma box_faults_simps [simp]: "box_rows (b\<lparr>bx_faults := fs\<rparr>) = box_rows b" "box_ok (b\<lparr>bx_faults := fs\<rparr>) = box_ok b"
  "box_listing (b\<lparr>bx_faults := fs\<rparr>) = box_listing b"
  by (simp_all add: box_rows_def box_ok_def box_listing_def)

interpretation box: ufw_tool "box_ufw prefix" box_rows box_ok for prefix
proof (unfold_locales, goal_cases)
  case (1 h row)
  then show ?case by (rule box_texts)
next
  case (2 h)
  then show ?case by (simp add: box_ok_def box_rows_def)
next
  case (3 h e h')
  then show ?case by (simp add: box_ufw_def)
next
  case (4 h args x h')
  then have e: "box_exec args h = (x, h')" by (simp add: box_ufw_def)
  show ?case using e by (cases rule: box_exec_cases) (use 4(1,3) in simp_all)
next
  case (5 h opts out h')
  then have e: "box_exec (''status'' # opts) h = (Done out, h')" by (simp add: box_ufw_def)
  show ?case using e
  proof (cases rule: box_exec_cases)
    case (runs out')
    from runs(2) show ?thesis by (cases rule: box_command_cases) (use 5(1) in \<open>auto simp: allow_args_def\<close>)
  qed simp
next
  case (6 h out h')
  then have e: "box_exec [''status'', ''numbered''] h = (Done out, h')" by (simp add: box_ufw_def)
  show ?case using e
  proof (cases rule: box_exec_cases)
    case (runs out')
    from runs(2) have "out = box_listing h" using runs(1) by (cases rule: box_command_cases) (auto simp: allow_args_def)
    then show ?thesis using box_listing_shows [OF 6(1)] by (cases "bx_active h") (simp_all add: box_listing_def)
  qed simp
next
  case (7 h k out h')
  then have e: "box_exec [''--force'', ''delete'', itoa (int (Suc k))] h = (Done out, h')" by (simp add: box_ufw_def)
  have k: "k < length (bx_rules h)" "length (bx_rules h) \<le> 1000" using 7(1,2) by (simp_all add: box_rows_def box_ok_def)
  have p: "parse_int64 (itoa (int (Suc k))) = Some (int (Suc k))" using k by (intro parse_int64_itoa) auto
  show ?case using e
  proof (cases rule: box_exec_cases)
    case (runs out')
    from runs(2) show ?thesis
    proof (cases rule: box_command_cases)
      case (delete n)
      then have "n = int (Suc k)" using p by simp
      then have "h' = h\<lparr>bx_faults := tl (bx_faults h), bx_rules := delete_row k (bx_rules h)\<rparr>" using delete(5) by simp
      moreover have "length (delete_row k (bx_rules h)) \<le> 1000" using k by (simp add: delete_row_def)
      moreover have "list_all box_rule_ok (delete_row k (bx_rules h))" using 7(1) set_delete_row [of k "bx_rules h"] by (auto simp: box_ok_def list_all_iff)
      ultimately show ?thesis by (simp add: box_ok_def box_rows_def delete_row_map)
    qed (auto simp: allow_args_def)
  qed simp
next
  case (8 h ip port proto c out h')
  then have e: "box_exec (allow_args ip port proto c) h = (Done out, h')" by (simp add: box_ufw_def)
  show ?case using e
  proof (cases rule: box_exec_cases)
    case (runs out')
    from runs(2) show ?thesis
    proof (cases rule: box_command_cases)
      case (allow ip' port' proto' c')
      then have same: "ip' = ip" "port' = port" "proto' = proto" "c' = c" by (auto simp: allow_args_def itoa_inj)
      have "box_ok (h\<lparr>bx_faults := tl (bx_faults h)\<rparr>)" using 8(1) by simp
      note a = box_allow_ok [OF this 8(2,3)]
      show ?thesis using a allow(4-6) same by simp
    qed (auto simp: allow_args_def)
  qed simp
qed

section \<open>Host rules\<close>

text \<open>C35. No call of the ufw backend touches a rule of the host.  Over any sequence of calls, with whatever runs
  of ufw failing, the rules nft-okboy does not manage stay as they are, in their order: \<open>AddRule\<close> never lets ufw
  merge its rule into one of them, and a deletion by number never hits one.\<close>

theorem ufw_spares_host_rules:
  assumes "ufw_tool u rows ok" and "ok (us_host s)" and "\<forall>c \<in> set calls. clean_call (uw_prefix u) c"
  shows "host_rows (uw_prefix u) (rows (us_host (fold (fw_do (ufw_backend u)) calls s))) = host_rows (uw_prefix u) (rows (us_host s))"
  using ufw_tool.calls_keep_host [OF assms] by blast

definition demo_box :: box where
  "demo_box = \<lparr>bx_rules = [
       \<lparr>bx_port = 22, bx_proto = ''tcp'', bx_action = ''DENY'', bx_src = ''10.0.0.1'', bx_comment = []\<rparr>,
       \<lparr>bx_port = 80, bx_proto = ''tcp'', bx_action = ''ALLOW'', bx_src = ''10.0.0.1'', bx_comment = ''ok:bob:web''\<rparr>],
     bx_active = True, bx_faults = []\<rparr>"

definition demo_ufw_state :: "box ufw_state" where
  "demo_ufw_state = \<lparr>us_host = demo_box, us_warnedInactive = False, us_warnedHost = []\<rparr>"

lemma demo_box_ok: "box_ok (us_host demo_ufw_state)" "uw_prefix (box_ufw p) = p"
  by (simp_all add: demo_ufw_state_def demo_box_def box_ok_def box_rule_ok_def clean_comment_def addr_char_def is_hex_def is_digit_def box_ufw_def)

theorem ufw_spares_host_rules_witness:
  "let s = fold (fw_do (ufw_backend (box_ufw ''ok''))) [CallAdd ''10.0.0.1'' 22 ''ann'' ''tcp'' ''ssh'', CallDelete 5] demo_ufw_state
   in host_rows ''ok'' (box_rows (us_host s)) = host_rows ''ok'' (box_rows demo_box)"
  using ufw_spares_host_rules [OF box.ufw_tool_axioms demo_box_ok(1), of "[CallAdd ''10.0.0.1'' 22 ''ann'' ''tcp'' ''ssh'', CallDelete 5]" "''ok''"]
  by (simp add: demo_box_ok(2) clean_call_def clean_comment_def commentFor_def demo_ufw_state_def)

section \<open>Adding, listing and removing\<close>

lemma ufw_rule_key: "rule_key r = (r_ip r, r_port r, r_proto r, r_user r, r_group r)"
  by (simp add: rule_key_def)

text \<open>C36. A rule written through ufw comes back.  After a successful \<open>AddRule\<close> for a canonical address the listing is
  the old one with the new rule in it, of exactly the address, port, protocol, user and group given, in the
  place of at most one managed rule; and a successful \<open>RemoveRule\<close> with the same values takes out the first
  rule with that comment, whatever its number is by then.\<close>

theorem ufw_rule_roundtrip:
  assumes "ufw_tool u rows ok" and "ok (us_host s)" and "clean_comment (commentFor (uw_prefix u) user grp)" and "CHR '':'' \<notin> set user"
    and "CanonicalIP ip = ip"
    and "ufw_ListManaged u s = (Inr rs, s1)" and "ufw_AddRule u ip port user proto grp s1 = (None, s2)"
    and "ufw_ListManaged u s2 = (Inr rs', s3)"
    and "ufw_RemoveRule u ip port user proto grp s3 = (None, s4)" and "ufw_ListManaged u s4 = (Inr rs'', s5)"
  shows "(\<exists>xs old r ys. rs = xs @ old @ ys \<and> rs' = xs @ r # ys \<and> length old \<le> 1 \<and> rule_key r = (ip, port, proto, user, grp) \<and>
      remove_matches (uw_prefix u) ip port user proto grp r)
    \<and> rs'' = drop_first (remove_matches (uw_prefix u) ip port user proto grp) rs'"
proof -
  let ?st = "\<lambda>s. ufw_store (uw_prefix u) (rows (us_host s))"
  note l = ufw_tool.listed [OF assms(1), where fits = "\<lambda>_. True"]
  have 1: "ok (us_host s1)" "?st s1 = ?st s" "rs = ?st s" using l [OF assms(2), of "Inr rs" s1] assms(6) by (simp_all add: ufw_ListManaged_def)
  note add = ufw_tool.add_run [OF assms(1) 1(1) assms(3,7)]
  have 3: "ok (us_host s3)" "?st s3 = ?st s2" "rs' = ?st s2" using l [OF add(1), of "Inr rs'" s3] assms(8) by (simp_all add: ufw_ListManaged_def)
  from add(2) obtain r xs old ys where r: "?st s1 = xs @ old @ ys" "?st s2 = xs @ r # ys" "length old \<le> 1"
    "r_port r = port" "r_proto r = proto" "r_comment r = commentFor (uw_prefix u) user grp" "r_ip r = ip"
    "(r_user r, r_group r) = splitComment (uw_prefix u) (commentFor (uw_prefix u) user grp)"
    using ufw_tool.allow_effect(1) [OF assms(1), of ip port proto user grp "rows (us_host s1)" "rows (us_host s2)"] assms(5) by blast
  have "rule_key r = (ip, port, proto, user, grp)" "remove_matches (uw_prefix u) ip port user proto grp r"
    using r(4-8) splitComment_commentFor [OF assms(4)] by (simp_all add: ufw_rule_key remove_matches_def)
  moreover have 4: "ok (us_host s4)" "?st s4 = drop_first (remove_matches (uw_prefix u) ip port user proto grp) (?st s3)"
    using ufw_tool.delete_first_run [OF assms(1) 3(1) assms(9) [unfolded ufw_RemoveRule_def]] by simp_all
  moreover have "rs'' = ?st s4" using l [OF 4(1), of "Inr rs''" s5] assms(10) by (simp add: ufw_ListManaged_def)
  ultimately show ?thesis using r(1-3) 1 3 by metis
qed

lemma box_ufw_simps [simp]: "uw_prefix (box_ufw p) = p" "uw_flock (box_ufw p) b = (None, b)" "uw_exec (box_ufw p) = box_exec"
  by (simp_all add: box_ufw_def)

lemma box_no_fault: "bx_faults b = [] \<Longrightarrow> b\<lparr>bx_faults := []\<rparr> = b"
  by simp

lemma box_reads:
  assumes "box_ok b" and "bx_active b" and "bx_faults b = []" and "us_host s = b"
  shows "ufw_run (box_ufw p) [''status'', ''numbered''] s = (Inr (box_listing b), s)"
    and "listManagedLines (box_ufw p) s = (Inr (numbered p 1 (box_rows b)), s)"
    and "ufw_ListManaged (box_ufw p) s = (Inr (ufw_store p (box_rows b)), s)"
    and "\<not> ufwInactive (box_listing b)"
    and "parse_ip ip \<noteq> None \<Longrightarrow> hostRuleFor (box_listing b) p ip port proto = host_action p (box_rows b) (ip, port, proto)"
proof -
  have u: "s\<lparr>us_host := b\<rparr> = s" using assms(4) by auto
  show run: "ufw_run (box_ufw p) [''status'', ''numbered''] s = (Inr (box_listing b), s)"
    by (simp add: ufw_run_def box_exec_def box_command_def assms(3,4) box_no_fault Let_def u)
  note l = listing_read [OF box_listing_shows [OF assms(1,2)]]
  have few: "int (length (box_rows b)) < 2 ^ 63 - 1" using assms(1) by (simp add: box_ok_def box_rows_def)
  have wf: "\<forall>row \<in> set (box_rows b). wf_row row" using box_texts [OF assms(1)] by blast
  show "\<not> ufwInactive (box_listing b)" by (rule l(3) [OF wf few])
  then show lines: "listManagedLines (box_ufw p) s = (Inr (numbered p 1 (box_rows b)), s)"
    using run l(1) [OF wf few] by (simp add: listManagedLines_def)
  show "ufw_ListManaged (box_ufw p) s = (Inr (ufw_store p (box_rows b)), s)"
    using lines by (simp add: ufw_ListManaged_def ufw_listed_def ufw_locked_def assms(4) numbered_store u)
  show "parse_ip ip \<noteq> None \<Longrightarrow> hostRuleFor (box_listing b) p ip port proto = host_action p (box_rows b) (ip, port, proto)"
    by (rule l(2) [OF wf few])
qed

lemma box_adds:
  assumes "box_ok b" and "bx_active b" and "bx_faults b = []" and "us_host s = b"
    and "checkRule ip port proto = None" and "host_action p (box_rows b) (ip, port, proto) = None"
    and "clean_comment (commentFor p user grp)" and "length (bx_rules b) < 1000" and "list_all addr_char ip"
  shows "ufw_AddRule (box_ufw p) ip port user proto grp s = (None, s\<lparr>us_host := box_allow ip port proto (commentFor p user grp) b\<rparr>)"
proof -
  let ?c = "commentFor p user grp"
  have u: "s\<lparr>us_host := b\<rparr> = s" using assms(4) by auto
  have n: "parse_ip ip \<noteq> None" "parse_int64 (itoa port) = Some port" using assms(5) by (auto simp: checkRule_None intro: parse_int64_itoa)
  define args where "args = allow_args ip port proto ?c"
  have a: "length args = 11" "args ! 2 = ip" "args ! 6 = itoa port" "args ! 8 = proto" "args ! 10 = ?c" by (simp_all add: args_def allow_args_def)
  have "box_command args b = Some (''Rule added'', box_allow ip port proto ?c b)"
    using a n(2) assms(5,7-9) by (auto simp: box_command_def args_def)
  then have "ufw_run (box_ufw p) args s = (Inr ''Rule added'', s\<lparr>us_host := box_allow ip port proto ?c b\<rparr>)"
    using assms(3,4) by (simp add: ufw_run_def box_exec_def box_no_fault Let_def)
  then show ?thesis
    using box_reads(1,5) [OF assms(1-4), where p = p] box_reads(4) [OF assms(1-4)] n(1) assms(5,6)
    by (simp add: ufw_AddRule_def ufw_locked_def assms(4) args_def u)
qed

definition fresh_ufw :: "box_rule list \<Rightarrow> box ufw_state" where
  "fresh_ufw rs = \<lparr>us_host = \<lparr>bx_rules = rs, bx_active = True, bx_faults = []\<rparr>, us_warnedInactive = False, us_warnedHost = []\<rparr>"

definition ann_rule :: box_rule where
  "ann_rule = \<lparr>bx_port = 80, bx_proto = ''tcp'', bx_action = ''ALLOW'', bx_src = ''10.0.0.1'', bx_comment = commentFor ''ok'' ''ann'' ''web''\<rparr>"

lemma ann_rule_facts:
  shows "box_rule_ok ann_rule" and "clean_comment (commentFor ''ok'' ''ann'' ''web'')" and "checkRule ''10.0.0.1'' 80 ''tcp'' = None"
    and "CanonicalIP ''10.0.0.1'' = ''10.0.0.1''" and "list_all addr_char ''10.0.0.1''"
proof -
  show a: "list_all addr_char ''10.0.0.1''" by (simp add: addr_char_def is_hex_def is_digit_def)
  show c: "clean_comment (commentFor ''ok'' ''ann'' ''web'')" by (simp add: clean_comment_def commentFor_def)
  show "box_rule_ok ann_rule" using a c by (simp add: box_rule_ok_def ann_rule_def)
  show "checkRule ''10.0.0.1'' 80 ''tcp'' = None" by (simp add: checkRule_def text_eval)
  have "trim_space ''10.0.0.1'' = ''10.0.0.1''" by (rule trim_space_id [OF addr_char_codes a])
  then show "CanonicalIP ''10.0.0.1'' = ''10.0.0.1''"
    by (simp add: CanonicalIP_def text_eval ip_string_def dec_str_def digits_of.simps digit_char_def char_of_def bit_0)
qed

lemma ann_stored: "ufw_store ''ok'' (box_rows (us_host (fresh_ufw [ann_rule]))) = [ufw_rule ''ok'' (commentFor ''ok'' ''ann'' ''web'') ''10.0.0.1'' 80 ''tcp'']"
proof -
  have "ufwBodyRe (fst (box_row ann_rule)) = Some (itoa 80, ''tcp'', ''10.0.0.1'')"
    using plain_scans(2) [OF box_row_plain [OF ann_rule_facts(1)]] by (simp add: ann_rule_def)
  moreover have "parse_int64 (itoa 80) = Some 80" by (rule parse_int64_itoa) simp_all
  moreover have "snd (box_row ann_rule) = commentFor ''ok'' ''ann'' ''web''" by (simp add: box_row_def ann_rule_def)
  moreover have "has_prefix (''ok'' @ '':'') (commentFor ''ok'' ''ann'' ''web'')" by (rule has_prefix_commentFor)
  ultimately have "managed ''ok'' (box_row ann_rule) = Some (ufw_rule ''ok'' (commentFor ''ok'' ''ann'' ''web'') ''10.0.0.1'' 80 ''tcp'')"
    by (cases "box_row ann_rule") (simp add: managed_def)
  then show ?thesis by (simp add: ufw_store_def box_rows_def fresh_ufw_def List.map_filter_simps)
qed

theorem ufw_rule_roundtrip_witness:
  "\<exists>s r. ufw_AddRule (box_ufw ''ok'') ''10.0.0.1'' 80 ''ann'' ''tcp'' ''web'' (fresh_ufw []) = (None, s) \<and>
     ufw_ListManaged (box_ufw ''ok'') s = (Inr [r], s) \<and> rule_key r = (''10.0.0.1'', 80, ''tcp'', ''ann'', ''web'')"
proof -
  let ?u = "box_ufw ''ok''" and ?s = "fresh_ufw [ann_rule]"
  have host: "us_host (fresh_ufw rs) = \<lparr>bx_rules = rs, bx_active = True, bx_faults = []\<rparr>" for rs by (simp add: fresh_ufw_def)
  have ok: "box_ok (us_host (fresh_ufw []))" "box_ok (us_host ?s)" using ann_rule_facts(1) by (simp_all add: host box_ok_def)
  have r0: "ufw_ListManaged ?u (fresh_ufw []) = (Inr [], fresh_ufw [])"
    using box_reads(3) [OF ok(1) _ _ refl, of "''ok''"] by (simp add: host box_rows_def ufw_store_def List.map_filter_simps)
  have a: "ufw_AddRule ?u ''10.0.0.1'' 80 ''ann'' ''tcp'' ''web'' (fresh_ufw []) = (None, ?s)"
    using box_adds [OF ok(1) _ _ refl ann_rule_facts(3) _ ann_rule_facts(2) _ ann_rule_facts(5)]
    by (simp add: host host_action_def box_rows_def box_allow_def fresh_ufw_def ann_rule_def)
  have r1: "ufw_ListManaged ?u ?s = (Inr [ufw_rule ''ok'' (commentFor ''ok'' ''ann'' ''web'') ''10.0.0.1'' 80 ''tcp''], ?s)"
    using box_reads(3) [OF ok(2) _ _ refl, of "''ok''"] ann_stored by (simp add: host)
  have fits: "remove_matches ''ok'' ''10.0.0.1'' 80 ''ann'' ''tcp'' ''web'' (ufw_rule ''ok'' (commentFor ''ok'' ''ann'' ''web'') ''10.0.0.1'' 80 ''tcp'')"
    by (simp add: remove_matches_def ufw_rule_def split: prod.splits)
  have "map snd (numbered ''ok'' 1 (box_rows (us_host ?s))) = [ufw_rule ''ok'' (commentFor ''ok'' ''ann'' ''web'') ''10.0.0.1'' 80 ''tcp'']"
    using ann_stored by (simp add: numbered_store)
  then have n: "numbered ''ok'' 1 (box_rows (us_host ?s)) = [(1, ufw_rule ''ok'' (commentFor ''ok'' ''ann'' ''web'') ''10.0.0.1'' 80 ''tcp'')]"
    by (auto simp: host box_rows_def split: option.splits)
  have "parse_int64 (itoa 1) = Some 1" by (rule parse_int64_itoa) simp_all
  then have "deleteNumber ?u 1 ?s = (None, fresh_ufw [])"
    by (simp add: deleteNumber_def ufw_run_def host box_exec_def box_command_def Let_def delete_row_def fresh_ufw_def)
  moreover have "?s\<lparr>us_host := us_host ?s\<rparr> = ?s" by simp
  moreover have "listManagedLines ?u ?s = (Inr [(1, ufw_rule ''ok'' (commentFor ''ok'' ''ann'' ''web'') ''10.0.0.1'' 80 ''tcp'')], ?s)"
    using box_reads(2) [OF ok(2) _ _ refl, of "''ok''"] n by (simp add: host)
  ultimately have d: "ufw_RemoveRule ?u ''10.0.0.1'' 80 ''ann'' ''tcp'' ''web'' ?s = (None, fresh_ufw [])"
    using fits by (simp add: ufw_RemoveRule_def delete_first_def ufw_locked_def)
  have "CHR '':'' \<notin> set ''ann''" by simp
  from ufw_rule_roundtrip [OF box.ufw_tool_axioms ok(1) _ this ann_rule_facts(4) _ a _ _ r0, of ] r0 r1 d ann_rule_facts(2)
  have "\<exists>r. [ufw_rule ''ok'' (commentFor ''ok'' ''ann'' ''web'') ''10.0.0.1'' 80 ''tcp''] = [r] \<and> rule_key r = (''10.0.0.1'', 80, ''tcp'', ''ann'', ''web'')"
    by (auto simp: append_eq_Cons_conv Cons_eq_append_conv)
  then show ?thesis using a r1 by blast
qed

end
