(* ===== verification/Merging.thy ===== *)
theory Merging
  imports Reconcile
begin

text \<open>
  \<open>ReconcileAll\<close> on a backend that keeps one rule per match (\<open>MergesSameMatch\<close>): writing a rule may replace a
  managed rule with its match.  The locale \<open>merging_store\<close> states what such a backend promises; the lemmas show
  that a pass without errors leaves only desired rules, covers every desired match, and has nothing left to do.
\<close>

section \<open>The interface\<close>

locale merging_store = rule_store be prefix store host inv
  for be :: "'s backend" and prefix and store and host and inv +
  fixes written :: "rkey \<Rightarrow> rule" and clean :: "rkey \<Rightarrow> bool"
  assumes merges: "be_MergesSameMatch be = Some True"
    and written_key: "clean k \<Longrightarrow> rule_key (written k) = k"
    and add_ok: "inv s \<Longrightarrow> be_AddRule be ip port u pr g s = (None, s') \<Longrightarrow> clean (ip, port, pr, u, g) \<Longrightarrow>
      host s' = host s \<and> host s (ip, port, pr) = None \<and> (distinct (map r_handle (store s')) \<longrightarrow> inv s') \<and>
      (\<exists>xs old ys. store s = xs @ old @ ys \<and> store s' = xs @ written (ip, port, pr, u, g) # ys \<and>
         (\<forall>q \<in> set old. clean (rule_key q) \<longrightarrow> rule_match q = (ip, port, pr)))"
    and add_err: "inv s \<Longrightarrow> be_AddRule be ip port u pr g s = (Some e, s') \<Longrightarrow> clean (ip, port, pr, u, g) \<Longrightarrow>
      inv s' \<and> host s' = host s \<and> store s' = store s \<and> (\<forall>a. host_rule e = Some a \<longrightarrow> host s (ip, port, pr) = Some a)"
begin

text \<open>The state of the add loop: \<open>E\<close> are the rules the scan found superfluous, everything else in the store is
  wanted and counted in \<open>have\<close>, and what is covered is in the store or decided by the host.\<close>

definition passing :: "rkey set \<Rightarrow> rule set \<Rightarrow> (rmatch \<Rightarrow> string option) \<Rightarrow> rkey set \<Rightarrow> rmatch set \<Rightarrow> 's \<Rightarrow> bool" where
  "passing want E h0 hv covered s \<longleftrightarrow> inv s \<and> host s = h0 \<and>
     rule_key ` (set (store s) - E) \<subseteq> hv \<inter> want \<and> inj_on rule_key (set (store s) - E) \<and>
     covered \<subseteq> rule_match ` (set (store s) - E) \<union> {m. h0 m \<noteq> None} \<and>
     rule_match ` (set (store s) - E) \<subseteq> covered"

lemma passing_add:
  assumes p: "passing want E h0 hv covered s" and w: "k \<in> want" "k \<notin> hv" "key_match k \<notin> covered" "written k \<notin> E"
    and cl: "\<forall>x \<in> want. clean x" and k: "k = (ip, port, pr, u, g)"
    and inj: "inj_on r_handle (set (store s) \<union> written ` want)"
    and a: "be_AddRule be ip port u pr g s = (None, s')"
  shows "passing want E h0 (insert k hv) (insert (key_match k) covered) s'"
    and "set (store s') \<subseteq> insert (written k) (set (store s))"
proof -
  have i: "inv s" using p by (simp add: passing_def)
  have ck: "clean (ip, port, pr, u, g)" using cl w(1) k by blast
  obtain xs old ys where s: "store s = xs @ old @ ys" "store s' = xs @ written k # ys"
    "\<forall>q \<in> set old. clean (rule_key q) \<longrightarrow> rule_match q = key_match k" "host s' = h0" "h0 (key_match k) = None"
    and dist: "distinct (map r_handle (store s')) \<longrightarrow> inv s'"
    using add_ok [OF i a ck] p by (auto simp: k key_match_def passing_def)
  have wk: "rule_key (written k) = k" using written_key cl w(1) by blast
  then have wm: "rule_match (written k) = key_match k" using key_match_rule [of "written k"] by simp
  have new: "written k \<notin> set (store s)" using p w(2,4) wk by (auto simp: passing_def)
  have old: "set old \<subseteq> E"
  proof
    fix q assume q: "q \<in> set old"
    show "q \<in> E"
    proof (rule ccontr)
      assume "q \<notin> E"
      then have e: "q \<in> set (store s) - E" using q s(1) by simp
      then have "clean (rule_key q)" using p cl by (auto simp: passing_def)
      then have "rule_match q = key_match k" using s(3) q by blast
      with e w(3) p show False by (force simp: passing_def)
    qed
  qed
  have st: "set (store s') - E = insert (written k) (set (store s) - E)" using old w(4) by (auto simp: s(1,2))
  have d: "distinct (map r_handle (store s))" by (rule handles_distinct [OF i])
  have "distinct (map r_handle (xs @ ys))" using d by (auto simp: s(1))
  moreover have "r_handle (written k) \<noteq> r_handle q" if "q \<in> set (xs @ ys)" for q
  proof -
    have "q \<in> set (store s)" using that by (auto simp: s(1))
    with inj new w(1) show ?thesis by (auto simp: inj_on_def)
  qed
  ultimately have "distinct (map r_handle (store s'))" by (auto simp: s(2))
  then have "inv s'" using dist by simp
  moreover have "inj_on rule_key (set (store s') - E)"
    using p w(2) wk unfolding st by (auto simp: passing_def inj_on_insert)
  ultimately show "passing want E h0 (insert k hv) (insert (key_match k) covered) s'"
    using p w(1) wk wm s(4) unfolding passing_def st by auto
  show "set (store s') \<subseteq> insert (written k) (set (store s))" by (auto simp: s(1,2))
qed

text \<open>The add loop.\<close>

lemma add_pass:
  assumes "passing want E h0 hv covered s" and "\<forall>d \<in> set ds. rule_key d \<in> want" and "\<forall>k \<in> want. clean k"
    and "\<forall>k \<in> want. k \<notin> hv \<longrightarrow> written k \<notin> E" and "inj_on r_handle (S \<union> written ` want)" and "set (store s) \<subseteq> S \<union> written ` want"
    and "err = None \<longrightarrow> key_match ` hv \<subseteq> covered"
    and "add_missing be True ds hv covered added err s = (added', err', s')" and "err' = None"
  shows "err = None \<and> set (store s') \<subseteq> S \<union> written ` want \<and>
    (\<exists>hv' covered'. passing want E h0 hv' covered' s' \<and> covered \<subseteq> covered' \<and> rule_match ` set ds \<subseteq> covered')"
  using assms(1,2,4,6-8)
proof (induction ds arbitrary: hv covered added err s)
  case Nil
  then show ?case using assms(9) by auto
next
  case (Cons d ds)
  obtain ip port pr u g where k: "rule_key d = (ip, port, pr, u, g)" by (metis prod_cases5)
  then have f: "r_ip d = ip" "r_port d = port" "r_user d = u" "r_proto d = pr" "r_group d = g" by (auto simp: rule_key_def)
  have w: "rule_key d \<in> want" using Cons.prems(2) by simp
  have m: "key_match (rule_key d) = rule_match d" by simp
  have dsw: "\<forall>d \<in> set ds. rule_key d \<in> want" using Cons.prems(2) by simp
  show ?case
  proof (cases "rule_key d \<in> hv \<or> rule_match d \<in> covered")
    case True
    then have "add_missing be True ds hv covered added err s = (added', err', s')" using Cons.prems(6) by simp
    from Cons.IH [OF Cons.prems(1) dsw Cons.prems(3-5) this]
    obtain hv' covered' where c: "err = None" "set (store s') \<subseteq> S \<union> written ` want" "passing want E h0 hv' covered' s'"
      "covered \<subseteq> covered'" "rule_match ` set ds \<subseteq> covered'" by blast
    moreover have "rule_match d \<in> covered" using True Cons.prems(5) c(1) m by (metis imageI subsetD)
    ultimately show ?thesis by (intro conjI exI [of _ hv'] exI [of _ covered']) auto
  next
    case False
    obtain eo t where a: "be_AddRule be ip port u pr g s = (eo, t)" by (metis surj_pair)
    have cl: "clean (ip, port, pr, u, g)" using assms(3) w k by auto
    have i: "inv s" using Cons.prems(1) by (simp add: passing_def)
    have new: "\<forall>k \<in> want. k \<notin> insert (rule_key d) hv \<longrightarrow> written k \<notin> E" using Cons.prems(3) by blast
    have cov: "err = None \<longrightarrow> key_match ` insert (rule_key d) hv \<subseteq> insert (rule_match d) covered" using Cons.prems(5) m by auto
    show ?thesis
    proof (cases eo)
      case None
      have nE: "written (rule_key d) \<notin> E" using Cons.prems(3) w False by blast
      have inj: "inj_on r_handle (set (store s) \<union> written ` want)" using assms(5) Cons.prems(4) by (auto intro: inj_on_subset)
      note p = passing_add [OF Cons.prems(1) w _ _ nE assms(3) k inj a [unfolded None]]
      have q: "passing want E h0 (insert (rule_key d) hv) (insert (rule_match d) covered) t"
        "set (store t) \<subseteq> S \<union> written ` want" using p False Cons.prems(4) w by (auto simp: m)
      have "add_missing be True ds (insert (rule_key d) hv) (insert (rule_match d) covered) (added + 1) err t = (added', err', s')"
        using Cons.prems(6) False a None by (simp add: f)
      from Cons.IH [OF q(1) dsw new q(2) cov this]
      obtain hv' covered' where c: "err = None" "set (store s') \<subseteq> S \<union> written ` want" "passing want E h0 hv' covered' s'"
        "insert (rule_match d) covered \<subseteq> covered'" "rule_match ` set ds \<subseteq> covered'" by blast
      then show ?thesis by (intro conjI exI [of _ hv'] exI [of _ covered']) auto
    next
      case (Some e)
      note r = add_err [OF i a [unfolded Some] cl]
      show ?thesis
      proof (cases "is_host_rule e")
        case True
        then have h: "h0 (rule_match d) \<noteq> None" using r Cons.prems(1) by (auto simp: is_host_rule_def passing_def rule_match_def f)
        have q: "passing want E h0 (insert (rule_key d) hv) (insert (rule_match d) covered) t"
          "set (store t) \<subseteq> S \<union> written ` want" using r h Cons.prems(1,4) by (auto simp: passing_def)
        have "add_missing be True ds (insert (rule_key d) hv) (insert (rule_match d) covered) added err t = (added', err', s')"
          using Cons.prems(6) False a Some True by (simp add: f)
        from Cons.IH [OF q(1) dsw new q(2) cov this]
        obtain hv' covered' where c: "err = None" "set (store s') \<subseteq> S \<union> written ` want" "passing want E h0 hv' covered' s'"
          "insert (rule_match d) covered \<subseteq> covered'" "rule_match ` set ds \<subseteq> covered'" by blast
        then show ?thesis by (intro conjI exI [of _ hv'] exI [of _ covered']) auto
      next
        case no: False
        have q: "passing want E h0 (insert (rule_key d) hv) covered t"
          "set (store t) \<subseteq> S \<union> written ` want" using r Cons.prems(1,4) by (auto simp: passing_def)
        have c0: "Some e = None \<longrightarrow> key_match ` insert (rule_key d) hv \<subseteq> covered" by simp
        have "add_missing be True ds (insert (rule_key d) hv) covered added (Some e) t = (added', err', s')"
          using Cons.prems(6) False a Some no by (simp add: f)
        from Cons.IH [OF q(1) dsw new q(2) c0 this] show ?thesis by simp
      qed
    qed
  qed
qed

lemma delete_err: "delete_extra b hs removed err s = (removed', None, s') \<Longrightarrow> err = None"
  by (induction hs arbitrary: removed err s) (auto split: prod.splits option.splits)

text \<open>A pass without an error.\<close>

lemma merging_pass:
  assumes "inv s" and "\<forall>d \<in> set D. clean (rule_key d)" and "inj_on r_handle (set (store s) \<union> written ` rule_key ` set D)"
    and "ReconcileAll be D s = (added, removed, None, s')"
  shows "inv s' \<and> host s' = host s \<and> rule_key ` set (store s') \<subseteq> rule_key ` set D \<and> inj_on rule_key (set (store s')) \<and>
    rule_match ` set D \<subseteq> rule_match ` set (store s') \<union> {m. host s m \<noteq> None}"
proof -
  let ?want = "rule_key ` set D"
  obtain lr s1 where l: "be_ListManaged be s = (lr, s1)" by (metis surj_pair)
  note l1 = list_managed [OF assms(1) l]
  obtain ms where lr: "lr = Inr ms" "ms = store s1" using assms(4) l l1 by (cases lr) (auto simp: ReconcileAll_def)
  have i1: "inv s1" "host s1 = host s" "store s1 = store s" using l1 by simp_all
  have dh: "distinct (map r_handle ms)" using handles_distinct [OF i1(1)] lr(2) by simp
  let ?K = "kept ?want {} ms"
  let ?x = "map r_handle (filter (\<lambda>m. m \<notin> set ?K) ms)"
  have sc: "scan_managed ?want ms ({}, {}, []) = (?want \<inter> rule_key ` set ms, rule_match ` set ?K, ?x)"
    using scan_managed_spec [OF dh, of ?want "{}" "{}" "[]"] by simp
  obtain a e s2 where ad: "add_missing be True D (?want \<inter> rule_key ` set ms) (rule_match ` set ?K) 0 None s1 = (a, e, s2)"
    by (metis surj_pair)
  have mg: "merges_same_match be" by (simp add: merges_same_match_def merges)
  with assms(4) l lr(1) sc ad obtain r where de: "delete_extra be ?x 0 e s2 = (r, None, s')"
    by (auto simp: ReconcileAll_def Let_def split: prod.splits)
  let ?E = "set ms - set ?K"
  have K: "set ms - ?E = set ?K" using set_kept [of ?want "{}" ms] by auto
  have kk: "rule_key ` set ?K = ?want \<inter> rule_key ` set ms" using kept_keys [of ?want "{}" ms] by simp
  have "set (store s1) - ?E = set ?K" using K lr(2) by simp
  then have p: "passing ?want ?E (host s) (?want \<inter> rule_key ` set ms) (rule_match ` set ?K) s1"
    using i1(1,2) kk distinct_kept [of ?want "{}" ms] by (simp add: passing_def distinct_map)
  have "merges_same_match be = True" by (simp add: merges_same_match_def merges)
  have wE: "written k \<notin> ?E" if "k \<in> ?want" "k \<notin> ?want \<inter> rule_key ` set ms" for k
  proof
    assume "written k \<in> ?E"
    then have "rule_key (written k) \<in> rule_key ` set ms" by blast
    moreover have "rule_key (written k) = k" using written_key assms(2) that(1) by blast
    ultimately show False using that by simp
  qed
  have cv: "key_match ` (?want \<inter> rule_key ` set ms) \<subseteq> rule_match ` set ?K" unfolding kk [symmetric] by (simp add: image_image)
  have e: "e = None" using delete_err [OF de] .
  have wt: "\<forall>d \<in> set D. rule_key d \<in> ?want" by simp
  have cl: "\<forall>k \<in> ?want. clean k" using assms(2) by simp
  have nE: "\<forall>k \<in> ?want. k \<notin> ?want \<inter> rule_key ` set ms \<longrightarrow> written k \<notin> ?E" using wE by blast
  have in1: "inj_on r_handle (set ms \<union> written ` ?want)" using assms(3) i1(3) lr(2) by simp
  have s1: "set (store s1) \<subseteq> set ms \<union> written ` ?want" using lr(2) by blast
  from add_pass [OF p wt cl nE in1 s1 _ ad e] cv obtain hv' cv' where
    st: "set (store s2) \<subseteq> set ms \<union> written ` ?want" and q: "passing ?want ?E (host s) hv' cv' s2" "rule_match ` set D \<subseteq> cv'"
    by blast
  have i2: "inv s2" "host s2 = host s" using q(1) by (simp_all add: passing_def)
  from delete_extra_spec [OF i2(1) de] have d: "inv s'" "host s' = host s" "store s' = filter (\<lambda>r. r_handle r \<notin> set ?x) (store s2)"
    using i2(2) by auto
  have x: "set ?x = r_handle ` ?E" by auto
  have "r_handle r \<notin> r_handle ` ?E \<longleftrightarrow> r \<notin> ?E" if "r \<in> set (store s2)" for r
    using inj_on_image_mem_iff [OF in1, of r ?E] st that by blast
  then have fin: "set (store s') = set (store s2) - ?E" unfolding d(3) x by auto
  have "rule_match ` set D \<subseteq> rule_match ` (set (store s2) - ?E) \<union> {m. host s m \<noteq> None}" using q by (auto simp: passing_def)
  with q(1) show ?thesis unfolding fin passing_def using d(1,2) by blast
qed

text \<open>Nothing is left to do for a second pass.\<close>

lemma idle_adds:
  assumes "inv s" and "\<forall>d \<in> set ds. clean (rule_key d)" and "rule_match ` set ds \<subseteq> covered \<union> {m. host s m \<noteq> None}"
    and "add_missing be True ds hv covered added err s = (added', None, s')"
  shows "inv s' \<and> store s' = store s \<and> host s' = host s \<and> added' = added \<and> err = None"
  using assms
proof (induction ds arbitrary: hv covered err s)
  case (Cons d ds)
  obtain ip port pr u g where k: "rule_key d = (ip, port, pr, u, g)" by (metis prod_cases5)
  then have f: "r_ip d = ip" "r_port d = port" "r_user d = u" "r_proto d = pr" "r_group d = g" by (auto simp: rule_key_def)
  have m: "rule_match d = (ip, port, pr)" by (simp add: rule_match_def f)
  show ?case
  proof (cases "rule_key d \<in> hv \<or> rule_match d \<in> covered")
    case True
    then have "add_missing be True ds hv covered added err s = (added', None, s')" using Cons.prems(4) by simp
    from Cons.IH [OF Cons.prems(1) _ _ this] Cons.prems(2,3) show ?thesis by simp
  next
    case False
    obtain eo t where a: "be_AddRule be ip port u pr g s = (eo, t)" by (metis surj_pair)
    have cl: "clean (ip, port, pr, u, g)" using Cons.prems(2) k by simp
    have h: "host s (ip, port, pr) \<noteq> None" using Cons.prems(3) False m by auto
    then obtain e where e: "eo = Some e" using add_ok [OF Cons.prems(1) _ cl] a by (cases eo) auto
    note r = add_err [OF Cons.prems(1) a [unfolded e] cl]
    have c: "rule_match ` set ds \<subseteq> covered \<union> {m. host t m \<noteq> None}" "rule_match ` set ds \<subseteq> insert (rule_match d) covered \<union> {m. host t m \<noteq> None}"
      using Cons.prems(3) r by auto
    have cs: "\<forall>d \<in> set ds. clean (rule_key d)" using Cons.prems(2) by simp
    show ?thesis
    proof (cases "is_host_rule e")
      case True
      then have "add_missing be True ds (insert (rule_key d) hv) (insert (rule_match d) covered) added err t = (added', None, s')"
        using Cons.prems(4) False a e by (simp add: f)
      from Cons.IH [OF _ cs c(2) this] r show ?thesis by simp
    next
      case no: False
      then have "add_missing be True ds (insert (rule_key d) hv) covered added (Some e) t = (added', None, s')"
        using Cons.prems(4) False a e by (simp add: f)
      from Cons.IH [OF _ cs c(1) this] r show ?thesis by simp
    qed
  qed
qed simp

lemma merging_idle:
  assumes "inv s" and "\<forall>d \<in> set D. clean (rule_key d)" and "rule_key ` set (store s) \<subseteq> rule_key ` set D"
    and "inj_on rule_key (set (store s))" and "rule_match ` set D \<subseteq> rule_match ` set (store s) \<union> {m. host s m \<noteq> None}"
    and "ReconcileAll be D s = (added, removed, None, s')"
  shows "added = 0 \<and> removed = 0 \<and> store s' = store s"
proof -
  let ?want = "rule_key ` set D"
  obtain lr s1 where l: "be_ListManaged be s = (lr, s1)" by (metis surj_pair)
  note l1 = list_managed [OF assms(1) l]
  obtain ms where lr: "lr = Inr ms" "ms = store s1" using assms(6) l l1 by (cases lr) (auto simp: ReconcileAll_def)
  have i1: "inv s1" "host s1 = host s" "store s1 = store s" using l1 by simp_all
  have dh: "distinct (map r_handle ms)" using handles_distinct [OF i1(1)] lr(2) by simp
  then have "distinct (map rule_key ms)" using assms(4) i1(3) lr(2) by (simp add: distinct_map)
  then have K: "kept ?want {} ms = ms" using assms(3) i1(3) lr(2) by (intro kept_all) simp_all
  have sc: "scan_managed ?want ms ({}, {}, []) = (?want \<inter> rule_key ` set ms, rule_match ` set ms, [])"
    using scan_managed_spec [OF dh, of ?want "{}" "{}" "[]"] K by (simp add: filter_empty_conv)
  have mg: "merges_same_match be = True" by (simp add: merges_same_match_def merges)
  obtain a e s2 where ad: "add_missing be True D (?want \<inter> rule_key ` set ms) (rule_match ` set ms) 0 None s1 = (a, e, s2)"
    by (metis surj_pair)
  with assms(6) l lr(1) sc mg have r: "added = a" "removed = 0" "e = None" "s' = s2" by (simp_all add: ReconcileAll_def Let_def)
  have c: "rule_match ` set D \<subseteq> rule_match ` set ms \<union> {m. host s1 m \<noteq> None}" using assms(5) i1 lr(2) by simp
  from idle_adds [OF i1(1) assms(2) c ad [unfolded r(3)]] r i1(3) show ?thesis by simp
qed

end

end
