(* ===== verification/UfwPass.thy ===== *)
theory UfwPass
  imports UfwLaws Merging
begin

text \<open>
  \<open>ReconcileAll\<close> on ufw: the backend meets \<open>merging_store\<close>, so a pass makes its managed rules the desired ones up to
  sharing, and a second pass has nothing to do.
\<close>

section \<open>ufw keeps one rule per match\<close>

definition ufw_written :: "string \<Rightarrow> rkey \<Rightarrow> rule" where
  "ufw_written prefix = (\<lambda>(ip, port, pr, u, g). ufw_rule prefix (commentFor prefix u g) ip port pr)"

definition ufw_clean :: "string \<Rightarrow> rkey \<Rightarrow> bool" where
  "ufw_clean prefix = (\<lambda>(ip, port, pr, u, g). CanonicalIP ip = ip \<and> clean_comment (commentFor prefix u g) \<and> CHR '':'' \<notin> set u)"

lemma same_canonical:
  assumes "CanonicalIP a = a" and "CanonicalIP b = b" and "same_source a b"
  shows "a = b"
proof -
  have c: "\<exists>g. parse_ip x = Some g \<and> x = ip_string g" if "CanonicalIP x = x" "parse_ip x \<noteq> None" for x
  proof -
    have "x \<noteq> []" using that(2) by (auto simp: parse_ip_def parse_v4_def)
    with that(1) obtain g where g: "parse_ip (trim_space x) = Some g" "x = ip_string g"
      by (auto simp: CanonicalIP_def split: option.splits)
    with ip_string_canonical [OF g(1)] show ?thesis by auto
  qed
  from assms c [of a] c [of b] show ?thesis by (auto simp: same_source_def)
qed

sublocale ufw_tool \<subseteq> merging: merging_store "ufw_backend u" "uw_prefix u" "\<lambda>s. ufw_store (uw_prefix u) (rows (us_host s))"
  "\<lambda>s. host_action (uw_prefix u) (rows (us_host s))"
  "\<lambda>s. ok (us_host s) \<and> distinct (map r_handle (ufw_store (uw_prefix u) (rows (us_host s))))"
  "ufw_written (uw_prefix u)" "ufw_clean (uw_prefix u)"
proof (unfold_locales, goal_cases)
  case 1
  then show ?case by simp
next
  case (2 k)
  then show ?case
    by (cases k) (auto simp: ufw_written_def ufw_clean_def ufw_rule_key ufw_rule_def splitComment_commentFor split: prod.splits)
next
  case (3 s ip port us pr g s')
  then have cl: "clean_comment (commentFor pre us g)" "CanonicalIP ip = ip" by (simp_all add: ufw_clean_def)
  have f: "fine s" using 3 by simp
  have a: "ufw_AddRule u ip port us pr g s = (None, s')" using 3 by simp
  note r = add_run [OF f cl(1) a]
  from r(2) have c: "checkRule ip port pr = None" "host_action pre (kept_rows s) (ip, port, pr) = None"
    "ufw_allows ip port pr (commentFor pre us g) (kept_rows s) (kept_rows s')" by simp_all
  from allow_effect(1) [OF c(3,1,2)] obtain w xs old ys where o: "ufw_store pre (kept_rows s) = xs @ old @ ys"
    "ufw_store pre (kept_rows s') = xs @ w # ys" "CanonicalIP ip = ip \<longrightarrow> w = ufw_rule pre (commentFor pre us g) ip port pr"
    "\<forall>q \<in> set old. r_port q = port \<and> r_proto q = pr \<and> same_source (r_ip q) ip" by (elim exE conjE)
  have e: "ufw_store pre (kept_rows s) = xs @ old @ ys" "ufw_store pre (kept_rows s') = xs @ ufw_written pre (ip, port, pr, us, g) # ys"
    using o(1-3) cl(2) by (simp_all add: ufw_written_def)
  have h: "host_action pre (kept_rows s') = host_action pre (kept_rows s)" by (rule host_action_rows [OF allow_effect(2) [OF c(3,1,2)]])
  have "\<forall>q \<in> set old. ufw_clean pre (rule_key q) \<longrightarrow> rule_match q = (ip, port, pr)"
    using o(4) same_canonical [OF _ cl(2)] by (auto simp: ufw_clean_def rule_key_def rule_match_def)
  then have "\<exists>xs old ys. ufw_store pre (kept_rows s) = xs @ old @ ys \<and> ufw_store pre (kept_rows s') = xs @ ufw_written pre (ip, port, pr, us, g) # ys \<and>
      (\<forall>q \<in> set old. ufw_clean pre (rule_key q) \<longrightarrow> rule_match q = (ip, port, pr))" using e by blast
  with h r(1) c(2) show ?case by simp
next
  case (4 s ip port us pr g e s')
  then have cl: "clean_comment (commentFor pre us g)" by (simp add: ufw_clean_def)
  have f: "fine s" using 4 by simp
  have a: "ufw_AddRule u ip port us pr g s = (Some e, s')" using 4 by simp
  note r = add_run [OF f cl a]
  have "kept_rows s' = kept_rows s" using r(3) by simp
  then show ?case using r(1,4) 4 by simp
qed

context ufw_tool begin

lemma ufw_merges: "merging_store (ufw_backend u) (uw_prefix u) (\<lambda>s. ufw_store (uw_prefix u) (rows (us_host s)))
  (\<lambda>s. host_action (uw_prefix u) (rows (us_host s)))
  (\<lambda>s. ok (us_host s) \<and> distinct (map r_handle (ufw_store (uw_prefix u) (rows (us_host s)))))
  (ufw_written (uw_prefix u)) (ufw_clean (uw_prefix u))"
  by (rule merging.merging_store_axioms)

end

text \<open>C39. \<open>ReconcileAll\<close> converges on ufw.  There a rule is identified by its match only: writing a second rule for an
  address and port re-comments the first.  After a pass without an error, over desired rules with canonical
  addresses and printable comments, and as long as no two of the rules in play share a hash handle: only
  desired rules are left, each once; every desired access is covered by a managed rule or decided by a rule
  of the host's own; no rule of the host has changed; and a further pass without an error adds nothing,
  removes nothing and changes no managed rule.\<close>

theorem ufw_reconcile_converges:
  assumes "ufw_tool u rows ok" and "ok (us_host s)"
  defines "st \<equiv> \<lambda>s. ufw_store (uw_prefix u) (rows (us_host s))"
  assumes "distinct (map r_handle (st s))" and "\<forall>d \<in> set D. ufw_clean (uw_prefix u) (rule_key d)"
    and "inj_on r_handle (set (st s) \<union> ufw_written (uw_prefix u) ` rule_key ` set D)"
    and "ReconcileAll (ufw_backend u) D s = (added, removed, None, s')"
  shows "rule_key ` set (st s') \<subseteq> rule_key ` set D \<and> inj_on rule_key (set (st s')) \<and> distinct (st s')
    \<and> (\<forall>d \<in> set D. rule_match d \<in> rule_match ` set (st s') \<or> host_action (uw_prefix u) (rows (us_host s)) (rule_match d) \<noteq> None)
    \<and> host_action (uw_prefix u) (rows (us_host s')) = host_action (uw_prefix u) (rows (us_host s))
    \<and> (\<forall>a r s''. ReconcileAll (ufw_backend u) D s' = (a, r, None, s'') \<longrightarrow> a = 0 \<and> r = 0 \<and> st s'' = st s')"
proof -
  note m = ufw_tool.ufw_merges [OF assms(1)]
  have i: "ok (us_host s) \<and> distinct (map r_handle (ufw_store (uw_prefix u) (rows (us_host s))))" using assms(2,4) by (simp add: st_def)
  note p = merging_store.merging_pass [OF m i assms(5) assms(6) [unfolded st_def] assms(7)]
  have "added' = 0 \<and> removed' = 0 \<and> st s'' = st s'" if "ReconcileAll (ufw_backend u) D s' = (added', removed', None, s'')" for added' removed' s''
    using merging_store.merging_idle [OF m _ assms(5) _ _ _ that] p by (simp add: st_def)
  moreover have "distinct (st s')" using p by (auto simp: st_def distinct_map)
  ultimately show ?thesis using p by (auto simp: st_def)
qed

definition ann_wants :: rule where
  "ann_wants = \<lparr>r_handle = 0, r_ip = ''10.0.0.1'', r_port = 80, r_proto = ''tcp'', r_user = ''ann'', r_group = ''web'', r_comment = []\<rparr>"

theorem ufw_reconcile_converges_witness:
  "\<exists>s. ReconcileAll (ufw_backend (box_ufw ''ok'')) [ann_wants] (fresh_ufw []) = (1, 0, None, s) \<and>
     (''10.0.0.1'', 80, ''tcp'') \<in> rule_match ` set (ufw_store ''ok'' (box_rows (us_host s)))"
proof -
  let ?u = "box_ufw ''ok''" and ?s = "fresh_ufw [ann_rule]"
  have host: "us_host (fresh_ufw rs) = \<lparr>bx_rules = rs, bx_active = True, bx_faults = []\<rparr>" for rs by (simp add: fresh_ufw_def)
  have ok: "box_ok (us_host (fresh_ufw []))" by (simp add: host box_ok_def)
  have st: "ufw_store (uw_prefix ?u) (box_rows (us_host (fresh_ufw []))) = []"
    by (simp add: host box_rows_def ufw_store_def List.map_filter_simps)
  have l: "ufw_ListManaged ?u (fresh_ufw []) = (Inr [], fresh_ufw [])"
    using box_reads(3) [OF ok _ _ refl, of "''ok''"] st by (simp add: host)
  have none: "host_action p (box_rows (us_host (fresh_ufw []))) m = None" for p m
    by (cases m) (simp add: host host_action_def box_rows_def)
  have a: "ufw_AddRule ?u ''10.0.0.1'' 80 ''ann'' ''tcp'' ''web'' (fresh_ufw []) = (None, ?s)"
    using box_adds [OF ok _ _ refl ann_rule_facts(3) none ann_rule_facts(2) _ ann_rule_facts(5)]
    by (simp add: host box_allow_def fresh_ufw_def ann_rule_def)
  have k: "rule_key ann_wants = (''10.0.0.1'', 80, ''tcp'', ''ann'', ''web'')" "rule_match ann_wants = (''10.0.0.1'', 80, ''tcp'')"
    by (simp_all add: ann_wants_def rule_key_def rule_match_def)
  have r: "ReconcileAll (ufw_backend ?u) [ann_wants] (fresh_ufw []) = (1, 0, None, ?s)"
    using l a by (simp add: ReconcileAll_def Let_def ann_wants_def)
  have d: "distinct (map r_handle (ufw_store (uw_prefix ?u) (box_rows (us_host (fresh_ufw [])))))" unfolding st by simp
  have c: "\<forall>x \<in> set [ann_wants]. ufw_clean (uw_prefix ?u) (rule_key x)"
    using ann_rule_facts(2,4) by (simp add: k ufw_clean_def)
  have i: "inj_on r_handle (set (ufw_store (uw_prefix ?u) (box_rows (us_host (fresh_ufw [])))) \<union>
      ufw_written (uw_prefix ?u) ` rule_key ` set [ann_wants])" unfolding st by simp
  from ufw_reconcile_converges [OF box.ufw_tool_axioms ok d c i r] none k(2) r show ?thesis by auto
qed

end
