(* ===== verification/Schema.thy ===== *)
theory Schema
  imports Prelude
begin

text \<open>
  \<open>internal/db/schema.go\<close> and the start of \<open>internal/db/db.go\<close>: the tables \<open>Init\<close> creates, the migrations
  that bring an older database up to date, and the indexes.  A database is its tables, each with its columns
  and rows, and its indexes; a row is the list of its values.  As in theory \<open>Db\<close> every statement takes one
  entry of a fault schedule and fails without effect when it is \<open>True\<close>.
\<close>

section \<open>SQLite's schema\<close>

datatype sval = SNull | SInt int | SText string

datatype dflt = NoDefault | Dflt sval | DfltNow

record col =
  co_name :: string
  co_type :: string
  co_notnull :: bool
  co_default :: dflt

record tbl =
  tb_cols :: "col list"
  tb_pk :: "string list"
  tb_auto :: bool
  tb_unique :: "string list list"
  tb_refs :: "(string \<times> string) list"
  tb_rows :: "sval list list"

record idx =
  ix_name :: string
  ix_table :: string
  ix_cols :: "string list"
  ix_unique :: bool

record sqldb =
  sd_tables :: "(string \<times> tbl) list"
  sd_indexes :: "idx list"

datatype sqlerr = SqlFault | NoTable string | TableExists string | NoColumn string | DuplicateColumn string
  | NoDefaultGiven string | NotUnique string | InCreate string sqlerr | InMigration int sqlerr

definition table_of :: "sqldb \<Rightarrow> string \<Rightarrow> tbl option" where
  "table_of d name = map_of (sd_tables d) name"

definition col_names :: "tbl \<Rightarrow> string list" where
  "col_names t = map co_name (tb_cols t)"

definition put_table :: "string \<Rightarrow> tbl \<Rightarrow> sqldb \<Rightarrow> sqldb" where
  "put_table name t d = d\<lparr>sd_tables := map (\<lambda>(n, x). if n = name then (n, t) else (n, x)) (sd_tables d)\<rparr>"

text \<open>The values of a row at the given columns.\<close>

definition cells :: "tbl \<Rightarrow> string list \<Rightarrow> sval list \<Rightarrow> sval list" where
  "cells t cs row = map (\<lambda>c. the (map_of (zip (col_names t) row) c)) cs"

section \<open>Statements\<close>

text \<open>The handle: the database and whether \<open>Init\<close> created it.\<close>

record handle =
  h_sql :: sqldb
  h_fresh :: bool

type_synonym 'a sm = "handle \<times> bool list \<Rightarrow> (sqlerr + 'a) \<times> handle \<times> bool list"

definition sret :: "'a \<Rightarrow> 'a sm" where
  "sret a s = (Inr a, s)"

definition sbnd :: "'a sm \<Rightarrow> ('a \<Rightarrow> 'b sm) \<Rightarrow> 'b sm" where
  "sbnd m f s = (case m s of (Inl e, s') \<Rightarrow> (Inl e, s') | (Inr a, s') \<Rightarrow> f a s')"

definition wrap_err :: "(sqlerr \<Rightarrow> sqlerr) \<Rightarrow> 'a sm \<Rightarrow> 'a sm" where
  "wrap_err w m s = (case m s of (Inl e, s') \<Rightarrow> (Inl (w e), s') | (Inr a, s') \<Rightarrow> (Inr a, s'))"

definition stmt :: "(sqldb \<Rightarrow> sqlerr + 'a \<times> sqldb) \<Rightarrow> 'a sm" where
  "stmt f = (\<lambda>(h, fs). if fs \<noteq> [] \<and> hd fs then (Inl SqlFault, h, tl fs)
     else (case f (h_sql h) of Inl e \<Rightarrow> (Inl e, h, tl fs) | Inr (a, d) \<Rightarrow> (Inr a, h\<lparr>h_sql := d\<rparr>, tl fs)))"

text \<open>\<open>Begin\<close>, a body and \<open>Commit\<close>; an error, of the commit too, rolls back.\<close>

definition in_tx :: "unit sm \<Rightarrow> unit sm" where
  "in_tx body = sbnd (stmt (\<lambda>d. Inr ((), d))) (\<lambda>_ (h, fs).
     case sbnd body (\<lambda>_. stmt (\<lambda>d. Inr ((), d))) (h, fs) of
       (Inl e, _, fs') \<Rightarrow> (Inl e, h, fs') | (Inr u, s') \<Rightarrow> (Inr u, s'))"

definition q_table_exists :: "string \<Rightarrow> bool sm" where
  "q_table_exists name = stmt (\<lambda>d. Inr (table_of d name \<noteq> None, d))"

definition s_create_table :: "string \<Rightarrow> tbl \<Rightarrow> unit sm" where
  "s_create_table name t = stmt (\<lambda>d. if table_of d name \<noteq> None then Inl (TableExists name)
     else Inr ((), d\<lparr>sd_tables := sd_tables d @ [(name, t)]\<rparr>))"

text \<open>\<open>PRAGMA table_info\<close> lists nothing for a table that does not exist.\<close>

definition colExists :: "string \<Rightarrow> string \<Rightarrow> bool sm" where
  "colExists table c = stmt (\<lambda>d. Inr (case table_of d table of None \<Rightarrow> False | Some t \<Rightarrow> c \<in> set (col_names t), d))"

definition default_cell :: "col \<Rightarrow> sval" where
  "default_cell c = (case co_default c of Dflt v \<Rightarrow> v | _ \<Rightarrow> SNull)"

definition add_col :: "col \<Rightarrow> tbl \<Rightarrow> tbl" where
  "add_col c t = t\<lparr>tb_cols := tb_cols t @ [c], tb_rows := map (\<lambda>r. r @ [default_cell c]) (tb_rows t)\<rparr>"

definition s_add_column :: "string \<Rightarrow> col \<Rightarrow> unit sm" where
  "s_add_column table c = stmt (\<lambda>d. case table_of d table of
      None \<Rightarrow> Inl (NoTable table)
    | Some t \<Rightarrow> if co_name c \<in> set (col_names t) then Inl (DuplicateColumn (co_name c))
        else if co_notnull c \<and> default_cell c = SNull then Inl (NoDefaultGiven (co_name c))
        else Inr ((), put_table table (add_col c t) d))"

text \<open>\<open>COUNT\<close> of the groups of rows that agree on two columns.\<close>

definition dup_groups :: "tbl \<Rightarrow> string list \<Rightarrow> int" where
  "dup_groups t cs = (let vs = map (cells t cs) (tb_rows t) in
     int (length (filter (\<lambda>v. 1 < count_list vs v) (remdups vs))))"

definition q_duplicates :: "string \<Rightarrow> string list \<Rightarrow> int sm" where
  "q_duplicates table cs = stmt (\<lambda>d. case table_of d table of
      None \<Rightarrow> Inl (NoTable table)
    | Some t \<Rightarrow> if set cs \<subseteq> set (col_names t) then Inr (dup_groups t cs, d) else Inl (NoColumn table))"

text \<open>\<open>CREATE [UNIQUE] INDEX IF NOT EXISTS\<close>; a unique index takes two NULLs as different.\<close>

definition s_create_index :: "idx \<Rightarrow> unit sm" where
  "s_create_index ix = stmt (\<lambda>d. if ix_name ix \<in> ix_name ` set (sd_indexes d) then Inr ((), d)
     else (case table_of d (ix_table ix) of
         None \<Rightarrow> Inl (NoTable (ix_table ix))
       | Some t \<Rightarrow> if \<not> set (ix_cols ix) \<subseteq> set (col_names t) then Inl (NoColumn (ix_name ix))
           else if ix_unique ix \<and> \<not> distinct (filter (\<lambda>v. SNull \<notin> set v) (map (cells t (ix_cols ix)) (tb_rows t)))
           then Inl (NotUnique (ix_name ix))
           else Inr ((), d\<lparr>sd_indexes := sd_indexes d @ [ix]\<rparr>)))"

definition cell_ints :: "sval \<Rightarrow> int list" where
  "cell_ints v = (case v of SInt n \<Rightarrow> [n] | _ \<Rightarrow> [])"

definition versions :: "tbl \<Rightarrow> int list" where
  "versions t = concat (map (\<lambda>r. concat (map cell_ints (cells t [''version''] r))) (tb_rows t))"

definition q_max_version :: "int option sm" where
  "q_max_version = stmt (\<lambda>d. case table_of d ''schema_version'' of
      None \<Rightarrow> Inl (NoTable ''schema_version'')
    | Some t \<Rightarrow> Inr (if versions t = [] then None else Some (Max (set (versions t))), d))"

text \<open>\<open>INSERT OR IGNORE INTO schema_version (version)\<close> at the time \<open>now\<close>.\<close>

definition version_row :: "string \<Rightarrow> int \<Rightarrow> tbl \<Rightarrow> sval list" where
  "version_row now v t = map (\<lambda>c. if co_name c = ''version'' then SInt v else if co_default c = DfltNow then SText now else default_cell c) (tb_cols t)"

definition s_record_version :: "string \<Rightarrow> int \<Rightarrow> unit sm" where
  "s_record_version now v = stmt (\<lambda>d. case table_of d ''schema_version'' of
      None \<Rightarrow> Inl (NoTable ''schema_version'')
    | Some t \<Rightarrow> if v \<in> set (versions t) then Inr ((), d)
        else Inr ((), put_table ''schema_version'' (t\<lparr>tb_rows := tb_rows t @ [version_row now v t]\<rparr>) d))"

section \<open>The schema\<close>

definition req_col :: "string \<Rightarrow> string \<Rightarrow> col" where
  "req_col name ty = \<lparr>co_name = name, co_type = ty, co_notnull = True, co_default = NoDefault\<rparr>"

definition opt_col :: "string \<Rightarrow> string \<Rightarrow> col" where
  "opt_col name ty = \<lparr>co_name = name, co_type = ty, co_notnull = False, co_default = NoDefault\<rparr>"

definition dflt_col :: "string \<Rightarrow> string \<Rightarrow> dflt \<Rightarrow> col" where
  "dflt_col name ty v = \<lparr>co_name = name, co_type = ty, co_notnull = True, co_default = v\<rparr>"

definition id_table :: "col list \<Rightarrow> string list list \<Rightarrow> (string \<times> string) list \<Rightarrow> tbl" where
  "id_table cs uniq refs = \<lparr>tb_cols = opt_col ''id'' ''INTEGER'' # cs, tb_pk = [''id''], tb_auto = True, tb_unique = uniq,
     tb_refs = refs, tb_rows = []\<rparr>"

abbreviation TEXT :: string where "TEXT \<equiv> ''TEXT''"
abbreviation INTEGER :: string where "INTEGER \<equiv> ''INTEGER''"

definition created_at :: col where
  "created_at = dflt_col ''created_at'' TEXT DfltNow"

definition schemaDDL :: "(string \<times> tbl) list" where
  "schemaDDL = [
     (''schema_version'', \<lparr>tb_cols = [opt_col ''version'' INTEGER, dflt_col ''applied_at'' TEXT DfltNow], tb_pk = [''version''],
        tb_auto = False, tb_unique = [], tb_refs = [], tb_rows = []\<rparr>),
     (''users'', id_table [req_col ''username'' TEXT, req_col ''secret'' TEXT, dflt_col ''is_admin'' INTEGER (Dflt (SInt 0)),
        opt_col ''current_ip'' TEXT, opt_col ''last_knock'' INTEGER, opt_col ''totp_secret'' TEXT,
        dflt_col ''totp_enabled'' INTEGER (Dflt (SInt 0)), dflt_col ''totp_last_counter'' INTEGER (Dflt (SInt 0)), created_at]
        [[''username'']] []),
     (''groups'', id_table [req_col ''name'' TEXT, req_col ''port'' INTEGER, dflt_col ''proto'' TEXT (Dflt (SText ''tcp'')), created_at]
        [[''name'']] []),
     (''user_group_membership'', \<lparr>tb_cols = [req_col ''user_id'' INTEGER, req_col ''group_id'' INTEGER,
        dflt_col ''enabled'' INTEGER (Dflt (SInt 1)), dflt_col ''joined_at'' TEXT DfltNow], tb_pk = [''user_id'', ''group_id''],
        tb_auto = False, tb_unique = [], tb_refs = [(''user_id'', ''users''), (''group_id'', ''groups'')], tb_rows = []\<rparr>),
     (''audit_log'', id_table [req_col ''actor'' TEXT, req_col ''action'' TEXT, opt_col ''target'' TEXT, opt_col ''detail'' TEXT, created_at] [] []),
     (''operation_log'', id_table [req_col ''username'' TEXT, req_col ''action'' TEXT, opt_col ''ip'' TEXT, opt_col ''detail'' TEXT, created_at] [] []),
     (''failed_attempts'', id_table [opt_col ''username'' TEXT, opt_col ''ip'' TEXT, opt_col ''reason'' TEXT, created_at] [] []),
     (''nodes'', id_table [req_col ''name'' TEXT, req_col ''token_hash'' TEXT, opt_col ''last_seen'' INTEGER, opt_col ''agent_version'' TEXT,
        opt_col ''agent_backend'' TEXT, created_at] [[''name''], [''token_hash'']] []),
     (''group_targets'', id_table [req_col ''group_id'' INTEGER, req_col ''node_id'' INTEGER, req_col ''port'' INTEGER,
        dflt_col ''proto'' TEXT (Dflt (SText ''tcp'')), created_at] [[''group_id'', ''node_id'']]
        [(''group_id'', ''groups''), (''node_id'', ''nodes'')])]"

definition schemaOrder :: "string list" where
  "schemaOrder = [''schema_version'', ''users'', ''groups'', ''user_group_membership'', ''audit_log'', ''operation_log'',
     ''failed_attempts'', ''nodes'', ''group_targets'']"

definition indexDDL :: "idx list" where
  "indexDDL = [
     \<lparr>ix_name = ''idx_oplog_user_action_time'', ix_table = ''operation_log'', ix_cols = [''username'', ''action'', ''created_at''], ix_unique = False\<rparr>,
     \<lparr>ix_name = ''idx_failed_attempts_username'', ix_table = ''failed_attempts'', ix_cols = [''username'', ''created_at''], ix_unique = False\<rparr>,
     \<lparr>ix_name = ''idx_failed_attempts_ip'', ix_table = ''failed_attempts'', ix_cols = [''ip'', ''created_at''], ix_unique = False\<rparr>,
     \<lparr>ix_name = ''idx_group_targets_node'', ix_table = ''group_targets'', ix_cols = [''node_id''], ix_unique = False\<rparr>]"

section \<open>The migrations\<close>

definition ensure_column :: "string \<Rightarrow> col \<Rightarrow> unit sm" where
  "ensure_column table c = sbnd (colExists table (co_name c)) (\<lambda>present. if present then sret () else s_add_column table c)"

definition migrate002TOTP :: "unit sm" where
  "migrate002TOTP = sbnd (ensure_column ''users'' (opt_col ''totp_secret'' TEXT)) (\<lambda>_.
     ensure_column ''users'' (dflt_col ''totp_enabled'' INTEGER (Dflt (SInt 0))))"

definition migrate003TOTPCounter :: "unit sm" where
  "migrate003TOTPCounter = ensure_column ''users'' (dflt_col ''totp_last_counter'' INTEGER (Dflt (SInt 0)))"

definition port_proto_index :: idx where
  "port_proto_index = \<lparr>ix_name = ''idx_groups_port_proto'', ix_table = ''groups'', ix_cols = [''port'', ''proto''], ix_unique = True\<rparr>"

definition migrate004GroupsUnique :: "unit sm" where
  "migrate004GroupsUnique = sbnd (colExists ''groups'' ''port'') (\<lambda>hasPort. sbnd (colExists ''groups'' ''proto'') (\<lambda>hasProto.
     if \<not> hasPort \<or> \<not> hasProto then sret ()
     else sbnd (q_duplicates ''groups'' [''port'', ''proto'']) (\<lambda>dups.
       if 0 < dups then sret () else s_create_index port_proto_index)))"

fun ensure_columns :: "string \<Rightarrow> col list \<Rightarrow> unit sm" where
  "ensure_columns table [] = sret ()"
| "ensure_columns table (c # cs) = sbnd (ensure_column table c) (\<lambda>_. ensure_columns table cs)"

definition migrate006NodeReport :: "unit sm" where
  "migrate006NodeReport = ensure_columns ''nodes'' [opt_col ''agent_version'' TEXT, opt_col ''agent_backend'' TEXT]"

definition migrations :: "(int \<times> unit sm option) list" where
  "migrations = [(1, None), (2, Some migrate002TOTP), (3, Some migrate003TOTPCounter), (4, Some migrate004GroupsUnique),
     (5, None), (6, Some migrate006NodeReport)]"

definition CurrentSchemaVersion :: int where
  "CurrentSchemaVersion = fst (last migrations)"

definition schemaVersion :: "int sm" where
  "schemaVersion = sbnd (q_table_exists ''schema_version'') (\<lambda>present.
     sbnd (if present then sret () else s_create_table ''schema_version'' (the (map_of schemaDDL ''schema_version''))) (\<lambda>_.
     sbnd q_max_version (\<lambda>v. sret (case v of None \<Rightarrow> 0 | Some n \<Rightarrow> n))))"

definition migration_tx :: "string \<Rightarrow> int \<Rightarrow> unit sm option \<Rightarrow> unit sm" where
  "migration_tx now v apply = in_tx (sbnd (case apply of None \<Rightarrow> sret () | Some m \<Rightarrow> wrap_err (InMigration v) m) (\<lambda>_.
     s_record_version now v))"

text \<open>The versions applied are returned with the error, if any.\<close>

fun migrate_loop :: "string \<Rightarrow> int \<Rightarrow> (int \<times> unit sm option) list \<Rightarrow> int list \<Rightarrow> handle \<times> bool list \<Rightarrow>
    (int list \<times> sqlerr option) \<times> handle \<times> bool list" where
  "migrate_loop now cur [] applied s = ((applied, None), s)"
| "migrate_loop now cur ((v, apply) # ms) applied s =
     (if v \<le> cur then migrate_loop now cur ms applied s
      else (case migration_tx now v apply s of
          (Inl e, s') \<Rightarrow> ((applied, Some e), s')
        | (Inr _, s') \<Rightarrow> migrate_loop now cur ms (applied @ [v]) s'))"

definition RunMigrations :: "string \<Rightarrow> handle \<times> bool list \<Rightarrow> (int list \<times> sqlerr option) \<times> handle \<times> bool list" where
  "RunMigrations now s = (case schemaVersion s of
      (Inl e, s') \<Rightarrow> (([], Some e), s') | (Inr cur, s') \<Rightarrow> migrate_loop now cur migrations [] s')"

definition set_fresh :: "unit sm" where
  "set_fresh = (\<lambda>(h, fs). (Inr (), h\<lparr>h_fresh := True\<rparr>, fs))"

fun create_tables :: "string list \<Rightarrow> unit sm" where
  "create_tables [] = sret ()"
| "create_tables (name # names) = sbnd (q_table_exists name) (\<lambda>present.
     sbnd (if present then sret ()
           else sbnd (wrap_err (InCreate name) (s_create_table name (the (map_of schemaDDL name)))) (\<lambda>_.
             if name = ''users'' then set_fresh else sret ())) (\<lambda>_. create_tables names))"

fun create_indexes :: "idx list \<Rightarrow> unit sm" where
  "create_indexes [] = sret ()"
| "create_indexes (ix # ixs) = sbnd (s_create_index ix) (\<lambda>_. create_indexes ixs)"

definition db_Init :: "string \<Rightarrow> unit sm" where
  "db_Init now = sbnd (create_tables schemaOrder) (\<lambda>_ s. case RunMigrations now s of
      ((_, Some e), s') \<Rightarrow> (Inl e, s') | ((_, None), s') \<Rightarrow> create_indexes indexDDL s')"

end
