(* ===== verification/SchemaLaws.thy ===== *)
theory SchemaLaws
  imports Schema
begin

text \<open>
  \<open>Init\<close> never loses data, leaves a database it can work on wherever it fails, and completes it when it
  does not.  The lemmas are triples of a small logic over the statements: precondition, program, what a
  result satisfies, and what is left when a statement fails.
\<close>

section \<open>Data is kept\<close>

definition widened :: "tbl \<Rightarrow> tbl \<Rightarrow> bool" where
  "widened t t' \<longleftrightarrow> (\<exists>cs extra. tb_cols t' = tb_cols t @ cs \<and>
     tb_rows t' = map (\<lambda>r. r @ map default_cell cs) (tb_rows t) @ extra \<and>
     tb_pk t' = tb_pk t \<and> tb_auto t' = tb_auto t \<and> tb_unique t' = tb_unique t \<and> tb_refs t' = tb_refs t)"

definition keeps_table :: "string \<Rightarrow> tbl \<Rightarrow> tbl \<Rightarrow> bool" where
  "keeps_table name t t' \<longleftrightarrow> widened t t' \<and> (name \<noteq> ''schema_version'' \<longrightarrow> length (tb_rows t') = length (tb_rows t))"

definition grows :: "sqldb \<Rightarrow> sqldb \<Rightarrow> bool" where
  "grows d d' \<longleftrightarrow> (\<forall>name t. table_of d name = Some t \<longrightarrow> (\<exists>t'. table_of d' name = Some t' \<and> keeps_table name t t')) \<and>
     (\<exists>ixs. sd_indexes d' = sd_indexes d @ ixs)"

lemma widened_refl [simp]: "widened t t"
  by (auto simp: widened_def intro: exI [of _ "[]"])

lemma widened_trans: "widened t t' \<Longrightarrow> widened t' t'' \<Longrightarrow> widened t t''"
proof -
  assume "widened t t'" "widened t' t''"
  then obtain cs e cs' e' where "tb_cols t' = tb_cols t @ cs" "tb_rows t' = map (\<lambda>r. r @ map default_cell cs) (tb_rows t) @ e"
    "tb_cols t'' = tb_cols t' @ cs'" "tb_rows t'' = map (\<lambda>r. r @ map default_cell cs') (tb_rows t') @ e'"
    "tb_pk t'' = tb_pk t" "tb_auto t'' = tb_auto t" "tb_unique t'' = tb_unique t" "tb_refs t'' = tb_refs t"
    by (auto simp: widened_def)
  then show "widened t t''" unfolding widened_def
    by (intro exI [of _ "cs @ cs'"] exI [of _ "map (\<lambda>r. r @ map default_cell cs') e @ e'"]) simp
qed

lemma grows_refl [simp]: "grows d d"
  by (simp add: grows_def keeps_table_def)

lemma grows_trans: "grows d d' \<Longrightarrow> grows d' d'' \<Longrightarrow> grows d d''"
proof -
  assume a: "grows d d'" "grows d' d''"
  have "keeps_table n t t' \<Longrightarrow> keeps_table n t' t'' \<Longrightarrow> keeps_table n t t''" for n t t' t''
    by (auto simp: keeps_table_def intro: widened_trans)
  moreover have "\<exists>ixs. sd_indexes d'' = sd_indexes d @ ixs" using a by (auto simp: grows_def)
  ultimately show "grows d d''" using a unfolding grows_def by blast
qed

lemma table_of_put: "table_of d name \<noteq> None \<Longrightarrow> table_of (put_table name t d) n = (if n = name then Some t else table_of d n)"
proof -
  have "map_of (map (\<lambda>(n, x). if n = name then (n, t) else (n, x)) ts) n =
      (if n = name then (case map_of ts n of None \<Rightarrow> None | Some _ \<Rightarrow> Some t) else map_of ts n)" for ts
    by (induction ts) auto
  then show "table_of d name \<noteq> None \<Longrightarrow> table_of (put_table name t d) n = (if n = name then Some t else table_of d n)"
    by (auto simp: table_of_def put_table_def)
qed

lemma grows_put:
  assumes "table_of d name = Some t" and "keeps_table name t t'"
  shows "grows d (put_table name t' d)"
  using assms by (auto simp: grows_def table_of_put) (auto simp: put_table_def keeps_table_def)

lemma table_of_new: "table_of d name = None \<Longrightarrow> table_of (d\<lparr>sd_tables := sd_tables d @ [(name, t)]\<rparr>) n = (if n = name then Some t else table_of d n)"
  by (auto simp: table_of_def map_add_def split: option.splits)

definition all_grow :: "'a sm \<Rightarrow> bool" where
  "all_grow m \<longleftrightarrow> (\<forall>h fs r h' fs'. m (h, fs) = (r, h', fs') \<longrightarrow> grows (h_sql h) (h_sql h'))"

lemma grow_ret: "all_grow (sret a)"
  by (simp add: all_grow_def sret_def)

lemma grow_bnd: "all_grow m \<Longrightarrow> (\<And>a. all_grow (f a)) \<Longrightarrow> all_grow (sbnd m f)"
  unfolding all_grow_def sbnd_def by (fastforce split: prod.splits sum.splits intro: grows_trans)

lemma grow_wrap: "all_grow m \<Longrightarrow> all_grow (wrap_err w m)"
  unfolding all_grow_def wrap_err_def by (fastforce split: prod.splits sum.splits)

lemma grow_stmt: "(\<And>d a d'. f d = Inr (a, d') \<Longrightarrow> grows d d') \<Longrightarrow> all_grow (stmt f)"
  unfolding all_grow_def stmt_def by (auto split: if_splits sum.splits)

lemma grow_tx: "all_grow body \<Longrightarrow> all_grow (in_tx body)"
proof -
  have c: "all_grow (stmt (\<lambda>d. Inr ((), d)))" by (rule grow_stmt) simp
  have r: "all_grow m \<Longrightarrow> all_grow (\<lambda>(h, fs). case m (h, fs) of (Inl e, _, fs') \<Rightarrow> (Inl e, h, fs') | (Inr u, s') \<Rightarrow> (Inr u, s'))" for m :: "unit sm"
    unfolding all_grow_def by (auto split: prod.splits sum.splits)
  assume "all_grow body"
  then have "all_grow (sbnd body (\<lambda>_. stmt (\<lambda>d. Inr ((), d))))" using c by (rule grow_bnd)
  from grow_bnd [OF c r [OF this]] show "all_grow (in_tx body)" unfolding in_tx_def .
qed

lemma grow_if: "all_grow m \<Longrightarrow> all_grow n \<Longrightarrow> all_grow (if b then m else n)"
  by simp

lemmas grow_rules = grow_ret grow_bnd grow_wrap grow_tx grow_if

lemma grow_steps:
  "all_grow (q_table_exists n)" "all_grow (colExists n c)" "all_grow (s_create_table n t)" "all_grow (s_add_column n co)"
  "all_grow (q_duplicates n cs)" "all_grow (s_create_index ix)" "all_grow q_max_version" "all_grow (s_record_version now v)"
proof -
  show "all_grow (q_table_exists n)" unfolding q_table_exists_def by (rule grow_stmt) simp
  show "all_grow (colExists n c)" unfolding colExists_def by (rule grow_stmt) simp
  show "all_grow (s_create_table n t)" unfolding s_create_table_def
    by (rule grow_stmt) (auto simp: grows_def table_of_new keeps_table_def split: if_splits)
  show "all_grow (s_add_column n co)" unfolding s_add_column_def
  proof (rule grow_stmt, goal_cases)
    case (1 d a d')
    then obtain t where "table_of d n = Some t" "d' = put_table n (add_col co t) d" by (auto split: option.splits if_splits)
    moreover have "keeps_table n t (add_col co t)"
      by (auto simp: keeps_table_def widened_def add_col_def intro!: exI [of _ "[co]"])
    ultimately show ?case using grows_put by blast
  qed
  show "all_grow (q_duplicates n cs)" unfolding q_duplicates_def by (rule grow_stmt) (auto split: option.splits if_splits)
  show "all_grow (s_create_index ix)" unfolding s_create_index_def
    by (rule grow_stmt) (auto simp: grows_def keeps_table_def table_of_def split: option.splits if_splits)
  show "all_grow q_max_version" unfolding q_max_version_def by (rule grow_stmt) (auto split: option.splits if_splits)
  show "all_grow (s_record_version now v)" unfolding s_record_version_def
  proof (rule grow_stmt, goal_cases)
    case (1 d a d')
    then obtain t where t: "table_of d ''schema_version'' = Some t"
      "d' = d \<or> d' = put_table ''schema_version'' (t\<lparr>tb_rows := tb_rows t @ [version_row now v t]\<rparr>) d"
      by (auto split: option.splits if_splits)
    have "keeps_table ''schema_version'' t (t\<lparr>tb_rows := tb_rows t @ [version_row now v t]\<rparr>)"
      by (auto simp: keeps_table_def widened_def intro!: exI [of _ "[]"])
    with t grows_put show ?case by auto
  qed
qed

lemma grow_parts:
  "all_grow (ensure_column n c)" "all_grow migrate002TOTP" "all_grow migrate003TOTPCounter" "all_grow migrate004GroupsUnique"
  "all_grow (ensure_columns n cs)" "all_grow migrate006NodeReport" "all_grow schemaVersion" "all_grow (create_tables names)"
  "all_grow (create_indexes ixs)"
proof -
  show e: "all_grow (ensure_column n c)" for n c by (simp add: ensure_column_def grow_rules grow_steps)
  show "all_grow migrate002TOTP" "all_grow migrate003TOTPCounter" by (simp_all add: migrate002TOTP_def migrate003TOTPCounter_def grow_rules e)
  show "all_grow migrate004GroupsUnique" unfolding migrate004GroupsUnique_def by (intro grow_rules grow_steps)
  show es: "all_grow (ensure_columns n cs)" for n cs by (induction cs) (simp_all add: grow_rules e)
  show "all_grow migrate006NodeReport" by (simp add: migrate006NodeReport_def es del: ensure_columns.simps)
  show "all_grow schemaVersion" unfolding schemaVersion_def by (intro grow_rules grow_steps)
  have "all_grow set_fresh" by (simp add: all_grow_def set_fresh_def)
  then show "all_grow (create_tables names)" by (induction names) (auto intro!: grow_rules grow_steps)
  show "all_grow (create_indexes ixs)" by (induction ixs) (simp_all add: grow_rules grow_steps)
qed

lemma grow_migration_tx:
  assumes "case act of None \<Rightarrow> True | Some m \<Rightarrow> all_grow m"
  shows "all_grow (migration_tx now v act)"
  unfolding migration_tx_def
proof (intro grow_tx grow_bnd grow_steps)
  show "all_grow (case act of None \<Rightarrow> sret () | Some m \<Rightarrow> wrap_err (InMigration v) m)"
    using assms by (cases act) (simp_all add: grow_ret grow_wrap)
qed

lemma grow_migrations:
  assumes "\<forall>(v, act) \<in> set ms. case act of None \<Rightarrow> True | Some m \<Rightarrow> all_grow m"
    and "migrate_loop now cur ms applied (h, fs) = (r, h', fs')"
  shows "grows (h_sql h) (h_sql h')"
  using assms
proof (induction now cur ms applied "(h, fs)" arbitrary: h fs rule: migrate_loop.induct)
  case (2 now cur v act ms applied)
  show ?case
  proof (cases "v \<le> cur")
    case True
    then show ?thesis using 2 by simp
  next
    case False
    obtain x h1 fs1 where x: "migration_tx now v act (h, fs) = (x, h1, fs1)" by (cases "migration_tx now v act (h, fs)") auto
    have "all_grow (migration_tx now v act)"
      using 2(3) by (intro grow_migration_tx) simp
    then have g: "grows (h_sql h) (h_sql h1)" using x unfolding all_grow_def by blast
    show ?thesis
    proof (cases x)
      case (Inl e)
      then show ?thesis using 2(4) False x g by simp
    next
      case (Inr u)
      then have "migrate_loop now cur ms (applied @ [v]) (h1, fs1) = (r, h', fs')" using 2(4) False x by simp
      with 2(2) [OF False x [symmetric] Inr] 2(3) have "grows (h_sql h1) (h_sql h')" by simp
      with g show ?thesis by (rule grows_trans)
    qed
  qed
qed simp

lemma grow_Init: "all_grow (db_Init now)"
  unfolding db_Init_def
proof (rule grow_bnd)
  show "all_grow (create_tables schemaOrder)" by (rule grow_parts)
  have m: "\<forall>(v, apply) \<in> set migrations. case apply of None \<Rightarrow> True | Some m \<Rightarrow> all_grow m"
    by (simp add: migrations_def grow_parts)
  have run: "grows (h_sql h) (h_sql h')" if "RunMigrations now (h, fs) = (r, h', fs')" for h fs r h' fs'
  proof -
    obtain x h1 fs1 where x: "schemaVersion (h, fs) = (x, h1, fs1)" by (cases "schemaVersion (h, fs)") auto
    have g: "grows (h_sql h) (h_sql h1)" using grow_parts(7) x unfolding all_grow_def by blast
    then show ?thesis using that x grow_migrations [OF m, of now _ "[]" h1 fs1 r h' fs'] grows_trans [OF g]
      by (auto simp: RunMigrations_def split: sum.splits)
  qed
  have ix: "all_grow (create_indexes indexDDL)" by (rule grow_parts)
  show "all_grow (\<lambda>s. case RunMigrations now s of ((_, Some e), s') \<Rightarrow> (Inl e, s') | ((_, None), s') \<Rightarrow> create_indexes indexDDL s')" for a :: unit
    unfolding all_grow_def
  proof (intro allI impI)
    fix h fs r h' fs'
    assume a: "(case RunMigrations now (h, fs) of ((_, Some e), s') \<Rightarrow> (Inl e, s') | ((_, None), s') \<Rightarrow> create_indexes indexDDL s') = (r, h', fs')"
    obtain l e h1 fs1 where x: "RunMigrations now (h, fs) = ((l, e), h1, fs1)" by (metis prod.collapse)
    show "grows (h_sql h) (h_sql h')"
    proof (cases e)
      case None
      then have "create_indexes indexDDL (h1, fs1) = (r, h', fs')" using a x by simp
      then show ?thesis using ix run [OF x] grows_trans unfolding all_grow_def by blast
    next
      case (Some e')
      then show ?thesis using a x run [OF x] by simp
    qed
  qed
qed

text \<open>C38. \<open>Init\<close> never loses data.  Whatever statement fails and whatever the database was, afterwards every table is
  still there with its keys and references, its columns in place (new ones behind them) and every row it had,
  unchanged and in order, with the default in each new column; only \<open>schema_version\<close> may have gained rows, and no
  index is dropped.\<close>

theorem Init_keeps_data:
  assumes "db_Init now (h, fs) = (r, h', fs')"
  shows "grows (h_sql h) (h_sql h')"
  using grow_Init assms unfolding all_grow_def by blast

definition old_sqldb :: sqldb where
  "old_sqldb = \<lparr>sd_tables = [(''users'', id_table [req_col ''username'' TEXT, req_col ''secret'' TEXT, created_at] [[''username'']] []
       \<lparr>tb_rows := [[SInt 1, SText ''ann'', SText ''s'', SText ''2024'']]\<rparr>)], sd_indexes = []\<rparr>"

definition old_handle :: handle where
  "old_handle = \<lparr>h_sql = old_sqldb, h_fresh = False\<rparr>"

theorem Init_keeps_data_witness:
  "\<exists>t. table_of (h_sql (fst (snd (db_Init ''now'' (old_handle, [False, False, True]))))) ''users'' = Some t \<and>
     take 4 (hd (tb_rows t)) = [SInt 1, SText ''ann'', SText ''s'', SText ''2024'']"
proof -
  obtain r h' fs' where r: "db_Init ''now'' (old_handle, [False, False, True]) = (r, h', fs')" by (metis prod.collapse)
  obtain t where t: "table_of (h_sql old_handle) ''users'' = Some t" "length (tb_rows t) = 1"
    "tb_rows t = [[SInt 1, SText ''ann'', SText ''s'', SText ''2024'']]"
    by (simp add: old_handle_def old_sqldb_def table_of_def)
  from Init_keeps_data [OF r] t obtain t' where "table_of (h_sql h') ''users'' = Some t'" "keeps_table ''users'' t t'"
    unfolding grows_def by blast
  then show ?thesis using t(3) r by (auto simp: keeps_table_def widened_def)
qed

section \<open>A logic of statements\<close>

definition triple :: "(sqldb \<Rightarrow> bool) \<Rightarrow> 'a sm \<Rightarrow> ('a \<Rightarrow> sqldb \<Rightarrow> bool) \<Rightarrow> (sqldb \<Rightarrow> bool) \<Rightarrow> bool" where
  "triple P m Q E \<longleftrightarrow> (\<forall>h fs. P (h_sql h) \<longrightarrow> (case m (h, fs) of (r, h', fs') \<Rightarrow> set fs' \<subseteq> set fs \<and>
     (case r of Inl _ \<Rightarrow> E (h_sql h') \<and> True \<in> set fs | Inr a \<Rightarrow> Q a (h_sql h'))))"

lemma triple_ret: "(\<And>d. P d \<Longrightarrow> Q a d) \<Longrightarrow> triple P (sret a) Q E"
  by (simp add: triple_def sret_def)

lemma triple_ends:
  assumes "triple P m Q E" and "P (h_sql h)" and "m (h, fs) = (r, h', fs')"
  shows "set fs' \<subseteq> set fs" and "r = Inl e \<Longrightarrow> E (h_sql h') \<and> True \<in> set fs" and "r = Inr a \<Longrightarrow> Q a (h_sql h')"
  using assms(1) [unfolded triple_def, rule_format, OF assms(2), of fs] assms(3) by auto

lemma tripleI:
  assumes "\<And>h fs r h' fs'. P (h_sql h) \<Longrightarrow> m (h, fs) = (r, h', fs') \<Longrightarrow> set fs' \<subseteq> set fs \<and>
    (case r of Inl _ \<Rightarrow> E (h_sql h') \<and> True \<in> set fs | Inr a \<Rightarrow> Q a (h_sql h'))"
  shows "triple P m Q E"
  unfolding triple_def using assms by (auto split: prod.splits)

lemma triple_bnd:
  assumes "triple P m R E" and "\<And>a. triple (R a) (f a) Q E"
  shows "triple P (sbnd m f) Q E"
proof (rule tripleI)
  fix h fs r h' fs' assume p: "P (h_sql h)" and run: "sbnd m f (h, fs) = (r, h', fs')"
  obtain x h1 fs1 where x: "m (h, fs) = (x, h1, fs1)" by (metis prod.collapse)
  note 1 = triple_ends [OF assms(1) p x]
  show "set fs' \<subseteq> set fs \<and> (case r of Inl _ \<Rightarrow> E (h_sql h') \<and> True \<in> set fs | Inr a \<Rightarrow> Q a (h_sql h'))"
  proof (cases x)
    case (Inl e)
    then show ?thesis using run x 1(1) 1(2) [OF Inl] by (auto simp: sbnd_def)
  next
    case (Inr a)
    then have f: "f a (h1, fs1) = (r, h', fs')" using run x by (simp add: sbnd_def)
    note 2 = triple_ends [OF assms(2) [of a] 1(3) [OF Inr] f]
    show ?thesis using 1(1) 2 by (cases r) auto
  qed
qed

lemma triple_conseq:
  assumes "triple P m Q E" and "\<And>d. P' d \<Longrightarrow> P d" and "\<And>a d. Q a d \<Longrightarrow> Q' a d" and "\<And>d. E d \<Longrightarrow> E' d"
  shows "triple P' m Q' E'"
proof (rule tripleI)
  fix h fs r h' fs' assume p: "P' (h_sql h)" and run: "m (h, fs) = (r, h', fs')"
  note 1 = triple_ends [OF assms(1) assms(2) [OF p] run]
  then show "set fs' \<subseteq> set fs \<and> (case r of Inl _ \<Rightarrow> E' (h_sql h') \<and> True \<in> set fs | Inr a \<Rightarrow> Q' a (h_sql h'))"
    using assms(3,4) by (cases r) auto
qed

lemma triple_stmt:
  assumes "\<And>d. P d \<Longrightarrow> E d" and "\<And>d. P d \<Longrightarrow> \<exists>a d'. f d = Inr (a, d') \<and> Q a d'"
  shows "triple P (stmt f) Q E"
proof -
  have t: "set (tl fs) \<subseteq> set fs" "fs \<noteq> [] \<Longrightarrow> hd fs \<Longrightarrow> True \<in> set fs" for fs :: "bool list" by (cases fs; auto)+
  show ?thesis
  proof (rule tripleI)
    fix h fs r h' fs' assume p: "P (h_sql h)" and run: "stmt f (h, fs) = (r, h', fs')"
    obtain a d' where "f (h_sql h) = Inr (a, d')" "Q a d'" using assms(2) [OF p] by blast
    then show "set fs' \<subseteq> set fs \<and> (case r of Inl _ \<Rightarrow> E (h_sql h') \<and> True \<in> set fs | Inr a \<Rightarrow> Q a (h_sql h'))"
      using run t [of fs] assms(1) [OF p] by (auto simp: stmt_def split: if_splits)
  qed
qed

lemma triple_wrap:
  assumes "triple P m Q E"
  shows "triple P (wrap_err w m) Q E"
proof (rule tripleI)
  fix h fs r h' fs' assume p: "P (h_sql h)" and run: "wrap_err w m (h, fs) = (r, h', fs')"
  obtain x h1 fs1 where x: "m (h, fs) = (x, h1, fs1)" by (metis prod.collapse)
  note 1 = triple_ends [OF assms p x]
  then show "set fs' \<subseteq> set fs \<and> (case r of Inl _ \<Rightarrow> E (h_sql h') \<and> True \<in> set fs | Inr a \<Rightarrow> Q a (h_sql h'))"
    using run x by (cases x) (auto simp: wrap_err_def)
qed

lemma triple_if: "(b \<Longrightarrow> triple P m Q E) \<Longrightarrow> (\<not> b \<Longrightarrow> triple P n Q E) \<Longrightarrow> triple P (if b then m else n) Q E"
  by simp

lemma triple_tx:
  assumes "triple P body (\<lambda>_. Q) (\<lambda>_. True)" and "\<And>d. P d \<Longrightarrow> E d"
  shows "triple P (in_tx body) (\<lambda>_. Q) E"
proof -
  have "triple Q (stmt (\<lambda>d. Inr ((), d))) (\<lambda>_. Q) (\<lambda>_. True)" by (rule triple_stmt) simp_all
  then have b: "triple P (sbnd body (\<lambda>_. stmt (\<lambda>d. Inr ((), d)))) (\<lambda>_. Q) (\<lambda>_. True)" using assms(1) by (rule triple_bnd [rotated])
  have "triple P (\<lambda>(h, fs). case m (h, fs) of (Inl e, _, fs') \<Rightarrow> (Inl e, h, fs') | (Inr u, s') \<Rightarrow> (Inr u, s')) (\<lambda>_. Q) E"
    if "triple P m (\<lambda>_. Q) (\<lambda>_. True)" for m :: "unit sm"
  proof (rule tripleI)
    fix h fs r h' fs' assume p: "P (h_sql h)"
      and run: "(case (h, fs) of (h, fs) \<Rightarrow> case m (h, fs) of (Inl e, _, fs') \<Rightarrow> (Inl e, h, fs') | (Inr u, s') \<Rightarrow> (Inr u, s')) = (r, h', fs')"
    obtain x h1 fs1 where x: "m (h, fs) = (x, h1, fs1)" by (metis prod.collapse)
    note 1 = triple_ends [OF that p x]
    then show "set fs' \<subseteq> set fs \<and> (case r of Inl _ \<Rightarrow> E (h_sql h') \<and> True \<in> set fs | Inr a \<Rightarrow> Q (h_sql h'))"
      using run x assms(2) [OF p] by (cases x) auto
  qed
  from this [OF b] have "triple P (\<lambda>(h, fs). case sbnd body (\<lambda>_. stmt (\<lambda>d. Inr ((), d))) (h, fs) of
      (Inl e, _, fs') \<Rightarrow> (Inl e, h, fs') | (Inr u, s') \<Rightarrow> (Inr u, s')) (\<lambda>_. Q) E" .
  moreover have "triple P (stmt (\<lambda>d. Inr ((), d))) (\<lambda>_. P) E" by (rule triple_stmt) (simp_all add: assms(2))
  ultimately show ?thesis unfolding in_tx_def by (rule triple_bnd [rotated])
qed

section \<open>Databases \<open>Init\<close> can bring up to date\<close>

definition present :: "sqldb \<Rightarrow> string \<Rightarrow> bool" where
  "present d n \<longleftrightarrow> table_of d n \<noteq> None"

text \<open>Columns that a table has if it exists.\<close>

definition holds :: "sqldb \<Rightarrow> string \<times> string \<Rightarrow> bool" where
  "holds d x \<longleftrightarrow> (case table_of d (fst x) of None \<Rightarrow> True | Some t \<Rightarrow> snd x \<in> set (col_names t))"

definition has :: "sqldb \<Rightarrow> (string \<times> string) list \<Rightarrow> bool" where
  "has d cs \<longleftrightarrow> list_all (holds d) cs"

text \<open>The columns that a database at version \<open>v\<close> has, and those of the indexes.\<close>

definition cols_upto :: "int \<Rightarrow> (string \<times> string) list" where
  "cols_upto v = (if 2 \<le> v then [(''users'', ''totp_secret''), (''users'', ''totp_enabled'')] else []) @
     (if 3 \<le> v then [(''users'', ''totp_last_counter'')] else []) @
     (if 6 \<le> v then [(''nodes'', ''agent_version''), (''nodes'', ''agent_backend'')] else [])"

definition index_cols :: "(string \<times> string) list" where
  "index_cols = (''schema_version'', ''version'') # concat (map (\<lambda>ix. map (Pair (ix_table ix)) (ix_cols ix)) indexDDL)"

definition recorded :: "sqldb \<Rightarrow> int list" where
  "recorded d = (case table_of d ''schema_version'' of None \<Rightarrow> [] | Some t \<Rightarrow> versions t)"

text \<open>A database some release made: what its versions promise is there, and so are the columns of the indexes.\<close>

definition upgradable :: "sqldb \<Rightarrow> bool" where
  "upgradable d \<longleftrightarrow> (\<forall>v \<in> set (recorded d). has d (cols_upto v)) \<and> has d index_cols"

definition complete :: "sqldb \<Rightarrow> bool" where
  "complete d \<longleftrightarrow> upgradable d \<and> (\<forall>n \<in> set schemaOrder. present d n) \<and> has d (cols_upto CurrentSchemaVersion) \<and>
     (\<exists>v \<in> set (recorded d). CurrentSchemaVersion \<le> v) \<and> ix_name ` set indexDDL \<subseteq> ix_name ` set (sd_indexes d)"

text \<open>All tables are there, some columns, and exactly the versions \<open>R\<close> are recorded.\<close>

definition stage :: "(string \<times> string) list \<Rightarrow> int list \<Rightarrow> sqldb \<Rightarrow> bool" where
  "stage cs R d \<longleftrightarrow> upgradable d \<and> (\<forall>n \<in> set schemaOrder. present d n) \<and> has d cs \<and> recorded d = R"

lemma has_subset: "has d cs \<Longrightarrow> set cs' \<subseteq> set cs \<Longrightarrow> has d cs'"
  unfolding has_def list_all_iff by blast

lemma has_mono: "has d cs \<Longrightarrow> (\<And>x. holds d x \<Longrightarrow> holds d' x) \<Longrightarrow> has d' cs"
  by (simp add: has_def list_all_iff)

lemma cols_upto_mono: "v \<le> w \<Longrightarrow> set (cols_upto v) \<subseteq> set (cols_upto w)"
proof -
  have "v \<le> w \<Longrightarrow> set ((if 2 \<le> v then A else []) @ (if 3 \<le> v then B else []) @ (if 6 \<le> v then C else [])) \<subseteq>
      set ((if 2 \<le> w then A else []) @ (if 3 \<le> w then B else []) @ (if 6 \<le> w then C else []))" for A B C :: "(string \<times> string) list"
    by auto
  then show "v \<le> w \<Longrightarrow> set (cols_upto v) \<subseteq> set (cols_upto w)" unfolding cols_upto_def by blast
qed

lemma put_col:
  assumes "table_of d n = Some t"
  shows "holds (put_table n (add_col c t) d) x \<longleftrightarrow> x = (n, co_name c) \<or> holds d x"
    and "present (put_table n (add_col c t) d) m \<longleftrightarrow> present d m"
    and "n \<noteq> ''schema_version'' \<Longrightarrow> recorded (put_table n (add_col c t) d) = recorded d"
proof -
  have t: "table_of (put_table n (add_col c t) d) m = (if m = n then Some (add_col c t) else table_of d m)" for m
    using table_of_put [of d n "add_col c t"] assms by simp
  have s: "set (col_names (add_col c t)) = insert (co_name c) (set (col_names t))" by (auto simp: col_names_def add_col_def)
  show "holds (put_table n (add_col c t) d) x \<longleftrightarrow> x = (n, co_name c) \<or> holds d x"
    using assms by (cases x) (auto simp: holds_def t s)
  show "present (put_table n (add_col c t) d) m \<longleftrightarrow> present d m" using assms by (simp add: present_def t)
  show "n \<noteq> ''schema_version'' \<Longrightarrow> recorded (put_table n (add_col c t) d) = recorded d" by (simp add: recorded_def t)
qed

lemma stage_put_col:
  assumes "stage cs R d" and "table_of d n = Some t" and "n \<noteq> ''schema_version''"
  shows "stage ((n, co_name c) # cs) R (put_table n (add_col c t) d)"
proof -
  let ?d = "put_table n (add_col c t) d"
  have m: "has d xs \<Longrightarrow> has ?d xs" for xs by (erule has_mono) (simp add: put_col(1) [OF assms(2)])
  have "has ?d ((n, co_name c) # cs)" using m assms(1) by (simp add: has_def stage_def put_col(1) [OF assms(2)])
  then show ?thesis using assms(1) m by (simp add: stage_def upgradable_def put_col(2,3) [OF assms(2)] assms(3))
qed

text \<open>Adding a column that may be there already.\<close>

lemma triple_ensure:
  assumes "n \<noteq> ''schema_version''" and "n \<in> set schemaOrder" and "\<not> co_notnull c \<or> default_cell c \<noteq> SNull"
  shows "triple (stage cs R) (ensure_column n c) (\<lambda>_. stage ((n, co_name c) # cs) R) (\<lambda>_. True)"
  unfolding ensure_column_def
proof (rule triple_bnd)
  let ?Q = "\<lambda>b d. stage cs R d \<and> (b = (\<exists>t. table_of d n = Some t \<and> co_name c \<in> set (col_names t)))"
  show "triple (stage cs R) (colExists n (co_name c)) ?Q (\<lambda>_. True)"
    unfolding colExists_def by (rule triple_stmt) (auto split: option.splits)
  fix b :: bool
  show "triple (?Q b) (if b then sret () else s_add_column n c) (\<lambda>_. stage ((n, co_name c) # cs) R) (\<lambda>_. True)"
  proof (rule triple_if)
    show "b \<Longrightarrow> triple (?Q b) (sret ()) (\<lambda>_. stage ((n, co_name c) # cs) R) (\<lambda>_. True)"
      by (rule triple_ret) (auto simp: stage_def has_def holds_def)
    assume nb: "\<not> b"
    show "triple (?Q b) (s_add_column n c) (\<lambda>_. stage ((n, co_name c) # cs) R) (\<lambda>_. True)"
      unfolding s_add_column_def
    proof (rule triple_stmt)
      fix d assume p: "?Q b d"
      then have "present d n" using assms(2) unfolding stage_def by blast
      then obtain t where t: "table_of d n = Some t" by (auto simp: present_def)
      with p nb stage_put_col [OF _ t assms(1)] show "\<exists>a d'. (case table_of d n of None \<Rightarrow> Inl (NoTable n)
          | Some t \<Rightarrow> if co_name c \<in> set (col_names t) then Inl (DuplicateColumn (co_name c))
          else if co_notnull c \<and> default_cell c = SNull then Inl (NoDefaultGiven (co_name c))
          else Inr ((), put_table n (add_col c t) d)) = Inr (a, d') \<and> stage ((n, co_name c) # cs) R d'"
        using assms(3) by auto
    qed simp
  qed
qed

lemma triple_002: "triple (stage cs R) migrate002TOTP (\<lambda>_. stage ((''users'', ''totp_enabled'') # (''users'', ''totp_secret'') # cs) R) (\<lambda>_. True)"
proof -
  have "triple (stage cs R) (ensure_column ''users'' (opt_col ''totp_secret'' TEXT)) (\<lambda>_. stage ((''users'', ''totp_secret'') # cs) R) (\<lambda>_. True)"
    using triple_ensure [of "''users''" "opt_col ''totp_secret'' TEXT"] by (simp add: schemaOrder_def opt_col_def)
  moreover have "triple (stage cs' R) (ensure_column ''users'' (dflt_col ''totp_enabled'' INTEGER (Dflt (SInt 0))))
      (\<lambda>_. stage ((''users'', ''totp_enabled'') # cs') R) (\<lambda>_. True)" for cs'
    using triple_ensure [of "''users''" "dflt_col ''totp_enabled'' INTEGER (Dflt (SInt 0))"]
    by (simp add: schemaOrder_def dflt_col_def default_cell_def)
  ultimately show ?thesis unfolding migrate002TOTP_def by (rule triple_bnd)
qed

lemma triple_003: "triple (stage cs R) migrate003TOTPCounter (\<lambda>_. stage ((''users'', ''totp_last_counter'') # cs) R) (\<lambda>_. True)"
  unfolding migrate003TOTPCounter_def
  using triple_ensure [of "''users''" "dflt_col ''totp_last_counter'' INTEGER (Dflt (SInt 0))"]
  by (simp add: schemaOrder_def dflt_col_def default_cell_def)

lemma triple_006: "triple (stage cs R) migrate006NodeReport
    (\<lambda>_. stage ((''nodes'', ''agent_backend'') # (''nodes'', ''agent_version'') # cs) R) (\<lambda>_. True)"
proof -
  have e: "triple (stage cs' R) (ensure_column ''nodes'' (opt_col name TEXT)) (\<lambda>_. stage ((''nodes'', name) # cs') R) (\<lambda>_. True)" for cs' name
    using triple_ensure [of "''nodes''" "opt_col name TEXT"] by (simp add: schemaOrder_def opt_col_def)
  have "triple P (sret ()) (\<lambda>_. P) (\<lambda>_. True)" for P by (rule triple_ret)
  then show ?thesis unfolding migrate006NodeReport_def ensure_columns.simps by (intro triple_bnd [OF e]) 
qed

lemma dup_groups_none:
  assumes "\<not> 0 < dup_groups t cs"
  shows "distinct (map (cells t cs) (tb_rows t))"
proof -
  let ?vs = "map (cells t cs) (tb_rows t)"
  have "filter (\<lambda>v. 1 < count_list ?vs v) (remdups ?vs) = []" using assms by (simp add: dup_groups_def Let_def)
  then have one: "v \<in> set ?vs \<Longrightarrow> count_list ?vs v \<le> 1" for v by (auto simp: filter_empty_conv not_less)
  have "(\<forall>v \<in> set vs. count_list vs v \<le> 1) \<Longrightarrow> distinct vs" for vs :: "sval list list"
  proof (induction vs)
    case (Cons v vs)
    have "count_list vs v = 0" using Cons.prems by simp
    moreover have "count_list vs w \<le> count_list (v # vs) w" for w by simp
    then have "\<forall>w \<in> set vs. count_list vs w \<le> 1" using Cons.prems by (meson le_trans list.set_intros(2))
    ultimately show ?case using Cons.IH by (simp add: count_list_0_iff)
  qed simp
  then show ?thesis using one by blast
qed

lemma stage_index: "stage cs R (d\<lparr>sd_indexes := x\<rparr>) = stage cs R d"
  by (simp add: stage_def upgradable_def has_def holds_def [abs_def] present_def recorded_def table_of_def)

lemma triple_004: "triple (stage cs R) migrate004GroupsUnique (\<lambda>_. stage cs R) (\<lambda>_. True)"
  unfolding migrate004GroupsUnique_def
proof (rule triple_bnd)
  let ?has = "\<lambda>c d. \<exists>t. table_of d ''groups'' = Some t \<and> c \<in> set (col_names t)"
  show "triple (stage cs R) (colExists ''groups'' ''port'') (\<lambda>b d. stage cs R d \<and> b = ?has ''port'' d) (\<lambda>_. True)"
    unfolding colExists_def by (rule triple_stmt) (auto split: option.splits)
  fix b :: bool
  show "triple (\<lambda>d. stage cs R d \<and> b = ?has ''port'' d) (sbnd (colExists ''groups'' ''proto'') (\<lambda>hasProto.
     if \<not> b \<or> \<not> hasProto then sret ()
     else sbnd (q_duplicates ''groups'' [''port'', ''proto'']) (\<lambda>dups.
       if 0 < dups then sret () else s_create_index port_proto_index))) (\<lambda>_. stage cs R) (\<lambda>_. True)"
  proof (rule triple_bnd)
    show "triple (\<lambda>d. stage cs R d \<and> b = ?has ''port'' d) (colExists ''groups'' ''proto'')
        (\<lambda>b' d. stage cs R d \<and> b = ?has ''port'' d \<and> b' = ?has ''proto'' d) (\<lambda>_. True)"
      unfolding colExists_def by (rule triple_stmt) (auto split: option.splits)
    fix b' :: bool
    let ?P = "\<lambda>d. stage cs R d \<and> b = ?has ''port'' d \<and> b' = ?has ''proto'' d"
    show "triple ?P (if \<not> b \<or> \<not> b' then sret ()
       else sbnd (q_duplicates ''groups'' [''port'', ''proto'']) (\<lambda>dups.
         if 0 < dups then sret () else s_create_index port_proto_index)) (\<lambda>_. stage cs R) (\<lambda>_. True)"
    proof (rule triple_if)
      show "triple ?P (sret ()) (\<lambda>_. stage cs R) (\<lambda>_. True)" by (rule triple_ret) simp
      assume "\<not> (\<not> b \<or> \<not> b')"
      then have bb: "b" "b'" by simp_all
      show "triple ?P (sbnd (q_duplicates ''groups'' [''port'', ''proto'']) (\<lambda>dups.
         if 0 < dups then sret () else s_create_index port_proto_index)) (\<lambda>_. stage cs R) (\<lambda>_. True)"
      proof (rule triple_bnd)
        let ?R = "\<lambda>n d. stage cs R d \<and> (\<exists>t. table_of d ''groups'' = Some t \<and> {''port'', ''proto''} \<subseteq> set (col_names t) \<and> n = dup_groups t [''port'', ''proto''])"
        show "triple ?P (q_duplicates ''groups'' [''port'', ''proto'']) ?R (\<lambda>_. True)"
          unfolding q_duplicates_def by (rule triple_stmt) (use bb in auto)
        fix n :: int
        show "triple (?R n) (if 0 < n then sret () else s_create_index port_proto_index) (\<lambda>_. stage cs R) (\<lambda>_. True)"
        proof (rule triple_if)
          show "triple (?R n) (sret ()) (\<lambda>_. stage cs R) (\<lambda>_. True)" by (rule triple_ret) simp
          assume n: "\<not> 0 < n"
          show "triple (?R n) (s_create_index port_proto_index) (\<lambda>_. stage cs R) (\<lambda>_. True)"
            unfolding s_create_index_def
          proof (rule triple_stmt)
            fix d assume p: "?R n d"
            then obtain t where t: "table_of d ''groups'' = Some t" "{''port'', ''proto''} \<subseteq> set (col_names t)" "n = dup_groups t [''port'', ''proto'']"
              by blast
            have "distinct (filter (\<lambda>v. SNull \<notin> set v) (map (cells t (ix_cols port_proto_index)) (tb_rows t)))"
              using dup_groups_none n t(3) by (simp add: port_proto_index_def distinct_filter)
            moreover have "table_of d (ix_table port_proto_index) = Some t" "set (ix_cols port_proto_index) \<subseteq> set (col_names t)"
              using t by (simp_all add: port_proto_index_def)
            ultimately show "\<exists>a d'. (if ix_name port_proto_index \<in> ix_name ` set (sd_indexes d) then Inr ((), d)
              else case table_of d (ix_table port_proto_index) of None \<Rightarrow> Inl (NoTable (ix_table port_proto_index))
              | Some t \<Rightarrow> if \<not> set (ix_cols port_proto_index) \<subseteq> set (col_names t) then Inl (NoColumn (ix_name port_proto_index))
                else if ix_unique port_proto_index \<and> \<not> distinct (filter (\<lambda>v. SNull \<notin> set v) (map (cells t (ix_cols port_proto_index)) (tb_rows t)))
                then Inl (NotUnique (ix_name port_proto_index))
                else Inr ((), d\<lparr>sd_indexes := sd_indexes d @ [port_proto_index]\<rparr>)) = Inr (a, d') \<and> stage cs R d'"
              using p by (simp add: stage_index)
          qed simp
        qed
      qed
    qed
  qed
qed

section \<open>The migrations complete\<close>

definition with_version :: "int \<Rightarrow> int list \<Rightarrow> int list" where
  "with_version v R = (if v \<in> set R then R else R @ [v])"

lemma version_cell: "''version'' \<in> set (col_names t) \<Longrightarrow> cells t [''version''] (version_row now v t) = [SInt v]"
proof -
  have "n \<in> set (map co_name cs) \<Longrightarrow> (\<And>c. co_name c = n \<Longrightarrow> g c = x) \<Longrightarrow> map_of (zip (map co_name cs) (map g cs)) n = Some x"
    for n :: string and cs and g :: "col \<Rightarrow> sval" and x by (induction cs) auto
  then show "''version'' \<in> set (col_names t) \<Longrightarrow> cells t [''version''] (version_row now v t) = [SInt v]"
    by (simp add: cells_def col_names_def version_row_def)
qed

lemma recorded_put:
  assumes "table_of d ''schema_version'' = Some t" and "''version'' \<in> set (col_names t)"
  shows "recorded (put_table ''schema_version'' (t\<lparr>tb_rows := tb_rows t @ [version_row now v t]\<rparr>) d) = recorded d @ [v]"
    and "has (put_table ''schema_version'' (t\<lparr>tb_rows := rs\<rparr>) d) cs = has d cs"
    and "present (put_table ''schema_version'' (t\<lparr>tb_rows := rs\<rparr>) d) n = present d n"
proof -
  have t: "table_of (put_table ''schema_version'' x d) m = (if m = ''schema_version'' then Some x else table_of d m)" for m x
    using table_of_put [of d "''schema_version''" x] assms(1) by simp
  have c: "col_names (t\<lparr>tb_rows := rs\<rparr>) = col_names t" "cells (t\<lparr>tb_rows := rs\<rparr>) = cells t" for rs
    by (simp_all add: col_names_def cells_def fun_eq_iff)
  show "recorded (put_table ''schema_version'' (t\<lparr>tb_rows := tb_rows t @ [version_row now v t]\<rparr>) d) = recorded d @ [v]"
    using assms version_cell [OF assms(2)] by (simp add: recorded_def t versions_def c cell_ints_def)
  have "holds (put_table ''schema_version'' (t\<lparr>tb_rows := rs\<rparr>) d) x = holds d x" for x
    using assms(1) by (auto simp: holds_def t c)
  then show "has (put_table ''schema_version'' (t\<lparr>tb_rows := rs\<rparr>) d) cs = has d cs" by (simp add: has_def list_all_iff)
  show "present (put_table ''schema_version'' (t\<lparr>tb_rows := rs\<rparr>) d) n = present d n" using assms(1) by (simp add: present_def t)
qed

lemma triple_record: "triple (stage (cols_upto v) R) (s_record_version now v) (\<lambda>_. stage (cols_upto v) (with_version v R)) (\<lambda>_. True)"
  unfolding s_record_version_def
proof (rule triple_stmt)
  fix d assume s: "stage (cols_upto v) R d"
  then have "present d ''schema_version''" by (simp add: stage_def schemaOrder_def)
  then obtain t where t: "table_of d ''schema_version'' = Some t" by (auto simp: present_def)
  have "holds d (''schema_version'', ''version'')" using s by (simp add: stage_def upgradable_def has_def index_cols_def)
  then have c: "''version'' \<in> set (col_names t)" using t by (simp add: holds_def)
  have "R = versions t" using s t by (simp add: stage_def recorded_def)
  moreover have "stage (cols_upto v) (R @ [v]) (put_table ''schema_version'' (t\<lparr>tb_rows := tb_rows t @ [version_row now v t]\<rparr>) d)"
    using s by (simp add: stage_def upgradable_def recorded_put [OF t c])
  ultimately show "\<exists>a d'. (case table_of d ''schema_version'' of None \<Rightarrow> Inl (NoTable ''schema_version'')
      | Some t \<Rightarrow> if v \<in> set (versions t) then Inr ((), d)
        else Inr ((), put_table ''schema_version'' (t\<lparr>tb_rows := tb_rows t @ [version_row now v t]\<rparr>) d)) = Inr (a, d') \<and>
      stage (cols_upto v) (with_version v R) d'"
    using s t by (simp add: with_version_def)
qed simp

lemma stage_weaken: "stage cs R d \<Longrightarrow> set cs' \<subseteq> set cs \<Longrightarrow> stage cs' R d"
  using has_subset by (auto simp: stage_def)

lemma stage_upgradable: "stage cs R d \<Longrightarrow> upgradable d"
  by (simp add: stage_def)

text \<open>A migration brings the columns of its version, given those of the one before.\<close>

definition advances :: "int \<Rightarrow> int \<Rightarrow> unit sm option \<Rightarrow> bool" where
  "advances p v act \<longleftrightarrow> (\<forall>R. triple (stage (cols_upto p) R) (case act of None \<Rightarrow> sret () | Some m \<Rightarrow> m) (\<lambda>_. stage (cols_upto v) R) (\<lambda>_. True))"

fun chain :: "int \<Rightarrow> (int \<times> unit sm option) list \<Rightarrow> bool" where
  "chain p [] \<longleftrightarrow> True"
| "chain p ((v, act) # ms) \<longleftrightarrow> p < v \<and> advances p v act \<and> chain v ms"

lemma triple_migration_tx:
  assumes "advances p v act"
  shows "triple (stage (cols_upto p) R) (migration_tx now v act) (\<lambda>_. stage (cols_upto v) (with_version v R)) upgradable"
  unfolding migration_tx_def
proof (rule triple_tx [OF triple_bnd stage_upgradable])
  show "triple (stage (cols_upto p) R) (case act of None \<Rightarrow> sret () | Some m \<Rightarrow> wrap_err (InMigration v) m) (\<lambda>_. stage (cols_upto v) R) (\<lambda>_. True)"
    using assms unfolding advances_def by (cases act) (auto intro: triple_wrap)
qed (rule triple_record)

lemma chain_migrations: "chain 0 migrations"
proof -
  have r: "triple (stage cs R) (sret ()) (\<lambda>_. stage cs R) (\<lambda>_. True)" for cs R by (rule triple_ret)
  note w = triple_conseq [OF _ _ stage_weaken]
  have "advances 0 1 None" "advances 4 5 None" using r by (simp_all add: advances_def cols_upto_def)
  moreover have "advances 1 2 (Some migrate002TOTP)" unfolding advances_def option.case
    by (intro allI, rule w [OF triple_002]) (auto simp: cols_upto_def)
  moreover have "advances 2 3 (Some migrate003TOTPCounter)" unfolding advances_def option.case
    by (intro allI, rule w [OF triple_003]) (auto simp: cols_upto_def)
  moreover have "advances 3 4 (Some migrate004GroupsUnique)" unfolding advances_def option.case
    by (intro allI, rule w [OF triple_004]) (auto simp: cols_upto_def)
  moreover have "advances 5 6 (Some migrate006NodeReport)" unfolding advances_def option.case
    by (intro allI, rule w [OF triple_006]) (auto simp: cols_upto_def)
  ultimately show ?thesis by (simp add: migrations_def)
qed

text \<open>The loop as a program with one result.\<close>

definition loop_sm :: "string \<Rightarrow> int \<Rightarrow> (int \<times> unit sm option) list \<Rightarrow> int list \<Rightarrow> unit sm" where
  "loop_sm now cur ms applied s = (case migrate_loop now cur ms applied s of ((_, Some e), s') \<Rightarrow> (Inl e, s') | ((_, None), s') \<Rightarrow> (Inr (), s'))"

lemma loop_sm_simps:
  "loop_sm now cur [] applied = sret ()"
  "loop_sm now cur ((v, act) # ms) applied = (if v \<le> cur then loop_sm now cur ms applied
     else sbnd (migration_tx now v act) (\<lambda>_. loop_sm now cur ms (applied @ [v])))"
  by (auto simp: fun_eq_iff loop_sm_def sret_def sbnd_def split: prod.splits sum.splits)

lemma db_Init_seq: "db_Init now = sbnd (create_tables schemaOrder) (\<lambda>_. sbnd schemaVersion (\<lambda>cur.
     sbnd (loop_sm now cur migrations []) (\<lambda>_. create_indexes indexDDL)))"
proof -
  have "(case RunMigrations now s of ((_, Some e), s') \<Rightarrow> (Inl e, s') | ((_, None), s') \<Rightarrow> create_indexes indexDDL s') =
      sbnd schemaVersion (\<lambda>cur. sbnd (loop_sm now cur migrations []) (\<lambda>_. create_indexes indexDDL)) s" for s
    by (auto simp: RunMigrations_def sbnd_def loop_sm_def split: prod.splits sum.splits option.splits)
  then show ?thesis unfolding db_Init_def by (simp add: fun_eq_iff)
qed

lemma triple_loop:
  assumes "chain p ms"
  shows "triple (stage (cols_upto (max p cur)) R) (loop_sm now cur ms applied)
    (\<lambda>_ d. \<exists>R'. set R \<subseteq> set R' \<and> stage (cols_upto (max (fst (last ((p, None) # ms))) cur)) R' d \<and>
       (cur < fst (last ((p, None) # ms)) \<longrightarrow> p < fst (last ((p, None) # ms)) \<longrightarrow> fst (last ((p, None) # ms)) \<in> set R')) upgradable"
  using assms
proof (induction ms arbitrary: p R applied)
  case Nil
  show ?case unfolding loop_sm_simps by (rule triple_ret) auto
next
  case (Cons m ms)
  obtain v act where m: "m = (v, act)" by (cases m)
  have c: "p < v" "advances p v act" "chain v ms" using Cons.prems by (simp_all add: m)
  let ?l = "fst (last ((v, None :: unit sm option) # ms))"
  have last: "fst (last ((p, None :: unit sm option) # (v, act) # ms)) = ?l" by simp
  have ge: "v \<le> ?l"
    using c(3) by (induction ms arbitrary: v) force+
  let ?Q = "\<lambda>R d. \<exists>R'. set R \<subseteq> set R' \<and> stage (cols_upto (max ?l cur)) R' d \<and> (cur < ?l \<longrightarrow> v < ?l \<longrightarrow> ?l \<in> set R')"
  let ?Q' = "\<lambda>R d. \<exists>R'. set R \<subseteq> set R' \<and> stage (cols_upto (max ?l cur)) R' d \<and> (cur < ?l \<longrightarrow> p < ?l \<longrightarrow> ?l \<in> set R')"
  have "triple (stage (cols_upto (max p cur)) R) (loop_sm now cur ((v, act) # ms) applied) (\<lambda>_. ?Q' R) upgradable"
    unfolding loop_sm_simps
  proof (rule triple_if)
    assume le: "v \<le> cur"
    have "max v cur = max p cur" using le c(1) by simp
    from Cons.IH [OF c(3), of R applied, unfolded this]
    show "triple (stage (cols_upto (max p cur)) R) (loop_sm now cur ms applied) (\<lambda>_. ?Q' R) upgradable"
      by (rule triple_conseq) (use le in auto)
  next
    assume gt: "\<not> v \<le> cur"
    show "triple (stage (cols_upto (max p cur)) R) (sbnd (migration_tx now v act) (\<lambda>_. loop_sm now cur ms (applied @ [v]))) (\<lambda>_. ?Q' R) upgradable"
    proof (rule triple_bnd)
      show "triple (stage (cols_upto (max p cur)) R) (migration_tx now v act) (\<lambda>_. stage (cols_upto v) (with_version v R)) upgradable"
        using triple_migration_tx [OF c(2)] by (rule triple_conseq) (erule stage_weaken, rule cols_upto_mono, auto)
      have "max v cur = v" using gt by simp
      from Cons.IH [OF c(3), of "with_version v R" "applied @ [v]", unfolded this]
      show "triple (stage (cols_upto v) (with_version v R)) (loop_sm now cur ms (applied @ [v])) (\<lambda>_. ?Q' R) upgradable"
      proof (rule triple_conseq)
        fix d assume "\<exists>R'. set (with_version v R) \<subseteq> set R' \<and> stage (cols_upto (max ?l cur)) R' d \<and> (cur < ?l \<longrightarrow> v < ?l \<longrightarrow> ?l \<in> set R')"
        then obtain R' where R': "set (with_version v R) \<subseteq> set R'" "stage (cols_upto (max ?l cur)) R' d" "cur < ?l \<longrightarrow> v < ?l \<longrightarrow> ?l \<in> set R'"
          by blast
        have "set R \<subseteq> set R'" "v \<in> set R'" using R'(1) by (auto simp: with_version_def split: if_splits)
        moreover from this R'(3) ge have "cur < ?l \<longrightarrow> ?l \<in> set R'" by (cases "v = ?l") auto
        ultimately show "?Q' R d" using R'(2) by blast
      qed
    qed
  qed
  then show ?case unfolding m last .
qed

section \<open>Init\<close>

definition base :: "string set \<Rightarrow> sqldb \<Rightarrow> bool" where
  "base D d \<longleftrightarrow> upgradable d \<and> (\<forall>n \<in> D. present d n)"

definition wanted_cols :: "(string \<times> string) list" where
  "wanted_cols = cols_upto 6 @ index_cols"

lemma ddl_complete: "list_all (\<lambda>(n, c). n \<in> fst ` set schemaDDL \<and> c \<in> set (col_names (the (map_of schemaDDL n)))) wanted_cols"
  by code_simp

lemma ddl_versions: "versions (the (map_of schemaDDL ''schema_version'')) = []"
  by code_simp

lemma cols_upto_wanted: "x \<in> set (cols_upto v) \<Longrightarrow> x \<in> set wanted_cols"
  using cols_upto_mono [of v "max v 6"] by (auto simp: wanted_cols_def cols_upto_def split: if_splits)

lemma base_new:
  assumes "base D d" and "table_of d n = None"
  shows "base (insert n D) (d\<lparr>sd_tables := sd_tables d @ [(n, the (map_of schemaDDL n))]\<rparr>)"
proof -
  let ?d = "d\<lparr>sd_tables := sd_tables d @ [(n, the (map_of schemaDDL n))]\<rparr>"
  note t = table_of_new [OF assms(2), of "the (map_of schemaDDL n)"]
  have ddl: "(n, c) \<in> set wanted_cols \<Longrightarrow> c \<in> set (col_names (the (map_of schemaDDL n)))" for c
    using ddl_complete by (auto simp: list_all_iff)
  have h: "holds d x \<Longrightarrow> x \<in> set wanted_cols \<Longrightarrow> holds ?d x" for x
    using ddl by (cases x) (auto simp: holds_def t)
  have m: "has d cs \<Longrightarrow> set cs \<subseteq> set wanted_cols \<Longrightarrow> has ?d cs" for cs using h by (auto simp: has_def list_all_iff)
  have r: "recorded ?d = recorded d"
    using assms(2) ddl_versions by (auto simp: recorded_def t split: option.splits)
  have "upgradable ?d" using assms(1) m cols_upto_wanted unfolding base_def upgradable_def r
    by (metis subsetI set_append Un_upper2 wanted_cols_def)
  then show ?thesis using assms(1) by (auto simp: base_def present_def t)
qed

lemma triple_create_tables: "triple (base D) (create_tables names) (\<lambda>_. base (D \<union> set names)) upgradable"
proof (induction names arbitrary: D)
  case Nil
  show ?case unfolding create_tables.simps by (rule triple_ret) simp
next
  case (Cons n names)
  have f: "triple P set_fresh (\<lambda>_. P) upgradable" for P by (simp add: triple_def set_fresh_def)
  have r: "triple P (sret ()) (\<lambda>_. P) upgradable" for P by (rule triple_ret)
  show ?case unfolding create_tables.simps
  proof (rule triple_bnd)
    show "triple (base D) (q_table_exists n) (\<lambda>b d. base D d \<and> b = present d n) upgradable"
      unfolding q_table_exists_def by (rule triple_stmt) (auto simp: base_def present_def)
    fix b :: bool
    show "triple (\<lambda>d. base D d \<and> b = present d n) (sbnd (if b then sret ()
           else sbnd (wrap_err (InCreate n) (s_create_table n (the (map_of schemaDDL n)))) (\<lambda>_.
             if n = ''users'' then set_fresh else sret ())) (\<lambda>_. create_tables names)) (\<lambda>_. base (D \<union> set (n # names))) upgradable"
    proof (rule triple_bnd)
      show "triple (base (insert n D)) (create_tables names) (\<lambda>_. base (D \<union> set (n # names))) upgradable" for a :: unit
        using Cons.IH [of "insert n D"] by simp
      show "triple (\<lambda>d. base D d \<and> b = present d n) (if b then sret ()
           else sbnd (wrap_err (InCreate n) (s_create_table n (the (map_of schemaDDL n)))) (\<lambda>_.
             if n = ''users'' then set_fresh else sret ())) (\<lambda>_. base (insert n D)) upgradable"
      proof (rule triple_if)
        show "b \<Longrightarrow> triple (\<lambda>d. base D d \<and> b = present d n) (sret ()) (\<lambda>_. base (insert n D)) upgradable"
          by (rule triple_ret) (auto simp: base_def)
        assume b: "\<not> b"
        show "triple (\<lambda>d. base D d \<and> b = present d n) (sbnd (wrap_err (InCreate n) (s_create_table n (the (map_of schemaDDL n)))) (\<lambda>_.
             if n = ''users'' then set_fresh else sret ())) (\<lambda>_. base (insert n D)) upgradable"
        proof (rule triple_bnd [OF triple_wrap])
          show "triple (\<lambda>d. base D d \<and> b = present d n) (s_create_table n (the (map_of schemaDDL n))) (\<lambda>_. base (insert n D)) upgradable"
            unfolding s_create_table_def by (rule triple_stmt) (use b base_new in \<open>auto simp: present_def base_def [of D]\<close>)
          show "triple (base (insert n D)) (if n = ''users'' then set_fresh else sret ()) (\<lambda>_. base (insert n D)) upgradable" for a :: unit
            using f r by (intro triple_if)
        qed
      qed
    qed
  qed
qed

lemma stage_base: "stage cs R d \<longleftrightarrow> base (set schemaOrder) d \<and> has d cs \<and> recorded d = R"
  by (auto simp: stage_def base_def)

lemma has_none [simp]: "has d (cols_upto 0)"
  by (simp add: cols_upto_def has_def)

lemma triple_schemaVersion:
  "triple (base (set schemaOrder)) schemaVersion (\<lambda>cur d. \<exists>R. stage (cols_upto (max 0 cur)) R d \<and> (cur = 0 \<or> cur \<in> set R)) upgradable"
proof -
  let ?B = "base (set schemaOrder)" and ?R = "\<lambda>vo d. base (set schemaOrder) d \<and> (\<exists>t. table_of d ''schema_version'' = Some t \<and>
    vo = (if versions t = [] then None else Some (Max (set (versions t)))))"
  have p: "?B d \<Longrightarrow> \<exists>t. table_of d ''schema_version'' = Some t" for d by (auto simp: base_def schemaOrder_def present_def)
  have u: "?B d \<Longrightarrow> upgradable d" for d by (simp add: base_def)
  have 1: "triple ?B (q_table_exists ''schema_version'') (\<lambda>b d. ?B d \<and> b) upgradable"
    unfolding q_table_exists_def by (rule triple_stmt) (use p u in auto)
  have 2: "triple (\<lambda>d. ?B d \<and> b) (if b then sret () else s_create_table n t) (\<lambda>_. ?B) upgradable" for b n t
  proof (rule triple_if)
    show "b \<Longrightarrow> triple (\<lambda>d. ?B d \<and> b) (sret ()) (\<lambda>_. ?B) upgradable" by (rule triple_ret) simp
    show "\<not> b \<Longrightarrow> triple (\<lambda>d. ?B d \<and> b) (s_create_table n t) (\<lambda>_. ?B) upgradable" by (simp add: triple_def)
  qed
  have 3: "triple ?B q_max_version ?R upgradable"
    unfolding q_max_version_def by (rule triple_stmt) (use p u in fastforce)+
  have 4: "triple (?R vo) (sret (case vo of None \<Rightarrow> 0 | Some n \<Rightarrow> n)) (\<lambda>cur d. \<exists>R. stage (cols_upto (max 0 cur)) R d \<and> (cur = 0 \<or> cur \<in> set R)) upgradable" for vo
  proof (rule triple_ret)
    fix d assume "?R vo d"
    then obtain t where b: "?B d" and t: "table_of d ''schema_version'' = Some t" and vo: "vo = (if versions t = [] then None else Some (Max (set (versions t))))"
      by blast
    let ?cur = "case vo of None \<Rightarrow> 0 | Some n \<Rightarrow> n"
    have r: "recorded d = versions t" by (simp add: recorded_def t)
    have c: "?cur = 0 \<or> ?cur \<in> set (recorded d)" using vo Max_in [of "set (versions t)"] by (auto simp: r)
    moreover have "has d (cols_upto (max 0 ?cur))"
    proof (cases "0 < ?cur")
      case True
      then have "?cur \<in> set (recorded d)" using c by linarith
      then have "has d (cols_upto ?cur)" using b unfolding base_def upgradable_def by blast
      with True show ?thesis by simp
    qed (simp add: max_def)
    ultimately show "\<exists>R. stage (cols_upto (max 0 ?cur)) R d \<and> (?cur = 0 \<or> ?cur \<in> set R)" using b by (auto simp: stage_base)
  qed
  show ?thesis unfolding schemaVersion_def by (intro triple_bnd [OF 1] triple_bnd [OF 2] triple_bnd [OF 3] 4)
qed

definition migrated :: "sqldb \<Rightarrow> bool" where
  "migrated d \<longleftrightarrow> base (set schemaOrder) d \<and> has d (cols_upto CurrentSchemaVersion) \<and> (\<exists>v \<in> set (recorded d). CurrentSchemaVersion \<le> v)"

lemma triple_indexes:
  assumes "set ixs \<subseteq> set indexDDL"
  shows "triple (\<lambda>d. migrated d \<and> N \<subseteq> ix_name ` set (sd_indexes d)) (create_indexes ixs)
    (\<lambda>_ d. migrated d \<and> N \<union> ix_name ` set ixs \<subseteq> ix_name ` set (sd_indexes d)) upgradable"
  using assms
proof (induction ixs arbitrary: N)
  case Nil
  show ?case unfolding create_indexes.simps by (rule triple_ret) simp
next
  case (Cons ix ixs)
  have same: "migrated (d\<lparr>sd_indexes := x\<rparr>) = migrated d" for d x
    by (simp add: migrated_def base_def upgradable_def has_def holds_def [abs_def] present_def recorded_def table_of_def)
  have plain: "\<not> ix_unique ix" "ix_table ix \<in> set schemaOrder" using Cons.prems by (auto simp: indexDDL_def schemaOrder_def)
  have cols: "map (Pair (ix_table ix)) (ix_cols ix) \<noteq> [] \<longrightarrow> set (map (Pair (ix_table ix)) (ix_cols ix)) \<subseteq> set index_cols"
    using Cons.prems by (auto simp: index_cols_def)
  show ?case unfolding create_indexes.simps
  proof (rule triple_bnd)
    show "triple (\<lambda>d. migrated d \<and> insert (ix_name ix) N \<subseteq> ix_name ` set (sd_indexes d)) (create_indexes ixs)
        (\<lambda>_ d. migrated d \<and> N \<union> ix_name ` set (ix # ixs) \<subseteq> ix_name ` set (sd_indexes d)) upgradable" for a :: unit
      using Cons.IH [of "insert (ix_name ix) N"] Cons.prems by simp
    show "triple (\<lambda>d. migrated d \<and> N \<subseteq> ix_name ` set (sd_indexes d)) (s_create_index ix)
        (\<lambda>_ d. migrated d \<and> insert (ix_name ix) N \<subseteq> ix_name ` set (sd_indexes d)) upgradable"
      unfolding s_create_index_def
    proof (rule triple_stmt)
      fix d assume p: "migrated d \<and> N \<subseteq> ix_name ` set (sd_indexes d)"
      then show "upgradable d" by (simp add: migrated_def base_def)
      have "present d (ix_table ix)" using p plain(2) by (simp add: migrated_def base_def)
      then obtain t where t: "table_of d (ix_table ix) = Some t" by (auto simp: present_def)
      have "has d index_cols" using p by (simp add: migrated_def base_def upgradable_def)
      then have "has d (map (Pair (ix_table ix)) (ix_cols ix))" using has_subset cols by (metis empty_set empty_subsetI)
      then have "set (ix_cols ix) \<subseteq> set (col_names t)" using t by (auto simp: has_def list_all_iff holds_def)
      then show "\<exists>a d'. (if ix_name ix \<in> ix_name ` set (sd_indexes d) then Inr ((), d)
          else case table_of d (ix_table ix) of None \<Rightarrow> Inl (NoTable (ix_table ix))
          | Some t \<Rightarrow> if \<not> set (ix_cols ix) \<subseteq> set (col_names t) then Inl (NoColumn (ix_name ix))
            else if ix_unique ix \<and> \<not> distinct (filter (\<lambda>v. SNull \<notin> set v) (map (cells t (ix_cols ix)) (tb_rows t))) then Inl (NotUnique (ix_name ix))
            else Inr ((), d\<lparr>sd_indexes := sd_indexes d @ [ix]\<rparr>)) = Inr (a, d') \<and>
          migrated d' \<and> insert (ix_name ix) N \<subseteq> ix_name ` set (sd_indexes d')"
        using p t plain(1) by (auto simp: same)
    qed
  qed
qed

lemma triple_Init: "triple upgradable (db_Init now) (\<lambda>_. complete) upgradable"
  unfolding db_Init_seq
proof (rule triple_bnd)
  show "triple upgradable (create_tables schemaOrder) (\<lambda>_. base (set schemaOrder)) upgradable"
    using triple_create_tables [of "{}" schemaOrder] by (rule triple_conseq) (simp_all add: base_def)
  let ?S = "\<lambda>cur d. \<exists>R. stage (cols_upto (max 0 cur)) R d \<and> (cur = 0 \<or> cur \<in> set R)"
  show "triple (base (set schemaOrder)) (sbnd schemaVersion (\<lambda>cur. sbnd (loop_sm now cur migrations []) (\<lambda>_. create_indexes indexDDL)))
      (\<lambda>_. complete) upgradable" for a :: unit
  proof (rule triple_bnd [OF triple_schemaVersion triple_bnd])
    fix cur :: int
    have last: "fst (last ((0, None) # migrations)) = CurrentSchemaVersion" "0 < CurrentSchemaVersion"
      by (simp_all add: CurrentSchemaVersion_def migrations_def)
    show "triple (?S cur) (loop_sm now cur migrations []) (\<lambda>_ d. migrated d \<and> {} \<subseteq> ix_name ` set (sd_indexes d)) upgradable"
    proof (rule tripleI)
      fix h fs r h' fs' assume "?S cur (h_sql h)" and run: "loop_sm now cur migrations [] (h, fs) = (r, h', fs')"
      then obtain R where R: "stage (cols_upto (max 0 cur)) R (h_sql h)" "cur = 0 \<or> cur \<in> set R" by blast
      note e = triple_ends [OF triple_loop [OF chain_migrations, of cur R now "[]"] R(1) run]
      show "set fs' \<subseteq> set fs \<and> (case r of Inl _ \<Rightarrow> upgradable (h_sql h') \<and> True \<in> set fs
          | Inr a \<Rightarrow> migrated (h_sql h') \<and> {} \<subseteq> ix_name ` set (sd_indexes (h_sql h')))"
      proof (cases r)
        case (Inl x)
        then show ?thesis using e(1) e(2) [OF Inl] by simp
      next
        case (Inr x)
        from e(3) [OF Inr] obtain R' where R': "set R \<subseteq> set R'" "stage (cols_upto (max CurrentSchemaVersion cur)) R' (h_sql h')"
          "cur < CurrentSchemaVersion \<longrightarrow> CurrentSchemaVersion \<in> set R'" unfolding last using last(2) by blast
        have "\<exists>v \<in> set R'. CurrentSchemaVersion \<le> v"
          using R'(1,3) R(2) last(2) by (cases "cur < CurrentSchemaVersion") (auto simp: not_less)
        moreover have "has (h_sql h') (cols_upto CurrentSchemaVersion)"
          using has_subset [OF _ cols_upto_mono [of CurrentSchemaVersion "max CurrentSchemaVersion cur"]] R'(2) by (simp add: stage_def)
        ultimately have "migrated (h_sql h')" using R'(2) by (auto simp: migrated_def stage_base)
        then show ?thesis using e(1) Inr by simp
      qed
    qed
    show "triple (\<lambda>d. migrated d \<and> {} \<subseteq> ix_name ` set (sd_indexes d)) (create_indexes indexDDL) (\<lambda>_. complete) upgradable" for a :: unit
      using triple_indexes [of indexDDL "{}"] by (rule triple_conseq) (auto simp: complete_def migrated_def base_def)
  qed
qed

section \<open>Attempts\<close>

text \<open>The database after some attempts of \<open>Init\<close>, each with its own schedule of faults and its own time.\<close>

definition attempts :: "(string \<times> bool list) list \<Rightarrow> handle \<Rightarrow> handle" where
  "attempts tries h = fold (\<lambda>(now, fs) h. fst (snd (db_Init now (h, fs)))) tries h"

lemma attempts_upgradable: "upgradable (h_sql h) \<Longrightarrow> upgradable (h_sql (attempts tries h))"
proof (induction tries arbitrary: h)
  case Nil
  then show ?case by (simp add: attempts_def)
next
  case (Cons att tries)
  obtain now fs r h' fs' where x: "att = (now, fs)" "db_Init now (h, fs) = (r, h', fs')" by (metis prod.collapse)
  note e = triple_ends [OF triple_Init Cons.prems x(2)]
  have "upgradable (h_sql h')" using e(2,3) by (cases r) (auto simp: complete_def)
  from Cons.IH [OF this] show ?case by (simp add: attempts_def x)
qed

lemma create_tables_done: "\<forall>n \<in> set names. present (h_sql h) n \<Longrightarrow> create_tables names (h, []) = (Inr (), h, [])"
proof (induction names)
  case (Cons n names)
  have "q_table_exists n (h, []) = (Inr True, h, [])" using Cons.prems by (simp add: q_table_exists_def stmt_def present_def)
  then show ?case using Cons by (simp add: sbnd_def sret_def)
qed (simp add: sret_def)

lemma create_indexes_done: "ix_name ` set ixs \<subseteq> ix_name ` set (sd_indexes (h_sql h)) \<Longrightarrow> create_indexes ixs (h, []) = (Inr (), h, [])"
proof (induction ixs)
  case (Cons ix ixs)
  have "s_create_index ix (h, []) = (Inr (), h, [])" using Cons.prems by (auto simp: s_create_index_def stmt_def)
  then show ?case using Cons by (simp add: sbnd_def)
qed (simp add: sret_def)

lemma loop_done: "list_all (\<lambda>m. fst m \<le> cur) ms \<Longrightarrow> loop_sm now cur ms l s = (Inr (), s)"
proof (induction ms)
  case (Cons m ms)
  then show ?case by (cases m) (simp add: loop_sm_simps)
qed (simp add: loop_sm_simps sret_def)

lemma Init_done:
  assumes "complete (h_sql h)"
  shows "db_Init now (h, []) = (Inr (), h, [])"
proof -
  have p: "\<forall>n \<in> set schemaOrder. present (h_sql h) n" and i: "ix_name ` set indexDDL \<subseteq> ix_name ` set (sd_indexes (h_sql h))"
    and v: "\<exists>v \<in> set (recorded (h_sql h)). CurrentSchemaVersion \<le> v" using assms by (simp_all add: complete_def)
  have "present (h_sql h) ''schema_version''" using p by (simp add: schemaOrder_def)
  then obtain t where t: "table_of (h_sql h) ''schema_version'' = Some t" by (auto simp: present_def)
  with v have vs: "versions t \<noteq> []" "CurrentSchemaVersion \<le> Max (set (versions t))"
    by (auto simp: recorded_def intro: order_trans [OF _ Max_ge])
  have "schemaVersion (h, []) = (Inr (Max (set (versions t))), h, [])"
    using t vs(1) by (simp add: schemaVersion_def q_table_exists_def q_max_version_def stmt_def sbnd_def sret_def)
  moreover have "list_all (\<lambda>m. fst m \<le> Max (set (versions t))) migrations"
    using vs(2) by (simp add: CurrentSchemaVersion_def migrations_def)
  ultimately show ?thesis
    unfolding db_Init_seq by (simp add: sbnd_def create_tables_done [OF p] loop_done create_indexes_done [OF i])
qed


lemma old_upgradable: "upgradable (h_sql old_handle)"
  by code_simp


end
