(* ===== verification/Spec2Isabelle.thy ===== *)
theory Spec2Isabelle
  imports KnockLaws CodeLaws FleetLaws Answers UpgradeLaws UfwPass SchemaLaws
begin

text \<open>
  \<^bold>\<open>nft-okboy-fleet: a knock-based firewall allowlist.\<close>

  A user signs a request (a knock) with an HMAC secret; the hub records the address the request came from and
  opens, for that address, the ports of the groups the user is enabled in.  Administrators manage users,
  groups and memberships over HTTP (behind a TOTP step-up) or from a shell on the hub.  Edge nodes run an
  agent that pulls the rules meant for them and brings their own firewall in line.  The firewall is nftables
  (a table of the program's own, with a guard that drops new connections to managed ports), ufw, an in-memory
  mock or nothing.

  \<^bold>\<open>How the code is modelled.\<close>  A struct is a record, a Go error a value of a datatype (\<open>fwerr\<close>, \<open>dberr\<close>,
  \<open>cli_error\<close>, \<open>upgrade_error\<close>, \<open>sqlerr\<close>), a fallible function returns \<open>error + result\<close> and every early
  return is a branch.  State is passed explicitly.  A firewall call maps the backend's state to a result and
  a new state.  A database is a record of tables, one list of rows each, together with a fault schedule: every
  statement, begin and commit takes one entry and fails, without effect, when it is true; an empty schedule is
  a run without faults, and the theorems hold for every schedule unless they say otherwise.  A handler is a
  value of the monad \<open>hm\<close> (theory \<open>Http\<close>: \<open>hb\<close>, \<open>hret\<close>, \<open>answer\<close>) that goes on with a result or answers; a
  shell command is one of \<open>cm\<close> (theory \<open>Terminal\<close>) that also collects standard output.  Strings are lists of bytes
  (\<open>char\<close>), Go's \<open>int\<close> an \<open>int\<close> where no operation can leave its range, and a word where the code can wrap
  (the timestamp difference of \<open>auth.go\<close>, SHA-1 and SHA-256, FNV-1a).  The iteration order of a Go map
  is an argument (\<open>e_order\<close>: any permutation).  Time and random bytes are fields of the environment.

  \<^bold>\<open>Interleaving.\<close>  \<open>fwMu\<close> holds a knock, a membership change, a revocation and a maintenance pass from start to
  end, \<open>totpMu\<close> a code check, the mutex or lock file of a backend each of its calls; so a request, a pass and
  a command is one step, and the step relations \<open>srv_step\<close> (requests and passes), \<open>hub_step\<close> (and commands)
  and \<open>kept_step\<close> interleave them in any order with any environment and any schedule of faults.

  \<^bold>\<open>The theories.\<close>

  \<^item> \<open>Prelude\<close>: the collections \<open>fw_simps\<close>, \<open>db_simps\<close>, \<open>srv_simps\<close>, Go's string functions and \<open>strconv\<close>.
    \<open>IPAddr\<close>: \<open>net.ParseIP\<close>, \<open>IP.String\<close>, with the round trip of canonical addresses.
  \<^item> \<open>Backend\<close> (\<open>internal/firewall/backend.go\<close>): rules, their checks, comments, the interface as the record \<open>backend\<close>.
    The locale \<open>rule_store\<close> states what every backend promises of its list of managed rules, \<open>keyed_store\<close>
    adds that a rule is identified by its whole key (not so on ufw).  \<open>Mock\<close> (\<open>mock.go\<close>, \<open>none.go\<close>) interprets both.
  \<^item> \<open>Reconcile\<close> (\<open>reconcile.go\<close>): \<open>ReconcileAll\<close> is exact, safe under failures and idempotent on every \<open>keyed_store\<close>.
  \<^item> \<open>Db\<close>, \<open>DbInv\<close>, \<open>DbProps\<close> (\<open>internal/db\<close>: \<open>db.go\<close>, \<open>nodes.go\<close>, \<open>models.go\<close>): the tables, every query and
    statement, the invariant \<open>wf_db\<close> (keys, references), atomicity and what single operations achieve.
  \<^item> \<open>Schema\<close>, \<open>SchemaLaws\<close> (\<open>schema.go\<close>, \<open>Init\<close>, \<open>RunMigrations\<close>): SQLite's tables with columns and cells; a small
    logic of triples shows that no failure loses data or leaves a database the next start cannot complete.
  \<^item> \<open>Manager\<close>, \<open>FwInv\<close> (\<open>manager.go\<close>): opening and closing for one user, stale users, anomalies; what each call
    keeps whatever fails.
  \<^item> \<open>Crypto\<close>, \<open>Auth\<close>, \<open>Totp\<close> (\<open>internal/auth\<close>): SHA-1, SHA-256, HMAC, base32 written out; signatures, throttling, codes.
    \<open>Config\<close> (\<open>config.go\<close>): \<open>Load\<close> on the decoded YAML document.
  \<^item> \<open>Http\<close>, \<open>TotpApi\<close>, \<open>KnockApi\<close>, \<open>AdminApi\<close>, \<open>Routes\<close> (\<open>internal/server\<close>: \<open>respond.go\<close>, \<open>middleware.go\<close>; \<open>totp.go\<close>;
    \<open>knock.go\<close>; \<open>admin.go\<close>, \<open>node.go\<close>, \<open>maintain.go\<close>; \<open>server.go\<close>): every handler, the route table, the gate.
  \<^item> \<open>Keeps\<close>, \<open>ClientOps\<close>, \<open>AdminOps\<close>: a proof rule per construct of the handler monad and the locales \<open>client_ops\<close> and
    \<open>server_ops\<close>: from what each write must keep of the database and each call of the firewall, every handler, every
    pass and so every step keeps it.  They are interpreted by \<open>ServerInv\<close> (rows and rules are well formed),
    \<open>NonAdmin\<close> (a user changes only what is the user's own) and \<open>CodeOnce\<close> (counters never go back).
  \<^item> \<open>Access\<close> (who may do what), \<open>CodeOnce\<close>, \<open>CodeUse\<close>, \<open>CodeLaws\<close> (the step-up gate: a code opens it once, failures
    shut it), \<open>Answers\<close> (the shape of every answer), \<open>KnockLaws\<close> (what a successful knock has done, end to end).
  \<^item> \<open>Nft\<close>, \<open>NftKernel\<close>, \<open>Guard\<close>, \<open>RefKernel\<close>, \<open>NftLaws\<close> (\<open>nft.go\<close>): the JSON programs written and the listing
    parsed; the locale \<open>nft_kernel\<close> states what \<open>nft\<close> and the kernel do with them and yields a \<open>keyed_store\<close>; the chain
    decides packets (\<open>chain_accepts\<close>), the guard makes it an allowlist; a maintenance pass refines the abstract
    \<open>allowlist_accepts\<close> of the database.  \<open>RefKernel\<close> is a kernel that meets the locale.
  \<^item> \<open>Ufw\<close>, \<open>UfwHost\<close>, \<open>UfwLaws\<close> (\<open>ufw.go\<close>, the path of \<open>lock_unix.go\<close>): the three regular expressions as scanners,
    every operation; the locale \<open>ufw_tool\<close> with the sublocale to \<open>rule_store\<close>; the rules of the host are spared.
    \<open>Merging\<close> states in the locale \<open>merging_store\<close> what a backend with one rule per match promises and runs
    \<open>ReconcileAll\<close> on it; \<open>UfwPass\<close> shows that ufw is one.
  \<^item> \<open>Agent\<close>, \<open>AgentRun\<close>, \<open>AgentLaws\<close> (\<open>internal/agent/agent.go\<close>): a cycle of the agent, what a hostile or silent hub can
    make it do; \<open>FleetLaws\<close> composes the hub's handler with the agent's cycle.
  \<^item> \<open>Flags\<close>, \<open>Terminal\<close>, \<open>Cli\<close>, \<open>CliNode\<close>, \<open>CliOps\<close>, \<open>CliInv\<close>, \<open>CliLaws\<close> (\<open>internal/cli\<close>: \<open>cli.go\<close>, \<open>node.go\<close>, \<open>agent.go\<close>,
    \<open>backend_linux.go\<close>; \<open>cmd/nft-okboy/main.go\<close>): Go's \<open>flag\<close> package, every command, what the commands keep
    (locale \<open>cli_ops\<close>) and what single commands achieve.
  \<^item> \<open>Upgrade\<close>, \<open>UpgradeLaws\<close> (\<open>upgrade.go\<close>): the self-upgrade with its file operations under a fault schedule.

  \<^bold>\<open>What is shown\<close>, in the order of the claims.  Refinement of abstract allowlists by the hub's own firewall and by
  hub, agent and node together; the invariant of everything reachable; confinement of users, of unauthenticated
  requests, of a hostile hub; one use per code; a knock opens what it says; exactness and safety of reconciling, and
  its convergence on ufw; the
  database operations; the window of signatures and codes; the guard of nftables as a decision and the round trips of the
  rules through \<open>nft\<close>, \<open>ufw\<close>, the guard's state file and an enrollment; effects of commands; the type of every
  answer; trust in an upgrade; recovery of \<open>Init\<close>.  Where a property needs a hypothesis, the theorem
  after it applies it to a concrete state.

  \<^bold>\<open>Loops, fuel and bounds.\<close>  No definition uses fuel.  Loops over data are structural; \<open>trim_left\<close>, \<open>v6_loop\<close>,
  \<open>rune_count\<close> and \<open>fields\<close> terminate by a measure; the loop of \<open>parseFlags\<close>, which restarts Go's parser,
  is a \<open>partial_function (option)\<close> and \<open>parseFlags_returns\<close> shows that it returns on every input.  The pull
  loop of the agent and the ticker of the server run for ever: a pass is a step.

  \<^bold>\<open>Parameters and their laws.\<close>  The programs \<open>nft\<close> and \<open>ufw\<close> with the kernel behind them (locales \<open>nft_kernel\<close>,
  \<open>ufw_tool\<close>; a run that fails is assumed to change no rule), \<open>flock\<close>, the YAML decoder, \<open>url.Parse\<close>, \<open>http\<close> transfers
  (\<open>ghGet\<close> with its watchdog, the agent's request), \<open>systemctl\<close>, the new binary's \<open>--version\<close>, the local time zone.

  \<^bold>\<open>Not modelled.\<close>  \<open>net/http\<close> itself and TLS: a request arrives with its headers and decoded body, and the text of JSON
  is abstracted to the value it stands for.  Log lines and standard error are dropped.  Of \<open>db.go\<close>, \<open>Open\<close> and its
  file modes, \<open>Close\<close> and the file \<open>VACUUM INTO\<close> writes (its outcome is a parameter); SQLite's statements are
  atomic by assumption.  \<open>lock_other.go\<close> and \<open>backend_other.go\<close> are the stubs of other platforms, \<open>static.go\<close> embeds a
  page, the two \<open>doc.go\<close> are comments.  Of \<open>CmdServe\<close> the model ends when the server listens; the tests, the
  scripts under \<open>deploy\<close> and the web client are not part of the verified code.
\<close>

end
